(* ===== verification/Idx_Prelude.thy ===== *)
theory Idx_Prelude
  imports Complex_Main "HOL-Library.Sublist"
begin

text \<open>
  The shared vocabulary of the development: the part of Go's \<^verbatim>\<open>strings\<close> package that the sources
  use, Go's integer arithmetic where it differs from HOL's, the execution monad in which every
  operation with effects is written, and the generic lemmas the components share.

  A Go string is a \<open>string\<close> (a list of bytes). \<^verbatim>\<open>strings.ToLower\<close>, \<^verbatim>\<open>strings.TrimSpace\<close> and
  \<^verbatim>\<open>strings.EqualFold\<close> are modelled on ASCII; bytes outside ASCII are left alone.

  An operation with effects has the type \<open>('s, 'a) go\<close>: it takes the state and returns either an
  error or a value, together with the new state. An error never loses the state that was reached
  before it, because Go's callers see what an operation did before it returned its error.
\<close>

named_theorems go_simps
named_theorems str_simps
named_theorems frame_simps

section \<open>Characters and strings\<close>

definition is_space :: "char \<Rightarrow> bool" where
  "is_space c \<longleftrightarrow> (let n = (of_char c :: nat) in (9 \<le> n \<and> n \<le> 13) \<or> n = 32)"

definition lower_char :: "char \<Rightarrow> char" where
  "lower_char c = (let n = (of_char c :: nat) in if 65 \<le> n \<and> n \<le> 90 then char_of (n + 32) else c)"

definition upper_char :: "char \<Rightarrow> char" where
  "upper_char c = (let n = (of_char c :: nat) in if 97 \<le> n \<and> n \<le> 122 then char_of (n - 32) else c)"

definition to_lower :: "string \<Rightarrow> string" where
  "to_lower s = map lower_char s"

definition to_upper :: "string \<Rightarrow> string" where
  "to_upper s = map upper_char s"

definition equal_fold :: "string \<Rightarrow> string \<Rightarrow> bool" where
  "equal_fold a b \<longleftrightarrow> to_lower a = to_lower b"

text \<open>\<^verbatim>\<open>strings.TrimLeft\<close>, \<^verbatim>\<open>TrimRight\<close> and \<^verbatim>\<open>Trim\<close> for a set of characters given as a predicate.\<close>

definition trim_left :: "(char \<Rightarrow> bool) \<Rightarrow> string \<Rightarrow> string" where
  "trim_left p s = dropWhile p s"

definition trim_right :: "(char \<Rightarrow> bool) \<Rightarrow> string \<Rightarrow> string" where
  "trim_right p s = rev (dropWhile p (rev s))"

definition trim_both :: "(char \<Rightarrow> bool) \<Rightarrow> string \<Rightarrow> string" where
  "trim_both p s = trim_right p (trim_left p s)"

definition trim_space :: "string \<Rightarrow> string" where
  "trim_space s = trim_both is_space s"

definition has_prefix :: "string \<Rightarrow> string \<Rightarrow> bool" where
  "has_prefix s p \<longleftrightarrow> prefix p s"

definition has_suffix :: "string \<Rightarrow> string \<Rightarrow> bool" where
  "has_suffix s p \<longleftrightarrow> prefix (rev p) (rev s)"

definition trim_prefix :: "string \<Rightarrow> string \<Rightarrow> string" where
  "trim_prefix s p = (if prefix p s then drop (length p) s else s)"

fun contains_sub :: "string \<Rightarrow> string \<Rightarrow> bool" where
  "contains_sub [] p \<longleftrightarrow> p = []"
| "contains_sub (c # s) p \<longleftrightarrow> prefix p (c # s) \<or> contains_sub s p"

text \<open>\<^verbatim>\<open>strings.Index\<close> for a one-byte separator, \<^verbatim>\<open>strings.Split\<close>, \<^verbatim>\<open>strings.Join\<close>.\<close>

fun index_char :: "char \<Rightarrow> string \<Rightarrow> nat option" where
  "index_char c [] = None"
| "index_char c (d # s) = (if d = c then Some 0 else map_option Suc (index_char c s))"

fun split_char :: "char \<Rightarrow> string \<Rightarrow> string list" where
  "split_char c [] = [[]]"
| "split_char c (d # s) =
     (if d = c then [] # split_char c s
      else case split_char c s of [] \<Rightarrow> [[d]] | w # ws \<Rightarrow> (d # w) # ws)"

fun join_with :: "string \<Rightarrow> string list \<Rightarrow> string" where
  "join_with sep [] = []"
| "join_with sep [w] = w"
| "join_with sep (w # v # ws) = w @ sep @ join_with sep (v # ws)"

text \<open>\<^verbatim>\<open>strings.ReplaceAll\<close> of a one-byte pattern.\<close>

definition replace_char :: "char \<Rightarrow> string \<Rightarrow> string \<Rightarrow> string" where
  "replace_char c r s = concat (map (\<lambda>d. if d = c then r else [d]) s)"

text \<open>\<^verbatim>\<open>hex.EncodeToString\<close>: two lower-case digits for every byte.\<close>

definition hex_low :: "nat \<Rightarrow> char" where
  "hex_low n = (if n < 10 then char_of (48 + n) else char_of (87 + n))"

definition hex_encode :: "string \<Rightarrow> string" where
  "hex_encode bs = concat (map (\<lambda>c. let n = of_char c :: nat in [hex_low (n div 16), hex_low (n mod 16)]) bs)"

section \<open>Lists\<close>

text \<open>The loop that keeps the first occurrence of every element, as the sources write it with a
  \<^verbatim>\<open>seen\<close> map and an output slice.\<close>

fun dedup_into :: "'a list \<Rightarrow> 'a list \<Rightarrow> 'a list" where
  "dedup_into out [] = out"
| "dedup_into out (x # xs) = (if x \<in> set out then dedup_into out xs else dedup_into (out @ [x]) xs)"

text \<open>The loop that cuts a slice into consecutive windows of \<open>n\<close> elements.\<close>

function chunks_of :: "nat \<Rightarrow> 'a list \<Rightarrow> 'a list list" where
  "chunks_of n xs = (if n = 0 \<or> xs = [] then [] else take n xs # chunks_of n (drop n xs))"
  by pat_completeness auto
termination
  by (relation "measure (\<lambda>(n, xs). length xs)") auto

declare chunks_of.simps [simp del]

section \<open>The execution monad\<close>

datatype go_error = DbErr | Err string

type_synonym ('s, 'a) go = "'s \<Rightarrow> (go_error + 'a) \<times> 's"

definition go_ret :: "'a \<Rightarrow> ('s, 'a) go" where
  "go_ret x = (\<lambda>s. (Inr x, s))"

definition go_fail :: "go_error \<Rightarrow> ('s, 'a) go" where
  "go_fail e = (\<lambda>s. (Inl e, s))"

definition go_bind :: "('s, 'a) go \<Rightarrow> ('a \<Rightarrow> ('s, 'b) go) \<Rightarrow> ('s, 'b) go" where
  "go_bind m f = (\<lambda>s. case m s of (Inl e, s') \<Rightarrow> (Inl e, s') | (Inr x, s') \<Rightarrow> f x s')"

text \<open>\<^verbatim>\<open>if err := m(); err != nil\<close> with both outcomes handled by the caller: the error becomes a value.\<close>

definition go_try :: "('s, 'a) go \<Rightarrow> ('s, go_error + 'a) go" where
  "go_try m = (\<lambda>s. case m s of (r, s') \<Rightarrow> (Inr r, s'))"

text \<open>\<^verbatim>\<open>_ = m()\<close>: the error is dropped.\<close>

definition go_ignore :: "('s, 'a) go \<Rightarrow> ('s, unit) go" where
  "go_ignore m = (\<lambda>s. case m s of (r, s') \<Rightarrow> (Inr (), s'))"

text \<open>A loop over a slice whose body may return early with an error.\<close>

fun go_each :: "('a \<Rightarrow> ('s, unit) go) \<Rightarrow> 'a list \<Rightarrow> ('s, unit) go" where
  "go_each f [] = go_ret ()"
| "go_each f (x # xs) = go_bind (f x) (\<lambda>_. go_each f xs)"

definition go_get :: "('s \<Rightarrow> 'a) \<Rightarrow> ('s, 'a) go" where
  "go_get f = (\<lambda>s. (Inr (f s), s))"

definition go_ok :: "(go_error + 'a) \<times> 's \<Rightarrow> bool" where
  "go_ok r \<longleftrightarrow> (case fst r of Inl _ \<Rightarrow> False | Inr _ \<Rightarrow> True)"

section \<open>Lemmas on the monad\<close>

lemma go_ret_run [go_simps]: "go_ret x s = (Inr x, s)"
  by (simp add: go_ret_def)

lemma go_fail_run [go_simps]: "go_fail e s = (Inl e, s)"
  by (simp add: go_fail_def)

lemma go_bind_run [go_simps]:
  "go_bind m f s = (case m s of (Inl e, s') \<Rightarrow> (Inl e, s') | (Inr x, s') \<Rightarrow> f x s')"
  by (simp add: go_bind_def)

lemma go_try_run [go_simps]: "go_try m s = (Inr (fst (m s)), snd (m s))"
  by (simp add: go_try_def split: prod.splits)

lemma go_ignore_run [go_simps]: "go_ignore m s = (Inr (), snd (m s))"
  by (simp add: go_ignore_def split: prod.splits)

lemma go_get_run [go_simps]: "go_get f s = (Inr (f s), s)"
  by (simp add: go_get_def)

lemma go_ok_simps [simp]: "go_ok (Inr x, s)" "\<not> go_ok (Inl e, s)"
  by (simp_all add: go_ok_def)

text \<open>A predicate on states that every step of a program keeps. Each component proves its
  invariant once per primitive, and the rules below carry it through the program.\<close>

definition keeps :: "('s \<Rightarrow> bool) \<Rightarrow> ('s, 'a) go \<Rightarrow> bool" where
  "keeps P m \<longleftrightarrow> (\<forall>s. P s \<longrightarrow> P (snd (m s)))"

lemma keepsI: "(\<And>s. P s \<Longrightarrow> P (snd (m s))) \<Longrightarrow> keeps P m"
  by (simp add: keeps_def)

lemma keepsD: "keeps P m \<Longrightarrow> P s \<Longrightarrow> P (snd (m s))"
  by (simp add: keeps_def)

lemma keeps_ret [intro!]: "keeps P (go_ret x)"
  by (simp add: keeps_def go_simps)

lemma keeps_fail [intro!]: "keeps P (go_fail e)"
  by (simp add: keeps_def go_simps)

lemma keeps_get [intro!]: "keeps P (go_get f)"
  by (simp add: keeps_def go_simps)

lemma keeps_bind [intro]:
  assumes "keeps P m" and "\<And>x. keeps P (f x)"
  shows "keeps P (go_bind m f)"
  using assms by (auto simp: keeps_def go_simps split: prod.splits sum.splits)

lemma keeps_try [intro]: "keeps P m \<Longrightarrow> keeps P (go_try m)"
  by (simp add: keeps_def go_simps)

lemma keeps_ignore [intro]: "keeps P m \<Longrightarrow> keeps P (go_ignore m)"
  by (simp add: keeps_def go_simps)

lemma keeps_if [intro]: "keeps P m \<Longrightarrow> keeps P n \<Longrightarrow> keeps P (if b then m else n)"
  by simp

lemma keeps_case_option [intro]:
  "keeps P m \<Longrightarrow> (\<And>x. keeps P (f x)) \<Longrightarrow> keeps P (case z of None \<Rightarrow> m | Some x \<Rightarrow> f x)"
  by (simp split: option.splits)

lemma keeps_case_sum [intro]:
  "(\<And>x. keeps P (f x)) \<Longrightarrow> (\<And>x. keeps P (g x)) \<Longrightarrow> keeps P (case z of Inl x \<Rightarrow> f x | Inr x \<Rightarrow> g x)"
  by (simp split: sum.splits)

lemma keeps_each [intro]: "(\<And>x. keeps P (f x)) \<Longrightarrow> keeps P (go_each f xs)"
  by (induction xs) auto

lemma keeps_conj: "keeps P m \<Longrightarrow> keeps Q m \<Longrightarrow> keeps (\<lambda>s. P s \<and> Q s) m"
  by (simp add: keeps_def)

section \<open>Lemmas on strings\<close>

lemma length_hex_encode [simp]: "length (hex_encode bs) = 2 * length bs"
  by (induction bs) (simp_all add: hex_encode_def Let_def)

lemma lower_char_idem [simp]: "lower_char (lower_char c) = lower_char c"
  by (auto simp: lower_char_def Let_def)

lemma to_lower_idem [simp]: "to_lower (to_lower s) = to_lower s"
  by (simp add: to_lower_def)

lemma to_lower_Nil [simp]: "to_lower [] = []" "to_lower s = [] \<longleftrightarrow> s = []"
  by (simp_all add: to_lower_def)

lemma length_to_lower [simp]: "length (to_lower s) = length s"
  by (simp add: to_lower_def)

lemma to_lower_append [str_simps]: "to_lower (a @ b) = to_lower a @ to_lower b"
  by (simp add: to_lower_def)

lemma equal_fold_refl [simp]: "equal_fold s s"
  by (simp add: equal_fold_def)

lemma equal_fold_sym: "equal_fold a b \<longleftrightarrow> equal_fold b a"
  by (auto simp: equal_fold_def)

lemma trim_right_Nil [simp]: "trim_right p [] = []" "trim_left p [] = []"
  by (simp_all add: trim_right_def trim_left_def)

lemma dropWhile_idem: "dropWhile p (dropWhile p xs) = dropWhile p xs"
  by (induction xs) auto

lemma trim_right_idem: "trim_right p (trim_right p s) = trim_right p s"
  by (simp add: trim_right_def dropWhile_idem)

lemma trim_right_prefix: "\<exists>t. s = trim_right p s @ t"
proof -
  have "rev s = takeWhile p (rev s) @ dropWhile p (rev s)"
    by simp
  then have "rev (rev s) = rev (dropWhile p (rev s)) @ rev (takeWhile p (rev s))"
    by (metis rev_append)
  then show ?thesis
    by (auto simp: trim_right_def)
qed

lemma hd_dropWhile_not: "dropWhile p xs = y # ys \<Longrightarrow> \<not> p y"
  by (metis hd_dropWhile list.sel(1) list.simps(3))

lemma trim_both_idem: "trim_both p (trim_both p s) = trim_both p s"
proof (cases "trim_both p s")
  case Nil
  then show ?thesis
    by (simp add: trim_both_def)
next
  case (Cons c cs)
  obtain t where t: "trim_left p s = trim_both p s @ t"
    using trim_right_prefix [of "trim_left p s" p] by (auto simp: trim_both_def)
  with Cons have "dropWhile p s = c # cs @ t"
    by (simp add: trim_left_def)
  then have "\<not> p c"
    by (rule hd_dropWhile_not)
  with Cons have "trim_left p (trim_both p s) = trim_both p s"
    by (simp add: trim_left_def)
  then show ?thesis
    by (simp add: trim_both_def trim_right_idem)
qed

lemma trim_space_idem [simp]: "trim_space (trim_space s) = trim_space s"
  by (simp add: trim_space_def trim_both_idem)

lemma trim_space_Nil [simp]: "trim_space [] = []"
  by (simp add: trim_space_def trim_both_def)

lemma has_prefix_append [simp]: "has_prefix (p @ s) p"
  by (simp add: has_prefix_def)

lemma has_prefix_Nil [simp]: "has_prefix s []"
  by (simp add: has_prefix_def)

lemma has_suffix_append [simp]: "has_suffix (s @ p) p"
  by (simp add: has_suffix_def)

lemma has_suffix_iff: "has_suffix s p \<longleftrightarrow> (\<exists>t. s = t @ p)"
proof
  assume "has_suffix s p"
  then obtain t where "rev s = rev p @ t"
    by (auto simp: has_suffix_def prefix_def)
  then have "s = rev t @ p"
    by (metis rev_append rev_rev_ident)
  then show "\<exists>t. s = t @ p" by blast
qed auto

lemma trim_prefix_append [simp]: "trim_prefix (p @ s) p = s"
  by (simp add: trim_prefix_def)

lemma contains_sub_append: "contains_sub (a @ p @ b) p"
proof (induction a)
  case Nil
  have "prefix p (p @ b)" by simp
  then show ?case by (cases "p @ b") auto
qed simp

lemma contains_sub_iff: "contains_sub s p \<longleftrightarrow> (\<exists>a b. s = a @ p @ b)"
proof
  assume "contains_sub s p"
  then show "\<exists>a b. s = a @ p @ b"
  proof (induction s p rule: contains_sub.induct)
    case (2 c s p)
    then show ?case
      by (auto simp: prefix_def) (metis append_Cons append_Nil)+
  qed simp
qed (auto simp: contains_sub_append)

section \<open>Lemmas on lists\<close>

lemma set_dedup_into: "set (dedup_into out xs) = set out \<union> set xs"
  by (induction out xs rule: dedup_into.induct) auto

lemma distinct_dedup_into: "distinct out \<Longrightarrow> distinct (dedup_into out xs)"
  by (induction out xs rule: dedup_into.induct) auto

lemma dedup_into_distinct: "distinct (out @ xs) \<Longrightarrow> dedup_into out xs = out @ xs"
  by (induction out xs rule: dedup_into.induct) auto

lemma chunks_of_Nil [simp]: "chunks_of n [] = []"
  by (simp add: chunks_of.simps)

lemma concat_chunks_of: "0 < n \<Longrightarrow> concat (chunks_of n xs) = xs"
proof (induction n xs rule: chunks_of.induct)
  case (1 n xs)
  then show ?case
    by (cases "xs = []") (simp_all add: chunks_of.simps [of n xs])
qed

lemma chunks_of_bounds: "c \<in> set (chunks_of n xs) \<Longrightarrow> c \<noteq> [] \<and> length c \<le> n"
proof (induction n xs rule: chunks_of.induct)
  case (1 n xs)
  then show ?case
    by (cases "n = 0 \<or> xs = []") (auto simp: chunks_of.simps [of n xs])
qed

lemma chunks_of_eq_Nil: "0 < n \<Longrightarrow> chunks_of n xs = [] \<longleftrightarrow> xs = []"
  by (simp add: chunks_of.simps [of n xs])

lemma length_chunks_of: "0 < n \<Longrightarrow> length (chunks_of n xs) = (length xs + n - 1) div n"
proof (induction n xs rule: chunks_of.induct)
  case (1 n xs)
  show ?case
  proof (cases "xs = []")
    case True
    with "1.prems" show ?thesis by simp
  next
    case False
    have step: "length (chunks_of n xs) = Suc (length (chunks_of n (drop n xs)))"
      using False "1.prems" by (simp add: chunks_of.simps [of n xs])
    show ?thesis
    proof (cases "length xs \<le> n")
      case True
      obtain m where m: "length xs = Suc m" using False by (cases xs) auto
      have "(length xs + n - 1) div n = 1"
        using True "1.prems" by (intro div_nat_eqI) (simp_all add: m)
      with True step show ?thesis by simp
    next
      case gt: False
      then have "length xs + n - 1 = (length xs - n + n - 1) + n"
        using "1.prems" by simp
      then have "(length xs + n - 1) div n = Suc ((length xs - n + n - 1) div n)"
        using "1.prems" by (metis div_add_self2 gr_implies_not0 Suc_eq_plus1)
      with step "1.IH" False "1.prems" show ?thesis by simp
    qed
  qed
qed

lemma find_sorted_least:
  assumes "find P xs = Some x" and "sorted (map f xs)"
  shows "x \<in> set xs \<and> P x \<and> (\<forall>y \<in> set xs. P y \<longrightarrow> f x \<le> f y)"
  using assms by (induction xs) (auto split: if_splits)

lemma find_sort_key_least:
  assumes "find P (sort_key f xs) = Some x"
  shows "x \<in> set xs" and "P x" and "\<And>y. y \<in> set xs \<Longrightarrow> P y \<Longrightarrow> f x \<le> f y"
proof -
  have "x \<in> set (sort_key f xs) \<and> P x \<and> (\<forall>y \<in> set (sort_key f xs). P y \<longrightarrow> f x \<le> f y)"
    by (rule find_sorted_least [OF assms]) simp
  then show "x \<in> set xs" and "P x" and "\<And>y. y \<in> set xs \<Longrightarrow> P y \<Longrightarrow> f x \<le> f y"
    by auto
qed

lemma find_sort_key_None: "find P (sort_key f xs) = None \<longleftrightarrow> (\<forall>x \<in> set xs. \<not> P x)"
  by (auto simp: find_None_iff)

text \<open>A rotation visits every index.\<close>

lemma rotation_surj:
  assumes "(i::nat) < n"
  obtains l where "l < n" "(k + l) mod n = i"
proof
  let ?l = "(i + (n - k mod n)) mod n"
  show "?l < n" using assms by simp
  have "(k + ?l) mod n = (k mod n + (i + (n - k mod n))) mod n"
    by (simp add: mod_simps)
  also have "k mod n + (i + (n - k mod n)) = i + n"
    using assms mod_less_divisor [of n k] by linarith
  finally show "(k + ?l) mod n = i" using assms by simp
qed

end
