(* ===== verification/Idx_Json.thy ===== *)
theory Idx_Json
  imports Idx_Prelude "HOL-Library.AList"
begin

text \<open>
  JSON values and the part of Go's \<^verbatim>\<open>encoding/json\<close> that the sources use. Bytes that are a JSON
  document are represented by the document; \<open>RawText\<close> stands for bytes that do not parse and
  \<open>RawEmpty\<close> for an empty \<^verbatim>\<open>json.RawMessage\<close>. A JSON number carries its exact decimal value.

  Decoding into a struct follows the library: a key matches a field by name up to case, every
  matching key is assigned in the order of the document, \<^verbatim>\<open>null\<close> leaves a string or number field as
  it is and clears a pointer field, and a value of the wrong kind makes the whole decode an error.
\<close>

datatype json = JNull | JBool bool | JNum real | JStr string | JArr "json list"
  | JObj "(string \<times> json) list"

datatype raw_message = RawEmpty | RawText string | RawJson json

text \<open>Go's \<^verbatim>\<open>map[string]any\<close>: an association list whose keys are distinct.\<close>

type_synonym gomap = "(string \<times> json) list"

definition gomap_of :: "(string \<times> json) list \<Rightarrow> gomap" where
  "gomap_of kvs = foldl (\<lambda>m (k, v). AList.update k v m) [] kvs"

text \<open>\<^verbatim>\<open>var m map[string]any; json.Unmarshal(raw, &m)\<close>: \<open>None\<close> is the error.\<close>

definition unmarshal_map :: "raw_message \<Rightarrow> gomap option" where
  "unmarshal_map raw = (case raw of
      RawJson (JObj kvs) \<Rightarrow> Some (gomap_of kvs)
    | RawJson JNull \<Rightarrow> Some []
    | _ \<Rightarrow> None)"

text \<open>\<^verbatim>\<open>m[key]\<close>: a missing key reads as \<^verbatim>\<open>nil\<close>.\<close>

definition lookup_any :: "gomap \<Rightarrow> string \<Rightarrow> json" where
  "lookup_any m k = (case map_of m k of None \<Rightarrow> JNull | Some v \<Rightarrow> v)"

definition has_key :: "gomap \<Rightarrow> string \<Rightarrow> bool" where
  "has_key m k \<longleftrightarrow> map_of m k \<noteq> None"

definition delete_key :: "gomap \<Rightarrow> string \<Rightarrow> gomap" where
  "delete_key m k = AList.delete k m"

section \<open>Decoding into structs\<close>

fun decode_field :: "('a \<Rightarrow> json \<Rightarrow> 'a option) \<Rightarrow> 'a \<Rightarrow> string \<Rightarrow> (string \<times> json) list \<Rightarrow> 'a option" where
  "decode_field d acc name [] = Some acc"
| "decode_field d acc name ((k, v) # kvs) =
     (if equal_fold k name
      then case d acc v of None \<Rightarrow> None | Some acc' \<Rightarrow> decode_field d acc' name kvs
      else decode_field d acc name kvs)"

definition dec_string :: "string \<Rightarrow> json \<Rightarrow> string option" where
  "dec_string acc v = (case v of JStr s \<Rightarrow> Some s | JNull \<Rightarrow> Some acc | _ \<Rightarrow> None)"

definition dec_bool :: "bool \<Rightarrow> json \<Rightarrow> bool option" where
  "dec_bool acc v = (case v of JBool b \<Rightarrow> Some b | JNull \<Rightarrow> Some acc | _ \<Rightarrow> None)"

definition int64_of_real :: "real \<Rightarrow> int option" where
  "int64_of_real x =
     (if of_int \<lfloor>x\<rfloor> = x \<and> - 9223372036854775808 \<le> \<lfloor>x\<rfloor> \<and> \<lfloor>x\<rfloor> \<le> 9223372036854775807
      then Some \<lfloor>x\<rfloor> else None)"

definition dec_int :: "int \<Rightarrow> json \<Rightarrow> int option" where
  "dec_int acc v = (case v of JNum x \<Rightarrow> int64_of_real x | JNull \<Rightarrow> Some acc | _ \<Rightarrow> None)"

text \<open>Pointer fields: \<^verbatim>\<open>null\<close> clears them.\<close>

definition dec_ptr :: "'b \<Rightarrow> ('b \<Rightarrow> json \<Rightarrow> 'b option) \<Rightarrow> 'b option \<Rightarrow> json \<Rightarrow> 'b option option" where
  "dec_ptr zero d acc v =
     (if v = JNull then Some None
      else map_option Some (d (case acc of None \<Rightarrow> zero | Some a \<Rightarrow> a) v))"

text \<open>\<^verbatim>\<open>json.RawMessage\<close> and \<^verbatim>\<open>any\<close> fields take every value.\<close>

definition dec_raw :: "json option \<Rightarrow> json \<Rightarrow> json option option" where
  "dec_raw acc v = Some (Some v)"

definition dec_any :: "json option \<Rightarrow> json \<Rightarrow> json option option" where
  "dec_any acc v = Some (if v = JNull then None else Some v)"

text \<open>The fields of a struct decoded from a document: a document that is not an object is an error,
  \<^verbatim>\<open>null\<close> decodes to the zero struct.\<close>

definition struct_fields :: "raw_message \<Rightarrow> (string \<times> json) list option" where
  "struct_fields raw = (case raw of
      RawJson (JObj kvs) \<Rightarrow> Some kvs
    | RawJson JNull \<Rightarrow> Some []
    | _ \<Rightarrow> None)"

text \<open>Encoding helpers: \<^verbatim>\<open>omitempty\<close> fields.\<close>

definition enc_opt :: "string \<Rightarrow> ('a \<Rightarrow> json) \<Rightarrow> 'a option \<Rightarrow> (string \<times> json) list" where
  "enc_opt name f x = (case x of None \<Rightarrow> [] | Some a \<Rightarrow> [(name, f a)])"

definition enc_str_omit :: "string \<Rightarrow> string \<Rightarrow> (string \<times> json) list" where
  "enc_str_omit name s = (if s = [] then [] else [(name, JStr s)])"

definition enc_bool_omit :: "string \<Rightarrow> bool \<Rightarrow> (string \<times> json) list" where
  "enc_bool_omit name b = (if b then [(name, JBool b)] else [])"

definition enc_int_omit :: "string \<Rightarrow> int \<Rightarrow> (string \<times> json) list" where
  "enc_int_omit name n = (if n = 0 then [] else [(name, JNum (of_int n))])"

definition int64_ok :: "int \<Rightarrow> bool" where
  "int64_ok n \<longleftrightarrow> - 9223372036854775808 \<le> n \<and> n \<le> 9223372036854775807"

section \<open>Lemmas\<close>

lemma decode_field_append:
  "decode_field d acc name (xs @ ys) =
     (case decode_field d acc name xs of None \<Rightarrow> None | Some a \<Rightarrow> decode_field d a name ys)"
  by (induction d acc name xs rule: decode_field.induct) (auto split: option.splits)

lemma decode_field_skip:
  "(\<And>k v. (k, v) \<in> set xs \<Longrightarrow> \<not> equal_fold k name) \<Longrightarrow> decode_field d acc name xs = Some acc"
  by (induction d acc name xs rule: decode_field.induct) auto

lemma decode_field_enc_opt_hit:
  "decode_field d acc name (enc_opt name f x) =
     (case x of None \<Rightarrow> Some acc | Some a \<Rightarrow> d acc (f a))"
  by (simp add: enc_opt_def split: option.splits)

lemma decode_field_enc_miss:
  "\<not> equal_fold k name \<Longrightarrow> decode_field d acc name (enc_opt k f x) = Some acc"
  "\<not> equal_fold k name \<Longrightarrow> decode_field d acc name (enc_str_omit k s) = Some acc"
  "\<not> equal_fold k name \<Longrightarrow> decode_field d acc name (enc_bool_omit k b) = Some acc"
  "\<not> equal_fold k name \<Longrightarrow> decode_field d acc name (enc_int_omit k n) = Some acc"
  by (simp_all add: enc_opt_def enc_str_omit_def enc_bool_omit_def enc_int_omit_def
      split: option.splits)

lemma decode_field_enc_hit:
  "decode_field dec_string [] name (enc_str_omit name s) = Some s"
  "decode_field dec_bool False name (enc_bool_omit name b) = Some b"
  "int64_ok n \<Longrightarrow> decode_field dec_int 0 name (enc_int_omit name n) = Some n"
  by (simp_all add: enc_str_omit_def enc_bool_omit_def enc_int_omit_def dec_string_def
      dec_bool_def dec_int_def int64_of_real_def int64_ok_def)

lemma int64_of_real_of_int: "int64_ok n \<Longrightarrow> int64_of_real (of_int n) = Some n"
  by (simp add: int64_of_real_def int64_ok_def)

lemmas decode_field_enc = decode_field_enc_hit decode_field_enc_miss decode_field_enc_opt_hit

lemma distinct_gomap_foldl:
  "distinct (map fst m) \<Longrightarrow>
   distinct (map fst (foldl (\<lambda>m (k, v). AList.update k v m) m kvs))"
  by (induction kvs arbitrary: m) (auto simp: distinct_update split: prod.splits)

lemma distinct_gomap_of [simp]: "distinct (map fst (gomap_of kvs))"
  by (simp add: gomap_of_def distinct_gomap_foldl)

lemma update_fresh: "k \<notin> fst ` set m \<Longrightarrow> AList.update k v m = m @ [(k, v)]"
  by (induction m) auto

lemma gomap_foldl_distinct:
  "distinct (map fst (m @ kvs)) \<Longrightarrow>
   foldl (\<lambda>m (k, v). AList.update k v m) m kvs = m @ kvs"
proof (induction kvs arbitrary: m)
  case Nil
  then show ?case by simp
next
  case (Cons kv kvs)
  obtain k v where kv: "kv = (k, v)" by (cases kv)
  with Cons.prems have "k \<notin> fst ` set m" by auto
  then have "AList.update k v m = m @ [(k, v)]"
    by (rule update_fresh)
  with Cons kv show ?case by simp
qed

lemma gomap_of_distinct: "distinct (map fst kvs) \<Longrightarrow> gomap_of kvs = kvs"
  by (simp add: gomap_of_def gomap_foldl_distinct)

end
