(* ===== verification/Idx_Env.thy ===== *)
theory Idx_Env
  imports Idx_Json
begin

text \<open>
  The environment every stateful component runs in: the clock, and the database as it is seen
  through single statements and transactions. Components add their tables to \<open>env\<close> as record
  extensions and stay polymorphic in what others add.

  Time is counted in nanoseconds. Every reading of the clock (\<^verbatim>\<open>time.Now\<close>, \<^verbatim>\<open>time.Since\<close>, SQL's
  \<^verbatim>\<open>NOW()\<close>) advances it by the next entry of \<open>delays\<close>, so that two readings in one operation need
  not agree. Every database statement consumes the next entry of \<open>faults\<close>: \<open>True\<close> is a statement
  that fails (the connection is lost, the server restarts). The theorems quantify over both lists,
  and so over every timing and every pattern of failures.
\<close>

record env =
  clock :: int
  delays :: "nat list"
  faults :: "bool list"

definition second :: int where
  "second = 1000000000"

text \<open>\<^verbatim>\<open>t.Unix()\<close>.\<close>

definition unix :: "int \<Rightarrow> int" where
  "unix t = t div second"

definition go_now :: "('z env_scheme, int) go" where
  "go_now = (\<lambda>s. case delays s of
      [] \<Rightarrow> (Inr (clock s), s)
    | d # ds \<Rightarrow> (Inr (clock s + int d), s\<lparr>clock := clock s + int d, delays := ds\<rparr>))"

text \<open>One statement. The function gives its result, or \<open>None\<close> when the server rejects it (a
  constraint, a value out of the column's range); a rejected statement changes nothing.\<close>

definition sql :: "('z env_scheme \<Rightarrow> ('a \<times> 'z env_scheme) option) \<Rightarrow> ('z env_scheme, 'a) go" where
  "sql f = (\<lambda>s. case faults s of
      True # bs \<Rightarrow> (Inl DbErr, s\<lparr>faults := bs\<rparr>)
    | bs \<Rightarrow> (let s1 = s\<lparr>faults := tl bs\<rparr> in
         case f s1 of None \<Rightarrow> (Inl DbErr, s1) | Some (a, s2) \<Rightarrow> (Inr a, s2)))"

text \<open>The columns of type INT and SMALLINT.\<close>

definition int4_ok :: "int \<Rightarrow> bool" where
  "int4_ok n \<longleftrightarrow> - 2147483648 \<le> n \<and> n \<le> 2147483647"

definition int2_ok :: "int \<Rightarrow> bool" where
  "int2_ok n \<longleftrightarrow> - 32768 \<le> n \<and> n \<le> 32767"

section \<open>Lemmas\<close>

definition no_faults :: "'z env_scheme \<Rightarrow> bool" where
  "no_faults s \<longleftrightarrow> True \<notin> set (faults s)"

lemma second_pos [simp]: "0 < second"
  by (simp add: second_def)

lemma sql_no_faults:
  "no_faults s \<Longrightarrow> sql f s =
     (let s1 = s\<lparr>faults := tl (faults s)\<rparr> in
      case f s1 of None \<Rightarrow> (Inl DbErr, s1) | Some (a, s2) \<Rightarrow> (Inr a, s2))"
  by (auto simp: sql_def no_faults_def split: list.splits bool.splits)

lemma faults_triv [simp]: "faults s = bs \<Longrightarrow> s\<lparr>faults := bs\<rparr> = s"
  by auto

lemma sql_nil: "faults s = [] \<Longrightarrow> sql f s = (case f s of None \<Rightarrow> (Inl DbErr, s) | Some (a, s2) \<Rightarrow> (Inr a, s2))"
  by (simp add: sql_def Let_def)

lemma sql_cases:
  obtains (fault) bs where "faults s = True # bs" "sql f s = (Inl DbErr, s\<lparr>faults := bs\<rparr>)"
  | (rejected) "sql f s = (Inl DbErr, s\<lparr>faults := tl (faults s)\<rparr>)"
      "f (s\<lparr>faults := tl (faults s)\<rparr>) = None"
  | (ran) a s' where "f (s\<lparr>faults := tl (faults s)\<rparr>) = Some (a, s')" "sql f s = (Inr a, s')"
proof (cases "\<exists>bs. faults s = True # bs")
  case True
  then show ?thesis using fault by (auto simp: sql_def)
next
  case False
  then have "sql f s = (let s1 = s\<lparr>faults := tl (faults s)\<rparr> in
      case f s1 of None \<Rightarrow> (Inl DbErr, s1) | Some (a, s2) \<Rightarrow> (Inr a, s2))"
    by (auto simp: sql_def split: list.splits bool.splits)
  then show ?thesis
    using rejected ran
    by (cases "f (s\<lparr>faults := tl (faults s)\<rparr>)") auto
qed

lemma sql_Inr:
  "sql f s = (Inr a, s') \<Longrightarrow> f (s\<lparr>faults := tl (faults s)\<rparr>) = Some (a, s')"
  by (cases rule: sql_cases [of s f]) auto

lemma sql_Inl:
  "sql f s = (Inl e, s') \<Longrightarrow> \<exists>bs. s' = s\<lparr>faults := bs\<rparr>"
  by (cases rule: sql_cases [of s f]) auto

text \<open>An invariant that does not look at the failure list is kept by a statement whenever the
  statement's own effect keeps it.\<close>

lemma keeps_sql:
  assumes "\<And>s bs. P s \<Longrightarrow> P (s\<lparr>faults := bs\<rparr>)"
    and "\<And>s a s'. P s \<Longrightarrow> f s = Some (a, s') \<Longrightarrow> P s'"
  shows "keeps P (sql f)"
proof (rule keepsI)
  fix s assume "P s"
  then have P1: "P (s\<lparr>faults := bs\<rparr>)" for bs by (rule assms(1))
  show "P (snd (sql f s))"
    by (cases rule: sql_cases [of s f]) (use P1 assms(2) in auto)
qed

lemma keeps_now:
  assumes "\<And>s t ds. P s \<Longrightarrow> P (s\<lparr>clock := t, delays := ds\<rparr>)"
  shows "keeps P go_now"
  using assms by (intro keepsI) (simp add: go_now_def split: list.splits)

lemma go_now_nil: "delays s = [] \<Longrightarrow> go_now s = (Inr (clock s), s)"
  by (simp add: go_now_def)

lemma go_now_Inr: "\<exists>t. go_now s = (Inr t, snd (go_now s)) \<and> clock s \<le> t \<and> clock (snd (go_now s)) = t"
  by (simp add: go_now_def split: list.splits)

text \<open>What a statement does not change.\<close>

lemma sql_frame:
  assumes "\<And>s bs. g (s\<lparr>faults := bs\<rparr>) = g s" and "\<And>s a s'. f s = Some (a, s') \<Longrightarrow> g s' = g s"
  shows "g (snd (sql f s)) = g s"
proof (cases rule: sql_cases [of s f])
  case (ran a s')
  then show ?thesis using assms(2) [OF ran(1)] assms(1) by simp
qed (simp_all add: assms(1))

text \<open>Every reading of the clock that is still to come fits an INT column of seconds.\<close>

definition clock_fits :: "'z env_scheme \<Rightarrow> bool" where
  "clock_fits s \<longleftrightarrow> 0 \<le> clock s \<and> int4_ok (unix (clock s + int (sum_list (delays s))))"

lemma clock_fits_frame [simp]: "clock_fits (s\<lparr>faults := bs\<rparr>) = clock_fits s"
  by (simp add: clock_fits_def)

lemma no_faults_tl [simp]: "no_faults s \<Longrightarrow> no_faults (s\<lparr>faults := tl (faults s)\<rparr>)"
  by (cases "faults s") (auto simp: no_faults_def)

lemma int4_unix_mono: "0 \<le> t \<Longrightarrow> t \<le> u \<Longrightarrow> int4_ok (unix u) \<Longrightarrow> int4_ok (unix t)"
  using zdiv_mono1 [of t u second] pos_imp_zdiv_nonneg_iff [of second t]
  by (simp add: int4_ok_def unix_def)

lemma go_now_fits:
  assumes "clock_fits s"
  obtains t ds where "go_now s = (Inr t, s\<lparr>clock := t, delays := ds\<rparr>)" "clock s \<le> t" "int4_ok (unix t)"
    "clock_fits (s\<lparr>clock := t, delays := ds\<rparr>)"
proof (cases "delays s")
  case Nil
  with assms that [of "clock s" "[]"] show thesis
    by (simp add: go_now_def clock_fits_def)
next
  case (Cons d ds)
  with assms int4_unix_mono [of "clock s + int d" "clock s + int (sum_list (delays s))"]
    that [of "clock s + int d" ds] show thesis
    by (auto simp: go_now_def clock_fits_def algebra_simps)
qed

end
