(* ===== verification/Job_Queue.thy ===== *)
theory Job_Queue
  imports Idx_Env
begin

text \<open>
  The PostgreSQL-backed job queue (\<^verbatim>\<open>internal/queue/queue.go\<close>, \<^verbatim>\<open>payload.go\<close>, \<^verbatim>\<open>laravel.go\<close>): the
  tables \<^verbatim>\<open>jobs\<close>, \<^verbatim>\<open>failed_jobs\<close> and \<^verbatim>\<open>job_batches\<close>, and the operations of \<^verbatim>\<open>Client\<close>. A transaction
  is atomic; \<open>row_locks\<close> are the ids of rows that other transactions hold locked while one runs,
  which \<^verbatim>\<open>FOR UPDATE SKIP LOCKED\<close> passes over. \<open>uuid_gen\<close> stands for the uuid package: its n-th
  call returns \<open>uuid_gen n\<close>.
\<close>

section \<open>State\<close>

record job_row =
  job_id :: int
  job_queue :: string
  job_payload :: raw_message
  job_attempts :: int
  reserved_at :: "int option"
  available_at :: int
  job_created_at :: int

record failed_row =
  failed_uuid :: string
  failed_queue :: string
  failed_payload :: raw_message
  failed_exception :: string
  failed_at :: int

record batch_row =
  batch_id :: string
  batch_name :: string
  total_jobs :: int
  pending_jobs :: int
  batch_options :: "raw_message option"
  batch_created_at :: int
  batch_finished_at :: "int option"

record qdb = env +
  jobs :: "job_row list"
  failed_jobs :: "failed_row list"
  job_batches :: "batch_row list"
  next_job_id :: int
  notified :: "string list"
  row_locks :: "int list"
  uuid_gen :: "nat \<Rightarrow> string"
  uuid_next :: nat

record client =
  client_table :: string
  notify_channel :: string
  retry_after :: int
  reservation_timeout :: int

record payload =
  payload_type :: string
  payload_args :: "json option"

record batch_job =
  bj_type :: string
  bj_args :: "json option"

record batch_spec =
  bs_name :: string
  bs_queue :: string
  bs_jobs :: "batch_job list"
  bs_on_complete :: batch_job

record batch_on_complete =
  oc_queue :: string
  oc_type :: string
  oc_args :: "json option"

record reserved_job =
  rj_id :: int
  rj_queue :: string
  rj_payload :: payload
  rj_raw :: raw_message
  rj_attempts :: int

definition NewClient :: "string \<Rightarrow> string \<Rightarrow> int \<Rightarrow> int \<Rightarrow> client" where
  "NewClient table notifyChannel retryAfter reservationTimeout =
     \<lparr>client_table = (if table = [] then ''jobs'' else table),
      notify_channel = (if notifyChannel = [] then ''idx_jobs_wakeup'' else notifyChannel),
      retry_after = retryAfter,
      reservation_timeout = (if reservationTimeout \<le> 0 then 3600 * second else reservationTimeout)\<rparr>"

section \<open>Payloads\<close>

definition MarshalPayload :: "string \<Rightarrow> json option \<Rightarrow> raw_message" where
  "MarshalPayload typ args = RawJson (JObj ((''type'', JStr typ) # enc_opt ''args'' id args))"

definition UnmarshalPayload :: "raw_message \<Rightarrow> payload option" where
  "UnmarshalPayload raw = (case struct_fields raw of None \<Rightarrow> None | Some kvs \<Rightarrow>
     (case decode_field dec_string [] ''type'' kvs of None \<Rightarrow> None | Some t \<Rightarrow>
     (case decode_field dec_raw None ''args'' kvs of None \<Rightarrow> None | Some a \<Rightarrow>
       Some \<lparr>payload_type = t, payload_args = a\<rparr>)))"

text \<open>A Laravel envelope: \<^verbatim>\<open>displayName\<close>, \<^verbatim>\<open>job\<close> and \<^verbatim>\<open>data.commandName\<close>. The nested struct is decoded
  into the same place by every matching key.\<close>

definition dec_command_name :: "string \<Rightarrow> json \<Rightarrow> string option" where
  "dec_command_name acc v = (case v of
      JObj kvs \<Rightarrow> decode_field dec_string acc ''commandName'' kvs
    | JNull \<Rightarrow> Some acc
    | _ \<Rightarrow> None)"

definition LegacyLaravelJobName :: "raw_message \<Rightarrow> string" where
  "LegacyLaravelJobName raw = (case struct_fields raw of None \<Rightarrow> [] | Some kvs \<Rightarrow>
     (case (decode_field dec_string [] ''displayName'' kvs,
            decode_field dec_string [] ''job'' kvs,
            decode_field dec_command_name [] ''data'' kvs) of
        (Some displayName, Some job, Some commandName) \<Rightarrow>
          (if job = [] \<and> displayName = [] then []
           else if displayName \<noteq> [] then displayName
           else commandName)
      | _ \<Rightarrow> []))"

definition IsLegacyLaravelPayload :: "raw_message \<Rightarrow> bool" where
  "IsLegacyLaravelPayload raw =
     (if (case UnmarshalPayload raw of Some p \<Rightarrow> payload_type p \<noteq> [] | None \<Rightarrow> False) then False
      else LegacyLaravelJobName raw \<noteq> [])"

definition encode_on_complete :: "batch_on_complete \<Rightarrow> raw_message" where
  "encode_on_complete oc = RawJson (JObj [(''on_complete'',
     JObj (enc_str_omit ''queue'' (oc_queue oc) @ [(''type'', JStr (oc_type oc))]
           @ enc_opt ''args'' id (oc_args oc)))])"

definition dec_on_complete :: "batch_on_complete \<Rightarrow> json \<Rightarrow> batch_on_complete option" where
  "dec_on_complete acc v = (case v of
      JObj kvs \<Rightarrow>
        (case (decode_field dec_string (oc_queue acc) ''queue'' kvs,
               decode_field dec_string (oc_type acc) ''type'' kvs,
               decode_field dec_any (oc_args acc) ''args'' kvs) of
           (Some q, Some t, Some a) \<Rightarrow> Some \<lparr>oc_queue = q, oc_type = t, oc_args = a\<rparr>
         | _ \<Rightarrow> None)
    | _ \<Rightarrow> None)"

definition zero_on_complete :: batch_on_complete where
  "zero_on_complete = \<lparr>oc_queue = [], oc_type = [], oc_args = None\<rparr>"

definition decode_batch_options :: "raw_message \<Rightarrow> batch_on_complete option option" where
  "decode_batch_options raw = (case struct_fields raw of None \<Rightarrow> None | Some kvs \<Rightarrow>
     decode_field (dec_ptr zero_on_complete dec_on_complete) None ''on_complete'' kvs)"

section \<open>Statements and transactions\<close>

definition next_uuid :: "('z qdb_scheme, string) go" where
  "next_uuid = (\<lambda>s. (Inr (uuid_gen s (uuid_next s)), s\<lparr>uuid_next := Suc (uuid_next s)\<rparr>))"

text \<open>What a rolled-back transaction leaves: the tables as they were, but time, failures, serial
  numbers and uuids are spent.\<close>

definition rollback :: "'z qdb_scheme \<Rightarrow> 'z qdb_scheme \<Rightarrow> 'z qdb_scheme" where
  "rollback s0 s = s0\<lparr>clock := clock s, delays := delays s, faults := faults s,
     next_job_id := next_job_id s, uuid_next := uuid_next s\<rparr>"

text \<open>\<^verbatim>\<open>tx := Begin(); defer tx.Rollback(); body; tx.Commit()\<close>. The body says with its first component
  whether it reaches the commit; without it the deferred rollback undoes the body.\<close>

definition with_tx :: "('z qdb_scheme, bool \<times> 'a) go \<Rightarrow> ('z qdb_scheme, 'a) go" where
  "with_tx body = go_bind (sql (\<lambda>s. Some ((), s))) (\<lambda>_ s.
     case body s of
       (Inl e, s1) \<Rightarrow> (Inl e, rollback s s1)
     | (Inr (commit, x), s1) \<Rightarrow>
         (if \<not> commit then (Inr x, rollback s s1)
          else case sql (\<lambda>s. Some ((), s)) s1 of
              (Inl e, s2) \<Rightarrow> (Inl e, rollback s s2)
            | (Inr _, s2) \<Rightarrow> (Inr x, s2)))"

definition insert_job :: "string \<Rightarrow> raw_message \<Rightarrow> int \<Rightarrow> int \<Rightarrow> ('z qdb_scheme, int) go" where
  "insert_job q p available now = sql (\<lambda>s.
     if int4_ok available \<and> int4_ok now
     then Some (next_job_id s,
       s\<lparr>jobs := jobs s @ [\<lparr>job_id = next_job_id s, job_queue = q, job_payload = p, job_attempts = 0,
            reserved_at = None, available_at = available, job_created_at = now\<rparr>],
         next_job_id := next_job_id s + 1\<rparr>)
     else None)"

definition pg_notify :: "string \<Rightarrow> ('z qdb_scheme, unit) go" where
  "pg_notify q = sql (\<lambda>s. Some ((), s\<lparr>notified := notified s @ [q]\<rparr>))"

definition update_job :: "int \<Rightarrow> (job_row \<Rightarrow> job_row) \<Rightarrow> job_row list \<Rightarrow> job_row list" where
  "update_job i f = map (\<lambda>j. if job_id j = i then f j else j)"

section \<open>Operations of Client\<close>

definition Enqueue :: "client \<Rightarrow> string \<Rightarrow> string \<Rightarrow> json option \<Rightarrow> int \<Rightarrow> ('z qdb_scheme, int) go" where
  "Enqueue c queueName typ args delay =
     go_bind go_now (\<lambda>t.
       let now = unix t;
           available = (if delay > 0 then now + delay div second else now)
       in go_bind (insert_job queueName (MarshalPayload typ args) available now) (\<lambda>i.
          go_bind (go_ignore (pg_notify queueName)) (\<lambda>_. go_ret i)))"

definition batch_child_payload :: "string \<Rightarrow> batch_job \<Rightarrow> raw_message" where
  "batch_child_payload batchID job = MarshalPayload (bj_type job)
     (Some (JObj [(''batch_id'', JStr batchID),
                  (''job'', case bj_args job of None \<Rightarrow> JNull | Some a \<Rightarrow> a)]))"

definition insert_batch :: "batch_row \<Rightarrow> ('z qdb_scheme, unit) go" where
  "insert_batch b = sql (\<lambda>s.
     if batch_id b \<in> batch_id ` set (job_batches s) \<or> \<not> int4_ok (total_jobs b)
        \<or> \<not> int4_ok (batch_created_at b) then None
     else Some ((), s\<lparr>job_batches := job_batches s @ [b]\<rparr>))"

definition EnqueueBatch :: "client \<Rightarrow> batch_spec \<Rightarrow> ('z qdb_scheme, string) go" where
  "EnqueueBatch c spec =
     (if bs_jobs spec = [] then go_fail (Err ''batch requires at least one job'')
      else go_bind next_uuid (\<lambda>batchID. go_bind go_now (\<lambda>t.
        let now = unix t;
            options = (if bj_type (bs_on_complete spec) \<noteq> []
              then Some (encode_on_complete \<lparr>oc_queue = bs_queue spec,
                     oc_type = bj_type (bs_on_complete spec), oc_args = bj_args (bs_on_complete spec)\<rparr>)
              else None)
        in go_bind (with_tx
             (go_bind (insert_batch \<lparr>batch_id = batchID, batch_name = bs_name spec,
                 total_jobs = int (length (bs_jobs spec)), pending_jobs = int (length (bs_jobs spec)),
                 batch_options = options, batch_created_at = now, batch_finished_at = None\<rparr>) (\<lambda>_.
              go_bind (go_each (\<lambda>job. go_bind
                   (insert_job (bs_queue spec) (batch_child_payload batchID job) now now)
                   (\<lambda>_. go_ret ())) (bs_jobs spec)) (\<lambda>_.
              go_ret (True, ()))))) (\<lambda>_.
           go_bind (go_ignore (pg_notify (bs_queue spec))) (\<lambda>_. go_ret batchID)))))"

definition release_stale :: "int \<Rightarrow> int \<Rightarrow> job_row list \<Rightarrow> job_row list" where
  "release_stale now staleBefore = map (\<lambda>j. case reserved_at j of
      Some r \<Rightarrow> if r < staleBefore then j\<lparr>reserved_at := None, available_at := now\<rparr> else j
    | None \<Rightarrow> j)"

definition claimable :: "string list \<Rightarrow> int list \<Rightarrow> int \<Rightarrow> job_row \<Rightarrow> bool" where
  "claimable queues locks now j \<longleftrightarrow>
     job_queue j \<in> set queues \<and> reserved_at j = None \<and> available_at j \<le> now \<and> job_id j \<notin> set locks"

definition select_job :: "string list \<Rightarrow> int list \<Rightarrow> int \<Rightarrow> job_row list \<Rightarrow> job_row option" where
  "select_job queues locks now js = find (claimable queues locks now) (sort_key job_id js)"

definition claim_job :: "int \<Rightarrow> int \<Rightarrow> ('z qdb_scheme, unit) go" where
  "claim_job now i = sql (\<lambda>s.
     if int4_ok now \<and> (\<forall>j \<in> set (jobs s). job_id j = i \<longrightarrow> int2_ok (job_attempts j + 1))
     then Some ((), s\<lparr>jobs := update_job i
            (\<lambda>j. j\<lparr>reserved_at := Some now, job_attempts := job_attempts j + 1\<rparr>) (jobs s)\<rparr>)
     else None)"

text \<open>The transaction inside \<^verbatim>\<open>reserveFromQueues\<close>. When no row is found the function returns before the
  commit, so the release of stale reservations is rolled back with it.\<close>

definition reserve_body ::
  "client \<Rightarrow> string list \<Rightarrow> int \<Rightarrow> ('z qdb_scheme, bool \<times> job_row option) go" where
  "reserve_body c queues now =
     (let staleBefore = now - reservation_timeout c div second in
      go_bind (sql (\<lambda>s. if int4_ok now \<and> int4_ok staleBefore
         then Some ((), s\<lparr>jobs := release_stale now staleBefore (jobs s)\<rparr>) else None)) (\<lambda>_.
      go_bind (sql (\<lambda>s. Some (select_job queues (row_locks s) now (jobs s), s))) (\<lambda>found.
      case found of
        None \<Rightarrow> go_ret (False, None)
      | Some j \<Rightarrow> go_bind (claim_job now (job_id j)) (\<lambda>_. go_ret (True, Some j)))))"

definition reserved_of :: "job_row \<Rightarrow> payload \<Rightarrow> reserved_job" where
  "reserved_of j p = \<lparr>rj_id = job_id j, rj_queue = job_queue j, rj_payload = p,
     rj_raw = job_payload j, rj_attempts = job_attempts j + 1\<rparr>"

definition reserveFromQueues :: "client \<Rightarrow> string list \<Rightarrow> ('z qdb_scheme, reserved_job option) go" where
  "reserveFromQueues c queues =
     (if queues = [] then go_ret None
      else go_bind go_now (\<lambda>t.
        go_bind (with_tx (reserve_body c queues (unix t))) (\<lambda>found.
           case found of
             None \<Rightarrow> go_ret None
           | Some j \<Rightarrow>
               (case UnmarshalPayload (job_payload j) of
                  None \<Rightarrow> go_fail (Err ''unmarshal payload'')
                | Some p \<Rightarrow> go_ret (Some (reserved_of j p))))))"

definition Reserve :: "client \<Rightarrow> string list \<Rightarrow> ('z qdb_scheme, reserved_job option) go" where
  "Reserve c queues = reserveFromQueues c queues"

text \<open>\<^verbatim>\<open>ReserveFair\<close>: the loop over the queues, from \<open>startIndex\<close> around the list. The result carries the
  next start index with it; \<open>i\<close> counts the queues already tried.\<close>

function reserve_fair_loop ::
  "client \<Rightarrow> string list \<Rightarrow> nat \<Rightarrow> nat \<Rightarrow> ('z qdb_scheme, reserved_job option \<times> nat) go" where
  "reserve_fair_loop c queues startIndex i =
     (if i < length queues
      then let idx = (startIndex + i) mod length queues in
        go_bind (reserveFromQueues c [queues ! idx]) (\<lambda>job.
          case job of
            Some j \<Rightarrow> go_ret (Some j, (idx + 1) mod length queues)
          | None \<Rightarrow> reserve_fair_loop c queues startIndex (Suc i))
      else go_ret (None, startIndex))"
  by pat_completeness auto
termination
  by (relation "measure (\<lambda>(c, queues, startIndex, i). length queues - i)") auto

declare reserve_fair_loop.simps [simp del]

definition ReserveFair ::
  "client \<Rightarrow> string list \<Rightarrow> nat \<Rightarrow> ('z qdb_scheme, reserved_job option \<times> nat) go" where
  "ReserveFair c queues startIndex =
     (if queues = [] then go_ret (None, 0) else reserve_fair_loop c queues startIndex 0)"

definition Delete :: "int \<Rightarrow> ('z qdb_scheme, unit) go" where
  "Delete i = sql (\<lambda>s. Some ((), s\<lparr>jobs := filter (\<lambda>j. job_id j \<noteq> i) (jobs s)\<rparr>))"

text \<open>The text of an error, which \<^verbatim>\<open>Fail\<close> stores. The driver's own message is not modelled.\<close>

definition err_text :: "go_error \<Rightarrow> string" where
  "err_text e = (case e of DbErr \<Rightarrow> ''database error'' | Err m \<Rightarrow> m)"

definition Fail :: "reserved_job \<Rightarrow> go_error \<Rightarrow> ('z qdb_scheme, unit) go" where
  "Fail job jobErr = go_bind next_uuid (\<lambda>uid. go_bind go_now (\<lambda>t.
     go_bind (sql (\<lambda>s.
         if uid \<in> failed_uuid ` set (failed_jobs s) then None
         else Some ((), s\<lparr>failed_jobs := failed_jobs s @ [\<lparr>failed_uuid = uid, failed_queue = rj_queue job,
               failed_payload = rj_raw job, failed_exception = err_text jobErr, failed_at = t\<rparr>]\<rparr>))) (\<lambda>_.
       Delete (rj_id job))))"

definition Release :: "client \<Rightarrow> reserved_job \<Rightarrow> int \<Rightarrow> go_error \<Rightarrow> ('z qdb_scheme, unit) go" where
  "Release c job maxAttempts jobErr =
     (if rj_attempts job \<ge> maxAttempts then Fail job jobErr
      else go_bind go_now (\<lambda>t.
        let available = unix (t + retry_after c) in
        sql (\<lambda>s. if int4_ok available
          then Some ((), s\<lparr>jobs := update_job (rj_id job)
                 (\<lambda>j. j\<lparr>reserved_at := None, available_at := available\<rparr>) (jobs s)\<rparr>)
          else None)))"

text \<open>\<^verbatim>\<open>UPDATE job_batches SET pending_jobs = pending_jobs - 1 \<dots> RETURNING pending_jobs, options\<close>.\<close>

definition take_pending :: "string \<Rightarrow> ('z qdb_scheme, (int \<times> raw_message option) option) go" where
  "take_pending batchID = sql (\<lambda>s.
     case find (\<lambda>b. batch_id b = batchID \<and> pending_jobs b > 0) (job_batches s) of
       None \<Rightarrow> Some (None, s)
     | Some b \<Rightarrow> Some (Some (pending_jobs b - 1, batch_options b),
         s\<lparr>job_batches := map (\<lambda>b. if batch_id b = batchID \<and> pending_jobs b > 0
              then b\<lparr>pending_jobs := pending_jobs b - 1\<rparr> else b) (job_batches s)\<rparr>))"

definition completion_job ::
  "raw_message option \<Rightarrow> string \<Rightarrow> string \<Rightarrow> json option \<Rightarrow> string \<times> string \<times> json option" where
  "completion_job options completeQueue completeType completeArgs =
     (case options of
        None \<Rightarrow> (completeQueue, completeType, completeArgs)
      | Some raw \<Rightarrow>
          (case decode_batch_options raw of
             Some (Some oc) \<Rightarrow>
               (if oc_type oc \<noteq> []
                then ((if oc_queue oc \<noteq> [] then oc_queue oc else completeQueue), oc_type oc, oc_args oc)
                else (completeQueue, completeType, completeArgs))
           | _ \<Rightarrow> (completeQueue, completeType, completeArgs)))"

definition mark_finished :: "string \<Rightarrow> int \<Rightarrow> ('z qdb_scheme, unit) go" where
  "mark_finished batchID now = sql (\<lambda>s. if int4_ok now
     then Some ((), s\<lparr>job_batches := map (\<lambda>b. if batch_id b = batchID
            then b\<lparr>batch_finished_at := Some now\<rparr> else b) (job_batches s)\<rparr>)
     else None)"

definition CompleteBatchJob ::
  "client \<Rightarrow> string \<Rightarrow> string \<Rightarrow> string \<Rightarrow> json option \<Rightarrow> ('z qdb_scheme, unit) go" where
  "CompleteBatchJob c batchID completeQueue completeType completeArgs =
     go_bind (take_pending batchID) (\<lambda>r. case r of
       None \<Rightarrow> go_ret ()
     | Some (pending, options) \<Rightarrow>
         (if pending = 0
          then go_bind go_now (\<lambda>t.
            go_bind (go_ignore (mark_finished batchID (unix t))) (\<lambda>_.
            case completion_job options completeQueue completeType completeArgs of
              (queue, typ, args) \<Rightarrow>
                (if typ \<noteq> [] \<and> queue \<noteq> []
                 then go_bind (Enqueue c queue typ args 0) (\<lambda>_. go_ret ())
                 else go_ret ())))
          else go_ret ()))"

section \<open>The invariant of the tables\<close>

definition queue_inv :: "'z qdb_scheme \<Rightarrow> bool" where
  "queue_inv s \<longleftrightarrow>
     distinct (map job_id (jobs s)) \<and> (\<forall>j \<in> set (jobs s). job_id j < next_job_id s) \<and>
     (\<forall>j \<in> set (jobs s). 0 \<le> job_attempts j) \<and>
     distinct (map batch_id (job_batches s)) \<and>
     (\<forall>b \<in> set (job_batches s). 0 \<le> pending_jobs b \<and> pending_jobs b \<le> total_jobs b)"

text \<open>The invariant together with a floor under the serial: a transaction that rolls back restores
  the tables but not the serial, so it is the pair that every step keeps.\<close>

definition queue_inv_from :: "int \<Rightarrow> 'z qdb_scheme \<Rightarrow> bool" where
  "queue_inv_from n s \<longleftrightarrow> queue_inv s \<and> n \<le> next_job_id s"

lemma queue_inv_iff_from: "queue_inv s \<longleftrightarrow> queue_inv_from (next_job_id s) s"
  by (simp add: queue_inv_from_def)

lemma queue_inv_frame [simp]:
  "queue_inv_from n (s\<lparr>faults := bs\<rparr>) = queue_inv_from n s"
  "queue_inv_from n (s\<lparr>clock := t, delays := ds\<rparr>) = queue_inv_from n s"
  "queue_inv_from n (s\<lparr>notified := ns\<rparr>) = queue_inv_from n s"
  "queue_inv_from n (s\<lparr>failed_jobs := fs\<rparr>) = queue_inv_from n s"
  "queue_inv_from n (s\<lparr>uuid_next := u\<rparr>) = queue_inv_from n s"
  by (simp_all add: queue_inv_from_def queue_inv_def)

lemma keeps_queue_sql:
  "(\<And>s a s'. queue_inv_from n s \<Longrightarrow> f s = Some (a, s') \<Longrightarrow> queue_inv_from n s') \<Longrightarrow>
   keeps (queue_inv_from n) (sql f)"
  by (rule keeps_sql) auto

lemma keeps_queue_now [intro!]: "keeps (queue_inv_from n) go_now"
  by (rule keeps_now) simp

lemma keeps_queue_uuid [intro!]: "keeps (queue_inv_from n) next_uuid"
  by (simp add: keeps_def next_uuid_def)

lemma keeps_queue_notify [intro!]: "keeps (queue_inv_from n) (pg_notify q)"
  unfolding pg_notify_def by (rule keeps_queue_sql) auto

lemma keeps_queue_skip [intro!]: "keeps (queue_inv_from n) (sql (\<lambda>s. Some (g s, s)))"
  by (rule keeps_queue_sql) auto

lemma queue_inv_rollback:
  "queue_inv s0 \<Longrightarrow> next_job_id s0 \<le> next_job_id s1 \<Longrightarrow> n \<le> next_job_id s1 \<Longrightarrow>
   queue_inv_from n (rollback s0 s1)"
  by (fastforce simp: queue_inv_from_def queue_inv_def rollback_def)

lemma keeps_queue_tx [intro]:
  assumes "\<And>n. keeps (queue_inv_from n) body"
  shows "keeps (queue_inv_from n) (with_tx body)"
proof (rule keepsI)
  fix s :: "'a qdb_scheme"
  assume s: "queue_inv_from n s"
  define s0 where "s0 = snd (sql (\<lambda>s. Some ((), s)) s)"
  have s0: "queue_inv_from n s0"
    using keepsD [OF keeps_queue_skip s] by (simp add: s0_def)
  then have i0: "queue_inv s0" "n \<le> next_job_id s0" "queue_inv_from (next_job_id s0) s0"
    by (simp_all add: queue_inv_from_def)
  define s1 where "s1 = snd (body s0)"
  have s1: "queue_inv_from (next_job_id s0) s1"
    unfolding s1_def by (rule keepsD [OF assms i0(3)])
  define s2 where "s2 = snd (sql (\<lambda>s. Some ((), s)) s1)"
  have s2: "queue_inv_from (next_job_id s0) s2"
    using keepsD [OF keeps_queue_skip s1] by (simp add: s2_def)
  have r: "queue_inv_from n (rollback s0 s1)" "queue_inv_from n (rollback s0 s2)" "queue_inv_from n s2"
    using queue_inv_rollback [OF i0(1)] i0(2) s1 s2 by (auto simp: queue_inv_from_def)
  show "queue_inv_from n (snd (with_tx body s))"
    unfolding with_tx_def
    using s0 r s0_def s1_def s2_def
    by (auto simp: go_simps split: prod.splits sum.splits)
qed

lemma update_job_ids [simp]:
  "(\<And>j. job_id (f j) = job_id j) \<Longrightarrow> map job_id (update_job i f js) = map job_id js"
  by (induction js) (auto simp: update_job_def)

lemma release_stale_ids [simp]: "map job_id (release_stale t u js) = map job_id js"
  by (induction js) (auto simp: release_stale_def split: option.splits)

lemma release_stale_attempts: "j \<in> set (release_stale t u js) \<Longrightarrow> \<exists>j' \<in> set js. job_attempts j' \<le> job_attempts j"
  by (force simp: release_stale_def split: option.splits if_splits)

text \<open>A change of the job table that keeps its ids and never lowers an attempt count keeps the
  invariant.\<close>

lemma queue_inv_jobs:
  assumes "queue_inv_from n s" and ids: "map job_id js = map job_id (jobs s)"
    and att: "\<And>j. j \<in> set js \<Longrightarrow> \<exists>j' \<in> set (jobs s). job_attempts j' \<le> job_attempts j"
  shows "queue_inv_from n (s\<lparr>jobs := js\<rparr>)"
proof -
  have "set (map job_id js) = set (map job_id (jobs s))"
    by (simp only: ids)
  then have "job_id ` set js = job_id ` set (jobs s)"
    by simp
  moreover have "\<forall>i \<in> job_id ` set (jobs s). i < next_job_id s"
    using assms(1) by (auto simp: queue_inv_from_def queue_inv_def)
  ultimately have "\<forall>j \<in> set js. job_id j < next_job_id s"
    by (metis imageI)
  moreover have "\<forall>j \<in> set js. 0 \<le> job_attempts j"
    using assms(1) att by (force simp: queue_inv_from_def queue_inv_def)
  ultimately show ?thesis
    using assms(1) ids by (auto simp: queue_inv_from_def queue_inv_def)
qed

lemma update_job_attempts:
  "j \<in> set (update_job i f js) \<Longrightarrow> (\<And>j. job_attempts j \<le> job_attempts (f j)) \<Longrightarrow>
   \<exists>j' \<in> set js. job_attempts j' \<le> job_attempts j"
  by (auto simp: update_job_def)

lemma keeps_insert_job [intro!]: "keeps (queue_inv_from n) (insert_job q p a t)"
  unfolding insert_job_def
  by (rule keeps_queue_sql)
    (fastforce simp: queue_inv_from_def queue_inv_def split: if_splits)

lemma keeps_insert_batch:
  "0 \<le> pending_jobs b \<Longrightarrow> pending_jobs b \<le> total_jobs b \<Longrightarrow> keeps (queue_inv_from n) (insert_batch b)"
  unfolding insert_batch_def
  by (rule keeps_queue_sql) (auto simp: queue_inv_from_def queue_inv_def split: if_splits)

lemma keeps_claim_job [intro!]: "keeps (queue_inv_from n) (claim_job t i)"
  unfolding claim_job_def
  by (rule keeps_queue_sql)
    (auto intro!: queue_inv_jobs elim!: update_job_attempts split: if_splits)

lemma keeps_Enqueue [intro!]: "keeps (queue_inv_from n) (Enqueue c q t a d)"
  unfolding Enqueue_def Let_def by (intro keeps_bind) auto

lemma keeps_EnqueueBatch [intro!]: "keeps (queue_inv_from n) (EnqueueBatch c spec)"
  unfolding EnqueueBatch_def Let_def
  by (auto intro!: keeps_bind keeps_queue_tx keeps_insert_batch)

lemma keeps_reserveFromQueues [intro!]: "keeps (queue_inv_from n) (reserveFromQueues c qs)"
  unfolding reserveFromQueues_def reserve_body_def Let_def
  by (auto intro!: keeps_bind keeps_queue_tx keeps_queue_sql queue_inv_jobs keeps_case_option
      elim!: release_stale_attempts split: if_splits)

lemma keeps_reserve_fair_loop [intro!]: "keeps (queue_inv_from n) (reserve_fair_loop c qs k i)"
proof (induction c qs k i rule: reserve_fair_loop.induct)
  case (1 c queues startIndex i)
  then show ?case
    by (subst reserve_fair_loop.simps) (auto simp: Let_def intro!: keeps_bind keeps_case_option)
qed

lemma keeps_ReserveFair [intro!]: "keeps (queue_inv_from n) (ReserveFair c qs k)"
  unfolding ReserveFair_def by auto

lemma keeps_Delete [intro!]: "keeps (queue_inv_from n) (Delete i)"
  unfolding Delete_def
  by (rule keeps_queue_sql)
    (auto simp: queue_inv_from_def queue_inv_def distinct_map_filter)

lemma keeps_Fail [intro!]: "keeps (queue_inv_from n) (Fail j e)"
  unfolding Fail_def
  by (auto intro!: keeps_bind keeps_queue_sql split: if_splits)

lemma keeps_Release [intro!]: "keeps (queue_inv_from n) (Release c j m e)"
  unfolding Release_def Let_def
  by (auto intro!: keeps_bind keeps_queue_sql queue_inv_jobs elim!: update_job_attempts
      split: if_splits)

lemma map_key_update:
  "(\<And>x. key (f x) = key x) \<Longrightarrow> map key (map (\<lambda>x. if P x then f x else x) xs) = map key xs"
  by (induction xs) auto

lemma queue_inv_batches:
  assumes "queue_inv_from n s" and "map batch_id bs = map batch_id (job_batches s)"
    and "\<And>b. b \<in> set bs \<Longrightarrow> 0 \<le> pending_jobs b \<and> pending_jobs b \<le> total_jobs b"
  shows "queue_inv_from n (s\<lparr>job_batches := bs\<rparr>)"
  using assms by (simp add: queue_inv_from_def queue_inv_def)

lemma keeps_take_pending [intro!]: "keeps (queue_inv_from n) (take_pending b)"
  unfolding take_pending_def
proof (rule keeps_queue_sql)
  fix s :: "'a qdb_scheme" and a s'
  assume inv: "queue_inv_from n s"
    and eq: "(case find (\<lambda>ba. batch_id ba = b \<and> 0 < pending_jobs ba) (job_batches s) of
        None \<Rightarrow> Some (None, s)
      | Some ba \<Rightarrow> Some (Some (pending_jobs ba - 1, batch_options ba),
          s\<lparr>job_batches := map (\<lambda>ba. if batch_id ba = b \<and> 0 < pending_jobs ba
             then ba\<lparr>pending_jobs := pending_jobs ba - 1\<rparr> else ba) (job_batches s)\<rparr>)) = Some (a, s')"
  have "queue_inv_from n (s\<lparr>job_batches := map (\<lambda>ba. if batch_id ba = b \<and> 0 < pending_jobs ba
             then ba\<lparr>pending_jobs := pending_jobs ba - 1\<rparr> else ba) (job_batches s)\<rparr>)"
    using inv by (intro queue_inv_batches map_key_update)
      (fastforce simp: queue_inv_from_def queue_inv_def)+
  with inv eq show "queue_inv_from n s'"
    by (auto split: option.splits)
qed

lemma keeps_mark_finished [intro!]: "keeps (queue_inv_from n) (mark_finished b t)"
  unfolding mark_finished_def
proof (rule keeps_queue_sql)
  fix s :: "'a qdb_scheme" and a s'
  assume inv: "queue_inv_from n s"
    and eq: "(if int4_ok t then Some ((), s\<lparr>job_batches := map (\<lambda>ba. if batch_id ba = b
        then ba\<lparr>batch_finished_at := Some t\<rparr> else ba) (job_batches s)\<rparr>) else None) = Some (a, s')"
  have "queue_inv_from n (s\<lparr>job_batches := map (\<lambda>ba. if batch_id ba = b
        then ba\<lparr>batch_finished_at := Some t\<rparr> else ba) (job_batches s)\<rparr>)"
    using inv by (intro queue_inv_batches map_key_update)
      (fastforce simp: queue_inv_from_def queue_inv_def)+
  with eq show "queue_inv_from n s'"
    by (auto split: if_splits)
qed

lemma keeps_CompleteBatchJob [intro!]: "keeps (queue_inv_from n) (CompleteBatchJob c b q t a)"
  unfolding CompleteBatchJob_def Let_def
  by (auto intro!: keeps_bind split: option.splits prod.splits)

section \<open>Reserving\<close>

lemma with_tx_Inr:
  assumes "with_tx body s = (Inr x, s')"
  obtains (rolled_back) bs s1 where "body (s\<lparr>faults := bs\<rparr>) = (Inr (False, x), s1)"
      "s' = rollback (s\<lparr>faults := bs\<rparr>) s1"
  | (committed) bs s1 bs' where "body (s\<lparr>faults := bs\<rparr>) = (Inr (True, x), s1)"
      "s' = s1\<lparr>faults := bs'\<rparr>"
proof -
  let ?s0 = "s\<lparr>faults := tl (faults s)\<rparr>"
  from assms have s0: "sql (\<lambda>s. Some ((), s)) s = (Inr (), ?s0)"
    by (cases rule: sql_cases [of s "\<lambda>s. Some ((), s)"]) (auto simp: with_tx_def go_simps)
  obtain r s1 where b: "body ?s0 = (r, s1)" by fastforce
  show thesis
  proof (cases r)
    case (Inl e)
    with assms s0 b show thesis by (simp add: with_tx_def go_simps)
  next
    case (Inr cx)
    obtain cm y where cx: "cx = (cm, y)" by fastforce
    show thesis
    proof (cases cm)
      case False
      with assms s0 b Inr cx show thesis
        by (intro rolled_back [of "tl (faults s)" s1]) (auto simp: with_tx_def go_simps)
    next
      case True
      have "sql (\<lambda>s. Some ((), s)) s1 = (Inr (), s')" and "y = x"
        using assms s0 b Inr cx True
        by (auto simp: with_tx_def go_simps split: prod.splits sum.splits)
      then have "s' = s1\<lparr>faults := tl (faults s1)\<rparr>" and "y = x"
        by (auto dest: sql_Inr)
      with b Inr cx True show thesis
        by (intro committed [of "tl (faults s)" s1 "tl (faults s1)"]) auto
    qed
  qed
qed

lemma select_job_Some:
  assumes "select_job qs locks now js = Some j"
  shows "j \<in> set js" and "claimable qs locks now j"
    and "\<And>j'. j' \<in> set js \<Longrightarrow> claimable qs locks now j' \<Longrightarrow> job_id j \<le> job_id j'"
  using find_sort_key_least [OF assms [unfolded select_job_def]] by auto

lemma select_job_None:
  "select_job qs locks now js = None \<longleftrightarrow> (\<forall>j \<in> set js. \<not> claimable qs locks now j)"
  by (simp add: select_job_def find_sort_key_None)

text \<open>What a successful claim did to the job table.\<close>

definition claimed :: "client \<Rightarrow> string list \<Rightarrow> int \<Rightarrow> job_row \<Rightarrow> 'z qdb_scheme \<Rightarrow> 'z qdb_scheme \<Rightarrow> bool" where
  "claimed c qs now j s s' \<longleftrightarrow>
     (let js = release_stale now (now - reservation_timeout c div second) (jobs s) in
      select_job qs (row_locks s) now js = Some j \<and>
      jobs s' = update_job (job_id j) (\<lambda>j. j\<lparr>reserved_at := Some now, job_attempts := job_attempts j + 1\<rparr>) js \<and>
      failed_jobs s' = failed_jobs s \<and> job_batches s' = job_batches s \<and> next_job_id s' = next_job_id s)"

lemma reserve_body_Inr:
  assumes "reserve_body c qs now s = (Inr (b, x), s')"
  shows "(b = False \<and> x = None \<and>
          select_job qs (row_locks s) now
            (release_stale now (now - reservation_timeout c div second) (jobs s)) = None) \<or>
         (b = True \<and> (\<exists>j. x = Some j \<and> claimed c qs now j s s' \<and> int4_ok now))"
  using assms
  by (auto simp: reserve_body_def go_simps claim_job_def claimed_def Let_def
      split: prod.splits sum.splits option.splits if_splits dest!: sql_Inr)

lemma claimed_frame [simp]:
  "claimed c qs now j (s\<lparr>faults := bs\<rparr>) s' = claimed c qs now j s s'"
  "claimed c qs now j s (s'\<lparr>faults := bs\<rparr>) = claimed c qs now j s s'"
  "claimed c qs now j (s\<lparr>clock := t, delays := ds\<rparr>) s' = claimed c qs now j s s'"
  by (simp_all add: claimed_def)

lemma reserve_Some:
  assumes "reserveFromQueues c qs s = (Inr (Some rj), s')"
  obtains t j p where "clock s \<le> t" "claimed c qs (unix t) j s s'"
    "UnmarshalPayload (job_payload j) = Some p" "rj = reserved_of j p" "int4_ok (unix t)"
proof -
  obtain t s1 where now: "go_now s = (Inr t, s1)" and t: "clock s \<le> t"
    using go_now_Inr [of s] by (metis prod.collapse)
  have s1: "claimed c qs n j s1 s' = claimed c qs n j s s'" for n j
    using now by (auto simp: go_now_def split: list.splits)
  from assms now obtain j p where tx: "with_tx (reserve_body c qs (unix t)) s1 = (Inr (Some j), s')"
    and p: "UnmarshalPayload (job_payload j) = Some p" "rj = reserved_of j p"
    by (auto simp: reserveFromQueues_def go_simps split: if_splits prod.splits sum.splits option.splits)
  from tx have "claimed c qs (unix t) j s1 s' \<and> int4_ok (unix t)"
    by (cases rule: with_tx_Inr) (auto dest!: reserve_body_Inr)
  with t p s1 that show thesis by auto
qed

text \<open>When the call finds nothing, the tables are as they were: the release of stale reservations in
  the same transaction is undone.\<close>

lemma reserve_None:
  assumes "reserveFromQueues c qs s = (Inr None, s')"
  shows "jobs s' = jobs s \<and> failed_jobs s' = failed_jobs s \<and> job_batches s' = job_batches s"
proof (cases "qs = []")
  case True
  with assms show ?thesis by (simp add: reserveFromQueues_def go_simps)
next
  case False
  obtain t s1 where now: "go_now s = (Inr t, s1)"
    and s1: "jobs s1 = jobs s" "failed_jobs s1 = failed_jobs s" "job_batches s1 = job_batches s"
    by (cases "delays s") (auto simp: go_now_def)
  from assms now False have tx: "with_tx (reserve_body c qs (unix t)) s1 = (Inr None, s')"
    by (auto simp: reserveFromQueues_def go_simps split: prod.splits sum.splits option.splits)
  then show ?thesis
    by (cases rule: with_tx_Inr) (auto dest!: reserve_body_Inr simp: rollback_def s1)
qed

section \<open>Leases\<close>

text \<open>Job \<open>i\<close> is in the table and reserved since second \<open>r\<close>.\<close>

definition held :: "int \<Rightarrow> int \<Rightarrow> 'z qdb_scheme \<Rightarrow> bool" where
  "held i r s \<longleftrightarrow> (\<exists>j \<in> set (jobs s). job_id j = i \<and> reserved_at j = Some r)"

text \<open>Everything that can happen to the queue while some worker holds job \<open>i\<close>, other than that worker
  finishing it: other processes enqueue, reserve, delete, release and complete batches, other
  transactions lock rows, time passes and statements fail. The label is the job that a reserve
  handed out.\<close>

inductive queue_step :: "client \<Rightarrow> int \<Rightarrow> 'z qdb_scheme \<Rightarrow> int option \<Rightarrow> 'z qdb_scheme \<Rightarrow> bool"
  for c :: client and i :: int where
  step_enqueue: "queue_step c i s None (snd (Enqueue c q t a d s))"
| step_batch: "queue_step c i s None (snd (EnqueueBatch c spec s))"
| step_complete: "queue_step c i s None (snd (CompleteBatchJob c b q t a s))"
| step_reserve: "reserveFromQueues c qs s = (r, s') \<Longrightarrow>
     queue_step c i s (case r of Inr (Some rj) \<Rightarrow> Some (rj_id rj) | _ \<Rightarrow> None) s'"
| step_delete: "k \<noteq> i \<Longrightarrow> queue_step c i s None (snd (Delete k s))"
| step_release: "rj_id rj \<noteq> i \<Longrightarrow> queue_step c i s None (snd (Release c rj m e s))"
| step_env: "clock s \<le> t \<Longrightarrow>
     queue_step c i s None (s\<lparr>clock := t, delays := ds, faults := fs, row_locks := ls\<rparr>)"

inductive queue_run :: "client \<Rightarrow> int \<Rightarrow> 'z qdb_scheme \<Rightarrow> int list \<Rightarrow> 'z qdb_scheme \<Rightarrow> bool"
  for c :: client and i :: int where
  run_nil: "queue_run c i s [] s"
| run_step: "queue_run c i s hs s1 \<Longrightarrow> queue_step c i s1 l s2 \<Longrightarrow>
     queue_run c i s (case l of None \<Rightarrow> hs | Some k \<Rightarrow> hs @ [k]) s2"

lemma keeps_with_tx:
  assumes "\<And>s bs. P s \<Longrightarrow> P (s\<lparr>faults := bs\<rparr>)" and "keeps P body"
    and "\<And>s0 s1. P s0 \<Longrightarrow> P s1 \<Longrightarrow> P (rollback s0 s1)"
  shows "keeps P (with_tx body)"
proof (rule keepsI)
  fix s assume s: "P s"
  have skip: "keeps P (sql (\<lambda>s. Some ((), s)))"
    by (rule keeps_sql) (use assms(1) in auto)
  define s0 where "s0 = snd (sql (\<lambda>s. Some ((), s)) s)"
  have s0: "P s0" unfolding s0_def by (rule keepsD [OF skip s])
  have s1: "P (snd (body s0))" by (rule keepsD [OF assms(2) s0])
  have s2: "P (snd (sql (\<lambda>s. Some ((), s)) (snd (body s0))))" by (rule keepsD [OF skip s1])
  show "P (snd (with_tx body s))"
    unfolding with_tx_def
    using s0 s1 s2 assms(3) [OF s0 s1] assms(3) [OF s0 s2] s0_def
    by (auto simp: go_simps split: prod.splits sum.splits)
qed

lemma held_frame [simp]:
  "held i r (s\<lparr>faults := bs\<rparr>) = held i r s"
  "held i r (s\<lparr>clock := t, delays := ds\<rparr>) = held i r s"
  "held i r (s\<lparr>clock := t, delays := ds, faults := fs, row_locks := ls\<rparr>) = held i r s"
  "held i r (s\<lparr>notified := ns\<rparr>) = held i r s"
  "held i r (s\<lparr>job_batches := bt\<rparr>) = held i r s"
  "held i r (rollback s s') = held i r s"
  by (simp_all add: held_def rollback_def)

lemma keeps_held_sql:
  "(\<And>s a s'. held i r s \<Longrightarrow> f s = Some (a, s') \<Longrightarrow> held i r s') \<Longrightarrow> keeps (held i r) (sql f)"
  by (rule keeps_sql) auto

lemma keeps_held_simple [intro!]:
  "keeps (held i r) go_now" "keeps (held i r) next_uuid" "keeps (held i r) (pg_notify q)"
  "keeps (held i r) (insert_job q p a t)" "keeps (held i r) (insert_batch b)"
  "keeps (held i r) (take_pending bid)" "keeps (held i r) (mark_finished bid t)"
  by (auto simp: pg_notify_def insert_job_def insert_batch_def take_pending_def mark_finished_def
      intro!: keeps_now keeps_held_sql split: if_splits option.splits)
    (auto simp: keeps_def next_uuid_def held_def)

lemma keeps_held_Enqueue [intro!]: "keeps (held i r) (Enqueue c q t a d)"
  unfolding Enqueue_def Let_def by (intro keeps_bind) auto

lemma keeps_held_EnqueueBatch [intro!]: "keeps (held i r) (EnqueueBatch c spec)"
  unfolding EnqueueBatch_def Let_def
  by (auto intro!: keeps_bind keeps_with_tx)

lemma keeps_held_CompleteBatchJob [intro!]: "keeps (held i r) (CompleteBatchJob c b q t a)"
  unfolding CompleteBatchJob_def Let_def
  by (auto intro!: keeps_bind split: option.splits prod.splits)

lemma keeps_held_Delete: "k \<noteq> i \<Longrightarrow> keeps (held i r) (Delete k)"
  unfolding Delete_def by (auto intro!: keeps_held_sql simp: held_def)

lemma keeps_held_Release: "rj_id rj \<noteq> i \<Longrightarrow> keeps (held i r) (Release c rj m e)"
  unfolding Release_def Fail_def Let_def
  by (auto intro!: keeps_bind keeps_held_sql keeps_held_Delete split: if_splits)
    (force simp: held_def update_job_def)+

text \<open>Time never runs backwards.\<close>

definition not_before :: "int \<Rightarrow> 'z env_scheme \<Rightarrow> bool" where
  "not_before t s \<longleftrightarrow> t \<le> clock s"

lemma not_before_frame [simp]:
  "not_before t (s\<lparr>faults := bs\<rparr>) = not_before t s"
  "not_before t (rollback s0 s1) = not_before t s1"
  by (simp_all add: not_before_def rollback_def)

lemma keeps_clock_sql:
  "(\<And>s a s'. f s = Some (a, s') \<Longrightarrow> clock s' = clock s) \<Longrightarrow> keeps (not_before t) (sql f)"
  by (rule keeps_sql) (auto simp: not_before_def)

lemma keeps_clock_simple [intro!]:
  "keeps (not_before t) go_now" "keeps (not_before t) next_uuid" "keeps (not_before t) (pg_notify q)"
  "keeps (not_before t) (insert_job q p a u)" "keeps (not_before t) (insert_batch b)"
  "keeps (not_before t) (take_pending bid)" "keeps (not_before t) (mark_finished bid u)"
  "keeps (not_before t) (Delete k)" "keeps (not_before t) (claim_job u k)"
  by (auto simp: pg_notify_def insert_job_def insert_batch_def take_pending_def mark_finished_def
      Delete_def claim_job_def intro!: keeps_clock_sql split: if_splits option.splits)
    (auto simp: keeps_def next_uuid_def not_before_def go_now_def split: list.splits)

lemma keeps_clock_tx [intro]:
  "keeps (not_before t) body \<Longrightarrow> keeps (not_before t) (with_tx body)"
  by (rule keeps_with_tx) auto

lemma keeps_clock_ops [intro!]:
  "keeps (not_before t) (Enqueue c q ty a d)" "keeps (not_before t) (EnqueueBatch c spec)"
  "keeps (not_before t) (CompleteBatchJob c b q ty a)" "keeps (not_before t) (Release c rj m e)"
  by (auto simp: Enqueue_def EnqueueBatch_def CompleteBatchJob_def Release_def Fail_def Let_def
      intro!: keeps_bind keeps_clock_sql split: option.splits prod.splits if_splits)

text \<open>Every outcome of a reserve, errors included: either the job table is untouched, or one job was
  claimed at the time the clock now shows (it is handed out unless its payload does not decode).\<close>

lemma with_tx_Inl:
  assumes "with_tx body s = (Inl e, s')"
  shows "\<exists>s1 bs. s' = s1\<lparr>faults := bs\<rparr> \<and> s1 = s \<or> (\<exists>s1 bs. s' = rollback (s\<lparr>faults := bs\<rparr>) s1)"
  using assms
  by (auto simp: with_tx_def go_simps split: prod.splits sum.splits if_splits dest!: sql_Inl sql_Inr)

lemma reserve_clock:
  assumes "with_tx (reserve_body c qs now) s = (r, s')"
  shows "clock s' = clock s"
proof -
  have *: "keeps (\<lambda>x. clock x = t) (with_tx (reserve_body c qs now))" for t
    unfolding reserve_body_def claim_job_def Let_def
    by (auto intro!: keeps_with_tx keeps_bind keeps_sql simp: rollback_def
        split: option.splits if_splits)
  show ?thesis
    using keepsD [OF * [of "clock s"], of s] assms by simp
qed

lemma reserve_outcome:
  assumes "reserveFromQueues c qs s = (r, s')"
  obtains (unchanged) "jobs s' = jobs s" "\<And>rj. r \<noteq> Inr (Some rj)"
  | (claim) j where "claimed c qs (unix (clock s')) j s s'"
      "\<And>rj. r = Inr (Some rj) \<Longrightarrow> rj_id rj = job_id j"
proof (cases "qs = []")
  case True
  with assms unchanged show thesis by (auto simp: reserveFromQueues_def go_simps)
next
  case False
  obtain t s1 where now: "go_now s = (Inr t, s1)" and s1: "jobs s1 = jobs s" "clock s1 = t"
      "\<And>n j x. claimed c qs n j s1 x = claimed c qs n j s x"
    by (cases "delays s") (auto simp: go_now_def)
  obtain r1 s2 where tx: "with_tx (reserve_body c qs (unix t)) s1 = (r1, s2)" by fastforce
  have clk: "clock s2 = t" using reserve_clock [OF tx] s1 by simp
  show thesis
  proof (cases r1)
    case (Inl e)
    with assms False now tx have "r = Inl e" "s' = s2" by (simp_all add: reserveFromQueues_def go_simps)
    moreover have "jobs s2 = jobs s1"
      using with_tx_Inl [of "reserve_body c qs (unix t)" s1 e s2] tx Inl by (auto simp: rollback_def)
    ultimately show thesis using unchanged s1 by auto
  next
    case (Inr found)
    have s': "s' = s2" and r: "\<And>rj. r = Inr (Some rj) \<Longrightarrow> \<exists>j. found = Some j \<and> rj_id rj = job_id j"
      using assms False now tx Inr
      by (auto simp: reserveFromQueues_def go_simps reserved_of_def split: option.splits)
    show thesis
    proof (cases found)
      case None
      then have "jobs s2 = jobs s1"
        using tx Inr by (auto elim!: with_tx_Inr dest!: reserve_body_Inr simp: rollback_def)
      with None r s' s1 unchanged show thesis by auto
    next
      case (Some j)
      then have "claimed c qs (unix t) j s1 s2"
        using tx Inr by (auto elim!: with_tx_Inr dest!: reserve_body_Inr)
      with Some r s' s1 clk claim show thesis by auto
    qed
  qed
qed

lemma claimed_keeps_held:
  assumes inv: "queue_inv s" and held: "held i r s" and cl: "claimed c qs now j s s'"
    and fresh: "now - reservation_timeout c div second \<le> r"
  shows "job_id j \<noteq> i \<and> held i r s'"
proof -
  let ?js = "release_stale now (now - reservation_timeout c div second) (jobs s)"
  from held obtain k where k: "k \<in> set (jobs s)" "job_id k = i" "reserved_at k = Some r"
    by (auto simp: held_def)
  then have k': "k \<in> set ?js"
    using fresh by (force simp: release_stale_def)
  have dist: "inj_on job_id (set ?js)"
    using inv distinct_map release_stale_ids by (metis queue_inv_def)
  from cl have j: "j \<in> set ?js" "reserved_at j = None"
    using select_job_Some [of qs "row_locks s" now ?js j] by (auto simp: claimed_def Let_def claimable_def)
  have "job_id j \<noteq> i"
  proof
    assume "job_id j = i"
    then have "j = k"
      using inj_onD [OF dist _ j(1) k'] k(2) by simp
    with j(2) k(3) show False by simp
  qed
  moreover have "held i r s'"
    using cl k' k calculation by (force simp: claimed_def Let_def held_def update_job_def)
  ultimately show ?thesis ..
qed

lemma keeps_clock_reserve [intro!]: "keeps (not_before t) (reserveFromQueues c qs)"
  unfolding reserveFromQueues_def reserve_body_def Let_def
  by (auto intro!: keeps_bind keeps_clock_sql keeps_clock_tx keeps_case_option split: if_splits)

lemma queue_step_inv: "queue_step c i s l s' \<Longrightarrow> queue_inv_from n s \<Longrightarrow> queue_inv_from n s'"
proof (induction rule: queue_step.induct)
  case (step_reserve qs s r s')
  then show ?case using keepsD [OF keeps_reserveFromQueues, of n s c qs] by simp
qed (blast intro: keepsD | simp add: queue_inv_from_def queue_inv_def)+

lemma queue_step_clock: "queue_step c i s l s' \<Longrightarrow> clock s \<le> clock s'"
proof -
  assume "queue_step c i s l s'"
  then have "not_before t s \<Longrightarrow> not_before t s'" for t
  proof (induction rule: queue_step.induct)
    case (step_reserve qs s r s')
    then show ?case using keepsD [OF keeps_clock_reserve, of t s c qs] by simp
  qed (blast intro: keepsD | simp add: not_before_def)+
  then show ?thesis by (simp add: not_before_def)
qed

lemma queue_step_lease:
  assumes "queue_step c i s l s'" "queue_inv s" "held i r s"
    "unix (clock s') - reservation_timeout c div second \<le> r"
  shows "l \<noteq> Some i \<and> held i r s'"
  using assms
proof (induction rule: queue_step.induct)
  case (step_reserve qs s r' s')
  show ?case
  proof (cases rule: reserve_outcome [OF step_reserve.hyps])
    case 1
    then show ?thesis using step_reserve.prems by (auto simp: held_def split: sum.splits option.splits)
  next
    case (2 j)
    with claimed_keeps_held [OF step_reserve.prems(1,2) 2(1) step_reserve.prems(3)]
    show ?thesis by (auto split: sum.splits option.splits)
  qed
qed (blast intro: keepsD keepsD [OF keeps_held_Delete] keepsD [OF keeps_held_Release] | simp)+

lemma queue_run_lease:
  assumes "queue_run c i s hs s'" "queue_inv s" "held i r s"
    "unix (clock s') - reservation_timeout c div second \<le> r"
  shows "i \<notin> set hs \<and> held i r s' \<and> queue_inv s'"
  using assms
proof (induction rule: queue_run.induct)
  case (run_step s hs s1 l s2)
  from queue_step_clock [OF run_step.hyps(2)] have "unix (clock s1) \<le> unix (clock s2)"
    by (simp add: unix_def zdiv_mono1)
  with run_step.prems(3) have "unix (clock s1) - reservation_timeout c div second \<le> r" by simp
  with run_step.IH run_step.prems have IH: "i \<notin> set hs" "held i r s1" "queue_inv s1" by auto
  with queue_step_lease [OF run_step.hyps(2)] run_step.prems(3)
  have "l \<noteq> Some i \<and> held i r s2" by blast
  moreover have "queue_inv s2"
    using queue_step_inv [OF run_step.hyps(2), of "next_job_id s1"] IH(3)
    by (simp add: queue_inv_from_def)
  ultimately show ?case using IH(1) by (auto split: option.splits)
qed simp

section \<open>Payload codecs\<close>

text \<open>The interface between a producer and a consumer of jobs: an encoding of the job's arguments and
  the decoding the handler applies, with the law that decoding undoes encoding on the values the
  producer sends. \<open>dec\<close> sees what the handler sees, the \<^verbatim>\<open>Args\<close> of the decoded payload.\<close>

locale job_codec =
  fixes enc :: "'a \<Rightarrow> json"
    and dec :: "json option \<Rightarrow> 'a option"
    and sendable :: "'a \<Rightarrow> bool"
  assumes dec_enc: "sendable x \<Longrightarrow> dec (Some (enc x)) = Some x"
begin

lemma enc_inj: "sendable x \<Longrightarrow> sendable y \<Longrightarrow> enc x = enc y \<Longrightarrow> x = y"
  by (metis dec_enc option.inject)

lemma payload_roundtrip:
  assumes "sendable x"
  shows "\<exists>p. UnmarshalPayload (MarshalPayload typ (Some (enc x))) = Some p \<and>
     payload_type p = typ \<and> dec (payload_args p) = Some x"
  using dec_enc [OF assms]
  by (simp add: UnmarshalPayload_def MarshalPayload_def struct_fields_def enc_opt_def dec_string_def
      dec_raw_def equal_fold_def to_lower_def lower_char_def)

end

lemma UnmarshalPayload_Marshal:
  "UnmarshalPayload (MarshalPayload typ args) = Some \<lparr>payload_type = typ, payload_args = args\<rparr>"
  by (simp add: UnmarshalPayload_def MarshalPayload_def struct_fields_def enc_opt_def dec_string_def
      dec_raw_def equal_fold_def to_lower_def lower_char_def split: option.splits)

lemma decode_encode_on_complete:
  assumes "oc_args oc \<noteq> Some JNull"
  shows "decode_batch_options (encode_on_complete oc) = Some (Some oc)"
  using assms
  by (cases oc)
    (auto simp: decode_batch_options_def encode_on_complete_def struct_fields_def dec_ptr_def
      dec_on_complete_def zero_on_complete_def enc_str_omit_def enc_opt_def dec_string_def dec_any_def
      equal_fold_def to_lower_def lower_char_def split: option.splits)

lemma completion_job_encoded:
  assumes "oc_args oc \<noteq> Some JNull" and "oc_type oc \<noteq> []" and "oc_queue oc \<noteq> []"
  shows "completion_job (Some (encode_on_complete oc)) q t a = (oc_queue oc, oc_type oc, oc_args oc)"
  using assms by (simp add: completion_job_def decode_encode_on_complete)

section \<open>Batches\<close>

text \<open>The number of jobs of a batch that have not completed.\<close>

definition pend :: "string \<Rightarrow> 'z qdb_scheme \<Rightarrow> int" where
  "pend bid s = (case find (\<lambda>b. batch_id b = bid) (job_batches s) of
      None \<Rightarrow> 0 | Some b \<Rightarrow> pending_jobs b)"

fun complete_times :: "client \<Rightarrow> string \<Rightarrow> string \<Rightarrow> nat \<Rightarrow> 'z qdb_scheme \<Rightarrow> 'z qdb_scheme" where
  "complete_times c bid q 0 s = s"
| "complete_times c bid q (Suc n) s =
     complete_times c bid q n (snd (CompleteBatchJob c bid q [] None s))"

lemma pend_frame [simp]:
  "pend bid (s\<lparr>faults := bs\<rparr>) = pend bid s"
  "pend bid (s\<lparr>clock := t, delays := ds\<rparr>) = pend bid s"
  "pend bid (s\<lparr>jobs := js\<rparr>) = pend bid s"
  "pend bid (s\<lparr>jobs := js, next_job_id := k\<rparr>) = pend bid s"
  "pend bid (s\<lparr>notified := ns\<rparr>) = pend bid s"
  by (simp_all add: pend_def)

lemma pend_nonneg: "queue_inv s \<Longrightarrow> 0 \<le> pend bid s"
  by (auto simp: pend_def queue_inv_def find_Some_iff split: option.splits)

lemma find_map_key:
  "(\<And>x. key (f x) = key x) \<Longrightarrow>
   find (\<lambda>x. key x = k) (map f xs) = map_option f (find (\<lambda>x. key x = k) xs)"
  by (induction xs) auto

lemma find_conj_distinct:
  assumes "distinct (map key xs)"
  shows "find (\<lambda>x. key x = k \<and> P x) xs =
     (case find (\<lambda>x. key x = k) xs of None \<Rightarrow> None | Some x \<Rightarrow> if P x then Some x else None)"
  using assms
proof (induction xs)
  case (Cons a xs)
  show ?case
  proof (cases "key a = k")
    case True
    with Cons.prems have "k \<notin> key ` set xs" by auto
    then have "find (\<lambda>x. key x = k \<and> P x) xs = None"
      by (auto simp: find_None_iff)
    with True show ?thesis by simp
  next
    case False
    with Cons show ?thesis by simp
  qed
qed simp

lemma take_pending_run:
  assumes "queue_inv s" and "take_pending bid s = (r, s')"
  shows "jobs s' = jobs s \<and>
     (case r of
        Inl _ \<Rightarrow> job_batches s' = job_batches s
      | Inr None \<Rightarrow> pend bid s = 0 \<and> job_batches s' = job_batches s
      | Inr (Some (p, _)) \<Rightarrow> 0 < pend bid s \<and> p = pend bid s - 1 \<and> pend bid s' = pend bid s - 1)"
proof -
  let ?dec = "\<lambda>b. if batch_id b = bid \<and> 0 < pending_jobs b then b\<lparr>pending_jobs := pending_jobs b - 1\<rparr> else b"
  have dist: "distinct (map batch_id (job_batches s))" and bnd: "0 \<le> pend bid s"
    using assms(1) pend_nonneg by (auto simp: queue_inv_def)
  have after: "find (\<lambda>b. batch_id b = bid) (map ?dec (job_batches s)) =
      map_option ?dec (find (\<lambda>b. batch_id b = bid) (job_batches s))"
    by (rule find_map_key) simp
  let ?f = "find (\<lambda>b. batch_id b = bid) (job_batches s)"
  have sel: "find (\<lambda>b. batch_id b = bid \<and> 0 < pending_jobs b) (job_batches s) =
      (case ?f of None \<Rightarrow> None | Some b \<Rightarrow> if 0 < pending_jobs b then Some b else None)"
    by (rule find_conj_distinct [OF dist])
  have key: "batch_id b = bid" if "?f = Some b" for b
    using that by (auto simp: find_Some_iff)
  show ?thesis
  proof (cases ?f)
    case None
    then have "sql (\<lambda>s. case find (\<lambda>b. batch_id b = bid \<and> 0 < pending_jobs b) (job_batches s) of
          None \<Rightarrow> Some (None, s)
        | Some b \<Rightarrow> Some (Some (pending_jobs b - 1, batch_options b),
            s\<lparr>job_batches := map ?dec (job_batches s)\<rparr>)) s = (r, s')"
      using assms(2) by (simp add: take_pending_def)
    then show ?thesis
      using None sel by (cases r) (auto simp: pend_def dest!: sql_Inr sql_Inl)
  next
    case (Some b)
    have "sql (\<lambda>s. case find (\<lambda>b. batch_id b = bid \<and> 0 < pending_jobs b) (job_batches s) of
          None \<Rightarrow> Some (None, s)
        | Some b \<Rightarrow> Some (Some (pending_jobs b - 1, batch_options b),
            s\<lparr>job_batches := map ?dec (job_batches s)\<rparr>)) s = (r, s')"
      using assms(2) by (simp add: take_pending_def)
    then show ?thesis
      using Some sel key [OF Some] bnd after
      by (cases r) (auto simp: pend_def dest!: sql_Inr sql_Inl split: if_splits)
  qed
qed

lemma mark_finished_run:
  assumes "mark_finished bid t s = (r, s')"
  shows "jobs s' = jobs s" and "pend k s' = pend k s"
proof -
  have *: "find (\<lambda>b. batch_id b = k)
       (map (\<lambda>b. if batch_id b = bid then b\<lparr>batch_finished_at := Some t\<rparr> else b) bs) =
     map_option (\<lambda>b. if batch_id b = bid then b\<lparr>batch_finished_at := Some t\<rparr> else b)
       (find (\<lambda>b. batch_id b = k) bs)" for bs
    by (rule find_map_key) simp
  show "jobs s' = jobs s" and "pend k s' = pend k s"
    using assms unfolding mark_finished_def
    by (cases rule: sql_cases [of s "\<lambda>s. if int4_ok t
         then Some ((), s\<lparr>job_batches := map (\<lambda>b. if batch_id b = bid
                then b\<lparr>batch_finished_at := Some t\<rparr> else b) (job_batches s)\<rparr>)
         else None"]; auto simp: pend_def * split: if_splits option.splits)+
qed

lemma pg_notify_frame [simp]:
  "jobs (snd (pg_notify q s)) = jobs s" "job_batches (snd (pg_notify q s)) = job_batches s"
  "failed_jobs (snd (pg_notify q s)) = failed_jobs s"
  unfolding pg_notify_def by (rule sql_frame; auto)+

lemma Enqueue_run:
  assumes "Enqueue c q typ args d s = (r, s')"
  shows "job_batches s' = job_batches s" and "failed_jobs s' = failed_jobs s"
    and "jobs s' = jobs s \<or> (\<exists>j. jobs s' = jobs s @ [j] \<and> job_queue j = q \<and>
           job_payload j = MarshalPayload typ args \<and> reserved_at j = None \<and> job_attempts j = 0)"
proof -
  obtain t s1 where now: "go_now s = (Inr t, s1)"
      and s1: "jobs s1 = jobs s" "job_batches s1 = job_batches s" "failed_jobs s1 = failed_jobs s"
    by (cases "delays s") (auto simp: go_now_def)
  let ?av = "if d > 0 then unix t + d div second else unix t"
  obtain r2 s2 where ins: "insert_job q (MarshalPayload typ args) ?av (unix t) s1 = (r2, s2)" by fastforce
  have s2: "job_batches s2 = job_batches s1" "failed_jobs s2 = failed_jobs s1"
    "jobs s2 = jobs s1 \<or> (\<exists>j. jobs s2 = jobs s1 @ [j] \<and> job_queue j = q \<and>
           job_payload j = MarshalPayload typ args \<and> reserved_at j = None \<and> job_attempts j = 0)"
    using ins unfolding insert_job_def
    by (cases rule: sql_cases [of s1 "\<lambda>s. if int4_ok ?av \<and> int4_ok (unix t)
       then Some (next_job_id s, s\<lparr>jobs := jobs s @ [\<lparr>job_id = next_job_id s, job_queue = q,
            job_payload = MarshalPayload typ args, job_attempts = 0, reserved_at = None,
            available_at = ?av, job_created_at = unix t\<rparr>], next_job_id := next_job_id s + 1\<rparr>)
       else None"]; auto split: if_splits)+
  have "s' = s2 \<or> s' = snd (pg_notify q s2)"
    using assms now ins by (auto simp: Enqueue_def Let_def go_simps split: sum.splits)
  with s1 s2 show "job_batches s' = job_batches s" and "failed_jobs s' = failed_jobs s"
    and "jobs s' = jobs s \<or> (\<exists>j. jobs s' = jobs s @ [j] \<and> job_queue j = q \<and>
           job_payload j = MarshalPayload typ args \<and> reserved_at j = None \<and> job_attempts j = 0)"
    by auto
qed

lemma complete_run:
  assumes inv: "queue_inv s" and run: "CompleteBatchJob c bid q t a s = (r, s')"
  shows "(pend bid s' = pend bid s \<and> jobs s' = jobs s) \<or>
     (0 < pend bid s \<and> pend bid s' = pend bid s - 1 \<and>
      (jobs s' = jobs s \<or> pend bid s' = 0 \<and> (\<exists>j. jobs s' = jobs s @ [j])))"
proof -
  obtain r1 s1 where take: "take_pending bid s = (r1, s1)" by fastforce
  note t = take_pending_run [OF inv take]
  show ?thesis
  proof (cases "\<exists>x. r1 = Inr (Some (0, x))")
    case False
    then have "s' = s1"
      using run take by (auto simp: CompleteBatchJob_def go_simps split: sum.splits option.splits if_splits)
    with t show ?thesis by (auto simp: pend_def split: sum.splits option.splits)
  next
    case True
    then obtain opts where r1: "r1 = Inr (Some (0, opts))" by blast
    with t have p: "pend bid s = 1" "pend bid s1 = 0" "jobs s1 = jobs s" by auto
    obtain u s2 where now: "go_now s1 = (Inr u, s2)" and s2: "jobs s2 = jobs s1" "pend bid s2 = pend bid s1"
      by (cases "delays s1") (auto simp: go_now_def)
    obtain r3 s3 where fin: "mark_finished bid (unix u) s2 = (r3, s3)" by fastforce
    note m = mark_finished_run [OF fin]
    obtain qq ty ar where cj: "completion_job opts q t a = (qq, ty, ar)" by (metis prod_cases3)
    have s': "s' = s3 \<or> s' = snd (Enqueue c qq ty ar 0 s3)"
      using run take r1 now fin cj
      by (auto simp: CompleteBatchJob_def go_simps split: if_splits sum.splits prod.splits)
    have e: "jobs (snd (Enqueue c qq ty ar 0 s3)) = jobs s3 \<or>
        (\<exists>j. jobs (snd (Enqueue c qq ty ar 0 s3)) = jobs s3 @ [j])"
      and "job_batches (snd (Enqueue c qq ty ar 0 s3)) = job_batches s3"
      using Enqueue_run [of c qq ty ar 0 s3] by (metis prod.collapse)+
    then have "pend bid (snd (Enqueue c qq ty ar 0 s3)) = pend bid s3" by (simp add: pend_def)
    with s' e p s2 m show ?thesis by auto
  qed
qed

lemma complete_times_run:
  assumes "queue_inv s"
  shows "pend bid (complete_times c bid q n s) \<le> pend bid s \<and>
     (if 0 < pend bid (complete_times c bid q n s)
      then jobs (complete_times c bid q n s) = jobs s
      else \<exists>new. jobs (complete_times c bid q n s) = jobs s @ new \<and> length new \<le> (if 0 < pend bid s then 1 else 0))"
  using assms
proof (induction c bid q n s rule: complete_times.induct)
  case (1 c bid q s)
  then show ?case by (auto intro: exI [of _ "[]"])
next
  case (2 c bid q n s)
  let ?s1 = "snd (CompleteBatchJob c bid q [] None s)"
  have inv1: "queue_inv ?s1"
    using keepsD [OF keeps_CompleteBatchJob, of "next_job_id s" s c bid q "[]" None] "2.prems"
    by (simp add: queue_inv_from_def)
  have step: "(pend bid ?s1 = pend bid s \<and> jobs ?s1 = jobs s) \<or>
     (0 < pend bid s \<and> pend bid ?s1 = pend bid s - 1 \<and>
      (jobs ?s1 = jobs s \<or> pend bid ?s1 = 0 \<and> (\<exists>j. jobs ?s1 = jobs s @ [j])))"
    by (rule complete_run [OF "2.prems" prod.collapse [symmetric]])
  show ?case
    using "2.IH" [OF inv1] step by (auto split: if_splits)
qed

lemma no_faults_clock [simp]:
  "no_faults (s\<lparr>clock := t, delays := ds\<rparr>) = no_faults s"
  by (simp add: no_faults_def)

lemma insert_job_ok:
  assumes "no_faults s" "int4_ok a" "int4_ok t"
  shows "insert_job q p a t s = (Inr (next_job_id s),
     s\<lparr>faults := tl (faults s), jobs := jobs s @ [\<lparr>job_id = next_job_id s, job_queue = q, job_payload = p,
        job_attempts = 0, reserved_at = None, available_at = a, job_created_at = t\<rparr>],
       next_job_id := next_job_id s + 1\<rparr>)"
  using assms by (simp add: insert_job_def sql_no_faults)

lemma insert_job_rejected:
  assumes "\<not> (int4_ok a \<and> int4_ok t)"
  obtains s' where "insert_job q p a t s = (Inl DbErr, s')" "jobs s' = jobs s"
proof (cases "faults s")
  case Nil
  with assms that [of s] show thesis by (simp add: insert_job_def sql_nil)
next
  case (Cons b bs)
  with assms that [of "s\<lparr>faults := bs\<rparr>"] show thesis
    by (cases b) (simp_all add: insert_job_def sql_def Let_def)
qed

text \<open>Without failing statements and before the clock leaves the range of the columns, enqueueing
  succeeds.\<close>

lemma Enqueue_ok:
  assumes "no_faults s" "clock_fits s"
  obtains t s' where "Enqueue c q typ args 0 s = (Inr (next_job_id s), s')" "clock s \<le> t"
    "jobs s' = jobs s @ [\<lparr>job_id = next_job_id s, job_queue = q, job_payload = MarshalPayload typ args,
        job_attempts = 0, reserved_at = None, available_at = unix t, job_created_at = unix t\<rparr>]"
proof -
  obtain t ds where now: "go_now s = (Inr t, s\<lparr>clock := t, delays := ds\<rparr>)" "clock s \<le> t" "int4_ok (unix t)"
    using go_now_fits [OF assms(2)] by metis
  define s1 where "s1 = snd (insert_job q (MarshalPayload typ args) (unix t) (unix t) (s\<lparr>clock := t, delays := ds\<rparr>))"
  have "Enqueue c q typ args 0 s = (Inr (next_job_id s), snd (pg_notify q s1))"
    using now assms(1) by (simp add: Enqueue_def Let_def go_simps insert_job_ok s1_def)
  moreover have "jobs s1 = jobs s @ [\<lparr>job_id = next_job_id s, job_queue = q, job_payload = MarshalPayload typ args,
        job_attempts = 0, reserved_at = None, available_at = unix t, job_created_at = unix t\<rparr>]"
    using now assms(1) by (simp add: insert_job_ok s1_def)
  ultimately show thesis using that now(2) by simp
qed

lemma take_pending_ok:
  assumes "no_faults s" "queue_inv s" "find (\<lambda>b. batch_id b = bid) (job_batches s) = Some b" "0 < pending_jobs b"
  obtains s' where "take_pending bid s = (Inr (Some (pending_jobs b - 1, batch_options b)), s')"
    "find (\<lambda>b. batch_id b = bid) (job_batches s') = Some (b\<lparr>pending_jobs := pending_jobs b - 1\<rparr>)"
    "no_faults s'" "jobs s' = jobs s" "clock_fits s' = clock_fits s" "next_job_id s' = next_job_id s"
    "clock s' = clock s"
proof -
  let ?dec = "\<lambda>b. if batch_id b = bid \<and> 0 < pending_jobs b then b\<lparr>pending_jobs := pending_jobs b - 1\<rparr> else b"
  have key: "batch_id b = bid" using assms(3) by (auto simp: find_Some_iff)
  have dist: "distinct (map batch_id (job_batches s))" using assms(2) by (simp add: queue_inv_def)
  let ?s' = "s\<lparr>faults := tl (faults s), job_batches := map ?dec (job_batches s)\<rparr>"
  have "take_pending bid s = (Inr (Some (pending_jobs b - 1, batch_options b)), ?s')"
    using assms by (simp add: take_pending_def sql_no_faults find_conj_distinct [OF dist])
  moreover have "find (\<lambda>b. batch_id b = bid) (map ?dec (job_batches s)) = Some (?dec b)"
    using find_map_key [of batch_id ?dec bid "job_batches s"] assms(3) by simp
  moreover have "no_faults ?s'" using no_faults_tl [OF assms(1)] by (simp add: no_faults_def)
  ultimately show thesis
    using that [of ?s'] key assms(4) by (simp add: clock_fits_def)
qed

lemma mark_finished_env:
  "no_faults s \<Longrightarrow> no_faults (snd (mark_finished bid t s))"
  "clock_fits (snd (mark_finished bid t s)) = clock_fits s"
  "clock (snd (mark_finished bid t s)) = clock s"
  "next_job_id (snd (mark_finished bid t s)) = next_job_id s"
proof -
  assume nf: "no_faults s"
  then have "True \<notin> set (tl (faults s))"
    by (cases "faults s") (auto simp: no_faults_def)
  with nf show "no_faults (snd (mark_finished bid t s))"
    by (simp add: mark_finished_def sql_no_faults Let_def) (simp add: no_faults_def)
qed (unfold mark_finished_def, (rule sql_frame; auto simp: clock_fits_def split: if_splits)+)

text \<open>Completing the last pending job of a batch, with no failing statement: the job recorded at the
  batch's creation is enqueued.\<close>

lemma complete_last:
  assumes "no_faults s" "queue_inv s" "clock_fits s"
    and b: "find (\<lambda>b. batch_id b = bid) (job_batches s) = Some b" "pending_jobs b = 1"
    and oc: "batch_options b = Some (encode_on_complete oc)" "oc_args oc \<noteq> Some JNull" "oc_type oc \<noteq> []" "oc_queue oc \<noteq> []"
  shows "\<exists>t \<ge> clock s. jobs (snd (CompleteBatchJob c bid q ty a s)) = jobs s @ [\<lparr>job_id = next_job_id s,
     job_queue = oc_queue oc, job_payload = MarshalPayload (oc_type oc) (oc_args oc), job_attempts = 0,
     reserved_at = None, available_at = unix t, job_created_at = unix t\<rparr>]"
proof -
  obtain s1 where s1: "take_pending bid s = (Inr (Some (0, batch_options b)), s1)"
    "no_faults s1" "jobs s1 = jobs s" "clock_fits s1" "next_job_id s1 = next_job_id s" "clock s1 = clock s"
    using take_pending_ok [OF assms(1,2) b(1)] b(2) assms(3) by auto
  obtain t ds where now: "go_now s1 = (Inr t, s1\<lparr>clock := t, delays := ds\<rparr>)" "clock s1 \<le> t"
      "clock_fits (s1\<lparr>clock := t, delays := ds\<rparr>)"
    using go_now_fits [OF s1(4)] by metis
  let ?s2 = "s1\<lparr>clock := t, delays := ds\<rparr>"
  obtain r3 s3 where fin: "mark_finished bid (unix t) ?s2 = (r3, s3)" by fastforce
  have "no_faults s3" "clock_fits s3" "next_job_id s3 = next_job_id s" "jobs s3 = jobs s" "clock s3 = t"
    using mark_finished_env(1) [of ?s2 bid "unix t"] mark_finished_env(2-4) [of bid "unix t" ?s2] mark_finished_run(1) [OF fin] fin s1 now by auto
  then obtain u s4 where enq: "Enqueue c (oc_queue oc) (oc_type oc) (oc_args oc) 0 s3 = (Inr (next_job_id s), s4)"
    "t \<le> u" "jobs s4 = jobs s @ [\<lparr>job_id = next_job_id s, job_queue = oc_queue oc,
       job_payload = MarshalPayload (oc_type oc) (oc_args oc), job_attempts = 0, reserved_at = None,
       available_at = unix u, job_created_at = unix u\<rparr>]"
    using Enqueue_ok [of s3 c "oc_queue oc" "oc_type oc" "oc_args oc"] by metis
  have "snd (CompleteBatchJob c bid q ty a s) = s4"
    using s1(1) now fin enq oc by (simp add: CompleteBatchJob_def go_simps completion_job_encoded)
  with enq s1 now show ?thesis by (intro exI [of _ u]) auto
qed

lemma complete_inner:
  assumes "no_faults s" "queue_inv s" "clock_fits s"
    and b: "find (\<lambda>b. batch_id b = bid) (job_batches s) = Some b" "1 < pending_jobs b"
  shows "let s' = snd (CompleteBatchJob c bid q ty a s) in no_faults s' \<and> queue_inv s' \<and> clock_fits s' \<and>
     jobs s' = jobs s \<and> next_job_id s' = next_job_id s \<and> clock s' = clock s \<and>
     find (\<lambda>b. batch_id b = bid) (job_batches s') = Some (b\<lparr>pending_jobs := pending_jobs b - 1\<rparr>)"
proof -
  obtain s1 where s1: "take_pending bid s = (Inr (Some (pending_jobs b - 1, batch_options b)), s1)"
    "find (\<lambda>b. batch_id b = bid) (job_batches s1) = Some (b\<lparr>pending_jobs := pending_jobs b - 1\<rparr>)"
    "no_faults s1" "jobs s1 = jobs s" "clock_fits s1" "next_job_id s1 = next_job_id s" "clock s1 = clock s"
    using take_pending_ok [OF assms(1,2) b(1)] b(2) assms(3) by auto
  have "queue_inv (snd (CompleteBatchJob c bid q ty a s))"
    using keepsD [OF keeps_CompleteBatchJob, of "next_job_id s" s c bid q ty a] assms(2)
    by (simp add: queue_inv_from_def)
  with s1 b show ?thesis by (simp add: CompleteBatchJob_def go_simps)
qed

lemma complete_times_fires:
  assumes "no_faults s" "queue_inv s" "clock_fits s" "0 < n"
    and b: "find (\<lambda>b. batch_id b = bid) (job_batches s) = Some b" "pending_jobs b = int n"
    and oc: "batch_options b = Some (encode_on_complete oc)" "oc_args oc \<noteq> Some JNull" "oc_type oc \<noteq> []" "oc_queue oc \<noteq> []"
  shows "\<exists>t \<ge> clock s. jobs (complete_times c bid q n s) = jobs s @ [\<lparr>job_id = next_job_id s,
     job_queue = oc_queue oc, job_payload = MarshalPayload (oc_type oc) (oc_args oc), job_attempts = 0,
     reserved_at = None, available_at = unix t, job_created_at = unix t\<rparr>]"
  using assms
proof (induction n arbitrary: s b)
  case (Suc n)
  show ?case
  proof (cases "n = 0")
    case True
    with complete_last [of s bid b oc c q "[]" None] Suc.prems show ?thesis by simp
  next
    case False
    let ?s1 = "snd (CompleteBatchJob c bid q [] None s)"
    have s1: "no_faults ?s1 \<and> queue_inv ?s1 \<and> clock_fits ?s1 \<and> jobs ?s1 = jobs s \<and>
        next_job_id ?s1 = next_job_id s \<and> clock ?s1 = clock s \<and>
        find (\<lambda>b. batch_id b = bid) (job_batches ?s1) = Some (b\<lparr>pending_jobs := pending_jobs b - 1\<rparr>)"
      using complete_inner [of s bid b c q "[]" None] Suc.prems False by (simp add: Let_def)
    show ?thesis
      using Suc.IH [of ?s1 "b\<lparr>pending_jobs := pending_jobs b - 1\<rparr>"] s1 Suc.prems False by simp
  qed
qed simp

lemma each_insert_run:
  fixes s s' :: "'z qdb_scheme"
  assumes "go_each (\<lambda>job. go_bind (insert_job q (f job) a t) (\<lambda>_. go_ret ())) xs s = (Inr (), s')"
  shows "job_batches s' = job_batches s \<and>
     (\<exists>new. jobs s' = jobs s @ new \<and> map job_payload new = map f xs \<and>
        (\<forall>j \<in> set new. job_queue j = q \<and> reserved_at j = None \<and> available_at j = a \<and> job_attempts j = 0))"
  using assms
proof (induction xs arbitrary: s)
  case Nil
  then show ?case by (auto simp: go_simps)
next
  case (Cons x xs)
  define g :: "'a \<Rightarrow> ('z qdb_scheme, unit) go"
    where "g = (\<lambda>job. go_bind (insert_job q (f job) a t) (\<lambda>_. go_ret ()))"
  have "go_each g (x # xs) s = (Inr (), s')"
    using Cons.prems by (simp only: g_def)
  then obtain s1 where gx: "g x s = (Inr (), s1)" and "go_each g xs s1 = (Inr (), s')"
    by (auto simp: go_bind_run split: prod.splits sum.splits)
  then have rest: "go_each (\<lambda>job. go_bind (insert_job q (f job) a t) (\<lambda>_. go_ret ())) xs s1 = (Inr (), s')"
    by (simp add: g_def)
  from gx obtain i where ins: "insert_job q (f x) a t s = (Inr i, s1)"
    by (auto simp: g_def go_simps split: prod.splits sum.splits)
  from ins have s1: "job_batches s1 = job_batches s" "\<exists>j. jobs s1 = jobs s @ [j] \<and> job_payload j = f x \<and>
      job_queue j = q \<and> reserved_at j = None \<and> available_at j = a \<and> job_attempts j = 0"
    by (auto simp: insert_job_def dest!: sql_Inr split: if_splits)
  then obtain j where j: "jobs s1 = jobs s @ [j]" "job_payload j = f x" "job_queue j = q"
      "reserved_at j = None" "available_at j = a" "job_attempts j = 0"
    by blast
  obtain new where "jobs s' = jobs s1 @ new" "map job_payload new = map f xs"
      "\<forall>j \<in> set new. job_queue j = q \<and> reserved_at j = None \<and> available_at j = a \<and> job_attempts j = 0"
      "job_batches s' = job_batches s1"
    using Cons.IH [OF rest] by auto
  with j s1(1) show ?case by (intro conjI exI [of _ "j # new"]) auto
qed

definition batch_row_of :: "string \<Rightarrow> batch_spec \<Rightarrow> int \<Rightarrow> batch_row" where
  "batch_row_of bid spec now = \<lparr>batch_id = bid, batch_name = bs_name spec,
     total_jobs = int (length (bs_jobs spec)), pending_jobs = int (length (bs_jobs spec)),
     batch_options = (if bj_type (bs_on_complete spec) \<noteq> []
        then Some (encode_on_complete \<lparr>oc_queue = bs_queue spec,
               oc_type = bj_type (bs_on_complete spec), oc_args = bj_args (bs_on_complete spec)\<rparr>)
        else None),
     batch_created_at = now, batch_finished_at = None\<rparr>"

definition batch_created :: "batch_spec \<Rightarrow> string \<Rightarrow> 'z qdb_scheme \<Rightarrow> 'z qdb_scheme \<Rightarrow> bool" where
  "batch_created spec bid s s' \<longleftrightarrow> bid \<notin> batch_id ` set (job_batches s) \<and>
     (\<exists>t new. job_batches s' = job_batches s @ [batch_row_of bid spec t] \<and> jobs s' = jobs s @ new \<and>
        map job_payload new = map (batch_child_payload bid) (bs_jobs spec) \<and>
        (\<forall>j \<in> set new. job_queue j = bs_queue spec \<and> reserved_at j = None \<and> available_at j = t \<and> job_attempts j = 0))"

lemma EnqueueBatch_body:
  assumes "with_tx (go_bind (insert_batch (batch_row_of bid spec t)) (\<lambda>_.
      go_bind (go_each (\<lambda>job. go_bind (insert_job (bs_queue spec) (batch_child_payload bid job) t t)
         (\<lambda>_. go_ret ())) (bs_jobs spec)) (\<lambda>_. go_ret (True, ())))) s = (r, s')"
  shows "case r of Inl _ \<Rightarrow> jobs s' = jobs s \<and> job_batches s' = job_batches s
     | Inr _ \<Rightarrow> batch_created spec bid s s'"
proof (cases r)
  case (Inl e)
  with with_tx_Inl assms show ?thesis by (fastforce simp: rollback_def)
next
  case (Inr u)
  from assms Inr obtain bs s1 bs' where body: "go_bind (insert_batch (batch_row_of bid spec t)) (\<lambda>_.
      go_bind (go_each (\<lambda>job. go_bind (insert_job (bs_queue spec) (batch_child_payload bid job) t t)
         (\<lambda>_. go_ret ())) (bs_jobs spec)) (\<lambda>_. go_ret (True, ()))) (s\<lparr>faults := bs\<rparr>) = (Inr (True, ()), s1)"
      "s' = s1\<lparr>faults := bs'\<rparr>"
    by (auto elim!: with_tx_Inr simp: go_simps split: prod.splits sum.splits)
  then obtain s2 where s2: "insert_batch (batch_row_of bid spec t) (s\<lparr>faults := bs\<rparr>) = (Inr (), s2)"
      "go_each (\<lambda>job. go_bind (insert_job (bs_queue spec) (batch_child_payload bid job) t t)
         (\<lambda>_. go_ret ())) (bs_jobs spec) s2 = (Inr (), s1)"
    by (auto simp: go_simps split: prod.splits sum.splits)
  from s2(1) have "bid \<notin> batch_id ` set (job_batches s)" "jobs s2 = jobs s"
      "job_batches s2 = job_batches s @ [batch_row_of bid spec t]"
    by (auto simp: insert_batch_def batch_row_of_def dest!: sql_Inr split: if_splits)
  with each_insert_run [OF s2(2)] body(2) Inr show ?thesis
    by (auto simp: batch_created_def)
qed

lemma EnqueueBatch_run:
  assumes "EnqueueBatch c spec s = (r, s')"
  shows "case r of Inl _ \<Rightarrow> jobs s' = jobs s \<and> job_batches s' = job_batches s
     | Inr bid \<Rightarrow> bs_jobs spec \<noteq> [] \<and> batch_created spec bid s s'"
proof (cases "bs_jobs spec = []")
  case True
  with assms show ?thesis by (auto simp: EnqueueBatch_def go_simps)
next
  case False
  obtain bid s0 where uid: "next_uuid s = (Inr bid, s0)" and s0: "jobs s0 = jobs s" "job_batches s0 = job_batches s"
    by (auto simp: next_uuid_def)
  obtain t s1 where now: "go_now s0 = (Inr t, s1)" and s1: "jobs s1 = jobs s0" "job_batches s1 = job_batches s0"
    by (cases "delays s0") (auto simp: go_now_def)
  let ?tx = "with_tx (go_bind (insert_batch (batch_row_of bid spec (unix t))) (\<lambda>_.
      go_bind (go_each (\<lambda>job. go_bind (insert_job (bs_queue spec) (batch_child_payload bid job) (unix t) (unix t))
         (\<lambda>_. go_ret ())) (bs_jobs spec)) (\<lambda>_. go_ret (True, ()))))"
  obtain r2 s2 where tx: "?tx s1 = (r2, s2)" by fastforce
  note out = EnqueueBatch_body [OF tx]
  have "(r, s') = (case r2 of Inl e \<Rightarrow> (Inl e, s2) | Inr _ \<Rightarrow> (Inr bid, snd (pg_notify (bs_queue spec) s2)))"
    using assms False uid now tx
    by (simp add: EnqueueBatch_def go_simps Let_def batch_row_of_def split: sum.splits)
  with out s0 s1 False show ?thesis
    by (auto simp: batch_created_def split: sum.splits)
qed

section \<open>Releasing and failing\<close>

text \<open>A job is accounted for: still in the table, or recorded as failed with its payload.\<close>

definition accounted :: "int \<Rightarrow> raw_message \<Rightarrow> 'z qdb_scheme \<Rightarrow> bool" where
  "accounted i raw s \<longleftrightarrow> (\<exists>j \<in> set (jobs s). job_id j = i) \<or> (\<exists>f \<in> set (failed_jobs s). failed_payload f = raw)"

lemma accounted_frame [simp]:
  "accounted i raw (s\<lparr>faults := bs\<rparr>) = accounted i raw s"
  "accounted i raw (s\<lparr>clock := t, delays := ds\<rparr>) = accounted i raw s"
  "accounted i raw (s\<lparr>uuid_next := n\<rparr>) = accounted i raw s"
  by (simp_all add: accounted_def)

lemma Fail_run:
  assumes "Fail rj e s = (r, s')"
  obtains (no_record) "jobs s' = jobs s" "failed_jobs s' = failed_jobs s" "job_batches s' = job_batches s" "\<exists>x. r = Inl x"
  | (recorded) f where "failed_jobs s' = failed_jobs s @ [f]" "failed_payload f = rj_raw rj"
      "failed_exception f = err_text e" "failed_queue f = rj_queue rj" "job_batches s' = job_batches s"
      "case r of Inl _ \<Rightarrow> jobs s' = jobs s | Inr _ \<Rightarrow> jobs s' = filter (\<lambda>j. job_id j \<noteq> rj_id rj) (jobs s)"
proof -
  obtain uid s0 where uid: "next_uuid s = (Inr uid, s0)" and s0: "jobs s0 = jobs s" "failed_jobs s0 = failed_jobs s" "job_batches s0 = job_batches s"
    by (auto simp: next_uuid_def)
  obtain t s1 where now: "go_now s0 = (Inr t, s1)" and s1: "jobs s1 = jobs s" "failed_jobs s1 = failed_jobs s" "job_batches s1 = job_batches s"
    using s0 by (cases "delays s0") (auto simp: go_now_def)
  define f where "f = \<lparr>failed_uuid = uid, failed_queue = rj_queue rj, failed_payload = rj_raw rj,
     failed_exception = err_text e, failed_at = t\<rparr>"
  obtain r2 s2 where ins: "sql (\<lambda>s. if uid \<in> failed_uuid ` set (failed_jobs s) then None
         else Some ((), s\<lparr>failed_jobs := failed_jobs s @ [f]\<rparr>)) s1 = (r2, s2)" by fastforce
  have run: "(r, s') = (case r2 of Inl x \<Rightarrow> (Inl x, s2) | Inr _ \<Rightarrow> Delete (rj_id rj) s2)"
    using assms uid now ins [unfolded f_def]
    by (cases r2) (auto simp: Fail_def go_simps)
  show thesis
  proof (cases r2)
    case (Inl x)
    with ins run s1 no_record show thesis by (auto dest!: sql_Inl)
  next
    case (Inr u)
    with ins have s2: "failed_jobs s2 = failed_jobs s @ [f]" "jobs s2 = jobs s" "job_batches s2 = job_batches s"
      using s1 by (auto dest!: sql_Inr split: if_splits)
    have "Delete (rj_id rj) s2 = (r, s')" using run Inr by simp
    then have "failed_jobs s' = failed_jobs s2 \<and> job_batches s' = job_batches s2 \<and>
       (case r of Inl _ \<Rightarrow> jobs s' = jobs s2 | Inr _ \<Rightarrow> jobs s' = filter (\<lambda>j. job_id j \<noteq> rj_id rj) (jobs s2))"
      unfolding Delete_def by (cases r) (auto dest!: sql_Inr sql_Inl)
    with s2 have "case r of Inl _ \<Rightarrow> jobs s' = jobs s | Inr _ \<Rightarrow> jobs s' = filter (\<lambda>j. job_id j \<noteq> rj_id rj) (jobs s)"
      and "failed_jobs s' = failed_jobs s @ [f]" and "job_batches s' = job_batches s"
      by (auto split: sum.splits)
    then show thesis using recorded [of f] by (simp add: f_def)
  qed
qed

lemma Release_run:
  assumes "Release c rj m e s = (r, s')" "rj_attempts rj < m"
  shows "failed_jobs s' = failed_jobs s \<and> job_batches s' = job_batches s \<and>
    (case r of Inl _ \<Rightarrow> jobs s' = jobs s
     | Inr _ \<Rightarrow> \<exists>t \<ge> clock s. jobs s' = update_job (rj_id rj)
          (\<lambda>j. j\<lparr>reserved_at := None, available_at := unix (t + retry_after c)\<rparr>) (jobs s))"
proof -
  obtain t s1 where now: "go_now s = (Inr t, s1)" "clock s \<le> t"
    and s1: "jobs s1 = jobs s" "failed_jobs s1 = failed_jobs s" "job_batches s1 = job_batches s"
    by (cases "delays s") (auto simp: go_now_def)
  from assms now have "sql (\<lambda>s. if int4_ok (unix (t + retry_after c))
          then Some ((), s\<lparr>jobs := update_job (rj_id rj)
                 (\<lambda>j. j\<lparr>reserved_at := None, available_at := unix (t + retry_after c)\<rparr>) (jobs s)\<rparr>)
          else None) s1 = (r, s')"
    by (simp add: Release_def go_simps Let_def)
  then have "failed_jobs s' = failed_jobs s1 \<and> job_batches s' = job_batches s1 \<and>
    (case r of Inl _ \<Rightarrow> jobs s' = jobs s1
     | Inr _ \<Rightarrow> jobs s' = update_job (rj_id rj)
          (\<lambda>j. j\<lparr>reserved_at := None, available_at := unix (t + retry_after c)\<rparr>) (jobs s1))"
    by (cases r) (auto dest!: sql_Inr sql_Inl split: if_splits)
  with s1 now(2) show ?thesis
    by (cases r) auto
qed

section \<open>Fair reservation\<close>

text \<open>At some moment between two states no job of queue \<open>q\<close> could be claimed.\<close>

definition idle_queue :: "client \<Rightarrow> string \<Rightarrow> 'z qdb_scheme \<Rightarrow> int \<Rightarrow> bool" where
  "idle_queue c q s t \<longleftrightarrow> select_job [q] (row_locks s) (unix t)
     (release_stale (unix t) (unix t - reservation_timeout c div second) (jobs s)) = None"

lemma reserve_None_idle:
  assumes "reserveFromQueues c [q] s = (Inr None, s')"
  shows "jobs s' = jobs s \<and> row_locks s' = row_locks s \<and> clock s \<le> clock s' \<and> idle_queue c q s (clock s')"
proof -
  obtain t s1 where now: "go_now s = (Inr t, s1)" "clock s \<le> t"
    and s1: "jobs s1 = jobs s" "row_locks s1 = row_locks s" "clock s1 = t"
    by (cases "delays s") (auto simp: go_now_def)
  from assms now have tx: "with_tx (reserve_body c [q] (unix t)) s1 = (Inr None, s')"
    by (auto simp: reserveFromQueues_def go_simps split: prod.splits sum.splits option.splits)
  have "clock s' = t" using reserve_clock [OF tx] s1 by simp
  with tx now(2) s1 show ?thesis
    by (cases rule: with_tx_Inr) (auto dest!: reserve_body_Inr simp: rollback_def idle_queue_def)
qed

lemma idle_queue_frame:
  "jobs s1 = jobs s \<Longrightarrow> row_locks s1 = row_locks s \<Longrightarrow> idle_queue c q s1 t = idle_queue c q s t"
  by (simp add: idle_queue_def)

lemma reserve_fair_unfold:
  assumes "i < length qs" "reserve_fair_loop c qs k i s = (Inr (found, n), s')"
  obtains (hit) rj where "found = Some rj" "n = ((k + i) mod length qs + 1) mod length qs"
      "rj_queue rj = qs ! ((k + i) mod length qs)" "reserveFromQueues c [qs ! ((k + i) mod length qs)] s = (Inr (Some rj), s')"
  | (miss) s1 where "reserve_fair_loop c qs k (Suc i) s1 = (Inr (found, n), s')" "jobs s1 = jobs s"
      "row_locks s1 = row_locks s" "clock s \<le> clock s1" "idle_queue c (qs ! ((k + i) mod length qs)) s (clock s1)"
proof -
  let ?q = "qs ! ((k + i) mod length qs)"
  obtain r1 s1 where res: "reserveFromQueues c [?q] s = (r1, s1)" by fastforce
  have run: "(case r1 of Inl e \<Rightarrow> (Inl e, s1)
      | Inr None \<Rightarrow> reserve_fair_loop c qs k (Suc i) s1
      | Inr (Some j) \<Rightarrow> (Inr (Some j, ((k + i) mod length qs + 1) mod length qs), s1)) = (Inr (found, n), s')"
    using assms res
    by (subst (asm) reserve_fair_loop.simps) (auto simp: Let_def go_simps split: sum.splits option.splits)
  then consider (none) "r1 = Inr None" | (some) rj where "r1 = Inr (Some rj)"
    by (cases r1) (auto split: option.splits)
  then show thesis
  proof cases
    case none
    with run res reserve_None_idle [of c ?q s s1] miss [of s1] show thesis by simp
  next
    case (some rj)
    with res obtain t j p where cl: "claimed c [?q] (unix t) j s s1" and rj: "rj = reserved_of j p"
      by (metis reserve_Some)
    from cl have "claimable [?q] (row_locks s) (unix t) j"
      unfolding claimed_def Let_def by (blast dest: select_job_Some(2))
    with rj have "rj_queue rj = ?q" by (simp add: reserved_of_def claimable_def)
    with run res some hit [of rj] show thesis by simp
  qed
qed

lemma idle_extend:
  assumes "\<forall>l. Suc i \<le> l \<longrightarrow> l < m \<longrightarrow> (\<exists>t \<ge> (b::int). P l t)" "a \<le> b" "P i b"
  shows "\<forall>l. i \<le> l \<longrightarrow> l < m \<longrightarrow> (\<exists>t \<ge> a. P l t)"
proof (intro allI impI)
  fix l assume l: "i \<le> l" "l < m"
  show "\<exists>t \<ge> a. P l t"
  proof (cases "l = i")
    case True
    with assms(2,3) show ?thesis by blast
  next
    case False
    with l have "Suc i \<le> l" by simp
    with assms(1) l(2) obtain t where "b \<le> t" "P l t" by blast
    with assms(2) show ?thesis by (intro exI [of _ t]) simp
  qed
qed

text \<open>Which queue the rotation serves, and what is known of the queues it passed over.\<close>

lemma reserve_fair_Some:
  assumes "reserve_fair_loop c qs k i s = (Inr (Some rj, n), s')"
  shows "\<exists>m. i \<le> m \<and> m < length qs \<and> n = ((k + m) mod length qs + 1) mod length qs \<and>
     rj_queue rj = qs ! ((k + m) mod length qs) \<and>
     (\<forall>l. i \<le> l \<longrightarrow> l < m \<longrightarrow> (\<exists>t \<ge> clock s. idle_queue c (qs ! ((k + l) mod length qs)) s t))"
  using assms
proof (induction "length qs - i" arbitrary: i s)
  case 0
  then show ?case by (simp add: reserve_fair_loop.simps [of c qs k i] go_simps)
next
  case (Suc d)
  then have lt: "i < length qs" by simp
  from lt Suc.prems show ?case
  proof (cases rule: reserve_fair_unfold)
    case (hit rj')
    with lt show ?thesis by (intro exI [of _ i]) auto
  next
    case (miss s1)
    have d: "d = length qs - Suc i" using Suc.hyps(2) by simp
    from Suc.hyps(1) [OF d miss(1)] obtain m where m: "Suc i \<le> m" "m < length qs"
      "n = ((k + m) mod length qs + 1) mod length qs" "rj_queue rj = qs ! ((k + m) mod length qs)"
      "\<forall>l. Suc i \<le> l \<longrightarrow> l < m \<longrightarrow> (\<exists>t \<ge> clock s1. idle_queue c (qs ! ((k + l) mod length qs)) s t)"
      unfolding idle_queue_frame [OF miss(2,3)] by blast
    have "\<forall>l. i \<le> l \<longrightarrow> l < m \<longrightarrow> (\<exists>t \<ge> clock s. idle_queue c (qs ! ((k + l) mod length qs)) s t)"
      by (rule idle_extend [OF m(5) miss(4,5)])
    with m(1-4) show ?thesis by (intro exI [of _ m]) auto
  qed
qed

lemma reserve_fair_None:
  assumes "reserve_fair_loop c qs k i s = (Inr (None, n), s')"
  shows "n = k \<and> jobs s' = jobs s \<and> row_locks s' = row_locks s \<and> clock s \<le> clock s' \<and>
     (\<forall>l. i \<le> l \<longrightarrow> l < length qs \<longrightarrow> (\<exists>t \<ge> clock s. idle_queue c (qs ! ((k + l) mod length qs)) s t))"
  using assms
proof (induction "length qs - i" arbitrary: i s)
  case 0
  then show ?case by (auto simp: reserve_fair_loop.simps [of c qs k i] go_simps)
next
  case (Suc d)
  then have lt: "i < length qs" by simp
  from lt Suc.prems show ?case
  proof (cases rule: reserve_fair_unfold)
    case (miss s1)
    have d: "d = length qs - Suc i" using Suc.hyps(2) by simp
    from Suc.hyps(1) [OF d miss(1)] have IH: "n = k" "jobs s' = jobs s1" "row_locks s' = row_locks s1" "clock s1 \<le> clock s'"
      "\<forall>l. Suc i \<le> l \<longrightarrow> l < length qs \<longrightarrow> (\<exists>t \<ge> clock s1. idle_queue c (qs ! ((k + l) mod length qs)) s t)"
      unfolding idle_queue_frame [OF miss(2,3)] by blast+
    have "\<forall>l. i \<le> l \<longrightarrow> l < length qs \<longrightarrow> (\<exists>t \<ge> clock s. idle_queue c (qs ! ((k + l) mod length qs)) s t)"
      by (rule idle_extend [OF IH(5) miss(4,5)])
    with IH miss(2-4) show ?thesis by auto
  qed auto
qed

lemma complete_times_pend_ge:
  assumes "queue_inv s"
  shows "pend bid s - int n \<le> pend bid (complete_times c bid q n s)"
  using assms
proof (induction c bid q n s rule: complete_times.induct)
  case (2 c bid q n s)
  let ?s1 = "snd (CompleteBatchJob c bid q [] None s)"
  have "queue_inv ?s1"
    using keepsD [OF keeps_CompleteBatchJob, of "next_job_id s" s c bid q "[]" None] "2.prems"
    by (simp add: queue_inv_from_def)
  moreover have "pend bid s - 1 \<le> pend bid ?s1"
    using complete_run [OF "2.prems" prod.collapse [symmetric], of bid c q "[]" None] by auto
  ultimately show ?case using "2.IH" by simp
qed simp

section \<open>Properties of the queue\<close>

text \<open>A small queue for the witnesses: job 1 is reserved since second 1000, job 2 is free, a batch of
  two jobs is open.\<close>

definition demo_client :: client where
  "demo_client = NewClient [] [] (60 * second) (300 * second)"

definition demo_queue :: qdb where
  "demo_queue = \<lparr>clock = 1100 * second, delays = [], faults = [],
     jobs = [\<lparr>job_id = 1, job_queue = ''mls'', job_payload = MarshalPayload ''a'' None, job_attempts = 1,
               reserved_at = Some 1000, available_at = 900, job_created_at = 900\<rparr>,
             \<lparr>job_id = 2, job_queue = ''mls'', job_payload = MarshalPayload ''b'' None, job_attempts = 0,
               reserved_at = None, available_at = 950, job_created_at = 950\<rparr>],
     failed_jobs = [],
     job_batches = [\<lparr>batch_id = ''B'', batch_name = ''page'', total_jobs = 2, pending_jobs = 2,
       batch_options = Some (encode_on_complete \<lparr>oc_queue = ''mls'', oc_type = ''fin'', oc_args = None\<rparr>),
       batch_created_at = 900, batch_finished_at = None\<rparr>],
     next_job_id = 3, notified = [], row_locks = [], uuid_gen = (\<lambda>n. replicate (Suc n) CHR ''u''),
     uuid_next = 0\<rparr>"

definition demo_reserved :: reserved_job where
  "demo_reserved = \<lparr>rj_id = 1, rj_queue = ''mls'', rj_payload = \<lparr>payload_type = ''a'', payload_args = None\<rparr>,
     rj_raw = MarshalPayload ''a'' None, rj_attempts = 1\<rparr>"

lemma demo_queue_inv: "queue_inv demo_queue"
  by (simp add: demo_queue_def queue_inv_def)


lemma demo_reserve:
  "reserveFromQueues demo_client [''mls''] demo_queue =
     (Inr (Some \<lparr>rj_id = 2, rj_queue = ''mls'', rj_payload = \<lparr>payload_type = ''b'', payload_args = None\<rparr>,
         rj_raw = MarshalPayload ''b'' None, rj_attempts = 1\<rparr>),
      demo_queue\<lparr>jobs := update_job 2 (\<lambda>j. j\<lparr>reserved_at := Some 1100, job_attempts := 1\<rparr>) (jobs demo_queue)\<rparr>)"
  by (simp add: reserveFromQueues_def go_simps go_now_def with_tx_def reserve_body_def Let_def sql_nil
      demo_queue_def demo_client_def NewClient_def second_def unix_def int4_ok_def int2_ok_def
      release_stale_def select_job_def claimable_def claim_job_def update_job_def UnmarshalPayload_Marshal
      reserved_of_def)


text \<open>(C27) A reserve that hands out a job hands out the oldest claimable one: after stale reservations
  are released, the job has the least id among the unreserved, available and unlocked jobs of the
  queues asked for; it is marked reserved at the current second with one more attempt, every other
  job is unchanged, and the handed-out value is the row's own.\<close>

theorem reserve_oldest_claimable:
  assumes "reserveFromQueues c qs s = (Inr (Some rj), s')"
  shows "\<exists>t \<ge> clock s. \<exists>j. let now = unix t; js = release_stale now (now - reservation_timeout c div second) (jobs s) in
     j \<in> set js \<and> claimable qs (row_locks s) now j \<and>
     (\<forall>k \<in> set js. claimable qs (row_locks s) now k \<longrightarrow> job_id j \<le> job_id k) \<and>
     jobs s' = update_job (job_id j) (\<lambda>j. j\<lparr>reserved_at := Some now, job_attempts := job_attempts j + 1\<rparr>) js \<and>
     rj_id rj = job_id j \<and> rj_queue rj = job_queue j \<and> rj_raw rj = job_payload j \<and>
     UnmarshalPayload (job_payload j) = Some (rj_payload rj) \<and> rj_attempts rj = job_attempts j + 1"
proof -
  obtain t j p where c: "clock s \<le> t" "claimed c qs (unix t) j s s'" "UnmarshalPayload (job_payload j) = Some p"
      "rj = reserved_of j p"
    using assms by (rule reserve_Some)
  let ?js = "release_stale (unix t) (unix t - reservation_timeout c div second) (jobs s)"
  from c(2) have sel: "select_job qs (row_locks s) (unix t) ?js = Some j"
    by (simp add: claimed_def Let_def)
  show ?thesis
    using c select_job_Some [OF sel]
    by (intro exI [of _ t] conjI exI [of _ j]) (simp_all add: claimed_def Let_def reserved_of_def)
qed

theorem reserve_oldest_claimable_witness:
  "\<exists>t \<ge> 1100 * second. \<exists>j. let now = unix t; js = release_stale now (now - 300) (jobs demo_queue) in
     j \<in> set js \<and> claimable [''mls''] [] now j \<and> job_id j = 2"
  using reserve_oldest_claimable [OF demo_reserve]
  by (fastforce simp: Let_def demo_queue_def demo_client_def NewClient_def second_def)

text \<open>Retries are bounded: releasing a job that has used its attempts records it in
  \<^verbatim>\<open>failed_jobs\<close> with its payload, queue and error and removes it from the table; any earlier release
  makes the job available again no sooner than \<^verbatim>\<open>retryAfter\<close> from now and touches nothing else.\<close>

theorem release_bounded_retries:
  assumes "Release c rj m e s = (Inr (), s')"
  shows "(m \<le> rj_attempts rj \<longrightarrow> jobs s' = filter (\<lambda>j. job_id j \<noteq> rj_id rj) (jobs s) \<and>
       (\<exists>f. failed_jobs s' = failed_jobs s @ [f] \<and> failed_payload f = rj_raw rj \<and>
            failed_queue f = rj_queue rj \<and> failed_exception f = err_text e)) \<and>
     (rj_attempts rj < m \<longrightarrow> failed_jobs s' = failed_jobs s \<and>
       (\<exists>t \<ge> clock s. jobs s' = update_job (rj_id rj)
          (\<lambda>j. j\<lparr>reserved_at := None, available_at := unix (t + retry_after c)\<rparr>) (jobs s)))"
proof (cases "m \<le> rj_attempts rj")
  case True
  with assms have "Fail rj e s = (Inr (), s')" by (simp add: Release_def)
  then show ?thesis using True by (cases rule: Fail_run) auto
next
  case False
  with Release_run [OF assms] show ?thesis by simp
qed

theorem release_bounded_retries_witness:
  "jobs (snd (Release demo_client demo_reserved 1 DbErr demo_queue)) = filter (\<lambda>j. job_id j \<noteq> 1) (jobs demo_queue)"
proof -
  have "Release demo_client demo_reserved 1 DbErr demo_queue =
      (Inr (), snd (Release demo_client demo_reserved 1 DbErr demo_queue))"
    by (simp add: Release_def Fail_def Delete_def go_simps go_now_def next_uuid_def sql_nil demo_queue_def demo_reserved_def)
  from release_bounded_retries [OF this] show ?thesis by (simp add: demo_reserved_def)
qed

text \<open>(C29) No failing statement loses a job: whatever fails inside \<^verbatim>\<open>Release\<close> (and the \<^verbatim>\<open>Fail\<close> it falls
  into), a job that was in the table is afterwards still in the table or recorded in \<^verbatim>\<open>failed_jobs\<close>.\<close>

theorem release_loses_no_job:
  assumes "\<exists>j \<in> set (jobs s). job_id j = rj_id rj"
  shows "accounted (rj_id rj) (rj_raw rj) (snd (Release c rj m e s))"
proof (cases "m \<le> rj_attempts rj")
  case True
  then have "Release c rj m e s = Fail rj e s" by (simp add: Release_def)
  then show ?thesis
    using assms by (cases rule: Fail_run [of rj e s, OF prod.collapse [symmetric]]) (auto simp: accounted_def)
next
  case False
  obtain r s' where run: "Release c rj m e s = (r, s')" by fastforce
  have "map job_id (jobs s') = map job_id (jobs s)"
    using Release_run [OF run] False by (auto split: sum.splits)
  then have "job_id ` set (jobs s') = job_id ` set (jobs s)" by (metis list.set_map)
  with assms run show ?thesis by (auto simp: accounted_def image_iff) (metis imageI image_iff)
qed

theorem release_loses_no_job_witness:
  "accounted 1 (MarshalPayload ''a'' None)
     (snd (Release demo_client demo_reserved 1 DbErr (demo_queue\<lparr>faults := [False, True]\<rparr>)))"
  using release_loses_no_job [of "demo_queue\<lparr>faults := [False, True]\<rparr>" demo_reserved demo_client 1 DbErr]
  by (simp add: demo_queue_def demo_reserved_def)

text \<open>(C28) Creating a batch is atomic: either the call returns an error and both tables are as they
  were, or the batch row (with all its jobs pending) and exactly one job per entry of the
  specification, in order and carrying the batch's fresh id, were added together.\<close>

theorem enqueue_batch_atomic:
  "case EnqueueBatch c spec s of
     (Inl _, s') \<Rightarrow> jobs s' = jobs s \<and> job_batches s' = job_batches s
   | (Inr bid, s') \<Rightarrow> bs_jobs spec \<noteq> [] \<and> batch_created spec bid s s'"
  using EnqueueBatch_run [of c spec s] by (auto split: prod.splits sum.splits)

text \<open>(C3) A batch announces its completion at most once and never early: after any number of
  completions under any pattern of failing statements, at most one job was added to the table, and
  none while jobs of the batch are still pending.\<close>

theorem batch_completes_at_most_once:
  assumes "queue_inv s"
  shows "(0 < pend bid (complete_times c bid q n s) \<longrightarrow> jobs (complete_times c bid q n s) = jobs s) \<and>
     (\<exists>new. jobs (complete_times c bid q n s) = jobs s @ new \<and> length new \<le> 1)"
  using complete_times_run [OF assms, of bid c q n] by (auto split: if_splits intro: exI [of _ "[]"])

theorem batch_completes_at_most_once_witness:
  "\<exists>new. jobs (complete_times demo_client ''B'' ''mls'' 5 demo_queue) = jobs demo_queue @ new \<and> length new \<le> 1"
  using batch_completes_at_most_once [OF demo_queue_inv, of "''B''" demo_client "''mls''" 5] by blast

text \<open>(C18) A batch whose jobs all complete does announce it: without failing statements, the \<open>n\<close>-th
  completion of a batch with \<open>n\<close> pending jobs enqueues exactly the job that was recorded when the
  batch was created, with its type, arguments and queue intact through the stored JSON.\<close>

theorem batch_completion_fires:
  assumes "no_faults s" "queue_inv s" "clock_fits s" "0 < n"
    and "find (\<lambda>b. batch_id b = bid) (job_batches s) = Some b" "pending_jobs b = int n"
    and "batch_options b = Some (encode_on_complete oc)"
    and "oc_args oc \<noteq> Some JNull" "oc_type oc \<noteq> []" "oc_queue oc \<noteq> []"
  shows "\<exists>t \<ge> clock s. jobs (complete_times c bid q n s) = jobs s @ [\<lparr>job_id = next_job_id s,
     job_queue = oc_queue oc, job_payload = MarshalPayload (oc_type oc) (oc_args oc), job_attempts = 0,
     reserved_at = None, available_at = unix t, job_created_at = unix t\<rparr>]"
  using assms by (rule complete_times_fires)

theorem batch_completion_fires_witness:
  "\<exists>t \<ge> clock demo_queue. jobs (complete_times demo_client ''B'' ''mls'' 2 demo_queue) =
     jobs demo_queue @ [\<lparr>job_id = 3, job_queue = ''mls'', job_payload = MarshalPayload ''fin'' None,
       job_attempts = 0, reserved_at = None, available_at = unix t, job_created_at = unix t\<rparr>]"
  using batch_completion_fires [of demo_queue 2 "''B''" _ "\<lparr>oc_queue = ''mls'', oc_type = ''fin'', oc_args = None\<rparr>",
      OF _ demo_queue_inv]
  by (simp add: demo_queue_def no_faults_def clock_fits_def int4_ok_def unix_def second_def)

text \<open>A batch with a permanently failed job never completes: \<^verbatim>\<open>Fail\<close> does not count the job as
  finished, so when every other job of the batch completes, under any failures, the completion job
  is still not enqueued.\<close>

theorem failed_job_blocks_batch:
  assumes "queue_inv s" and "0 < pend bid s"
  shows "pend bid (snd (Fail rj e s)) = pend bid s \<and>
     (\<forall>n. int n \<le> pend bid s - 1 \<longrightarrow>
        jobs (complete_times c bid q n (snd (Fail rj e s))) = jobs (snd (Fail rj e s)))"
proof -
  let ?s1 = "snd (Fail rj e s)"
  have same: "job_batches ?s1 = job_batches s"
    by (cases rule: Fail_run [of rj e s, OF prod.collapse [symmetric]]) auto
  then have p: "pend bid ?s1 = pend bid s" by (simp add: pend_def)
  have inv: "queue_inv ?s1"
    using keepsD [OF keeps_Fail, of "next_job_id s" s rj e] assms(1) by (simp add: queue_inv_from_def)
  have "jobs (complete_times c bid q n ?s1) = jobs ?s1" if "int n \<le> pend bid s - 1" for n
    using complete_times_pend_ge [OF inv, of bid n c q] complete_times_run [OF inv, of bid c q n] that p
    by (auto split: if_splits)
  with p show ?thesis by blast
qed

theorem failed_job_blocks_batch_witness:
  "pend ''B'' demo_queue = 2 \<and>
   jobs (complete_times demo_client ''B'' ''mls'' 1 (snd (Fail demo_reserved DbErr demo_queue))) =
     jobs (snd (Fail demo_reserved DbErr demo_queue))"
proof -
  have p: "pend ''B'' demo_queue = 2" by (simp add: pend_def demo_queue_def)
  with failed_job_blocks_batch [OF demo_queue_inv, of "''B''" demo_reserved DbErr demo_client "''mls''"]
  show ?thesis by (auto dest: spec [of _ 1])
qed

text \<open>\<^verbatim>\<open>ReserveFair\<close> serves the first queue in rotation order from its start index that has
  anything to claim: the queues it passed over had no claimable job at the moment it looked, the
  returned start index is the one after the queue served, and when it finds nothing every queue was
  idle when looked at, the start index is kept and no job changed.\<close>

theorem reserve_fair_rotation:
  assumes "ReserveFair c qs k s = (Inr (found, n), s')" and "qs \<noteq> []"
  shows "case found of
     Some rj \<Rightarrow> \<exists>m < length qs. rj_queue rj = qs ! ((k + m) mod length qs) \<and>
        n = ((k + m) mod length qs + 1) mod length qs \<and>
        (\<forall>l < m. \<exists>t \<ge> clock s. idle_queue c (qs ! ((k + l) mod length qs)) s t)
   | None \<Rightarrow> n = k \<and> jobs s' = jobs s \<and>
        (\<forall>l < length qs. \<exists>t \<ge> clock s. idle_queue c (qs ! ((k + l) mod length qs)) s t)"
proof (cases found)
  case None
  with assms reserve_fair_None [of c qs k 0 s n s'] show ?thesis by (simp add: ReserveFair_def)
next
  case (Some rj)
  with assms reserve_fair_Some [of c qs k 0 s rj n s'] show ?thesis by (fastforce simp: ReserveFair_def)
qed

theorem reserve_fair_rotation_witness:
  "\<exists>rj n s'. ReserveFair demo_client [''mls'', ''gis''] 0 demo_queue = (Inr (Some rj, n), s') \<and>
     (\<exists>m < 2. rj_queue rj = [''mls'', ''gis''] ! (m mod 2) \<and> n = (m mod 2 + 1) mod 2)"
proof -
  define r where "r = \<lparr>rj_id = 2, rj_queue = ''mls'', rj_payload = \<lparr>payload_type = ''b'', payload_args = None\<rparr>,
         rj_raw = MarshalPayload ''b'' None, rj_attempts = 1\<rparr>"
  obtain s' where "ReserveFair demo_client [''mls'', ''gis''] 0 demo_queue = (Inr (Some r, 1), s')"
    by (simp add: ReserveFair_def reserve_fair_loop.simps [of _ _ 0 0] demo_reserve go_simps r_def)
  then show ?thesis using reserve_fair_rotation [OF \<open>ReserveFair _ _ _ _ = _\<close>]
    by (intro exI [of _ r] exI [of _ 1] exI [of _ s']) (auto simp: numeral_2_eq_2)
qed

text \<open>The INT columns end in January 2038: from second 2147483648 on, enqueueing always returns
  an error and adds nothing.\<close>

theorem enqueue_fails_after_2038:
  assumes "2147483647 < unix (clock s)"
  shows "\<exists>s'. Enqueue c q ty a d s = (Inl DbErr, s') \<and> jobs s' = jobs s"
proof -
  obtain t s1 where now: "go_now s = (Inr t, s1)" "clock s \<le> t" and s1: "jobs s1 = jobs s"
    by (cases "delays s") (auto simp: go_now_def)
  then have "\<not> int4_ok (unix t)"
    using assms zdiv_mono1 [of "clock s" t second] by (auto simp: int4_ok_def unix_def)
  then obtain s2 where "insert_job q (MarshalPayload ty a) (if d > 0 then unix t + d div second else unix t) (unix t) s1 =
      (Inl DbErr, s2)" "jobs s2 = jobs s1"
    by (metis insert_job_rejected)
  then have "Enqueue c q ty a d s = (Inl DbErr, s2) \<and> jobs s2 = jobs s"
    using now s1 by (simp add: Enqueue_def go_simps Let_def)
  then show ?thesis by blast
qed

theorem enqueue_fails_after_2038_witness:
  "\<exists>s'. Enqueue demo_client ''mls'' ''a'' None 0 (demo_queue\<lparr>clock := 2147483648 * second\<rparr>) = (Inl DbErr, s') \<and>
     jobs s' = jobs demo_queue"
  using enqueue_fails_after_2038 [of "demo_queue\<lparr>clock := 2147483648 * second\<rparr>" demo_client "''mls''" "''a''" None 0]
  by (simp add: unix_def second_def)

end
