(* ===== verification/Queue_Worker.thy ===== *)
theory Queue_Worker
  imports Job_Queue
begin

text \<open>
  The worker loop (\<^verbatim>\<open>internal/queue/worker.go\<close>, \<^verbatim>\<open>worker_queues.go\<close>): how a worker chooses the next
  job from its queues, dispatches it to its handler and settles it. \<open>run_once\<close> is one turn of the
  loop in \<^verbatim>\<open>Run\<close>; waiting for a tick or a notification between turns changes no state and is the
  passing of time. Handlers are functions from the reserved job to an operation on the same state.

  The choice among pools of queues is written over a \<open>reserve\<close> argument, which is
  \<^verbatim>\<open>client.ReserveFair\<close>; the locale \<open>fair_source\<close> states what the worker relies on, and the queue
  client is shown to provide it.
\<close>

section \<open>State\<close>

record worker =
  w_queues :: "string list"
  w_max_attempts :: int
  fair_queue_cursor :: nat
  fair_fetch_cursor :: nat
  fair_persist_cursor :: nat
  fair_other_cursor :: nat
  fair_pool_cursor :: nat

type_synonym ('s) handlers = "string \<Rightarrow> (reserved_job \<Rightarrow> ('s, unit) go) option"

datatype pool = FetchPool | PersistPool | OtherPool

definition NewWorker :: "string list \<Rightarrow> worker" where
  "NewWorker queues = \<lparr>w_queues = queues, w_max_attempts = 3, fair_queue_cursor = 0,
     fair_fetch_cursor = 0, fair_persist_cursor = 0, fair_other_cursor = 0, fair_pool_cursor = 0\<rparr>"

definition Register :: "string \<Rightarrow> (reserved_job \<Rightarrow> ('s, unit) go) \<Rightarrow> 's handlers \<Rightarrow> 's handlers" where
  "Register typ fn hs = hs(typ := Some fn)"

section \<open>Choosing the next job\<close>

fun partition_loop ::
  "string list \<times> string list \<times> string list \<Rightarrow> string list \<Rightarrow> string list \<times> string list \<times> string list" where
  "partition_loop acc [] = acc"
| "partition_loop (fetch, persist, other) (q # qs) =
     (if has_suffix q ''-sync-fetch'' then partition_loop (fetch @ [q], persist, other) qs
      else if has_suffix q ''-sync-persist'' then partition_loop (fetch, persist @ [q], other) qs
      else partition_loop (fetch, persist, other @ [q]) qs)"

definition partitionWorkerQueues :: "string list \<Rightarrow> string list \<times> string list \<times> string list" where
  "partitionWorkerQueues queues = partition_loop ([], [], []) queues"

definition pool_cursor :: "pool \<Rightarrow> worker \<Rightarrow> nat" where
  "pool_cursor p w = (case p of FetchPool \<Rightarrow> fair_fetch_cursor w | PersistPool \<Rightarrow> fair_persist_cursor w
     | OtherPool \<Rightarrow> fair_other_cursor w)"

definition set_pool_cursor :: "pool \<Rightarrow> nat \<Rightarrow> worker \<Rightarrow> worker" where
  "set_pool_cursor p n w = (case p of FetchPool \<Rightarrow> w\<lparr>fair_fetch_cursor := n\<rparr>
     | PersistPool \<Rightarrow> w\<lparr>fair_persist_cursor := n\<rparr> | OtherPool \<Rightarrow> w\<lparr>fair_other_cursor := n\<rparr>)"

function pool_loop ::
  "(string list \<Rightarrow> nat \<Rightarrow> ('s, 'j option \<times> nat) go) \<Rightarrow> (pool \<times> string list) list \<Rightarrow> nat \<Rightarrow> worker \<Rightarrow>
   ('s, 'j option \<times> worker) go" where
  "pool_loop reserve pools i w =
     (if i < length pools
      then let idx = (fair_pool_cursor w + i) mod length pools; (p, q) = pools ! idx in
        if q = [] then pool_loop reserve pools (Suc i) w
        else go_bind (reserve q (pool_cursor p w)) (\<lambda>r.
          let w' = set_pool_cursor p (snd r) w in
          case fst r of
            Some job \<Rightarrow> go_ret (Some job, w'\<lparr>fair_pool_cursor := (idx + 1) mod length pools\<rparr>)
          | None \<Rightarrow> pool_loop reserve pools (Suc i) w')
      else go_ret (None, w))"
  by pat_completeness auto
termination
  by (relation "measure (\<lambda>(reserve, pools, i, w). length pools - i)") auto

declare pool_loop.simps [simp del]

definition worker_pools :: "string list \<Rightarrow> string list \<Rightarrow> string list \<Rightarrow> (pool \<times> string list) list" where
  "worker_pools fetchQ persistQ otherQ =
     [(FetchPool, fetchQ), (PersistPool, persistQ)] @ (if otherQ \<noteq> [] then [(OtherPool, otherQ)] else [])"

definition reserveWeighted ::
  "client \<Rightarrow> string list \<Rightarrow> string list \<Rightarrow> string list \<Rightarrow> worker \<Rightarrow> ('z qdb_scheme, reserved_job option \<times> worker) go" where
  "reserveWeighted c fetchQ persistQ otherQ w =
     pool_loop (ReserveFair c) (worker_pools fetchQ persistQ otherQ) 0 w"

definition reserveNext :: "client \<Rightarrow> worker \<Rightarrow> ('z qdb_scheme, reserved_job option \<times> worker) go" where
  "reserveNext c w =
     (if length (w_queues w) \<le> 1
      then go_bind (Reserve c (w_queues w)) (\<lambda>job. go_ret (job, w))
      else case partitionWorkerQueues (w_queues w) of (fetchQ, persistQ, otherQ) \<Rightarrow>
        if fetchQ \<noteq> [] \<and> persistQ \<noteq> [] then reserveWeighted c fetchQ persistQ otherQ w
        else go_bind (ReserveFair c (w_queues w) (fair_queue_cursor w)) (\<lambda>r.
          go_ret (fst r, w\<lparr>fair_queue_cursor := snd r\<rparr>)))"

section \<open>Processing\<close>

definition process :: "'s handlers \<Rightarrow> reserved_job \<Rightarrow> ('s, unit) go" where
  "process hs job =
     (if payload_type (rj_payload job) = [] \<and> IsLegacyLaravelPayload (rj_raw job) then go_ret ()
      else case hs (payload_type (rj_payload job)) of
        None \<Rightarrow> go_fail (Err (''unknown job type '' @ payload_type (rj_payload job)))
      | Some fn \<Rightarrow> fn job)"

text \<open>The batch id in the job's arguments, when they decode to the wrapper.\<close>

definition wrapper_batch_id :: "json option \<Rightarrow> string" where
  "wrapper_batch_id args = (case args of None \<Rightarrow> []
     | Some a \<Rightarrow> (case struct_fields (RawJson a) of None \<Rightarrow> []
        | Some kvs \<Rightarrow> (case decode_field dec_string [] ''batch_id'' kvs of None \<Rightarrow> [] | Some b \<Rightarrow> b)))"

definition handleBatchComplete :: "client \<Rightarrow> reserved_job \<Rightarrow> ('z qdb_scheme, unit) go" where
  "handleBatchComplete c job =
     (let b = wrapper_batch_id (payload_args (rj_payload job)) in
      if b = [] then go_ret () else go_ignore (CompleteBatchJob c b (rj_queue job) [] None))"

definition settle :: "client \<Rightarrow> worker \<Rightarrow> reserved_job \<Rightarrow> go_error + unit \<Rightarrow> ('z qdb_scheme, unit) go" where
  "settle c w job outcome = (case outcome of
      Inl e \<Rightarrow> go_ignore (Release c job (w_max_attempts w) e)
    | Inr _ \<Rightarrow> go_bind (go_ignore (Delete (rj_id job))) (\<lambda>_. handleBatchComplete c job))"

text \<open>One turn of the loop in \<^verbatim>\<open>Run\<close>. It returns what it reserved and the worker with its cursors; a
  failed reserve leaves the worker as it was and is retried after the poll interval.\<close>

definition run_once ::
  "client \<Rightarrow> 'z qdb_scheme handlers \<Rightarrow> worker \<Rightarrow> ('z qdb_scheme, reserved_job option \<times> worker) go" where
  "run_once c hs w = go_bind (go_try (reserveNext c w)) (\<lambda>r. case r of
      Inl _ \<Rightarrow> go_ret (None, w)
    | Inr (None, w') \<Rightarrow> go_ret (None, w')
    | Inr (Some job, w') \<Rightarrow>
        go_bind (go_try (process hs job)) (\<lambda>outcome.
        go_bind (settle c w' job outcome) (\<lambda>_. go_ret (Some job, w'))))"

section \<open>What the worker relies on\<close>

text \<open>A source of jobs that can be asked for a list of queues from a start index. \<open>stays s s'\<close>: what can
  be claimed did not change from \<open>s\<close> to \<open>s'\<close>.\<close>

locale fair_source =
  fixes reserve :: "string list \<Rightarrow> nat \<Rightarrow> ('s, 'j option \<times> nat) go"
    and queue_of :: "'j \<Rightarrow> string"
    and idle :: "string \<Rightarrow> 's \<Rightarrow> bool"
    and stays :: "'s \<Rightarrow> 's \<Rightarrow> bool"
  assumes found: "qs \<noteq> [] \<Longrightarrow> reserve qs k s = (Inr (Some j, n), s') \<Longrightarrow> queue_of j \<in> set qs"
    and none_found: "qs \<noteq> [] \<Longrightarrow> reserve qs k s = (Inr (None, n), s') \<Longrightarrow>
       n = k \<and> stays s s' \<and> (\<forall>q \<in> set qs. idle q s)"
    and stays_idle: "stays s s' \<Longrightarrow> idle q s' \<Longrightarrow> idle q s"
    and stays_refl: "stays s s"
    and stays_trans: "stays s s' \<Longrightarrow> stays s' s'' \<Longrightarrow> stays s s''"
begin

definition pools_idle :: "(pool \<times> string list) list \<Rightarrow> nat \<Rightarrow> nat \<Rightarrow> nat \<Rightarrow> 's \<Rightarrow> bool" where
  "pools_idle pools k i m s \<longleftrightarrow>
     (\<forall>l. i \<le> l \<longrightarrow> l < m \<longrightarrow> (\<forall>q \<in> set (snd (pools ! ((k + l) mod length pools))). idle q s))"

lemma set_cursor_same: "set_pool_cursor p (pool_cursor p w) w = w"
  by (cases p) (auto simp: set_pool_cursor_def pool_cursor_def)

lemma pool_loop_step:
  assumes "i < length pools" "pool_loop reserve pools i w s = (Inr (r, w'), s')"
  obtains (hit) j where "r = Some j" "queue_of j \<in> set (snd (pools ! ((fair_pool_cursor w + i) mod length pools)))"
      "fair_pool_cursor w' = ((fair_pool_cursor w + i) mod length pools + 1) mod length pools"
  | (miss) s1 where "pool_loop reserve pools (Suc i) w s1 = (Inr (r, w'), s')" "stays s s1"
      "\<forall>q \<in> set (snd (pools ! ((fair_pool_cursor w + i) mod length pools))). idle q s"
proof -
  obtain p qs where pq: "pools ! ((fair_pool_cursor w + i) mod length pools) = (p, qs)" by fastforce
  note run = assms(2) [unfolded pool_loop.simps [of reserve pools i w]]
  show thesis
  proof (cases "qs = []")
    case True
    with run assms(1) pq miss [of s] stays_refl show thesis by (simp add: Let_def)
  next
    case False
    obtain r1 s1 where res: "reserve qs (pool_cursor p w) s = (r1, s1)" by fastforce
    with run assms(1) pq False have "r1 \<noteq> Inl e" for e by (auto simp: Let_def go_simps)
    then obtain job n where r1: "r1 = Inr (job, n)" by (cases r1) auto
    show thesis
    proof (cases job)
      case None
      with res r1 have "reserve qs (pool_cursor p w) s = (Inr (None, n), s1)" by simp
      from none_found [OF False this]
      have *: "n = pool_cursor p w" "stays s s1" "\<forall>q \<in> set qs. idle q s" by simp_all
      with run assms(1) pq False res r1 None have "pool_loop reserve pools (Suc i) w s1 = (Inr (r, w'), s')"
        by (simp add: Let_def go_simps set_cursor_same)
      with * pq miss [of s1] show thesis by simp
    next
      case (Some j)
      have "fair_pool_cursor (set_pool_cursor p n w\<lparr>fair_pool_cursor := x\<rparr>) = x" for x
        by simp
      with run assms(1) pq False res r1 Some have "r = Some j"
          "fair_pool_cursor w' = ((fair_pool_cursor w + i) mod length pools + 1) mod length pools"
        by (auto simp: Let_def go_simps)
      moreover have "reserve qs (pool_cursor p w) s = (Inr (Some j, n), s1)" using res r1 Some by simp
      from found [OF False this] have "queue_of j \<in> set qs" .
      ultimately show thesis using pq hit [of j] by simp
    qed
  qed
qed

lemma pools_idle_step:
  assumes "pools_idle pools k (Suc i) m s1" "stays s s1"
    "\<forall>q \<in> set (snd (pools ! ((k + i) mod length pools))). idle q s"
  shows "pools_idle pools k i m s"
  unfolding pools_idle_def
proof (intro allI impI)
  fix l assume l: "i \<le> l" "l < m"
  show "\<forall>q \<in> set (snd (pools ! ((k + l) mod length pools))). idle q s"
  proof (cases "l = i")
    case True
    with assms(3) show ?thesis by simp
  next
    case False
    with l have "Suc i \<le> l" by simp
    with assms(1,2) l(2) stays_idle show ?thesis unfolding pools_idle_def by blast
  qed
qed

lemma pool_loop_Some:
  assumes "pool_loop reserve pools i w s = (Inr (Some j, w'), s')"
  shows "\<exists>m. i \<le> m \<and> m < length pools \<and>
     queue_of j \<in> set (snd (pools ! ((fair_pool_cursor w + m) mod length pools))) \<and>
     fair_pool_cursor w' = ((fair_pool_cursor w + m) mod length pools + 1) mod length pools \<and>
     pools_idle pools (fair_pool_cursor w) i m s"
  using assms
proof (induction "length pools - i" arbitrary: i s)
  case 0
  then show ?case by (simp add: pool_loop.simps [of reserve pools i w] go_simps)
next
  case (Suc d)
  then have lt: "i < length pools" and d: "d = length pools - Suc i" by simp_all
  from lt Suc.prems show ?case
  proof (cases rule: pool_loop_step)
    case (hit k)
    with lt show ?thesis by (intro exI [of _ i]) (auto simp: pools_idle_def)
  next
    case (miss s1)
    from Suc.hyps(1) [OF d miss(1)] obtain m where m: "Suc i \<le> m" "m < length pools"
      "queue_of j \<in> set (snd (pools ! ((fair_pool_cursor w + m) mod length pools)))"
      "fair_pool_cursor w' = ((fair_pool_cursor w + m) mod length pools + 1) mod length pools"
      "pools_idle pools (fair_pool_cursor w) (Suc i) m s1" by blast
    with pools_idle_step [OF m(5) miss(2,3)] show ?thesis by (intro exI [of _ m]) auto
  qed
qed

lemma pool_loop_None:
  assumes "pool_loop reserve pools i w s = (Inr (None, w'), s')"
  shows "w' = w \<and> stays s s' \<and> pools_idle pools (fair_pool_cursor w) i (length pools) s"
  using assms
proof (induction "length pools - i" arbitrary: i s)
  case 0
  then show ?case by (auto simp: pool_loop.simps [of reserve pools i w] go_simps pools_idle_def stays_refl)
next
  case (Suc d)
  then have lt: "i < length pools" and d: "d = length pools - Suc i" by simp_all
  from lt Suc.prems show ?case
  proof (cases rule: pool_loop_step)
    case (miss s1)
    from Suc.hyps(1) [OF d miss(1)] pools_idle_step [OF _ miss(2,3)] miss(2) stays_trans
    show ?thesis by blast
  qed auto
qed

end

section \<open>The queue client is such a source\<close>

definition idle_from :: "client \<Rightarrow> string \<Rightarrow> 'z qdb_scheme \<Rightarrow> bool" where
  "idle_from c q s \<longleftrightarrow> (\<exists>t \<ge> clock s. idle_queue c q s t)"

definition table_stays :: "'z qdb_scheme \<Rightarrow> 'z qdb_scheme \<Rightarrow> bool" where
  "table_stays s s' \<longleftrightarrow> jobs s' = jobs s \<and> row_locks s' = row_locks s \<and> clock s \<le> clock s'"

interpretation client_source: fair_source "ReserveFair c" rj_queue "idle_from c" table_stays for c
proof unfold_locales
  fix qs k n and s s' :: "'z qdb_scheme" and j
  assume "qs \<noteq> []" "ReserveFair c qs k s = (Inr (Some j, n), s')"
  with reserve_fair_Some [of c qs k 0 s j n s'] obtain m where "rj_queue j = qs ! ((k + m) mod length qs)"
    by (auto simp: ReserveFair_def)
  with \<open>qs \<noteq> []\<close> show "rj_queue j \<in> set qs" by simp
next
  fix qs k n and s s' :: "'z qdb_scheme"
  assume qs: "qs \<noteq> []" and "ReserveFair c qs k s = (Inr (None, n), s')"
  with reserve_fair_None [of c qs k 0 s n s'] have *: "n = k" "table_stays s s'"
    "\<forall>l < length qs. idle_from c (qs ! ((k + l) mod length qs)) s"
    by (auto simp: ReserveFair_def table_stays_def idle_from_def)
  have "idle_from c q s" if "q \<in> set qs" for q
  proof -
    from that obtain i where i: "i < length qs" "qs ! i = q" by (auto simp: in_set_conv_nth)
    obtain l where "l < length qs" "(k + l) mod length qs = i" using rotation_surj [OF i(1)] .
    with *(3) i(2) show ?thesis by blast
  qed
  with * show "n = k \<and> table_stays s s' \<and> (\<forall>q \<in> set qs. idle_from c q s)" by blast
next
  fix s s' :: "'z qdb_scheme" and q
  assume st: "table_stays s s'" and "idle_from c q s'"
  then obtain t where "clock s' \<le> t" "idle_queue c q s' t" by (auto simp: idle_from_def)
  with st idle_queue_frame [of s' s c q t] show "idle_from c q s"
    unfolding idle_from_def table_stays_def by (intro exI [of _ t]) auto
qed (auto simp: table_stays_def)

lemma partition_loop_set:
  "partition_loop (f, p, r) qs = (f', p', r') \<Longrightarrow>
   set f' \<union> set p' \<union> set r' = set f \<union> set p \<union> set r \<union> set qs"
proof (induction "(f, p, r)" qs arbitrary: f p r rule: partition_loop.induct)
  case (2 f p r q qs)
  then show ?case by (auto split: if_splits)
qed simp

lemma keeps_pool_loop:
  assumes "\<And>q k. keeps P (reserve q k)"
  shows "keeps P (pool_loop reserve pools i w)"
proof (induction "length pools - i" arbitrary: i w)
  case 0
  then show ?case by (simp add: pool_loop.simps [of reserve pools i w] keeps_ret)
next
  case (Suc d)
  then have "keeps P (pool_loop reserve pools (Suc i) w')" for w' by simp
  with assms show ?case
    by (subst pool_loop.simps)
      (auto simp: Let_def intro!: keeps_bind keeps_case_option split: prod.split)
qed

lemma keeps_reserveNext [intro!]: "keeps (queue_inv_from n) (reserveNext c w)"
  unfolding reserveNext_def reserveWeighted_def Reserve_def
  by (auto intro!: keeps_bind keeps_pool_loop split: prod.splits)

lemma keeps_settle [intro!]: "keeps (queue_inv_from n) (settle c w job r)"
  unfolding settle_def handleBatchComplete_def Let_def
  by (auto intro!: keeps_bind keeps_ignore split: sum.splits)

lemma keeps_process:
  assumes "\<And>ty h job. hs ty = Some h \<Longrightarrow> keeps P (h job)"
  shows "keeps P (process hs job)"
  unfolding process_def using assms by (auto split: option.splits)

lemma reserveNext_None:
  assumes "reserveNext c w s = (Inr (None, w'), s')" "w_queues w \<noteq> []"
  shows "w' = w \<and> table_stays s s' \<and> (\<forall>q \<in> set (w_queues w). idle_from c q s)"
proof -
  obtain f p r where part: "partitionWorkerQueues (w_queues w) = (f, p, r)" by (metis prod_cases3)
  consider (one) q where "w_queues w = [q]" | (weighted) "1 < length (w_queues w)" "f \<noteq> []" "p \<noteq> []"
    | (fair) "1 < length (w_queues w)" "f = [] \<or> p = []"
    using assms(2) by (cases "w_queues w" rule: remdups_adj.cases) auto
  then show ?thesis
  proof cases
    case one
    with assms(1) have "reserveFromQueues c [q] s = (Inr None, s')" "w' = w"
      by (auto simp: reserveNext_def Reserve_def go_simps split: prod.splits sum.splits)
    with reserve_None_idle [of c q s s'] one show ?thesis
      by (auto simp: table_stays_def idle_from_def)
  next
    case weighted
    let ?pools = "worker_pools f p r"
    from weighted part assms(1) have "pool_loop (ReserveFair c) ?pools 0 w s = (Inr (None, w'), s')"
      by (auto simp: reserveNext_def reserveWeighted_def)
    from client_source.pool_loop_None [OF this] have *: "w' = w" "table_stays s s'"
      "\<forall>l < length ?pools. \<forall>q \<in> set (snd (?pools ! ((fair_pool_cursor w + l) mod length ?pools))). idle_from c q s"
      by (auto simp: client_source.pools_idle_def)
    have "idle_from c q s" if "x \<in> set ?pools" "q \<in> set (snd x)" for x q
    proof -
      from that(1) obtain i where i: "i < length ?pools" "?pools ! i = x" by (auto simp: in_set_conv_nth)
      obtain l where "l < length ?pools" "(fair_pool_cursor w + l) mod length ?pools = i"
        using rotation_surj [OF i(1)] .
      with *(3) i(2) that(2) show ?thesis by blast
    qed
    moreover have "set (w_queues w) = set f \<union> set p \<union> set r"
      using part partition_loop_set [of "[]" "[]" "[]" "w_queues w" f p r] by (simp add: partitionWorkerQueues_def)
    moreover have "\<forall>q \<in> set f \<union> set p \<union> set r. \<exists>x \<in> set ?pools. q \<in> set (snd x)"
      by (auto simp: worker_pools_def)
    ultimately show ?thesis using *(1,2) by blast
  next
    case fair
    with assms part obtain n where "ReserveFair c (w_queues w) (fair_queue_cursor w) s = (Inr (None, n), s')"
        and w': "w' = w\<lparr>fair_queue_cursor := n\<rparr>"
      by (auto simp: reserveNext_def go_simps split: prod.splits sum.splits)
    from client_source.none_found [OF assms(2) this(1)] w' show ?thesis by simp
  qed
qed

section \<open>Properties of the worker\<close>

text \<open>The worker is work-conserving: it goes idle only when no queue it serves has a claimable job.
  A turn that reserves nothing looked at every one of its queues (whichever way they are grouped into
  pools) and found each idle, changed no job and kept its rotation cursors.\<close>

theorem worker_idle_only_when_queues_idle:
  assumes "reserveNext c w s = (Inr (None, w'), s')" and "w_queues w \<noteq> []"
  shows "w' = w \<and> jobs s' = jobs s \<and> (\<forall>q \<in> set (w_queues w). \<exists>t \<ge> clock s. idle_queue c q s t)"
  using reserveNext_None [OF assms] by (auto simp: table_stays_def idle_from_def)

theorem worker_idle_only_when_queues_idle_witness:
  "\<exists>s'. reserveNext demo_client (NewWorker [''gis'']) demo_queue = (Inr (None, NewWorker [''gis'']), s') \<and>
     (\<exists>t \<ge> clock demo_queue. idle_queue demo_client ''gis'' demo_queue t)"
proof -
  have "reserveNext demo_client (NewWorker [''gis'']) demo_queue =
      (Inr (None, NewWorker [''gis'']), snd (reserveNext demo_client (NewWorker [''gis'']) demo_queue))"
    by (simp add: reserveNext_def Reserve_def NewWorker_def reserveFromQueues_def go_simps go_now_def with_tx_def
        reserve_body_def Let_def sql_nil demo_queue_def demo_client_def NewClient_def second_def unix_def
        int4_ok_def release_stale_def select_job_def claimable_def)
  from this worker_idle_only_when_queues_idle [OF this] show ?thesis by (auto simp: NewWorker_def)
qed

text \<open>A backlog in one pool cannot starve another: when the worker's queues split into fetch and
  persist pools, a reserved job comes from the first pool after the last one served that has anything
  to claim; the pools passed over were idle, and the pool just served moves to the end of the order.\<close>

theorem worker_pool_rotation:
  assumes "1 < length (w_queues w)" and "partitionWorkerQueues (w_queues w) = (f, p, r)"
    and "f \<noteq> []" and "p \<noteq> []" and "reserveNext c w s = (Inr (Some j, w'), s')"
  shows "\<exists>m < length (worker_pools f p r). let idx = (fair_pool_cursor w + m) mod length (worker_pools f p r) in
     rj_queue j \<in> set (snd (worker_pools f p r ! idx)) \<and>
     fair_pool_cursor w' = (idx + 1) mod length (worker_pools f p r) \<and>
     (\<forall>l < m. \<forall>q \<in> set (snd (worker_pools f p r ! ((fair_pool_cursor w + l) mod length (worker_pools f p r)))).
        \<exists>t \<ge> clock s. idle_queue c q s t)"
proof -
  from assms have "pool_loop (ReserveFair c) (worker_pools f p r) 0 w s = (Inr (Some j, w'), s')"
    by (auto simp: reserveNext_def reserveWeighted_def)
  from client_source.pool_loop_Some [OF this] show ?thesis
    by (auto simp: Let_def client_source.pools_idle_def idle_from_def)
qed

definition demo_pools :: worker where
  "demo_pools = NewWorker [''a-sync-fetch'', ''a-sync-persist'']"

definition demo_fetch_queue :: qdb where
  "demo_fetch_queue = demo_queue\<lparr>jobs := map (\<lambda>j. j\<lparr>job_queue := ''a-sync-persist''\<rparr>) (jobs demo_queue)\<rparr>"

lemma demo_fetch_reserve:
  "\<exists>j s'. reserveNext demo_client demo_pools demo_fetch_queue =
     (Inr (Some j, demo_pools\<lparr>fair_pool_cursor := 0\<rparr>), s')"
  by (simp add: reserveNext_def demo_pools_def NewWorker_def partitionWorkerQueues_def has_suffix_def
      reserveWeighted_def worker_pools_def pool_loop.simps ReserveFair_def reserve_fair_loop.simps
      pool_cursor_def set_pool_cursor_def reserveFromQueues_def go_simps go_now_def with_tx_def
      reserve_body_def Let_def sql_nil demo_fetch_queue_def demo_queue_def demo_client_def NewClient_def
      second_def unix_def int4_ok_def int2_ok_def release_stale_def select_job_def claimable_def
      claim_job_def update_job_def UnmarshalPayload_Marshal rollback_def)

theorem worker_pool_rotation_witness:
  "\<exists>j w' s'. reserveNext demo_client demo_pools demo_fetch_queue = (Inr (Some j, w'), s') \<and>
     (\<exists>m < 2. fair_pool_cursor w' = (m mod 2 + 1) mod 2)"
proof -
  obtain j s' where run: "reserveNext demo_client demo_pools demo_fetch_queue =
      (Inr (Some j, demo_pools\<lparr>fair_pool_cursor := 0\<rparr>), s')"
    using demo_fetch_reserve by blast
  have "1 < length (w_queues demo_pools)"
    "partitionWorkerQueues (w_queues demo_pools) = ([''a-sync-fetch''], [''a-sync-persist''], [])"
    by (simp_all add: demo_pools_def NewWorker_def partitionWorkerQueues_def has_suffix_def)
  note rot = worker_pool_rotation [OF this _ _ run, unfolded Let_def]
  have "length (worker_pools [''a-sync-fetch''] [''a-sync-persist''] []) = 2" "fair_pool_cursor demo_pools = 0"
    by (simp_all add: worker_pools_def demo_pools_def NewWorker_def)
  from rot [unfolded this] obtain m where "m < 2"
      "fair_pool_cursor (demo_pools\<lparr>fair_pool_cursor := 0\<rparr>) = ((0 + m) mod 2 + 1) mod 2"
    by auto
  with run show ?thesis by (metis add_0)
qed

text \<open>A turn of the worker keeps the tables' invariant, whatever fails on the way, provided the
  handlers do.\<close>

theorem worker_turn_keeps_invariant:
  assumes "\<And>ty h job n. hs ty = Some h \<Longrightarrow> keeps (queue_inv_from n) (h job)" and "queue_inv s"
  shows "queue_inv (snd (run_once c hs w s))"
proof -
  have pr: "keeps (queue_inv_from n) (process hs job)" for n job
    by (rule keeps_process) (rule assms(1))
  have "keeps (queue_inv_from n) (run_once c hs w)" for n
    unfolding run_once_def
    by (rule keeps_bind)
      (auto intro!: keeps_try keeps_bind intro: pr split: sum.splits prod.splits option.splits)
  from keepsD [OF this, of "next_job_id s" s] assms(2) show ?thesis
    by (simp add: queue_inv_from_def)
qed

theorem worker_turn_keeps_invariant_witness:
  "queue_inv (snd (run_once demo_client (Register ''b'' (\<lambda>job. Delete 7) (\<lambda>_. None)) (NewWorker [''mls'']) demo_queue))"
  by (rule worker_turn_keeps_invariant) (auto simp: Register_def demo_queue_inv split: if_splits)

lemma pend_Enqueue: "pend bid (snd (Enqueue c q ty a d s)) = pend bid s"
  using Enqueue_run(1) [of c q ty a d s "fst (Enqueue c q ty a d s)"] by (simp add: pend_def)

lemma pend_mark_finished: "pend bid (snd (mark_finished b t s)) = pend bid s"
  using mark_finished_run(2) [of b t s "fst (mark_finished b t s)"] by simp

lemma complete_counts:
  assumes "no_faults s" "queue_inv s" "0 < pend bid s"
  shows "pend bid (snd (CompleteBatchJob c bid q t a s)) = pend bid s - 1"
proof -
  from assms(3) obtain b where b: "find (\<lambda>b. batch_id b = bid) (job_batches s) = Some b" "pend bid s = pending_jobs b"
    by (auto simp: pend_def split: option.splits)
  have pos: "0 < pending_jobs b" using b(2) assms(3) by simp
  obtain s1 where take: "take_pending bid s = (Inr (Some (pending_jobs b - 1, batch_options b)), s1)"
      and f1: "find (\<lambda>b. batch_id b = bid) (job_batches s1) = Some (b\<lparr>pending_jobs := pending_jobs b - 1\<rparr>)"
    using take_pending_ok [OF assms(1,2) b(1) pos] by metis
  have s1: "take_pending bid s = (Inr (Some (pending_jobs b - 1, batch_options b)), s1)" "pend bid s1 = pend bid s - 1"
    using take f1 b(2) by (simp_all add: pend_def)
  have enq: "keeps (\<lambda>s. pend bid s = k) (Enqueue c q' ty ar d)" for k q' ty ar d
    by (rule keepsI) (simp add: pend_Enqueue)
  have fin: "keeps (\<lambda>s. pend bid s = k) (mark_finished bid u)" for k u
    by (rule keepsI) (simp add: pend_mark_finished)
  have now: "keeps (\<lambda>s. pend bid s = k) (go_now :: ('a qdb_scheme, int) go)" for k
    by (rule keeps_now) simp
  define rest where "rest = (if pending_jobs b - 1 = 0
          then go_bind go_now (\<lambda>t'.
            go_bind (go_ignore (mark_finished bid (unix t'))) (\<lambda>_.
            case completion_job (batch_options b) q t a of
              (queue, typ, args) \<Rightarrow>
                (if typ \<noteq> [] \<and> queue \<noteq> []
                 then go_bind (Enqueue c queue typ args 0) (\<lambda>_. go_ret ())
                 else go_ret ())))
          else go_ret () :: ('a qdb_scheme, unit) go)"
  have "keeps (\<lambda>s. pend bid s = pend bid s1) rest"
    unfolding rest_def by (auto intro!: keeps_bind keeps_ignore enq fin now split: prod.splits)
  moreover have "CompleteBatchJob c bid q t a s = rest s1"
    using s1 by (simp add: CompleteBatchJob_def go_bind_run rest_def)
  ultimately show ?thesis using s1(2) by (simp add: keeps_def)
qed

text \<open>When the delete that follows a successful job fails, its error is dropped and the job is
  still counted as finished: it stays in the table, to be reserved and counted again after the
  reservation timeout, so a batch can reach zero while other jobs of it have not run.\<close>

theorem failed_delete_still_counts:
  assumes "queue_inv s" and "faults s = True # fs" and "True \<notin> set fs"
    and "wrapper_batch_id (payload_args (rj_payload job)) = b" and "b \<noteq> []" and "0 < pend b s"
    and "j \<in> set (jobs s)"
  shows "let s' = snd (settle c w job (Inr ()) s) in j \<in> set (jobs s') \<and> pend b s' = pend b s - 1"
proof -
  let ?s1 = "s\<lparr>faults := fs\<rparr>"
  have del: "Delete (rj_id job) s = (Inl DbErr, ?s1)"
    using assms(2) by (simp add: Delete_def sql_def)
  have inv: "queue_inv ?s1" and nf: "no_faults ?s1" and p: "pend b ?s1 = pend b s"
    using assms(1,3) queue_inv_frame(1) [of "next_job_id s" fs s] by (simp_all add: queue_inv_from_def no_faults_def)
  let ?s2 = "snd (CompleteBatchJob c b (rj_queue job) [] None ?s1)"
  have "snd (settle c w job (Inr ()) s) = ?s2"
    using del assms(4,5) by (simp add: settle_def handleBatchComplete_def Let_def go_simps)
  moreover have "pend b ?s2 = pend b s - 1"
    using complete_counts [OF nf inv, of b c "rj_queue job" "[]" None] assms(6) p by simp
  moreover have "j \<in> set (jobs ?s2)"
    using complete_run [OF inv prod.collapse [symmetric], of b c "rj_queue job" "[]" None] assms(7) by auto
  ultimately show ?thesis by simp
qed

theorem failed_delete_still_counts_witness:
  "let s' = snd (settle demo_client (NewWorker [''mls''])
       (demo_reserved\<lparr>rj_payload := \<lparr>payload_type = ''a'', payload_args = Some (JObj [(''batch_id'', JStr ''B'')])\<rparr>\<rparr>)
       (Inr ()) (demo_queue\<lparr>faults := [True]\<rparr>))
   in hd (jobs demo_queue) \<in> set (jobs s') \<and> pend ''B'' s' = 1"
proof -
  have "queue_inv (demo_queue\<lparr>faults := [True]\<rparr>)"
    using demo_queue_inv queue_inv_frame(1) [of "next_job_id demo_queue" "[True]" demo_queue]
    by (simp add: queue_inv_from_def)
  from failed_delete_still_counts [OF this, of "[]" "demo_reserved\<lparr>rj_payload := \<lparr>payload_type = ''a'',
      payload_args = Some (JObj [(''batch_id'', JStr ''B'')])\<rparr>\<rparr>" "''B''" "hd (jobs demo_queue)" demo_client "NewWorker [''mls'']"]
  show ?thesis
    by (simp add: wrapper_batch_id_def struct_fields_def dec_string_def equal_fold_def demo_queue_def pend_def)
qed

end
