(* ===== verification/Replica_Selector.thy ===== *)
theory Replica_Selector
  imports Idx_Prelude "HOL-Library.Word" "HOL-Library.AList" "HOL-Library.List_Lexorder" "HOL-Library.Char_ord"
    "HOL-Library.Product_Lexorder"
begin

text \<open>
  Read-replica selection (\<^verbatim>\<open>internal/db/replica_selector.go\<close>): discovery of Patroni replicas, probing
  with a circuit breaker per replica, and the choice of the pool for a read.

  A connection pool is a handle (a number); \<open>closed_pools\<close> records which were closed. What the network
  answers is given from outside: \<open>ping\<close> says whether a pool answers the validation ping, \<open>dial\<close> whether a
  pool to a host can be created, a probe result is the stored latency (\<^verbatim>\<open>int64(latencyMs*1000)\<close>, in
  microseconds) of a successful \<^verbatim>\<open>SELECT 1\<close> or its failure. The counters are 32-bit and wrap.
  \<^verbatim>\<open>s.replicas\<close> is an association list with distinct keys; Go's iteration order is not fixed, and the
  list order stands for one such order.
\<close>

type_synonym rpool = nat

record replica_entry =
  e_host :: string
  e_name :: string
  e_pool :: "rpool option"
  e_latency :: int
  e_healthy :: bool
  e_failures :: "32 word"
  e_successes :: "32 word"

record patroni_member =
  m_name :: string
  m_role :: string
  m_state :: string
  m_host :: string

record selector =
  patroni_hosts :: "string list"
  fallback_pool :: rpool
  replicas :: "(string \<times> replica_entry) list"
  last_discovery :: "int option"
  last_selected :: string
  last_selected_src :: string
  fallback_active :: bool
  fail_threshold :: int
  recover_threshold :: int
  sel_closed :: bool
  closed_pools :: "rpool list"
  next_pool :: rpool

record replica_status =
  rs_name :: string
  rs_host :: string
  rs_latency :: int
  rs_healthy :: bool

record replica_snapshot =
  snap_replicas :: "replica_status list"
  snap_selected :: "string \<times> string"
  snap_fallback_active :: bool
  snap_last_discovery :: "int option"

definition NewReplicaSelector :: "string list \<Rightarrow> string \<Rightarrow> rpool option \<Rightarrow> go_error + selector" where
  "NewReplicaSelector hosts readOnlyBaseDSN fallbackPool =
     (case fallbackPool of
        None \<Rightarrow> Inl (Err ''fallback pool is required'')
      | Some fb \<Rightarrow>
          (if trim_space readOnlyBaseDSN = [] then Inl (Err ''read-only base DSN is required'')
           else if hosts = [] then Inl (Err ''at least one Patroni host is required'')
           else Inr \<lparr>patroni_hosts = hosts, fallback_pool = fb, replicas = [], last_discovery = None,
                  last_selected = [], last_selected_src = [], fallback_active = False,
                  fail_threshold = 3, recover_threshold = 2, sel_closed = False, closed_pools = [],
                  next_pool = Suc fb\<rparr>))"

section \<open>Circuit breaker and probes\<close>

definition updateCircuitBreaker :: "replica_entry \<Rightarrow> bool \<Rightarrow> int \<Rightarrow> int \<Rightarrow> replica_entry" where
  "updateCircuitBreaker entry success failThreshold recoverThreshold =
     (if success
      then let successes = e_successes entry + 1 in
        entry\<lparr>e_failures := 0, e_successes := successes,
          e_healthy := (if sint successes \<ge> sint (word_of_int recoverThreshold :: 32 word) then True else e_healthy entry)\<rparr>
      else let failures = e_failures entry + 1 in
        entry\<lparr>e_successes := 0, e_failures := failures,
          e_healthy := (if sint failures \<ge> sint (word_of_int failThreshold :: 32 word) then False else e_healthy entry)\<rparr>)"

text \<open>\<^verbatim>\<open>setLatency(-1)\<close> stores \<^verbatim>\<open>int64(-1 * 1000)\<close>.\<close>

definition probeReplica :: "selector \<Rightarrow> int option \<Rightarrow> replica_entry \<Rightarrow> replica_entry" where
  "probeReplica s result entry =
     (if e_pool entry = None then entry
      else case result of
        None \<Rightarrow> updateCircuitBreaker (entry\<lparr>e_latency := - 1000\<rparr>) False (fail_threshold s) (recover_threshold s)
      | Some lat \<Rightarrow> updateCircuitBreaker (entry\<lparr>e_latency := lat\<rparr>) True (fail_threshold s) (recover_threshold s))"

definition probeAllReplicas :: "(string \<Rightarrow> int option) \<Rightarrow> selector \<Rightarrow> selector" where
  "probeAllReplicas results s =
     s\<lparr>replicas := map (\<lambda>(h, e). (h, probeReplica s (results h) e)) (replicas s)\<rparr>"

section \<open>Choosing a replica\<close>

definition candidates :: "selector \<Rightarrow> (int \<times> string \<times> rpool) list" where
  "candidates s = concat (map (\<lambda>(h, e). case e_pool e of
      None \<Rightarrow> [] | Some p \<Rightarrow> (if e_healthy e then [(e_latency e, h, p)] else [])) (replicas s))"

definition selectBest :: "selector \<Rightarrow> (rpool \<times> string) option" where
  "selectBest s = (case sort_key (\<lambda>(lat, h, p). (lat, h)) (candidates s) of
      [] \<Rightarrow> None | (lat, h, p) # _ \<Rightarrow> Some (p, h))"

definition recordSelection :: "string \<Rightarrow> string \<Rightarrow> selector \<Rightarrow> selector" where
  "recordSelection host source s = s\<lparr>last_selected := host, last_selected_src := source\<rparr>"

definition markUnhealthy :: "string \<Rightarrow> selector \<Rightarrow> selector" where
  "markUnhealthy host s = (case map_of (replicas s) host of
      None \<Rightarrow> s
    | Some e \<Rightarrow> s\<lparr>replicas := AList.update host
        (e\<lparr>e_healthy := False, e_failures := word_of_int (fail_threshold s), e_successes := 0\<rparr>) (replicas s)\<rparr>)"

text \<open>The loop of \<^verbatim>\<open>GetBestReplica\<close>; the number is the attempts left.\<close>

fun best_loop :: "nat \<Rightarrow> (rpool \<Rightarrow> bool) \<Rightarrow> selector \<Rightarrow> rpool option \<times> selector" where
  "best_loop 0 ping s = (None, s)"
| "best_loop (Suc n) ping s = (case selectBest s of
      None \<Rightarrow> (None, s)
    | Some (p, host) \<Rightarrow>
        (if \<not> ping p then best_loop n ping (markUnhealthy host s)
         else (Some p, recordSelection host ''replica'' (s\<lparr>fallback_active := False\<rparr>))))"

definition GetBestReplica :: "(rpool \<Rightarrow> bool) \<Rightarrow> (selector, rpool) go" where
  "GetBestReplica ping s =
     (if sel_closed s then (Inl (Err ''replica selector is closed''), s)
      else case best_loop 2 ping s of
        (Some p, s') \<Rightarrow> (Inr p, s')
      | (None, s') \<Rightarrow>
          (let s'' = recordSelection ''fallback'' ''fallback'' (s'\<lparr>fallback_active := True\<rparr>) in
           if \<not> ping (fallback_pool s) then (Inl (Err ''fallback pool unreachable''), s'')
           else (Inr (fallback_pool s), s'')))"

section \<open>Discovery\<close>

definition filterRunningReplicas :: "patroni_member list \<Rightarrow> patroni_member list" where
  "filterRunningReplicas members = filter (\<lambda>m. equal_fold (m_role m) ''replica'' \<and>
     equal_fold (m_state m) ''running'' \<and> m_host m \<noteq> []) members"

fun discover_loop :: "(string \<Rightarrow> go_error + patroni_member list) \<Rightarrow> go_error option \<Rightarrow> string list \<Rightarrow>
    go_error + patroni_member list" where
  "discover_loop fetch lastErr [] =
     Inl (case lastErr of None \<Rightarrow> Err ''no patroni hosts configured'' | Some e \<Rightarrow> e)"
| "discover_loop fetch lastErr (host # hosts) = (case fetch host of
      Inl e \<Rightarrow> discover_loop fetch (Some e) hosts
    | Inr members \<Rightarrow> Inr (filterRunningReplicas members))"

definition discoverReplicas :: "(string \<Rightarrow> go_error + patroni_member list) \<Rightarrow> selector \<Rightarrow>
    go_error + patroni_member list" where
  "discoverReplicas fetch s = discover_loop fetch None (patroni_hosts s)"

text \<open>\<^verbatim>\<open>desired\<close>: the last member for each host.\<close>

definition desired_members :: "patroni_member list \<Rightarrow> (string \<times> patroni_member) list" where
  "desired_members members = foldl (\<lambda>d m. AList.update (m_host m) m d) [] members"

definition drop_removed :: "(string \<times> patroni_member) list \<Rightarrow> selector \<Rightarrow> selector" where
  "drop_removed desired s = s\<lparr>
     replicas := filter (\<lambda>(h, e). map_of desired h \<noteq> None) (replicas s),
     closed_pools := closed_pools s @
       concat (map (\<lambda>(h, e). case e_pool e of None \<Rightarrow> [] | Some p \<Rightarrow> [p])
         (filter (\<lambda>(h, e). map_of desired h = None) (replicas s)))\<rparr>"

fun add_desired :: "(string \<Rightarrow> bool) \<Rightarrow> (string \<times> patroni_member) list \<Rightarrow> selector \<Rightarrow> selector" where
  "add_desired dial [] s = s"
| "add_desired dial ((host, m) # rest) s = (case map_of (replicas s) host of
      Some e \<Rightarrow> add_desired dial rest (s\<lparr>replicas := AList.update host (e\<lparr>e_name := m_name m\<rparr>) (replicas s)\<rparr>)
    | None \<Rightarrow>
        (if \<not> dial host then add_desired dial rest s
         else add_desired dial rest (s\<lparr>
           replicas := replicas s @ [(host, \<lparr>e_host = host, e_name = m_name m, e_pool = Some (next_pool s),
              e_latency = 0, e_healthy = True, e_failures = 0, e_successes = 0\<rparr>)],
           next_pool := Suc (next_pool s)\<rparr>)))"

definition syncReplicaPools :: "(string \<Rightarrow> bool) \<Rightarrow> patroni_member list \<Rightarrow> selector \<Rightarrow> selector" where
  "syncReplicaPools dial members s =
     (let desired = desired_members members in add_desired dial desired (drop_removed desired s))"

definition runProbeCycle :: "(string \<Rightarrow> go_error + patroni_member list) \<Rightarrow> (string \<Rightarrow> bool) \<Rightarrow>
    (string \<Rightarrow> int option) \<Rightarrow> int \<Rightarrow> selector \<Rightarrow> selector" where
  "runProbeCycle fetch dial results now s = (case discoverReplicas fetch s of
      Inl _ \<Rightarrow> s
    | Inr members \<Rightarrow> (probeAllReplicas results (syncReplicaPools dial members s))\<lparr>last_discovery := Some now\<rparr>)"

section \<open>Observation and shutdown\<close>

definition Snapshot :: "selector \<Rightarrow> replica_snapshot" where
  "Snapshot s = \<lparr>
     snap_replicas = sort_key rs_host (map (\<lambda>(h, e). \<lparr>rs_name = e_name e, rs_host = e_host e,
        rs_latency = e_latency e, rs_healthy = e_healthy e\<rparr>) (replicas s)),
     snap_selected = (last_selected s, last_selected_src s),
     snap_fallback_active = fallback_active s,
     snap_last_discovery = last_discovery s\<rparr>"

definition Close :: "selector \<Rightarrow> selector" where
  "Close s = (if sel_closed s then s
     else s\<lparr>sel_closed := True,
       closed_pools := closed_pools s @
         concat (map (\<lambda>(h, e). case e_pool e of None \<Rightarrow> [] | Some p \<Rightarrow> [p]) (replicas s)),
       replicas := []\<rparr>)"

section \<open>Selection\<close>

definition usable :: "selector \<Rightarrow> string \<Rightarrow> replica_entry \<Rightarrow> bool" where
  "usable s h e \<longleftrightarrow> (h, e) \<in> set (replicas s) \<and> e_healthy e \<and> e_pool e \<noteq> None"

lemma usable_unique:
  "distinct (map fst (replicas s)) \<Longrightarrow> usable s h e \<Longrightarrow> usable s h e' \<Longrightarrow> e = e'"
  by (metis usable_def map_of_is_SomeI option.inject)

lemma candidates_iff:
  "(lat, h, p) \<in> set (candidates s) \<longleftrightarrow> (\<exists>e. usable s h e \<and> e_latency e = lat \<and> e_pool e = Some p)"
proof
  assume "(lat, h, p) \<in> set (candidates s)"
  then obtain h' e where m: "(h', e) \<in> set (replicas s)"
      and x: "(lat, h, p) \<in> set (case e_pool e of None \<Rightarrow> [] | Some p \<Rightarrow> (if e_healthy e then [(e_latency e, h', p)] else []))"
    by (auto simp: candidates_def)
  from x have "e_pool e = Some p" "e_healthy e" "h' = h" "e_latency e = lat"
    by (auto split: option.splits if_splits)
  with m show "\<exists>e. usable s h e \<and> e_latency e = lat \<and> e_pool e = Some p"
    by (auto simp: usable_def)
next
  assume "\<exists>e. usable s h e \<and> e_latency e = lat \<and> e_pool e = Some p"
  then obtain e where "(h, e) \<in> set (replicas s)" "e_healthy e" "e_latency e = lat" "e_pool e = Some p"
    by (auto simp: usable_def)
  then show "(lat, h, p) \<in> set (candidates s)"
    unfolding candidates_def by (auto intro!: bexI [of _ "(h, e)"])
qed

lemma sort_key_hd_least:
  assumes "sort_key f xs = x # ys"
  shows "x \<in> set xs" "\<And>y. y \<in> set xs \<Longrightarrow> f x \<le> f y"
proof -
  have s: "sorted (map f (x # ys))" and e: "set (x # ys) = set xs"
    using sorted_sort_key [of f xs] set_sort [of f xs] by (simp_all add: assms)
  from e show "x \<in> set xs" by auto
  fix y assume "y \<in> set xs"
  with e have "y = x \<or> y \<in> set ys" by auto
  with s show "f x \<le> f y" by auto
qed

lemma selectBest_Some:
  assumes "selectBest s = Some (p, h)"
  obtains e where "usable s h e" "e_pool e = Some p"
    "\<And>h' e'. usable s h' e' \<Longrightarrow> (e_latency e, h) \<le> (e_latency e', h')"
proof -
  let ?key = "\<lambda>(lat::int, h::string, p::rpool). (lat, h)"
  obtain lat rest where srt: "sort_key ?key (candidates s) = (lat, h, p) # rest"
    using assms by (auto simp: selectBest_def split: list.splits)
  from sort_key_hd_least [OF srt] obtain e where e: "usable s h e" "e_latency e = lat" "e_pool e = Some p"
    by (auto simp: candidates_iff)
  moreover have "(e_latency e, h) \<le> (e_latency e', h')" if "usable s h' e'" for h' e'
  proof -
    from that obtain p' where "(e_latency e', h', p') \<in> set (candidates s)"
      by (auto simp: candidates_iff) (auto simp: usable_def)
    from sort_key_hd_least(2) [OF srt this] e(2) show ?thesis by simp
  qed
  ultimately show thesis using that by blast
qed

lemma selectBest_None: "selectBest s = None \<longleftrightarrow> (\<forall>h e. \<not> usable s h e)"
proof -
  have "selectBest s = None \<longleftrightarrow> candidates s = []"
    by (auto simp: selectBest_def split: list.splits) (metis set_empty set_sort)+
  also have "\<dots> \<longleftrightarrow> (\<forall>h e. \<not> usable s h e)"
  proof
    assume "candidates s = []"
    show "\<forall>h e. \<not> usable s h e"
    proof (intro allI notI)
      fix h e assume "usable s h e"
      moreover then obtain p where "e_pool e = Some p" by (auto simp: usable_def)
      ultimately have "(e_latency e, h, p) \<in> set (candidates s)" by (auto simp: candidates_iff)
      with \<open>candidates s = []\<close> show False by simp
    qed
  next
    assume none: "\<forall>h e. \<not> usable s h e"
    show "candidates s = []"
    proof (rule ccontr)
      assume "candidates s \<noteq> []"
      then obtain lat h p where "(lat, h, p) \<in> set (candidates s)" by (cases "candidates s") auto
      with none show False by (auto simp: candidates_iff)
    qed
  qed
  finally show ?thesis .
qed

section \<open>Invariant\<close>

definition sel_inv :: "selector \<Rightarrow> bool" where
  "sel_inv s \<longleftrightarrow> distinct (map fst (replicas s)) \<and>
     (\<forall>(h, e) \<in> set (replicas s). e_host e = h \<and>
        (\<exists>p. e_pool e = Some p \<and> p < next_pool s \<and> p \<notin> set (closed_pools s) \<and> p \<noteq> fallback_pool s)) \<and>
     distinct (map (e_pool \<circ> snd) (replicas s)) \<and>
     fallback_pool s < next_pool s \<and> fallback_pool s \<notin> set (closed_pools s) \<and>
     (\<forall>p \<in> set (closed_pools s). p < next_pool s) \<and> (sel_closed s \<longrightarrow> replicas s = [])"

lemma map_of_Some_mem: "map_of xs k = Some v \<Longrightarrow> (k, v) \<in> set xs"
  by (rule map_of_SomeD)

lemma alist_update_map:
  "distinct (map fst xs) \<Longrightarrow> map_of xs k = Some v \<Longrightarrow>
   AList.update k v' xs = map (\<lambda>(k', x). if k' = k then (k', v') else (k', x)) xs"
proof (induction xs)
  case (Cons a xs)
  obtain k' x where a: "a = (k', x)" by (cases a)
  show ?case
  proof (cases "k' = k")
    case True
    with Cons.prems a have "k \<notin> fst ` set xs" by auto
    then have "map (\<lambda>(k', x). if k' = k then (k', v') else (k', x)) xs = xs"
      by (intro map_idI) (force split: if_splits)
    with True a show ?thesis by simp
  next
    case False
    with Cons a show ?thesis by simp
  qed
qed simp

text \<open>Changing entries in place, keeping their host and pool, keeps the invariant.\<close>

lemma sel_inv_map:
  assumes "sel_inv s" and "\<And>h e. e_host (f h e) = e_host e \<and> e_pool (f h e) = e_pool e"
  shows "sel_inv (s\<lparr>replicas := map (\<lambda>(h, e). (h, f h e)) (replicas s)\<rparr>)"
proof -
  have "map fst (map (\<lambda>(h, e). (h, f h e)) (replicas s)) = map fst (replicas s)"
    "map (e_pool \<circ> snd) (map (\<lambda>(h, e). (h, f h e)) (replicas s)) = map (e_pool \<circ> snd) (replicas s)"
    using assms(2) by (auto simp: split_def)
  with assms show ?thesis unfolding sel_inv_def by (auto simp del: map_map)
qed

lemma sel_inv_update:
  assumes "sel_inv s" "map_of (replicas s) h = Some e" "e_host e' = e_host e" "e_pool e' = e_pool e"
  shows "sel_inv (s\<lparr>replicas := AList.update h e' (replicas s)\<rparr>)"
proof -
  let ?xs = "AList.update h e' (replicas s)"
  have d: "distinct (map fst (replicas s))" using assms(1) by (simp add: sel_inv_def)
  note u = alist_update_map [OF d assms(2), of e']
  have mem: "(h, e) \<in> set (replicas s)" using assms(2) by (rule map_of_SomeD)
  have same: "x = e" if "(h, x) \<in> set (replicas s)" for x
    using that d assms(2) by (metis map_of_is_SomeI option.inject)
  have "map fst ?xs = map fst (replicas s)" by (auto simp: u split: prod.splits)
  moreover have "map (e_pool \<circ> snd) ?xs = map (e_pool \<circ> snd) (replicas s)"
    using same assms(4) by (auto simp: u split: prod.splits)
  moreover have "\<forall>(k, x) \<in> set ?xs. \<exists>y. (k, y) \<in> set (replicas s) \<and> e_host x = e_host y \<and> e_pool x = e_pool y"
    using mem assms(3,4) by (force simp: u split: if_splits)
  ultimately show ?thesis
    using assms(1) unfolding sel_inv_def by (fastforce simp del: map_map)
qed

lemma sel_inv_frame [simp]:
  "sel_inv (recordSelection h src s) = sel_inv s"
  "sel_inv (s\<lparr>fallback_active := b\<rparr>) = sel_inv s"
  "sel_inv (s\<lparr>last_discovery := d\<rparr>) = sel_inv s"
  by (simp_all add: sel_inv_def recordSelection_def)

lemma markUnhealthy_inv: "sel_inv s \<Longrightarrow> sel_inv (markUnhealthy h s)"
  by (auto simp: markUnhealthy_def intro: sel_inv_update split: option.splits)

lemma best_loop_inv: "sel_inv s \<Longrightarrow> sel_inv (snd (best_loop n ping s))"
  by (induction n ping s rule: best_loop.induct) (auto simp: markUnhealthy_inv split: option.splits)

lemma GetBestReplica_inv: "sel_inv s \<Longrightarrow> sel_inv (snd (GetBestReplica ping s))"
  using best_loop_inv [of s 2 ping]
  by (auto simp: GetBestReplica_def Let_def split: prod.splits option.splits)

lemma breaker_frame [simp]:
  "e_host (updateCircuitBreaker e b f r) = e_host e" "e_pool (updateCircuitBreaker e b f r) = e_pool e"
  by (simp_all add: updateCircuitBreaker_def Let_def)

lemma probeReplica_frame [simp]:
  "e_host (probeReplica s r e) = e_host e" "e_pool (probeReplica s r e) = e_pool e"
  by (simp_all add: probeReplica_def split: option.splits)

lemma probeAll_inv: "sel_inv s \<Longrightarrow> sel_inv (probeAllReplicas results s)"
  unfolding probeAllReplicas_def by (rule sel_inv_map) auto

definition pools_of :: "(string \<times> replica_entry) list \<Rightarrow> rpool list" where
  "pools_of xs = concat (map (\<lambda>(h, e). case e_pool e of None \<Rightarrow> [] | Some p \<Rightarrow> [p]) xs)"

lemma pools_of_iff: "p \<in> set (pools_of xs) \<longleftrightarrow> (\<exists>(h, e) \<in> set xs. e_pool e = Some p)"
proof -
  have "p \<in> set (case e_pool e of None \<Rightarrow> [] | Some p \<Rightarrow> [p]) \<longleftrightarrow> e_pool e = Some p" for e
    by (auto split: option.splits)
  then show ?thesis unfolding pools_of_def by fastforce
qed

lemma drop_removed_pools:
  "closed_pools (drop_removed d s) = closed_pools s @ pools_of (filter (\<lambda>(h, e). map_of d h = None) (replicas s))"
  "replicas (drop_removed d s) = filter (\<lambda>(h, e). map_of d h \<noteq> None) (replicas s)"
  "next_pool (drop_removed d s) = next_pool s" "fallback_pool (drop_removed d s) = fallback_pool s"
  "sel_closed (drop_removed d s) = sel_closed s"
  by (simp_all add: drop_removed_def pools_of_def)

lemma drop_removed_inv:
  assumes "sel_inv s"
  shows "sel_inv (drop_removed d s)"
proof -
  have inj: "inj_on (e_pool \<circ> snd) (set (replicas s))"
    using assms by (simp add: sel_inv_def distinct_map)
  have "p \<notin> set (pools_of (filter (\<lambda>(h, e). map_of d h = None) (replicas s)))"
    if "(h, e) \<in> set (replicas s)" "map_of d h \<noteq> None" "e_pool e = Some p" for h e p
  proof
    assume "p \<in> set (pools_of (filter (\<lambda>(h, e). map_of d h = None) (replicas s)))"
    then obtain h' e' where m: "(h', e') \<in> set (replicas s)" "map_of d h' = None" "e_pool e' = Some p"
      by (auto simp: pools_of_iff)
    from inj_onD [OF inj _ that(1) m(1)] that(3) m(3) have "h = h'" by simp
    with that(2) m(2) show False by simp
  qed
  with assms show ?thesis
    unfolding sel_inv_def drop_removed_pools
    by (auto simp: distinct_map_filter pools_of_iff) fastforce+
qed

lemma add_desired_inv: "sel_inv s \<Longrightarrow> \<not> sel_closed s \<Longrightarrow> sel_inv (add_desired dial d s)"
proof (induction dial d s rule: add_desired.induct)
  case (2 dial host m rest s)
  show ?case
  proof (cases "map_of (replicas s) host")
    case (Some e)
    with 2 sel_inv_update [OF "2.prems"(1) Some] show ?thesis by simp
  next
    case None
    then have fresh: "host \<notin> fst ` set (replicas s)" by (simp add: map_of_eq_None_iff)
    show ?thesis
    proof (cases "dial host")
      case True
      let ?s = "s\<lparr>replicas := replicas s @ [(host, \<lparr>e_host = host, e_name = m_name m, e_pool = Some (next_pool s),
              e_latency = 0, e_healthy = True, e_failures = 0, e_successes = 0\<rparr>)], next_pool := Suc (next_pool s)\<rparr>"
      have "sel_inv ?s"
        using "2.prems" fresh unfolding sel_inv_def by (fastforce simp: less_Suc_eq)
      with 2 None True show ?thesis by simp
    next
      case False
      with 2 None show ?thesis by simp
    qed
  qed
qed simp

lemma sync_inv: "sel_inv s \<Longrightarrow> \<not> sel_closed s \<Longrightarrow> sel_inv (syncReplicaPools dial ms s)"
  by (simp add: syncReplicaPools_def Let_def add_desired_inv drop_removed_inv drop_removed_pools)

lemma Close_inv: "sel_inv s \<Longrightarrow> sel_inv (Close s)"
  by (auto simp: Close_def sel_inv_def pools_of_def [symmetric] pools_of_iff) fastforce+

section \<open>Reachable states\<close>

text \<open>The probe goroutine, concurrent reads and shutdown. \<^verbatim>\<open>Close\<close> waits for the probe goroutine, so no
  cycle runs after it.\<close>

inductive selector_reach :: "selector \<Rightarrow> bool" where
  reach_new: "NewReplicaSelector hosts dsn fb = Inr s \<Longrightarrow> selector_reach s"
| reach_read: "selector_reach s \<Longrightarrow> selector_reach (snd (GetBestReplica ping s))"
| reach_mark: "selector_reach s \<Longrightarrow> selector_reach (markUnhealthy host s)"
| reach_probe: "selector_reach s \<Longrightarrow> \<not> sel_closed s \<Longrightarrow> selector_reach (runProbeCycle fetch dial results now s)"
| reach_close: "selector_reach s \<Longrightarrow> selector_reach (Close s)"

lemma reach_inv: "selector_reach s \<Longrightarrow> sel_inv s"
proof (induction rule: selector_reach.induct)
  case (reach_new hosts dsn fb s)
  then show ?case by (auto simp: NewReplicaSelector_def sel_inv_def split: option.splits if_splits)
next
  case (reach_probe s fetch dial results now)
  then show ?case by (auto simp: runProbeCycle_def sync_inv probeAll_inv split: sum.splits)
qed (simp_all add: GetBestReplica_inv markUnhealthy_inv Close_inv)

lemma reach_thresholds: "selector_reach s \<Longrightarrow> fail_threshold s = 3 \<and> recover_threshold s = 2"
proof (induction rule: selector_reach.induct)
  case (reach_new hosts dsn fb s)
  then show ?case by (auto simp: NewReplicaSelector_def split: option.splits if_splits)
next
  case (reach_read s ping)
  have "fail_threshold (snd (best_loop n ping x)) = fail_threshold x \<and>
      recover_threshold (snd (best_loop n ping x)) = recover_threshold x" for n x
    by (induction n ping x rule: best_loop.induct)
      (auto simp: markUnhealthy_def recordSelection_def split: option.splits)
  from this [of 2 s] reach_read show ?case
    by (auto simp: GetBestReplica_def recordSelection_def Let_def split: prod.splits option.splits)
next
  case (reach_mark s host)
  then show ?case by (simp add: markUnhealthy_def split: option.splits)
next
  case (reach_probe s fetch dial results now)
  have "fail_threshold (add_desired dial d x) = fail_threshold x \<and>
      recover_threshold (add_desired dial d x) = recover_threshold x" for d x
    by (induction dial d x rule: add_desired.induct) (auto split: option.splits)
  with reach_probe show ?case
    by (simp add: runProbeCycle_def probeAllReplicas_def syncReplicaPools_def Let_def drop_removed_def
        split: sum.splits)
next
  case (reach_close s)
  then show ?case by (simp add: Close_def)
qed

lemma markUnhealthy_frame [simp]:
  "closed_pools (markUnhealthy h s) = closed_pools s" "fallback_pool (markUnhealthy h s) = fallback_pool s"
  "sel_closed (markUnhealthy h s) = sel_closed s"
  by (simp_all add: markUnhealthy_def split: option.splits)

lemma best_loop_run:
  assumes "best_loop n ping s = (r, s')" "sel_inv s"
  shows "closed_pools s' = closed_pools s \<and> fallback_pool s' = fallback_pool s \<and>
    (\<forall>p. r = Some p \<longrightarrow> ping p \<and> p \<notin> set (closed_pools s) \<and> p \<noteq> fallback_pool s \<and> \<not> fallback_active s')"
  using assms
proof (induction n ping s rule: best_loop.induct)
  case (2 n ping s)
  show ?case
  proof (cases "selectBest s")
    case None
    with 2 show ?thesis by simp
  next
    case (Some ph)
    obtain p h where ph: "ph = (p, h)" by fastforce
    with Some have sel: "selectBest s = Some (p, h)" by simp
    show ?thesis
    proof (cases "ping p")
      case True
      obtain e where e: "usable s h e" "e_pool e = Some p" using selectBest_Some [OF sel] by metis
      then have "p \<notin> set (closed_pools s)" "p \<noteq> fallback_pool s"
        using 2(3) by (auto simp: sel_inv_def usable_def)
      with True sel "2.prems" show ?thesis by (auto simp: recordSelection_def)
    next
      case False
      with "2.IH" [OF sel refl False] "2.prems" sel show ?thesis by (simp add: markUnhealthy_inv)
    qed
  qed
qed simp

section \<open>Properties of replica selection\<close>


definition demo_members :: "patroni_member list" where
  "demo_members = [\<lparr>m_name = ''n1'', m_role = ''replica'', m_state = ''running'', m_host = ''10.0.0.1''\<rparr>,
     \<lparr>m_name = ''n2'', m_role = ''replica'', m_state = ''running'', m_host = ''10.0.0.2''\<rparr>]"

definition demo_selector0 :: selector where
  "demo_selector0 = \<lparr>patroni_hosts = [''p''], fallback_pool = 0, replicas = [], last_discovery = None,
     last_selected = [], last_selected_src = [], fallback_active = False, fail_threshold = 3,
     recover_threshold = 2, sel_closed = False, closed_pools = [], next_pool = 1\<rparr>"

definition demo_selector :: selector where
  "demo_selector = runProbeCycle (\<lambda>_. Inr demo_members) (\<lambda>_. True)
     (\<lambda>h. Some (if h = ''10.0.0.1'' then 900 else 400)) 5 demo_selector0"

lemma demo_selector_reach: "selector_reach demo_selector"
proof -
  have "NewReplicaSelector [''p''] ''d'' (Some 0) = Inr demo_selector0"
    by (simp add: NewReplicaSelector_def demo_selector0_def trim_space_def trim_both_def trim_left_def
        trim_right_def is_space_def)
  then show ?thesis
    unfolding demo_selector_def by (intro reach_probe reach_new) (simp_all add: demo_selector0_def)
qed

lemma demo_selector_replicas:
  "replicas demo_selector =
     [(''10.0.0.1'', \<lparr>e_host = ''10.0.0.1'', e_name = ''n1'', e_pool = Some 1, e_latency = 900,
         e_healthy = True, e_failures = 0, e_successes = 1\<rparr>),
      (''10.0.0.2'', \<lparr>e_host = ''10.0.0.2'', e_name = ''n2'', e_pool = Some 2, e_latency = 400,
         e_healthy = True, e_failures = 0, e_successes = 1\<rparr>)]"
  "sel_closed demo_selector = False" "fallback_pool demo_selector = 0"
  by (simp_all add: demo_selector_def demo_selector0_def runProbeCycle_def discoverReplicas_def
      filterRunningReplicas_def demo_members_def equal_fold_def to_lower_def lower_char_def
      syncReplicaPools_def desired_members_def drop_removed_def probeAllReplicas_def probeReplica_def
      updateCircuitBreaker_def Let_def)


text \<open>A read goes to the lowest latency: when some healthy replica is first by latency and then
  host name among the healthy ones and answers its ping, that replica's pool is returned, whatever
  order the replica map is iterated in.\<close>

theorem replica_choice_lowest_latency:
  assumes "selector_reach s" and "\<not> sel_closed s" and "usable s h e" and "e_pool e = Some p" and "ping p"
    and "\<And>h' e'. usable s h' e' \<Longrightarrow> (e_latency e, h) \<le> (e_latency e', h')"
  shows "GetBestReplica ping s = (Inr p, s\<lparr>fallback_active := False, last_selected := h, last_selected_src := ''replica''\<rparr>)"
proof -
  have d: "distinct (map fst (replicas s))" using reach_inv [OF assms(1)] by (simp add: sel_inv_def)
  obtain p' h' where sel: "selectBest s = Some (p', h')"
    using assms(3) selectBest_None [of s] by (cases "selectBest s") auto
  then obtain e' where e': "usable s h' e'" "e_pool e' = Some p'" "(e_latency e', h') \<le> (e_latency e, h)"
    using selectBest_Some [OF sel] assms(3) by metis
  with antisym [OF assms(6) [OF e'(1)] e'(3)] have "h' = h" by simp
  with e'(1) assms(3) have "e' = e"
    using usable_unique [OF d] by blast
  with sel e'(2) assms(4) \<open>h' = h\<close> have "selectBest s = Some (p, h)" by simp
  with assms(2,5) show ?thesis
    by (simp add: GetBestReplica_def numeral_2_eq_2 recordSelection_def)
qed

lemma demo_usable:
  "usable demo_selector h e \<longleftrightarrow> (h, e) \<in> set (replicas demo_selector)"
  by (auto simp: usable_def demo_selector_replicas)

theorem replica_choice_lowest_latency_witness:
  "fst (GetBestReplica (\<lambda>p. True) demo_selector) = Inr 2"
proof -
  let ?e = "\<lparr>e_host = ''10.0.0.2'', e_name = ''n2'', e_pool = Some (2::rpool), e_latency = 400,
         e_healthy = True, e_failures = 0, e_successes = 1\<rparr>"
  have "GetBestReplica (\<lambda>p. True) demo_selector = (Inr 2, demo_selector\<lparr>fallback_active := False,
      last_selected := ''10.0.0.2'', last_selected_src := ''replica''\<rparr>)"
    by (rule replica_choice_lowest_latency [OF demo_selector_reach, of "''10.0.0.2''" ?e])
      (auto simp: demo_usable demo_selector_replicas less_eq_prod_def)
  then show ?thesis by simp
qed

lemma word32_small: "n < 2147483648 \<Longrightarrow> sint (of_nat n :: 32 word) = int n"
  by (simp add: signed_of_nat signed_take_bit_int_eq_self)

lemma probe_step:
  assumes "e_pool e = Some p"
  shows "e_pool (probeReplica s r e) = Some p"
    "e_failures (probeReplica s None e) = e_failures e + 1"
    "e_healthy (probeReplica s None e) \<longleftrightarrow>
       e_healthy e \<and> sint (e_failures e + 1) < sint (word_of_int (fail_threshold s) :: 32 word)"
    "e_successes (probeReplica s (Some lat) e) = e_successes e + 1"
    "e_healthy (probeReplica s (Some lat) e) \<longleftrightarrow>
       e_healthy e \<or> sint (word_of_int (recover_threshold s) :: 32 word) \<le> sint (e_successes e + 1)"
  using assms by (auto simp: probeReplica_def updateCircuitBreaker_def Let_def split: option.split)

lemma fail_probes:
  assumes "e_pool e = Some p" "e_failures e = 0" "e_healthy e" "fail_threshold s = 3" "n < 2147483648"
  shows "e_failures ((probeReplica s None ^^ n) e) = of_nat n \<and> e_pool ((probeReplica s None ^^ n) e) = Some p \<and>
    (e_healthy ((probeReplica s None ^^ n) e) \<longleftrightarrow> n < 3)"
  using assms
proof (induction n)
  case (Suc n)
  let ?e = "(probeReplica s None ^^ n) e"
  have IH: "e_failures ?e = of_nat n" "e_pool ?e = Some p" "e_healthy ?e \<longleftrightarrow> n < 3"
    using Suc by auto
  have "sint (of_nat n + 1 :: 32 word) = int (Suc n)"
    using word32_small [of "Suc n"] Suc.prems(5) by (simp add: add.commute)
  with IH Suc.prems probe_step [OF IH(2)] show ?case
    by (auto simp: add.commute)
qed simp

lemma ok_probes:
  assumes "e_pool e = Some p" "e_successes e = 0" "\<not> e_healthy e" "recover_threshold s = 2" "n < 2147483648"
  shows "e_successes ((probeReplica s (Some lat) ^^ n) e) = of_nat n \<and> e_pool ((probeReplica s (Some lat) ^^ n) e) = Some p \<and>
    (e_healthy ((probeReplica s (Some lat) ^^ n) e) \<longleftrightarrow> 2 \<le> n)"
  using assms
proof (induction n)
  case (Suc n)
  let ?e = "(probeReplica s (Some lat) ^^ n) e"
  have IH: "e_successes ?e = of_nat n" "e_pool ?e = Some p" "e_healthy ?e \<longleftrightarrow> 2 \<le> n"
    using Suc by auto
  have "sint (of_nat n + 1 :: 32 word) = int (Suc n)"
    using word32_small [of "Suc n"] Suc.prems(5) by (simp add: add.commute)
  with IH Suc.prems probe_step [OF IH(2)] show ?case
    by (auto simp: add.commute)
qed simp

text \<open>The circuit breaker opens after exactly three consecutive failed probes and closes after
  exactly two consecutive successful ones, for every number of probes below the wrap of the 32-bit
  counters; a replica marked unhealthy by a failed read recovers the same way.\<close>

theorem breaker_thresholds:
  assumes "selector_reach s" and "e_pool e = Some p" and "n < 2147483648"
  shows "(e_failures e = 0 \<longrightarrow> e_healthy e \<longrightarrow> (e_healthy ((probeReplica s None ^^ n) e) \<longleftrightarrow> n < 3)) \<and>
     (e_successes e = 0 \<longrightarrow> \<not> e_healthy e \<longrightarrow> (e_healthy ((probeReplica s (Some lat) ^^ n) e) \<longleftrightarrow> 2 \<le> n))"
  using fail_probes [OF assms(2), of s n] ok_probes [OF assms(2), of s n lat] reach_thresholds [OF assms(1)] assms(3)
  by simp

theorem breaker_thresholds_witness:
  "\<not> e_healthy ((probeReplica demo_selector None ^^ 3) (snd (hd (replicas demo_selector))))"
  using breaker_thresholds [OF demo_selector_reach, of "snd (hd (replicas demo_selector))" 1 3]
  by (simp add: demo_selector_replicas)

text \<open>A replica that has just failed its probe is preferred over every replica that answered: the
  failure is recorded as latency -1 while the breaker still counts the replica as healthy, so until
  the third failure the selection by lowest latency picks the failing replica first.\<close>

theorem failed_probe_is_preferred:
  assumes "selector_reach s" and "usable s h e" and "e_pool e = Some p" and "e_failures e = 0"
    and "results h = None" and "\<And>h' e'. usable s h' e' \<Longrightarrow> h' \<noteq> h \<Longrightarrow> \<exists>lat \<ge> 0. results h' = Some lat"
    and "\<And>h' e'. (h', e') \<in> set (replicas s) \<Longrightarrow> \<not> e_healthy e' \<Longrightarrow> results h' = None"
  shows "selectBest (probeAllReplicas results s) = Some (p, h)"
proof -
  let ?s = "probeAllReplicas results s"
  note thr = reach_thresholds [OF assms(1)]
  have d: "distinct (map fst (replicas s))" using reach_inv [OF assms(1)] by (simp add: sel_inv_def)
  have e: "usable ?s h (probeReplica s None e)" and lat: "e_latency (probeReplica s None e) = - 1000"
    using assms(2-5) thr
    by (auto simp: usable_def probeAllReplicas_def probeReplica_def updateCircuitBreaker_def Let_def
        intro!: image_eqI [of _ _ "(h, e)"])
  have other: "0 \<le> e_latency x" if "usable ?s h' x" "h' \<noteq> h" for h' x
  proof -
    from that obtain y where y: "(h', y) \<in> set (replicas s)" "x = probeReplica s (results h') y" "e_healthy x" "e_pool y \<noteq> None"
      by (auto simp: usable_def probeAllReplicas_def)
    show ?thesis
    proof (cases "e_healthy y")
      case True
      with y assms(6) [of h' y] that(2) obtain l where "0 \<le> l" "results h' = Some l" by (auto simp: usable_def)
      with y show ?thesis by (simp add: probeReplica_def updateCircuitBreaker_def Let_def)
    next
      case False
      with y assms(7) have "\<not> e_healthy x"
        by (auto simp: probeReplica_def updateCircuitBreaker_def Let_def split: if_splits)
      with y(3) show ?thesis by simp
    qed
  qed
  obtain p' h' where sel: "selectBest ?s = Some (p', h')"
    using e selectBest_None [of ?s] by (cases "selectBest ?s") auto
  then obtain x where x: "usable ?s h' x" "e_pool x = Some p'" "(e_latency x, h') \<le> (e_latency (probeReplica s None e), h)"
    using selectBest_Some [OF sel] e by metis
  have h: "h' = h"
  proof (rule ccontr)
    assume "h' \<noteq> h"
    with other [OF x(1)] x(3) lat show False by (auto simp: less_eq_prod_def)
  qed
  have d': "distinct (map fst (replicas ?s))" using d by (simp add: probeAllReplicas_def split_def comp_def)
  have "x = probeReplica s None e"
    using x(1) e h usable_unique [OF d'] by blast
  with sel h x(2) assms(3) show ?thesis by simp
qed

theorem failed_probe_is_preferred_witness:
  "selectBest (probeAllReplicas (\<lambda>h. if h = ''10.0.0.1'' then None else Some 400) demo_selector) = Some (1, ''10.0.0.1'')"
  by (rule failed_probe_is_preferred [OF demo_selector_reach, of _ "snd (hd (replicas demo_selector))"])
    (auto simp: demo_usable demo_selector_replicas)

lemma keys_update: "fst ` set (AList.update k v xs) = insert k (fst ` set xs)"
  by (induction xs) auto

lemma desired_keys_foldl:
  "fst ` set (foldl (\<lambda>d m. AList.update (m_host m) m d) d ms) = fst ` set d \<union> m_host ` set ms"
  by (induction ms arbitrary: d) (auto simp: keys_update)

lemma desired_keys: "fst ` set (desired_members ms) = m_host ` set ms"
  by (simp add: desired_members_def desired_keys_foldl)

lemma add_desired_run:
  assumes "distinct (map fst (replicas s))"
  shows "closed_pools (add_desired dial d s) = closed_pools s \<and>
    fst ` set (replicas (add_desired dial d s)) = fst ` set (replicas s) \<union> {h \<in> fst ` set d. dial h} \<and>
    (\<forall>h e. (h, e) \<in> set (replicas s) \<longrightarrow> (\<exists>n. (h, e\<lparr>e_name := n\<rparr>) \<in> set (replicas (add_desired dial d s))))"
  using assms
proof (induction dial d s rule: add_desired.induct)
  case (1 dial s)
  have "\<exists>n. (h, e\<lparr>e_name := n\<rparr>) \<in> set (replicas s)" if "(h, e) \<in> set (replicas s)" for h e
    using that by (intro exI [of _ "e_name e"]) simp
  then show ?case by auto
next
  case (2 dial host m rest s)
  show ?case
  proof (cases "map_of (replicas s) host")
    case None
    then have "host \<notin> fst ` set (replicas s)" by (simp add: map_of_eq_None_iff)
    with 2 None show ?thesis by (cases "dial host") auto
  next
    case (Some e)
    let ?s = "s\<lparr>replicas := AList.update host (e\<lparr>e_name := m_name m\<rparr>) (replicas s)\<rparr>"
    have d: "distinct (map fst (replicas ?s))" using "2.prems" by (simp add: distinct_update)
    have keys: "fst ` set (replicas ?s) = fst ` set (replicas s)"
      using map_of_SomeD [OF Some] by (force simp: keys_update)
    note IH = "2.IH"(3) [OF Some d]
    have named: "\<exists>n. (h, x\<lparr>e_name := n\<rparr>) \<in> set (replicas ?s)" if "(h, x) \<in> set (replicas s)" for h x
    proof (cases "h = host")
      case True
      with that Some "2.prems" have "x = e" by (metis map_of_is_SomeI option.inject)
      with True alist_update_map [OF "2.prems" Some] that show ?thesis
        by (auto simp: image_iff split: prod.splits intro!: exI [of _ "m_name m"] bexI [of _ "(h, x)"])
    next
      case False
      with alist_update_map [OF "2.prems" Some] that show ?thesis
        by (auto simp: image_iff split: prod.splits intro!: exI [of _ "e_name x"] bexI [of _ "(h, x)"])
    qed
    have "\<exists>n. (h, x\<lparr>e_name := n\<rparr>) \<in> set (replicas (add_desired dial rest ?s))"
      if mem: "(h, x) \<in> set (replicas s)" for h x
    proof -
      obtain a where "(h, x\<lparr>e_name := a\<rparr>) \<in> set (replicas ?s)" using named [OF mem] ..
      with IH obtain n where "(h, x\<lparr>e_name := a\<rparr>\<lparr>e_name := n\<rparr>) \<in> set (replicas (add_desired dial rest ?s))"
        by blast
      then show ?thesis by (intro exI [of _ n]) simp
    qed
    moreover have "host \<in> fst ` set (replicas s)" using map_of_SomeD [OF Some] by force
    ultimately show ?thesis using IH keys Some by auto
  qed
qed

text \<open>After a discovery the selector holds exactly the running replicas it can reach: a pool for
  every announced host that it already had or could dial, the counters and pool of a host that stays
  untouched, and the pool of every host that left closed.\<close>

theorem sync_tracks_discovery:
  assumes "selector_reach s"
  shows "let s' = syncReplicaPools dial ms s in
     (\<forall>h. h \<in> fst ` set (replicas s') \<longleftrightarrow> h \<in> m_host ` set ms \<and> (h \<in> fst ` set (replicas s) \<or> dial h)) \<and>
     (\<forall>(h, e) \<in> set (replicas s).
        if h \<in> m_host ` set ms then \<exists>n. (h, e\<lparr>e_name := n\<rparr>) \<in> set (replicas s')
        else \<forall>p. e_pool e = Some p \<longrightarrow> p \<in> set (closed_pools s'))"
proof -
  let ?d = "desired_members ms"
  let ?s1 = "drop_removed ?d s"
  have k: "map_of ?d h = None \<longleftrightarrow> h \<notin> m_host ` set ms" for h
    by (simp add: map_of_eq_None_iff desired_keys)
  have inv: "sel_inv ?s1" using drop_removed_inv [OF reach_inv [OF assms]] .
  then have "distinct (map fst (replicas ?s1))" by (simp add: sel_inv_def)
  note run = add_desired_run [OF this, of dial ?d]
  have keys: "fst ` set (replicas ?s1) = fst ` set (replicas s) \<inter> m_host ` set ms"
    unfolding drop_removed_pools by (force simp: k)
  have kept: "(h, e) \<in> set (replicas ?s1) \<longleftrightarrow> (h, e) \<in> set (replicas s) \<and> h \<in> m_host ` set ms" for h e
    unfolding drop_removed_pools by (simp add: k)
  have closed: "p \<in> set (closed_pools ?s1)" if "(h, e) \<in> set (replicas s)" "h \<notin> m_host ` set ms" "e_pool e = Some p" for h e p
    unfolding drop_removed_pools using that by (auto simp: pools_of_iff k)
  show ?thesis
    unfolding syncReplicaPools_def Let_def
    using run keys kept closed desired_keys [of ms] by (auto split: if_splits)
qed

theorem sync_tracks_discovery_witness:
  "let s' = syncReplicaPools (\<lambda>h. False) (tl demo_members) demo_selector in
     fst ` set (replicas s') = {''10.0.0.2''}"
  using sync_tracks_discovery [OF demo_selector_reach, of "\<lambda>h. False" "tl demo_members"]
  by (auto simp: Let_def demo_selector_replicas demo_members_def)

end
