(* ===== verification/Go_Time.thy ===== *)
theory Go_Time
  imports Idx_Env
begin

text \<open>
  The part of Go's \<^verbatim>\<open>time\<close> package that the sources use: formatting an instant in UTC with the layout
  \<^verbatim>\<open>2006-01-02T15:04:05Z\<close> (which is what \<^verbatim>\<open>RFC3339\<close> prints for a UTC time), and parsing RFC 3339
  timestamps and dates. An instant is a number of nanoseconds since the Unix epoch, as in
  \<open>Idx_Env\<close>. The calendar is the proleptic Gregorian one from year 0 on.

  Parsing covers the RFC 3339 grammar: a fraction of any length (cut at nanoseconds) and a zone of
  \<^verbatim>\<open>Z\<close> or an offset. The extra leniency of \<^verbatim>\<open>time.Parse\<close> (a one-digit hour, a comma before the
  fraction) is not modelled.
\<close>

section \<open>The calendar\<close>

definition leap :: "nat \<Rightarrow> bool" where
  "leap y \<longleftrightarrow> y mod 4 = 0 \<and> (y mod 100 \<noteq> 0 \<or> y mod 400 = 0)"

fun days_before_year :: "nat \<Rightarrow> nat" where
  "days_before_year y = 365 * y + (y + 3) div 4 - (y + 99) div 100 + (y + 399) div 400"

declare days_before_year.simps [simp del]

definition days_in_month :: "nat \<Rightarrow> nat \<Rightarrow> nat" where
  "days_in_month y m =
     (if m = 2 then (if leap y then 29 else 28)
      else if m = 4 \<or> m = 6 \<or> m = 9 \<or> m = 11 then 30 else 31)"

fun days_before_month :: "nat \<Rightarrow> nat \<Rightarrow> nat" where
  "days_before_month y 0 = 0"
| "days_before_month y (Suc m) = (if m = 0 then 0 else days_before_month y m + days_in_month y m)"

text \<open>Days since 0000-01-01 of the Unix epoch.\<close>

definition epoch_day :: nat where
  "epoch_day = 719528"

definition day_number :: "nat \<Rightarrow> nat \<Rightarrow> nat \<Rightarrow> nat" where
  "day_number y m d = days_before_year y + days_before_month y m + (d - 1)"

lemma ceil_div_step:
  assumes "0 < (n::nat)"
  shows "(y + n) div n = (y + (n - 1)) div n + (if y mod n = 0 then 1 else 0)"
proof -
  have y: "y + (n - 1) = (y mod n + (n - 1)) + n * (y div n)" by simp
  have "((y mod n + (n - 1)) + n * (y div n)) div n = y div n + (y mod n + (n - 1)) div n"
    by (rule div_mult_self2) (use assms in simp)
  moreover have "(y mod n + (n - 1)) div n = (if y mod n = 0 then 0 else 1)"
  proof (cases "y mod n = 0")
    case False
    have "y mod n < n" using assms by simp
    with False have "y mod n + (n - 1) = n + (y mod n - 1)" "y mod n - 1 < n" by auto
    then have "(y mod n + (n - 1)) div n = (y mod n - 1) div n + 1"
      using assms by (metis div_add_self1 gr_implies_not0)
    with \<open>y mod n - 1 < n\<close> have "(y mod n + (n - 1)) div n = 1" by (metis div_less add_0)
    with False show ?thesis by simp
  qed (use assms in simp)
  ultimately show ?thesis using assms y by simp
qed

lemma leap_step: "days_before_year (Suc y) = days_before_year y + (if leap y then 366 else 365)"
proof -
  have a: "(y + 4) div 4 = (y + 3) div 4 + (if y mod 4 = 0 then 1 else 0)"
    using ceil_div_step [of 4 y] by simp
  have b: "(y + 100) div 100 = (y + 99) div 100 + (if y mod 100 = 0 then 1 else 0)"
    using ceil_div_step [of 100 y] by simp
  have c: "(y + 400) div 400 = (y + 399) div 400 + (if y mod 400 = 0 then 1 else 0)"
    using ceil_div_step [of 400 y] by simp
  have d: "(y + 99) div 100 \<le> 365 * y + (y + 3) div 4"
  proof (cases "y = 0")
    case False
    have "(y + 99) div 100 \<le> y + 99 div 100" using False by (simp add: div_le_mono less_imp_le_nat)
    then show ?thesis by simp
  qed simp
  have e: "y mod 100 = 0 \<Longrightarrow> y mod 4 = 0" "y mod 400 = 0 \<Longrightarrow> y mod 100 = 0"
    by (auto simp flip: dvd_eq_mod_eq_0 intro: dvd_trans [of 4 100] dvd_trans [of 100 400])
  have S: "days_before_year (Suc y) = 365 + 365 * y + (y + 4) div 4 - (y + 100) div 100 + (y + 400) div 400"
  proof -
    have "Suc y + 3 = y + 4" "Suc y + 99 = y + 100" "Suc y + 399 = y + 400" "365 * Suc y = 365 + 365 * y" by simp_all
    then show ?thesis by (simp only: days_before_year.simps)
  qed
  define p q r A B C where "p = (y mod 4 = 0)" "q = (y mod 100 = 0)" "r = (y mod 400 = 0)"
    "A = (y + 3) div 4" "B = (y + 99) div 100" "C = (y + 399) div 400"
  note defs = this
  have "days_before_year (Suc y) = 365 + 365 * y + (A + (if p then 1 else 0)) - (B + (if q then 1 else 0)) + (C + (if r then 1 else 0))"
    by (simp only: S a b c defs)
  moreover have "days_before_year y = 365 * y + A - B + C" by (simp only: days_before_year.simps defs)
  moreover have "leap y \<longleftrightarrow> p \<and> (\<not> q \<or> r)" by (simp only: leap_def defs not_False_eq_True) 
  moreover have "B \<le> 365 * y + A" "q \<Longrightarrow> p" "r \<Longrightarrow> q" using d e by (simp_all only: defs)
  ultimately show ?thesis
    by (cases p; cases q; cases r) simp_all
qed

lemma days_before_year_mono: "y \<le> z \<Longrightarrow> days_before_year y \<le> days_before_year z"
  by (induction z) (auto simp: leap_step le_Suc_eq split: if_splits)

lemma days_before_year_lower: "365 * y \<le> days_before_year y"
  by (induction y) (auto simp: leap_step days_before_year.simps)

lemma days_before_year_upper: "days_before_year y \<le> 366 * y"
  by (induction y) (auto simp: leap_step days_before_year.simps)

function year_from :: "nat \<Rightarrow> nat \<Rightarrow> nat" where
  "year_from y D = (if D < days_before_year (Suc y) then y else year_from (Suc y) D)"
  by pat_completeness auto
termination
proof (relation "measure (\<lambda>(y, D). Suc D - y)")
  fix y D :: nat assume "\<not> D < days_before_year (Suc y)"
  with days_before_year_lower [of "Suc y"] show "((Suc y, D), y, D) \<in> measure (\<lambda>(y, D). Suc D - y)" by auto
qed simp

declare year_from.simps [simp del]

definition year_of_day :: "nat \<Rightarrow> nat" where
  "year_of_day D = year_from (D div 366) D"

lemma year_from_spec:
  "days_before_year y \<le> D \<Longrightarrow>
   days_before_year (year_from y D) \<le> D \<and> D < days_before_year (Suc (year_from y D))"
proof (induction y D rule: year_from.induct)
  case (1 y D)
  then show ?case by (cases "D < days_before_year (Suc y)") (auto simp: year_from.simps [of y D])
qed

lemma year_of_day_spec:
  "days_before_year (year_of_day D) \<le> D" "D < days_before_year (Suc (year_of_day D))"
proof -
  have "days_before_year (D div 366) \<le> D"
    using days_before_year_upper [of "D div 366"] by (meson le_trans div_times_less_eq_dividend times_div_less_eq_dividend)
  from year_from_spec [OF this] show "days_before_year (year_of_day D) \<le> D" "D < days_before_year (Suc (year_of_day D))"
    by (simp_all add: year_of_day_def)
qed

fun month_from :: "nat \<Rightarrow> nat \<Rightarrow> nat \<Rightarrow> nat \<Rightarrow> nat \<times> nat" where
  "month_from y m n 0 = (m, n)"
| "month_from y m n (Suc k) =
     (if n < days_in_month y m then (m, n) else month_from y (Suc m) (n - days_in_month y m) k)"

text \<open>Month and day (from 1) of the \<open>n\<close>-th day (from 0) of a year.\<close>

definition month_day :: "nat \<Rightarrow> nat \<Rightarrow> nat \<times> nat" where
  "month_day y n = (case month_from y 1 n 11 of (m, d) \<Rightarrow> (m, d + 1))"

lemma month_from_spec:
  assumes "month_from y m n k = (m', n')" "1 \<le> m"
  shows "m \<le> m' \<and> m' \<le> m + k \<and> days_before_month y m + n = days_before_month y m' + n' \<and>
    (m' < m + k \<longrightarrow> n' < days_in_month y m')"
  using assms
proof (induction y m n k rule: month_from.induct)
  case (2 y m n k)
  show ?case
  proof (cases "n < days_in_month y m")
    case True
    with "2.prems" show ?thesis by auto
  next
    case False
    with 2 have IH: "Suc m \<le> m'" "m' \<le> Suc m + k"
      "days_before_month y (Suc m) + (n - days_in_month y m) = days_before_month y m' + n'"
      "m' < Suc m + k \<longrightarrow> n' < days_in_month y m'" by auto
    have "days_before_month y (Suc m) = days_before_month y m + days_in_month y m"
      using "2.prems"(2) by simp
    with IH False show ?thesis by auto
  qed
qed auto

lemma days_before_13: "days_before_month y 13 = (if leap y then 366 else 365)"
  by (simp add: eval_nat_numeral days_in_month_def)

lemma month_day_spec:
  assumes "month_day y n = (m, d)" "n < (if leap y then 366 else 365)"
  shows "1 \<le> m" "m \<le> 12" "1 \<le> d" "d \<le> days_in_month y m" "days_before_month y m + (d - 1) = n"
proof -
  obtain n' where mf: "month_from y 1 n 11 = (m, n')" and d: "d = n' + 1"
    using assms(1) by (auto simp: month_day_def split: prod.splits)
  note s = month_from_spec [OF mf]
  have z: "days_before_month y 1 = 0" by simp
  from s z show "1 \<le> m" "m \<le> 12" "1 \<le> d" "days_before_month y m + (d - 1) = n" by (auto simp: d)
  show "d \<le> days_in_month y m"
  proof (cases "m = 12")
    case True
    have "days_before_month y 13 = days_before_month y 12 + days_in_month y 12" by (simp add: eval_nat_numeral)
    with s z True assms(2) days_before_13 [of y] show ?thesis by (auto simp: d)
  next
    case False
    with s show ?thesis by (auto simp: d)
  qed
qed

section \<open>Digits\<close>

definition digit_char :: "nat \<Rightarrow> char" where
  "digit_char n = char_of (48 + n)"

definition digit_val :: "char \<Rightarrow> nat option" where
  "digit_val c = (let n = (of_char c :: nat) in if 48 \<le> n \<and> n \<le> 57 then Some (n - 48) else None)"

fun pad_digits :: "nat \<Rightarrow> nat \<Rightarrow> string" where
  "pad_digits 0 n = []"
| "pad_digits (Suc k) n = pad_digits k (n div 10) @ [digit_char (n mod 10)]"

fun decimal :: "nat \<Rightarrow> string" where
  "decimal n = (if n < 10 then [digit_char n] else decimal (n div 10) @ [digit_char (n mod 10)])"

declare decimal.simps [simp del]

fun read_digits :: "nat \<Rightarrow> string \<Rightarrow> nat option" where
  "read_digits acc [] = Some acc"
| "read_digits acc (c # s) = (case digit_val c of None \<Rightarrow> None | Some d \<Rightarrow> read_digits (acc * 10 + d) s)"

lemma digit_val_char [simp]: "n < 10 \<Longrightarrow> digit_val (digit_char n) = Some n"
  by (simp add: digit_val_def digit_char_def of_char_of)

lemma read_digits_append:
  "read_digits acc (a @ b) = (case read_digits acc a of None \<Rightarrow> None | Some n \<Rightarrow> read_digits n b)"
  by (induction acc a rule: read_digits.induct) (auto split: option.splits)

lemma length_pad_digits [simp]: "length (pad_digits k n) = k"
  by (induction k arbitrary: n) auto

lemma read_pad_digits: "n < 10 ^ k \<Longrightarrow> read_digits acc (pad_digits k n) = Some (acc * 10 ^ k + n)"
proof (induction k arbitrary: n acc)
  case (Suc k)
  then have "n div 10 < 10 ^ k" by (simp add: div_less_iff_less_mult)
  from Suc.IH [OF this] show ?case
    by (simp add: read_digits_append algebra_simps)
qed simp

lemma read_decimal: "read_digits 0 (decimal n) = Some n"
proof (induction n rule: decimal.induct)
  case (1 n)
  then show ?case by (cases "n < 10") (simp_all add: decimal.simps [of n] read_digits_append)
qed

section \<open>Formatting and parsing\<close>

definition fmt_year :: "nat \<Rightarrow> string" where
  "fmt_year y = (if y \<le> 9999 then pad_digits 4 y else decimal y)"

definition day_of :: "int \<Rightarrow> nat" where
  "day_of t = nat (unix t div 86400 + int epoch_day)"

definition second_of_day :: "int \<Rightarrow> nat" where
  "second_of_day t = nat (unix t mod 86400)"

definition fmt_date :: "nat \<Rightarrow> string" where
  "fmt_date D = (let y = year_of_day D; md = month_day y (D - days_before_year y) in
     fmt_year y @ ''-'' @ pad_digits 2 (fst md) @ ''-'' @ pad_digits 2 (snd md))"

definition fmt_clock :: "nat \<Rightarrow> string" where
  "fmt_clock r = pad_digits 2 (r div 3600) @ '':'' @ pad_digits 2 (r div 60 mod 60) @ '':'' @ pad_digits 2 (r mod 60)"

text \<open>\<^verbatim>\<open>t.UTC().Format(time.RFC3339)\<close>, which is \<^verbatim>\<open>Format("2006-01-02T15:04:05Z")\<close> too.\<close>

definition fmt_utc :: "int \<Rightarrow> string" where
  "fmt_utc t = fmt_date (day_of t) @ ''T'' @ fmt_clock (second_of_day t) @ ''Z''"

definition take_digits :: "nat \<Rightarrow> string \<Rightarrow> (nat \<times> string) option" where
  "take_digits k s = (if length s < k then None
     else case read_digits 0 (take k s) of None \<Rightarrow> None | Some n \<Rightarrow> Some (n, drop k s))"

definition expect :: "char \<Rightarrow> string \<Rightarrow> string option" where
  "expect c s = (case s of [] \<Rightarrow> None | d # r \<Rightarrow> if d = c then Some r else None)"

definition parse_date :: "string \<Rightarrow> (nat \<times> string) option" where
  "parse_date s =
     Option.bind (take_digits 4 s) (\<lambda>(y, s). Option.bind (expect CHR ''-'' s) (\<lambda>s.
     Option.bind (take_digits 2 s) (\<lambda>(m, s). Option.bind (expect CHR ''-'' s) (\<lambda>s.
     Option.bind (take_digits 2 s) (\<lambda>(d, s).
       if 1 \<le> m \<and> m \<le> 12 \<and> 1 \<le> d \<and> d \<le> days_in_month y m then Some (day_number y m d, s) else None)))))"

definition parse_clock :: "string \<Rightarrow> (nat \<times> string) option" where
  "parse_clock s =
     Option.bind (take_digits 2 s) (\<lambda>(h, s). Option.bind (expect CHR '':'' s) (\<lambda>s.
     Option.bind (take_digits 2 s) (\<lambda>(mi, s). Option.bind (expect CHR '':'' s) (\<lambda>s.
     Option.bind (take_digits 2 s) (\<lambda>(sec, s).
       if h < 24 \<and> mi < 60 \<and> sec < 60 then Some (h * 3600 + mi * 60 + sec, s) else None)))))"

text \<open>A fraction in nanoseconds: at least one digit after the point; digits past the ninth are cut.\<close>

definition parse_fraction :: "string \<Rightarrow> (nat \<times> string) option" where
  "parse_fraction s = (case s of
      CHR ''.'' # r \<Rightarrow>
        (let ds = takeWhile (\<lambda>c. digit_val c \<noteq> None) r in
         if ds = [] then None
         else case read_digits 0 (take 9 (ds @ replicate 9 CHR ''0'')) of
           None \<Rightarrow> None | Some n \<Rightarrow> Some (n, drop (length ds) r))
    | _ \<Rightarrow> Some (0, s))"

definition parse_zone :: "string \<Rightarrow> int option" where
  "parse_zone s = (if s = ''Z'' then Some 0
     else case s of
       [] \<Rightarrow> None
     | sg # r \<Rightarrow>
         Option.bind (take_digits 2 r) (\<lambda>(h, r). Option.bind (expect CHR '':'' r) (\<lambda>r.
         Option.bind (take_digits 2 r) (\<lambda>(mi, r).
           if r = [] \<and> h \<le> 24 \<and> mi < 60
           then (if sg = CHR ''+'' then Some (int (h * 3600 + mi * 60))
                 else if sg = CHR ''-'' then Some (- int (h * 3600 + mi * 60)) else None)
           else None))))"

definition instant :: "nat \<Rightarrow> nat \<Rightarrow> nat \<Rightarrow> int \<Rightarrow> int" where
  "instant D r ns off = ((int D - int epoch_day) * 86400 + int r - off) * second + int ns"

text \<open>\<^verbatim>\<open>time.Parse(time.RFC3339, s)\<close> and its variants, as a UTC instant.\<close>

definition parse_rfc3339 :: "string \<Rightarrow> int option" where
  "parse_rfc3339 s =
     Option.bind (parse_date s) (\<lambda>(D, s). Option.bind (expect CHR ''T'' s) (\<lambda>s.
     Option.bind (parse_clock s) (\<lambda>(r, s). Option.bind (parse_fraction s) (\<lambda>(ns, s).
     Option.bind (parse_zone s) (\<lambda>off. Some (instant D r ns off))))))"

section \<open>Round trip\<close>

lemma take_pad_digits: "n < 10 ^ k \<Longrightarrow> take_digits k (pad_digits k n @ r) = Some (n, r)"
  by (simp add: take_digits_def read_pad_digits)

lemma expect_Cons [simp]: "expect c (c # r) = Some r"
  by (simp add: expect_def)

definition time_in_range :: "int \<Rightarrow> bool" where
  "time_in_range t \<longleftrightarrow> 0 \<le> unix t div 86400 + int epoch_day \<and> year_of_day (day_of t) \<le> 9999"

lemma parse_fmt_date:
  assumes "year_of_day D \<le> 9999"
  shows "parse_date (fmt_date D @ r) = Some (D, r)"
proof -
  let ?y = "year_of_day D" and ?n = "D - days_before_year (year_of_day D)"
  have n: "?n < (if leap ?y then 366 else 365)"
    using year_of_day_spec [of D] leap_step [of ?y] by (auto split: if_splits)
  obtain m d where md: "month_day ?y ?n = (m, d)" by fastforce
  note s = month_day_spec [OF md n]
  have d: "d < 10 ^ 2" using s(4) by (auto simp: days_in_month_def split: if_splits)
  have m: "m < 10 ^ 2" using s(2) by simp
  have y: "?y < 10 ^ 4" using assms by simp
  have "day_number ?y m d = D"
    using s(5) year_of_day_spec(1) [of D] by (simp add: day_number_def)
  with s assms md show ?thesis
    by (simp add: parse_date_def fmt_date_def fmt_year_def Let_def
        take_pad_digits [OF y] take_pad_digits [OF m] take_pad_digits [OF d])
qed

lemma clock_parts: "a * 60 + c = (x::nat) \<Longrightarrow> q * 60 + b = a \<Longrightarrow> q * 3600 + b * 60 + c = x"
  by simp

lemma parse_fmt_clock:
  assumes "x < 86400"
  shows "parse_clock (fmt_clock x @ r) = Some (x, r)"
proof -
  have h: "x div 3600 < 10 ^ 2" and mi: "x div 60 mod 60 < 10 ^ 2" and se: "x mod 60 < 10 ^ 2"
    using assms by (auto simp: less_mult_imp_div_less intro: less_trans [of _ 60])
  have "x div 3600 = x div 60 div 60" by (simp add: div_mult2_eq [symmetric])
  then have "x div 3600 * 3600 + x div 60 mod 60 * 60 + x mod 60 = x"
    using clock_parts [OF div_mult_mod_eq [of x 60] div_mult_mod_eq [of "x div 60" 60]] by (simp only:)
  moreover have "x div 3600 < 24" using assms by (simp add: less_mult_imp_div_less)
  ultimately show ?thesis
    by (simp add: parse_clock_def fmt_clock_def take_pad_digits [OF h] take_pad_digits [OF mi] take_pad_digits [OF se])
qed

lemma parse_fmt_utc:
  assumes "time_in_range t"
  shows "parse_rfc3339 (fmt_utc t) = Some (unix t * second)"
proof -
  have r: "second_of_day t < 86400" by (simp add: second_of_day_def nat_less_iff)
  have "instant (day_of t) (second_of_day t) 0 0 = unix t * second"
    using assms by (simp add: instant_def day_of_def second_of_day_def time_in_range_def div_mult_mod_eq)
  with assms show ?thesis
    by (simp add: parse_rfc3339_def fmt_utc_def time_in_range_def parse_fmt_date parse_fmt_clock [OF r]
        parse_fraction_def parse_zone_def)
qed

end
