(* ===== verification/Mls_Rows.thy ===== *)
theory Mls_Rows
  imports Go_Time
begin

text \<open>
  The mapping of upstream MLS rows to mirror rows (\<^verbatim>\<open>internal/service/mls\<close>: \<^verbatim>\<open>row_parse.go\<close>,
  \<^verbatim>\<open>normalize.go\<close>, \<^verbatim>\<open>modification_timestamp.go\<close>, \<^verbatim>\<open>flood_risk.go\<close>, \<^verbatim>\<open>association_fee_monthly.go\<close>,
  \<^verbatim>\<open>reso_field_resolver.go\<close>, \<^verbatim>\<open>listing_payload.go\<close>, \<^verbatim>\<open>listing_row.go\<close>).

  A decoded row is a \<open>gomap\<close>. Numbers are exact reals: a float64 that came from JSON is finite, and
  its rounding is not modelled. \<open>sprint\<close> stands for \<^verbatim>\<open>fmt.Sprint\<close> of a value that is not a string; the
  theorems hold for every such function. The order of the keys in an encoded object is not
  modelled. A \<^verbatim>\<open>time.Time\<close> is an instant in nanoseconds, a date the instant of its midnight.
\<close>

section \<open>Values of a row\<close>

definition stringValue :: "(json \<Rightarrow> string) \<Rightarrow> json \<Rightarrow> string" where
  "stringValue sprint v = (case v of JNull \<Rightarrow> [] | JStr s \<Rightarrow> trim_space s | _ \<Rightarrow> trim_space (sprint v))"

definition numericValue :: "json \<Rightarrow> real option" where
  "numericValue v = (case v of JNum x \<Rightarrow> Some x | _ \<Rightarrow> None)"

text \<open>\<^verbatim>\<open>math.Round\<close>: halves away from zero.\<close>

definition go_round :: "real \<Rightarrow> int" where
  "go_round x = (if x < 0 then - \<lfloor>- x + 1 / 2\<rfloor> else \<lfloor>x + 1 / 2\<rfloor>)"

definition boolPtr :: "json \<Rightarrow> bool option" where
  "boolPtr v = (case v of JBool b \<Rightarrow> Some b | _ \<Rightarrow> None)"

definition optionalString :: "(json \<Rightarrow> string) \<Rightarrow> json \<Rightarrow> string option" where
  "optionalString sprint v = (let s = stringValue sprint v in if s = [] then None else Some s)"

definition timestampPtr :: "(json \<Rightarrow> string) \<Rightarrow> json \<Rightarrow> int option" where
  "timestampPtr sprint v = (let s = stringValue sprint v in if s = [] then None else parse_rfc3339 s)"

definition datePtr :: "(json \<Rightarrow> string) \<Rightarrow> json \<Rightarrow> int option" where
  "datePtr sprint v = (let s = stringValue sprint v in
     if s = [] then None
     else case parse_date s of
       Some (D, []) \<Rightarrow> Some (instant D 0 0 0)
     | _ \<Rightarrow> (case parse_rfc3339 s of None \<Rightarrow> None | Some t \<Rightarrow> Some (unix t div 86400 * 86400 * second)))"

definition resolveLatLng :: "gomap \<Rightarrow> (real \<times> real) option" where
  "resolveLatLng row =
     (let flat = (case (numericValue (lookup_any row ''Latitude''), numericValue (lookup_any row ''Longitude'')) of
          (Some lat, Some lng) \<Rightarrow> Some (lat, lng) | _ \<Rightarrow> None)
      in case lookup_any row ''Coordinates'' of
        JObj kvs \<Rightarrow>
          (case lookup_any (gomap_of kvs) ''coordinates'' of
             JArr (x # y # _) \<Rightarrow>
               (case (numericValue x, numericValue y) of (Some lng, Some lat) \<Rightarrow> Some (lat, lng) | _ \<Rightarrow> flat)
           | _ \<Rightarrow> flat)
      | _ \<Rightarrow> flat)"

definition datasetSlugFromListingKey :: "string \<Rightarrow> string \<Rightarrow> string" where
  "datasetSlugFromListingKey listingKey fallbackDataset = (case index_char CHR '':'' listingKey of
      Some (Suc n) \<Rightarrow> to_lower (take (Suc n) listingKey)
    | _ \<Rightarrow> to_lower fallbackDataset)"

text \<open>An empty \<^verbatim>\<open>[]string\<close> that was never appended to encodes as \<^verbatim>\<open>null\<close>.\<close>

definition specialListingConditions :: "(json \<Rightarrow> string) \<Rightarrow> gomap \<Rightarrow> json" where
  "specialListingConditions sprint row = (case map_of row ''SpecialListingConditions'' of
      None \<Rightarrow> JArr []
    | Some (JArr items) \<Rightarrow>
        (let out = filter (\<lambda>s. s \<noteq> []) (map (stringValue sprint) items) in
         if out = [] then JNull else JArr (map JStr out))
    | Some v \<Rightarrow> v)"

section \<open>Timestamps\<close>

definition UsesBridgeModificationOData :: "string \<Rightarrow> bool" where
  "UsesBridgeModificationOData datasetSlug \<longleftrightarrow> to_lower (trim_space datasetSlug) \<noteq> ''beaches''"

definition ModificationODataField :: "string \<Rightarrow> string" where
  "ModificationODataField datasetSlug =
     (if UsesBridgeModificationOData datasetSlug then ''BridgeModificationTimestamp'' else ''ModificationTimestamp'')"

definition ODataGTFilter :: "string \<Rightarrow> int \<Rightarrow> string" where
  "ODataGTFilter field since = field @ '' gt '' @ fmt_utc since"

definition ResolveModificationTimestamp :: "(json \<Rightarrow> string) \<Rightarrow> string \<Rightarrow> gomap \<Rightarrow> int option" where
  "ResolveModificationTimestamp sprint datasetSlug row =
     (case (if UsesBridgeModificationOData datasetSlug
            then timestampPtr sprint (lookup_any row ''BridgeModificationTimestamp'') else None) of
        Some ts \<Rightarrow> Some ts
      | None \<Rightarrow> timestampPtr sprint (lookup_any row ''ModificationTimestamp''))"

section \<open>Bounded numbers\<close>

definition clampRange :: "real \<Rightarrow> real \<Rightarrow> real \<Rightarrow> real" where
  "clampRange v lo hi = (if v < lo then lo else if v > hi then hi else v)"

definition max_14_2 :: real where "max_14_2 = 99999999999999 / 100"
definition max_12_2 :: real where "max_12_2 = 999999999999 / 100"
definition max_12_4 :: real where "max_12_4 = 999999999999 / 10000"

definition clampNumeric14_2 :: "real \<Rightarrow> real" where
  "clampNumeric14_2 v = clampRange v (- max_14_2) max_14_2"

definition ResolveListPrice :: "gomap \<Rightarrow> real option" where
  "ResolveListPrice row = (case find (\<lambda>k. numericValue (lookup_any row k) \<noteq> None)
       [''ListPrice'', ''PreviousListPrice'', ''OriginalListPrice''] of
      None \<Rightarrow> None
    | Some k \<Rightarrow> map_option clampNumeric14_2 (numericValue (lookup_any row k)))"

definition ClampNumeric14_2Ptr :: "json \<Rightarrow> real option" where
  "ClampNumeric14_2Ptr v = map_option clampNumeric14_2 (numericValue v)"

definition ClampNumeric12_4Ptr :: "json \<Rightarrow> real option" where
  "ClampNumeric12_4Ptr v = map_option (\<lambda>f. clampRange f (- max_12_4) max_12_4) (numericValue v)"

definition clampNumeric12_2Ptr :: "json \<Rightarrow> real option" where
  "clampNumeric12_2Ptr v = map_option (\<lambda>f. clampRange f (- max_12_2) max_12_2) (numericValue v)"

definition ResolveLivingAreaSqft :: "gomap \<Rightarrow> real option" where
  "ResolveLivingAreaSqft row = (case clampNumeric12_2Ptr (lookup_any row ''LivingArea'') of
      Some v \<Rightarrow> Some v | None \<Rightarrow> clampNumeric12_2Ptr (lookup_any row ''BuildingAreaTotal''))"

definition max_5_2 :: real where "max_5_2 = 9999 / 100"

definition clampBathroomsPtr :: "real \<Rightarrow> real option" where
  "clampBathroomsPtr v = (if v < 0 then None else Some (clampRange v 0 max_5_2))"

definition BathroomsTotal :: "gomap \<Rightarrow> real option" where
  "BathroomsTotal row = (case numericValue (lookup_any row ''BathroomsTotalDecimal'') of
      Some v \<Rightarrow> clampBathroomsPtr v
    | None \<Rightarrow> (case numericValue (lookup_any row ''BathroomsTotalInteger'') of
        Some v \<Rightarrow> (if v < 0 \<or> v > 30 then None else clampBathroomsPtr v)
      | None \<Rightarrow> None))"

definition BoundedInt16Ptr :: "json \<Rightarrow> int option" where
  "BoundedInt16Ptr v = (case numericValue v of None \<Rightarrow> None
     | Some f \<Rightarrow> (if f < - 32768 \<or> f > 32767 then None else Some (go_round f)))"

section \<open>Flood zones and fees\<close>

definition ComputeLowRiskFloodZoneYN :: "string option \<Rightarrow> bool" where
  "ComputeLowRiskFloodZoneYN floodZoneCode = (case floodZoneCode of None \<Rightarrow> False
     | Some c \<Rightarrow> (let code = trim_space c; upper = to_upper code in
         if code = [] then False
         else if contains_sub upper ''A'' \<or> contains_sub upper ''V'' then False
         else if contains_sub upper ''X500'' then True
         else if contains_sub (to_lower code) ''no'' then True
         else if contains_sub upper ''X'' then True
         else False))"

datatype mirror_provider = Bridge | Spark

definition firstNonEmpty :: "string list \<Rightarrow> string" where
  "firstNonEmpty vals = (case find (\<lambda>v. trim_space v \<noteq> []) vals of None \<Rightarrow> [] | Some v \<Rightarrow> trim_space v)"

definition ResolveFloodZoneCode :: "(json \<Rightarrow> string) \<Rightarrow> gomap \<Rightarrow> mirror_provider \<Rightarrow> string \<Rightarrow> string option" where
  "ResolveFloodZoneCode sprint row provider datasetUpper =
     (let spark = stringValue sprint (lookup_any row ''Location_sp_and_sp_Legal_co_Flood_sp_Zone2'');
          bridgeExt = stringValue sprint (lookup_any row (to_upper datasetUpper @ ''_FloodZoneCode''));
          generic = stringValue sprint (lookup_any row ''FloodZoneCode'');
          value = (case provider of Spark \<Rightarrow> firstNonEmpty [spark, generic]
                   | Bridge \<Rightarrow> firstNonEmpty [bridgeExt, generic, spark])
      in if value = [] then None else Some value)"

definition round2 :: "real \<Rightarrow> real" where
  "round2 v = of_int (go_round (v * 100)) / 100"

definition monthlyMultipliers :: "(string \<times> real) list" where
  "monthlyMultipliers = [(''Monthly'', 1), (''Annually'', 1 / 12), (''Semi-Annually'', 1 / 6),
     (''Quarterly'', 1 / 3), (''Weekly'', 52 / 12), (''Daily'', 365 / 12), (''One Time'', 0)]"

definition componentMonthly :: "(json \<Rightarrow> string) \<Rightarrow> json \<Rightarrow> json \<Rightarrow> real" where
  "componentMonthly sprint amount frequency = (case numericValue amount of None \<Rightarrow> 0
     | Some amt \<Rightarrow> (let freq = stringValue sprint frequency in
         if freq = [] then 0
         else case map_of monthlyMultipliers freq of None \<Rightarrow> 0 | Some mult \<Rightarrow> round2 (amt * mult)))"

definition FromResoRow :: "(json \<Rightarrow> string) \<Rightarrow> gomap \<Rightarrow> bool \<Rightarrow> real option" where
  "FromResoRow sprint row allowDeclaredFallback =
     (let sum = round2 (componentMonthly sprint (lookup_any row ''AssociationFee'') (lookup_any row ''AssociationFeeFrequency'')
              + componentMonthly sprint (lookup_any row ''AssociationFee2'') (lookup_any row ''AssociationFee2Frequency''))
      in if sum > 0 then Some sum
         else if \<not> allowDeclaredFallback then None
         else case numericValue (lookup_any row
               ''Financial_sp_Information_co_Estimated_sp_Monthly_sp_Assoc_sp_Recurring_sp_Fee3'') of
             Some v \<Rightarrow> (if v > 0 then Some (round2 v) else None)
           | None \<Rightarrow> None)"

definition ResolveEstimatedTotalMonthlyFees ::
  "(json \<Rightarrow> string) \<Rightarrow> gomap \<Rightarrow> mirror_provider \<Rightarrow> string \<Rightarrow> real option" where
  "ResolveEstimatedTotalMonthlyFees sprint row provider datasetUpper =
     (let ext = (if provider = Bridge
            then ClampNumeric14_2Ptr (lookup_any row (to_upper datasetUpper @ ''_TotalMonthlyFees'')) else None)
      in case ext of
        Some v \<Rightarrow> (if v > 0 then Some v
            else map_option clampNumeric14_2 (FromResoRow sprint row (provider = Spark)))
      | None \<Rightarrow> map_option clampNumeric14_2 (FromResoRow sprint row (provider = Spark)))"

section \<open>Expanded collections\<close>

definition ParseExpandKeys :: "string \<Rightarrow> string list" where
  "ParseExpandKeys expandCSV =
     (let csv = (if trim_space expandCSV = [] then ''Media,Unit,Room,OpenHouse'' else trim_space expandCSV)
      in dedup_into [] (filter (\<lambda>p. p \<noteq> []) (map trim_space (split_char CHR '','' csv))))"

definition BridgeNavigationExpandKeys :: "string \<Rightarrow> string list" where
  "BridgeNavigationExpandKeys bridgeExpandCSV =
     (let nav = filter (\<lambda>k. k \<in> {''OpenHouses'', ''Rooms'', ''UnitTypes''}) (ParseExpandKeys bridgeExpandCSV)
      in if nav \<noteq> [] then nav else ParseExpandKeys ''OpenHouses,Rooms,UnitTypes'')"

definition PersistExpandKeys :: "mirror_provider \<Rightarrow> string \<Rightarrow> string \<Rightarrow> string list" where
  "PersistExpandKeys provider sparkExpand bridgeExpand =
     (case provider of Spark \<Rightarrow> ParseExpandKeys sparkExpand | Bridge \<Rightarrow> ParseExpandKeys bridgeExpand)"

text \<open>The four collections that have a column of their own: \<open>None\<close> is an absent key.\<close>

record expanded_payload =
  ep_media :: "json option"
  ep_unit :: "json option"
  ep_room :: "json option"
  ep_open_house :: "json option"

definition no_payload :: expanded_payload where
  "no_payload = \<lparr>ep_media = None, ep_unit = None, ep_room = None, ep_open_house = None\<rparr>"

definition ExtractJSONBField :: "gomap \<Rightarrow> string \<Rightarrow> json option" where
  "ExtractJSONBField row key = map_of row key"

definition alias_key :: "string \<Rightarrow> string \<Rightarrow> gomap \<Rightarrow> gomap" where
  "alias_key bridge canonical row = (case map_of row bridge of
      None \<Rightarrow> row
    | Some v \<Rightarrow> (if has_key row canonical then row else row @ [(canonical, v)]))"

text \<open>\<^verbatim>\<open>NormalizeBridgeExpandKeys\<close> changes the caller's row.\<close>

definition NormalizeBridgeExpandKeys :: "gomap \<Rightarrow> gomap" where
  "NormalizeBridgeExpandKeys row =
     alias_key ''OpenHouses'' ''OpenHouse'' (alias_key ''UnitTypes'' ''Unit'' (alias_key ''Rooms'' ''Room'' row))"

definition StripKeysForProvider :: "mirror_provider \<Rightarrow> string list \<Rightarrow> string list" where
  "StripKeysForProvider provider expandKeys =
     expandKeys @ (if provider = Bridge then [''Rooms'', ''UnitTypes'', ''OpenHouses''] else [])"

definition put_payload :: "string \<Rightarrow> json \<Rightarrow> expanded_payload \<Rightarrow> expanded_payload" where
  "put_payload key val p =
     (if key = ''Media'' then p\<lparr>ep_media := Some val\<rparr>
      else if key = ''Unit'' \<or> key = ''UnitTypes'' then p\<lparr>ep_unit := Some val\<rparr>
      else if key = ''Room'' \<or> key = ''Rooms'' then p\<lparr>ep_room := Some val\<rparr>
      else if key = ''OpenHouse'' \<or> key = ''OpenHouses'' then p\<lparr>ep_open_house := Some val\<rparr>
      else p)"

fun extract_loop :: "gomap \<Rightarrow> string list \<Rightarrow> expanded_payload \<Rightarrow> expanded_payload" where
  "extract_loop row [] p = p"
| "extract_loop row (key # keys) p = (case ExtractJSONBField row key of
      None \<Rightarrow> extract_loop row keys p
    | Some val \<Rightarrow> extract_loop row keys (put_payload key val p))"

definition or_else :: "'a option \<Rightarrow> 'a option \<Rightarrow> 'a option" where
  "or_else a b = (case a of None \<Rightarrow> b | Some x \<Rightarrow> Some x)"

text \<open>The payloads and the row as the call leaves it.\<close>

definition ExtractExpandedPayloads :: "gomap \<Rightarrow> mirror_provider \<Rightarrow> string list \<Rightarrow> expanded_payload \<times> gomap" where
  "ExtractExpandedPayloads row provider expandKeys =
     (let row = (if provider = Bridge then NormalizeBridgeExpandKeys row else row);
          p = extract_loop row expandKeys no_payload
      in if provider = Bridge
         then (p\<lparr>ep_room := or_else (ep_room p) (ExtractJSONBField row ''Rooms''),
                 ep_unit := or_else (ep_unit p) (ExtractJSONBField row ''UnitTypes''),
                 ep_open_house := or_else (ep_open_house p) (ExtractJSONBField row ''OpenHouses'')\<rparr>, row)
         else (p, row))"

fun delete_keys :: "string list \<Rightarrow> gomap \<Rightarrow> gomap" where
  "delete_keys [] m = m"
| "delete_keys (k # ks) m = delete_keys ks (delete_key m k)"

definition StripJSONBKeysFromRaw :: "raw_message \<Rightarrow> string list \<Rightarrow> raw_message" where
  "StripJSONBKeysFromRaw raw keys =
     (if raw = RawEmpty \<or> keys = [] then raw
      else case unmarshal_map raw of
        None \<Rightarrow> raw
      | Some m \<Rightarrow> (if \<exists>k \<in> set keys. has_key m k then RawJson (JObj (delete_keys keys m)) else raw))"

definition mappedScalarFieldNames :: "string list" where
  "mappedScalarFieldNames = [
    ''ListingKey'', ''ListingId'', ''StandardStatus'', ''ListPrice'', ''ClosePrice'', ''PreviousListPrice'',
    ''PriceChangeTimestamp'', ''ModificationTimestamp'', ''BridgeModificationTimestamp'',
    ''BedroomsTotal'', ''BathroomsTotalDecimal'', ''BathroomsTotalInteger'', ''LivingArea'', ''BuildingAreaTotal'', ''LotSizeAcres'',
    ''AssociationFee'', ''AssociationFeeFrequency'', ''AssociationFee2'', ''AssociationFee2Frequency'',
    ''YearBuilt'', ''StoriesTotal'', ''City'', ''CountyOrParish'', ''PostalCode'', ''StateOrProvince'',
    ''PropertyType'', ''PropertySubType'', ''OnMarketDate'', ''CloseDate'', ''Latitude'', ''Longitude'',
    ''Coordinates'', ''WaterfrontYN'', ''PoolPrivateYN'', ''DockYN'', ''NewConstructionYN'', ''GarageYN'',
    ''AssociationYN'', ''SpaYN'', ''FireplaceYN'', ''SeniorCommunityYN'', ''SpecialListingConditions'',
    ''SubdivisionName'', ''ElementarySchool'', ''MiddleOrJuniorSchool'', ''HighSchool'',
    ''StreetNumber'', ''StreetName'', ''ListAgentMlsId'', ''ListOfficeMlsId'', ''MlsStatus'']"

definition BuildCustomFields :: "gomap \<Rightarrow> mirror_provider \<Rightarrow> string list \<Rightarrow> raw_message" where
  "BuildCustomFields row provider expandKeys =
     (let out = filter (\<lambda>(k, v). \<not> has_prefix k ''@odata'' \<and> k \<notin> set mappedScalarFieldNames \<and>
           k \<notin> set (StripKeysForProvider provider expandKeys)) row
      in if out = [] then RawEmpty else RawJson (JObj out))"

definition attachJSONB :: "string \<Rightarrow> json option \<Rightarrow> gomap \<Rightarrow> gomap" where
  "attachJSONB key payload obj = (case payload of None \<Rightarrow> obj | Some v \<Rightarrow> AList.update key v obj)"

definition flatMergeCustomFields :: "raw_message \<Rightarrow> gomap \<Rightarrow> gomap" where
  "flatMergeCustomFields customFields obj = (case unmarshal_map customFields of
      None \<Rightarrow> obj
    | Some custom \<Rightarrow> obj @ filter (\<lambda>(k, v). \<not> has_key obj k) custom)"

definition MergeMirrorListing :: "raw_message \<Rightarrow> expanded_payload \<Rightarrow> raw_message \<Rightarrow> raw_message" where
  "MergeMirrorListing raw payloads customFields =
     (let obj = (case unmarshal_map raw of None \<Rightarrow> [] | Some m \<Rightarrow> m);
          obj = attachJSONB ''OpenHouse'' (ep_open_house payloads) (attachJSONB ''Room'' (ep_room payloads)
            (attachJSONB ''Unit'' (ep_unit payloads) (attachJSONB ''Media'' (ep_media payloads) obj)));
          obj = flatMergeCustomFields customFields obj
      in if obj = [] then raw else RawJson (JObj obj))"

section \<open>Listing records\<close>

text \<open>The mirror row. The optional text columns and the YN flags are association lists from the
  upstream field name to the column's value.\<close>

record listing_record =
  lr_dataset :: string
  lr_key :: string
  lr_mls_id :: "string option"
  lr_status :: "string option"
  lr_list_price :: real
  lr_bedrooms :: "int option"
  lr_bathrooms :: "real option"
  lr_living_area :: "real option"
  lr_lot_size :: "real option"
  lr_year_built :: "int option"
  lr_stories :: "int option"
  lr_texts :: "(string \<times> string option) list"
  lr_on_market :: "int option"
  lr_close_date :: "int option"
  lr_modified :: "int option"
  lr_price_changed :: "int option"
  lr_previous_price :: "real option"
  lr_flood_zone :: "string option"
  lr_low_risk :: bool
  lr_monthly_fees :: "real option"
  lr_lat :: "real option"
  lr_lng :: "real option"
  lr_flags :: "(string \<times> bool option) list"
  lr_conditions :: json
  lr_raw :: raw_message
  lr_payloads :: expanded_payload
  lr_custom :: raw_message

datatype row_action = ActUpsert listing_record | ActDelete string string | ActSkip

definition text_columns :: "string list" where
  "text_columns = [''City'', ''CountyOrParish'', ''PostalCode'', ''StateOrProvince'', ''PropertyType'',
     ''PropertySubType'', ''SubdivisionName'', ''ElementarySchool'', ''MiddleOrJuniorSchool'', ''HighSchool'',
     ''StreetNumber'', ''StreetName'', ''ListAgentMlsId'', ''ListOfficeMlsId'']"

definition flag_columns :: "string list" where
  "flag_columns = [''WaterfrontYN'', ''PoolPrivateYN'', ''DockYN'', ''NewConstructionYN'', ''GarageYN'',
     ''AssociationYN'', ''SpaYN'', ''FireplaceYN'', ''SeniorCommunityYN'']"

definition expand_or_default :: "string list \<Rightarrow> string list" where
  "expand_or_default expandKeys = (if expandKeys = [] then ParseExpandKeys [] else expandKeys)"

text \<open>The record of a row that is kept; \<open>row0\<close> is the row as it came, \<open>row\<close> the row after
  \<^verbatim>\<open>ExtractExpandedPayloads\<close>.\<close>

definition listing_record_of ::
  "(json \<Rightarrow> string) \<Rightarrow> string \<Rightarrow> mirror_provider \<Rightarrow> gomap \<Rightarrow> raw_message \<Rightarrow> string list \<Rightarrow>
   expanded_payload \<Rightarrow> gomap \<Rightarrow> real \<Rightarrow> listing_record" where
  "listing_record_of sprint replicationDataset provider row0 raw expandKeys payloads row listPrice =
     (let listingKey = stringValue sprint (lookup_any row0 ''ListingKey'');
          datasetSlug = datasetSlugFromListingKey listingKey replicationDataset;
          datasetUpper = to_upper replicationDataset;
          coords = resolveLatLng row0;
          field = (\<lambda>k. lookup_any row k)
      in \<lparr>lr_dataset = datasetSlug, lr_key = listingKey,
          lr_mls_id = optionalString sprint (lookup_any row0 ''ListingId''),
          lr_status = optionalString sprint (field ''StandardStatus''),
          lr_list_price = listPrice,
          lr_bedrooms = BoundedInt16Ptr (field ''BedroomsTotal''),
          lr_bathrooms = BathroomsTotal row,
          lr_living_area = ResolveLivingAreaSqft row,
          lr_lot_size = ClampNumeric12_4Ptr (field ''LotSizeAcres''),
          lr_year_built = BoundedInt16Ptr (field ''YearBuilt''),
          lr_stories = BoundedInt16Ptr (field ''StoriesTotal''),
          lr_texts = map (\<lambda>k. (k, optionalString sprint (field k))) text_columns,
          lr_on_market = datePtr sprint (field ''OnMarketDate''),
          lr_close_date = datePtr sprint (field ''CloseDate''),
          lr_modified = ResolveModificationTimestamp sprint datasetSlug row,
          lr_price_changed = timestampPtr sprint (field ''PriceChangeTimestamp''),
          lr_previous_price = ClampNumeric14_2Ptr (field ''PreviousListPrice''),
          lr_flood_zone = ResolveFloodZoneCode sprint row provider datasetUpper,
          lr_low_risk = False,
          lr_monthly_fees = ResolveEstimatedTotalMonthlyFees sprint row provider datasetUpper,
          lr_lat = map_option fst coords, lr_lng = map_option snd coords,
          lr_flags = map (\<lambda>k. (k, boolPtr (field k))) flag_columns,
          lr_conditions = specialListingConditions sprint row,
          lr_raw = StripJSONBKeysFromRaw raw (StripKeysForProvider provider expandKeys),
          lr_payloads = payloads,
          lr_custom = BuildCustomFields row provider expandKeys\<rparr>)"

definition BuildListingRecord ::
  "(json \<Rightarrow> string) \<Rightarrow> string \<Rightarrow> mirror_provider \<Rightarrow> gomap \<Rightarrow> raw_message \<Rightarrow> string list \<Rightarrow> row_action" where
  "BuildListingRecord sprint replicationDataset provider row0 raw expandKeys0 =
     (let listingKey = stringValue sprint (lookup_any row0 ''ListingKey'') in
      if listingKey = [] then ActSkip
      else let datasetSlug = datasetSlugFromListingKey listingKey replicationDataset;
          statusNorm = to_lower (trim_space (stringValue sprint (lookup_any row0 ''StandardStatus''))) in
      if statusNorm \<noteq> ''active'' \<and> statusNorm \<noteq> ''pending'' then ActDelete datasetSlug listingKey
      else let expandKeys = expand_or_default expandKeys0;
          (payloads, row) = ExtractExpandedPayloads row0 provider expandKeys
      in case ResolveListPrice row of
        None \<Rightarrow> ActSkip
      | Some listPrice \<Rightarrow>
          ActUpsert (listing_record_of sprint replicationDataset provider row0 raw expandKeys payloads row listPrice))"

section \<open>Lemmas\<close>

lemma clampRange_bounds: "lo \<le> hi \<Longrightarrow> lo \<le> clampRange v lo hi \<and> clampRange v lo hi \<le> hi"
  by (simp add: clampRange_def)

lemma clampRange_id: "lo \<le> v \<Longrightarrow> v \<le> hi \<Longrightarrow> clampRange v lo hi = v"
  by (simp add: clampRange_def)

lemma max_pos: "0 \<le> max_14_2" "0 \<le> max_12_2" "0 \<le> max_12_4" "0 \<le> max_5_2"
  by (simp_all add: max_14_2_def max_12_2_def max_12_4_def max_5_2_def)

lemma abs_clamp: "0 \<le> m \<Longrightarrow> \<bar>clampRange v (- m) m\<bar> \<le> m"
  using clampRange_bounds [of "- m" m v] by (simp add: abs_le_iff)

lemma go_round_bounds: "of_int a \<le> x \<Longrightarrow> x \<le> of_int b \<Longrightarrow> a \<le> go_round x \<and> go_round x \<le> b"
proof -
  assume x: "of_int a \<le> x" "x \<le> of_int b"
  show ?thesis
  proof (cases "x < 0")
    case True
    have "- b \<le> \<lfloor>- x + 1 / 2\<rfloor>" using x by (simp add: le_floor_iff)
    moreover have "\<lfloor>- x + 1 / 2\<rfloor> \<le> - a" using x by (simp add: floor_le_iff)
    ultimately show ?thesis using True by (simp add: go_round_def)
  next
    case False
    have "a \<le> \<lfloor>x + 1 / 2\<rfloor>" using x by (simp add: le_floor_iff)
    moreover have "\<lfloor>x + 1 / 2\<rfloor> \<le> b" using x by (simp add: floor_le_iff)
    ultimately show ?thesis using False by (simp add: go_round_def)
  qed
qed

lemma BoundedInt16Ptr_fits: "BoundedInt16Ptr v = Some n \<Longrightarrow> int2_ok n"
  using go_round_bounds [of "- 32768" _ 32767]
  by (auto simp: BoundedInt16Ptr_def int2_ok_def split: option.splits if_splits)

lemma clampBathrooms_fits: "clampBathroomsPtr v = Some x \<Longrightarrow> 0 \<le> x \<and> x \<le> max_5_2"
  using clampRange_bounds [of 0 max_5_2 v] max_pos by (auto simp: clampBathroomsPtr_def split: if_splits)

lemma BathroomsTotal_fits: "BathroomsTotal row = Some x \<Longrightarrow> 0 \<le> x \<and> x \<le> max_5_2"
  by (auto simp: BathroomsTotal_def clampBathrooms_fits split: option.splits if_splits)

lemma ClampNumeric14_2_fits: "ClampNumeric14_2Ptr v = Some x \<Longrightarrow> \<bar>x\<bar> \<le> max_14_2"
  by (auto simp: ClampNumeric14_2Ptr_def clampNumeric14_2_def abs_clamp max_pos)

lemma ResolveListPrice_fits: "ResolveListPrice row = Some x \<Longrightarrow> \<bar>x\<bar> \<le> max_14_2"
  by (auto simp: ResolveListPrice_def clampNumeric14_2_def abs_clamp max_pos split: option.splits)

lemma ResolveLivingArea_fits: "ResolveLivingAreaSqft row = Some x \<Longrightarrow> \<bar>x\<bar> \<le> max_12_2"
  by (auto simp: ResolveLivingAreaSqft_def clampNumeric12_2Ptr_def abs_clamp max_pos split: option.splits)

lemma ClampNumeric12_4_fits: "ClampNumeric12_4Ptr v = Some x \<Longrightarrow> \<bar>x\<bar> \<le> max_12_4"
  by (auto simp: ClampNumeric12_4Ptr_def abs_clamp max_pos)

lemma MonthlyFees_fits:
  "ResolveEstimatedTotalMonthlyFees sprint row p d = Some x \<Longrightarrow> \<bar>x\<bar> \<le> max_14_2"
proof -
  have c: "\<bar>clampNumeric14_2 v\<bar> \<le> max_14_2" for v
    by (simp add: clampNumeric14_2_def abs_clamp max_pos)
  assume "ResolveEstimatedTotalMonthlyFees sprint row p d = Some x"
  then show ?thesis
    by (auto simp: ResolveEstimatedTotalMonthlyFees_def Let_def c dest: ClampNumeric14_2_fits
        split: option.splits if_splits)
qed

text \<open>Aliasing and extraction never touch a key other than the canonical collection names, so no
  scalar column depends on whether the row was normalized.\<close>

lemma alias_key_other: "k \<noteq> canonical \<Longrightarrow> map_of (alias_key b canonical row) k = map_of row k"
  by (auto simp: alias_key_def map_add_def split: option.splits)

lemma extract_row_other:
  "k \<notin> {''Room'', ''Unit'', ''OpenHouse''} \<Longrightarrow>
   lookup_any (snd (ExtractExpandedPayloads row p keys)) k = lookup_any row k"
  by (simp add: ExtractExpandedPayloads_def Let_def NormalizeBridgeExpandKeys_def lookup_any_def alias_key_other)

lemma extract_price: "ResolveListPrice (snd (ExtractExpandedPayloads row p keys)) = ResolveListPrice row"
  by (simp add: ResolveListPrice_def extract_row_other)

definition row_key :: "(json \<Rightarrow> string) \<Rightarrow> gomap \<Rightarrow> string" where
  "row_key sp row = stringValue sp (lookup_any row ''ListingKey'')"

definition row_live :: "(json \<Rightarrow> string) \<Rightarrow> gomap \<Rightarrow> bool" where
  "row_live sp row \<longleftrightarrow>
     to_lower (trim_space (stringValue sp (lookup_any row ''StandardStatus''))) \<in> {''active'', ''pending''}"

lemma BuildListingRecord_shape:
  "BuildListingRecord sp ds p row raw ks =
     (if row_key sp row = [] then ActSkip
      else if \<not> row_live sp row then ActDelete (datasetSlugFromListingKey (row_key sp row) ds) (row_key sp row)
      else case ResolveListPrice row of None \<Rightarrow> ActSkip
        | Some x \<Rightarrow> ActUpsert (listing_record_of sp ds p row raw (expand_or_default ks)
            (fst (ExtractExpandedPayloads row p (expand_or_default ks)))
            (snd (ExtractExpandedPayloads row p (expand_or_default ks))) x))"
  by (simp add: BuildListingRecord_def row_key_def row_live_def Let_def split_def extract_price)

lemma BuildListingRecord_upsert:
  assumes "BuildListingRecord sp ds p row raw ks = ActUpsert r"
  obtains row' pl keys where "r = listing_record_of sp ds p row raw keys pl row' (lr_list_price r)"
    "ResolveListPrice row = Some (lr_list_price r)" "row_key sp row \<noteq> []" "row_live sp row"
proof -
  from assms obtain keys x where r: "r = listing_record_of sp ds p row raw keys
            (fst (ExtractExpandedPayloads row p keys)) (snd (ExtractExpandedPayloads row p keys)) x"
      and x: "ResolveListPrice row = Some x" "row_key sp row \<noteq> []" "row_live sp row"
    by (auto simp: BuildListingRecord_shape split: if_splits option.splits)
  have "lr_list_price r = x" by (simp add: r listing_record_of_def Let_def)
  with x show thesis
    by (intro that [of keys "fst (ExtractExpandedPayloads row p keys)" "snd (ExtractExpandedPayloads row p keys)"])
      (simp_all add: r)
qed

lemma listing_record_fields:
  assumes r: "r = listing_record_of sp ds p row raw keys pl row' x"
  shows "lr_key r = row_key sp row" "lr_dataset r = datasetSlugFromListingKey (row_key sp row) ds"
    "lr_list_price r = x"
    "lr_bedrooms r = BoundedInt16Ptr (lookup_any row' ''BedroomsTotal'')"
    "lr_year_built r = BoundedInt16Ptr (lookup_any row' ''YearBuilt'')"
    "lr_stories r = BoundedInt16Ptr (lookup_any row' ''StoriesTotal'')"
    "lr_bathrooms r = BathroomsTotal row'" "lr_living_area r = ResolveLivingAreaSqft row'"
    "lr_lot_size r = ClampNumeric12_4Ptr (lookup_any row' ''LotSizeAcres'')"
    "lr_previous_price r = ClampNumeric14_2Ptr (lookup_any row' ''PreviousListPrice'')"
    "lr_monthly_fees r = ResolveEstimatedTotalMonthlyFees sp row' p (to_upper ds)"
    "lr_lat r = map_option fst (resolveLatLng row)" "lr_lng r = map_option snd (resolveLatLng row)"
  by (simp_all add: r listing_record_of_def Let_def row_key_def)

section \<open>Properties of the row mapping\<close>

text \<open>What happens to an upstream row depends only on its key, its status and whether it has a
  price: a row without a key is skipped, a row that is neither active nor pending is deleted under
  its own key and dataset, a row with no numeric list, previous or original price is skipped, and
  every other row is upserted.\<close>

theorem row_action_classified:
  "case BuildListingRecord sp ds p row raw ks of
     ActSkip \<Rightarrow> row_key sp row = [] \<or> (row_live sp row \<and> ResolveListPrice row = None)
   | ActDelete d k \<Rightarrow> row_key sp row \<noteq> [] \<and> \<not> row_live sp row \<and> k = row_key sp row \<and>
       d = datasetSlugFromListingKey (row_key sp row) ds
   | ActUpsert r \<Rightarrow> row_key sp row \<noteq> [] \<and> row_live sp row \<and> lr_key r = row_key sp row \<and>
       lr_dataset r = datasetSlugFromListingKey (row_key sp row) ds \<and> ResolveListPrice row = Some (lr_list_price r)"
  by (auto simp: BuildListingRecord_shape listing_record_fields [OF refl] split: option.splits)

text \<open>(C31) Every record handed to the upsert fits its columns: whatever numbers the upstream row holds,
  the prices and fees fit NUMERIC(14,2), the areas NUMERIC(12,2) and NUMERIC(12,4), the bathroom
  count NUMERIC(5,2) without a sign, the counts SMALLINT, the key is not empty, and latitude and
  longitude are both present or both absent.\<close>

theorem listing_record_fits_columns:
  assumes "BuildListingRecord sp ds p row raw ks = ActUpsert r"
  shows "lr_key r \<noteq> [] \<and> \<bar>lr_list_price r\<bar> \<le> max_14_2 \<and>
     (\<forall>x. lr_previous_price r = Some x \<longrightarrow> \<bar>x\<bar> \<le> max_14_2) \<and>
     (\<forall>x. lr_monthly_fees r = Some x \<longrightarrow> \<bar>x\<bar> \<le> max_14_2) \<and>
     (\<forall>x. lr_living_area r = Some x \<longrightarrow> \<bar>x\<bar> \<le> max_12_2) \<and>
     (\<forall>x. lr_lot_size r = Some x \<longrightarrow> \<bar>x\<bar> \<le> max_12_4) \<and>
     (\<forall>x. lr_bathrooms r = Some x \<longrightarrow> 0 \<le> x \<and> x \<le> max_5_2) \<and>
     (\<forall>n. n \<in> {lr_bedrooms r, lr_year_built r, lr_stories r} \<longrightarrow> (\<forall>i. n = Some i \<longrightarrow> int2_ok i)) \<and>
     (lr_lat r = None \<longleftrightarrow> lr_lng r = None)"
proof -
  obtain row' pl keys where r: "r = listing_record_of sp ds p row raw keys pl row' (lr_list_price r)"
      and x: "ResolveListPrice row = Some (lr_list_price r)" "row_key sp row \<noteq> []"
    using BuildListingRecord_upsert [OF assms] by metis
  note f = listing_record_fields [OF r]
  show ?thesis
    using x ResolveListPrice_fits [OF x(1)]
    by (auto simp: f(1,4-13) dest: ClampNumeric14_2_fits MonthlyFees_fits ResolveLivingArea_fits
        ClampNumeric12_4_fits BathroomsTotal_fits BoundedInt16Ptr_fits)
qed

definition demo_row :: gomap where
  "demo_row = [(''ListingKey'', JStr ''stellar:1''), (''StandardStatus'', JStr ''Active''),
     (''ListPrice'', JNum 5000000000000000), (''BedroomsTotal'', JNum 3), (''Rooms'', JArr [])]"

theorem listing_record_fits_columns_witness:
  "\<exists>r. BuildListingRecord (\<lambda>_. []) ''stellar'' Bridge demo_row (RawJson (JObj demo_row)) [''Rooms''] = ActUpsert r \<and>
     \<bar>lr_list_price r\<bar> \<le> max_14_2"
proof -
  have f: "lookup_any demo_row ''ListingKey'' = JStr ''stellar:1''" "lookup_any demo_row ''StandardStatus'' = JStr ''Active''"
    "lookup_any demo_row ''ListPrice'' = JNum 5000000000000000"
    by (simp_all add: demo_row_def lookup_any_def)
  have "row_key (\<lambda>_. []) demo_row \<noteq> []"
    by (simp add: row_key_def f stringValue_def)
      (simp add: trim_space_def trim_both_def trim_left_def trim_right_def is_space_def)
  moreover have "row_live (\<lambda>_. []) demo_row"
    by (simp add: row_live_def f stringValue_def)
      (simp add: trim_space_def trim_both_def trim_left_def trim_right_def is_space_def to_lower_def
        lower_char_def char_of_def bit_0)
  moreover have "ResolveListPrice demo_row = Some (clampNumeric14_2 5000000000000000)"
    by (simp add: ResolveListPrice_def f numericValue_def)
  ultimately have "\<exists>r. BuildListingRecord (\<lambda>_. []) ''stellar'' Bridge demo_row (RawJson (JObj demo_row)) [''Rooms''] = ActUpsert r"
    by (simp add: BuildListingRecord_shape)
  then obtain r where r: "BuildListingRecord (\<lambda>_. []) ''stellar'' Bridge demo_row (RawJson (JObj demo_row)) [''Rooms''] = ActUpsert r" ..
  from listing_record_fits_columns [OF r] have "\<bar>lr_list_price r\<bar> \<le> max_14_2" by (elim conjE)
  with r show ?thesis by (intro exI [of _ r] conjI)
qed

section \<open>Splitting a row and putting it together again\<close>

lemma map_of_delete_key: "map_of (delete_key m k) = (map_of m)(k := None)"
  by (simp add: delete_key_def delete_conv fun_upd_def) (rule ext, simp add: delete_conv)

lemma map_of_delete_keys: "map_of (delete_keys ks m) k = (if k \<in> set ks then None else map_of m k)"
  by (induction ks m rule: delete_keys.induct) (auto simp: map_of_delete_key)

lemma distinct_delete_keys: "distinct (map fst m) \<Longrightarrow> distinct (map fst (delete_keys ks m))"
  by (induction ks m rule: delete_keys.induct) (auto simp: delete_key_def distinct_delete)

lemma strip_map:
  assumes "unmarshal_map raw = Some m" "distinct (map fst m)"
  obtains m' where "unmarshal_map (StripJSONBKeysFromRaw raw ks) = Some m'"
    "\<And>k. map_of m' k = (if k \<in> set ks then None else map_of m k)" "distinct (map fst m')"
proof (cases "ks = [] \<or> \<not> (\<exists>k \<in> set ks. has_key m k)")
  case True
  with assms(1) have "StripJSONBKeysFromRaw raw ks = raw"
    by (auto simp: StripJSONBKeysFromRaw_def)
  moreover from True have "map_of m k = (if k \<in> set ks then None else map_of m k)" for k
    by (auto simp: has_key_def)
  ultimately show thesis using that [of m] assms by simp
next
  case False
  have "raw \<noteq> RawEmpty" using assms(1) by (auto simp: unmarshal_map_def)
  with False assms have "StripJSONBKeysFromRaw raw ks = RawJson (JObj (delete_keys ks m))"
    by (auto simp: StripJSONBKeysFromRaw_def)
  then have "unmarshal_map (StripJSONBKeysFromRaw raw ks) = Some (delete_keys ks m)"
    using distinct_delete_keys [OF assms(2)] by (simp add: unmarshal_map_def gomap_of_distinct)
  with that [of "delete_keys ks m"] distinct_delete_keys [OF assms(2)] show thesis by (simp add: map_of_delete_keys)
qed

lemma distinct_attach: "distinct (map fst m) \<Longrightarrow> distinct (map fst (attachJSONB key v m))"
  by (simp add: attachJSONB_def distinct_update split: option.splits)

lemma attach_map:
  "map_of (attachJSONB k v m) k = or_else v (map_of m k)"
  "k \<noteq> key \<Longrightarrow> map_of (attachJSONB key v m) k = map_of m k"
  by (simp_all add: attachJSONB_def or_else_def update_conv' split: option.splits)

text \<open>What the extraction loop collects for keys under their canonical names.\<close>

lemma extract_loop_canonical:
  assumes "set keys \<subseteq> {''Media'', ''Unit'', ''Room'', ''OpenHouse''}"
  shows "ep_media (extract_loop row keys p) = (if ''Media'' \<in> set keys \<and> has_key row ''Media'' then map_of row ''Media'' else ep_media p)"
    "ep_unit (extract_loop row keys p) = (if ''Unit'' \<in> set keys \<and> has_key row ''Unit'' then map_of row ''Unit'' else ep_unit p)"
    "ep_room (extract_loop row keys p) = (if ''Room'' \<in> set keys \<and> has_key row ''Room'' then map_of row ''Room'' else ep_room p)"
    "ep_open_house (extract_loop row keys p) = (if ''OpenHouse'' \<in> set keys \<and> has_key row ''OpenHouse'' then map_of row ''OpenHouse'' else ep_open_house p)"
  using assms
  by (induction row keys p rule: extract_loop.induct)
    (auto simp: ExtractJSONBField_def put_payload_def has_key_def split: option.splits if_splits)

text \<open>(C32) Splitting a Spark row into the raw document, its collections and its custom fields loses
  nothing: when the configured expand keys are among the four collections that have a column,
  merging the stored parts back gives a document with the same value under every key as the row
  that was replicated.\<close>

theorem spark_row_survives_split:
  assumes "distinct (map fst row)" and "row \<noteq> []" and "keys \<noteq> []"
    and "set keys \<subseteq> {''Media'', ''Unit'', ''Room'', ''OpenHouse''}"
  shows "\<exists>m. unmarshal_map (MergeMirrorListing
        (StripJSONBKeysFromRaw (RawJson (JObj row)) (StripKeysForProvider Spark keys))
        (fst (ExtractExpandedPayloads row Spark keys)) (BuildCustomFields row Spark keys)) = Some m \<and>
      map_of m = map_of row"
proof -
  let ?raw = "StripJSONBKeysFromRaw (RawJson (JObj row)) keys"
  let ?p = "extract_loop row keys no_payload"
  have un: "unmarshal_map (RawJson (JObj row)) = Some row"
    using assms(1) by (simp add: unmarshal_map_def gomap_of_distinct)
  obtain m1 where m1: "unmarshal_map ?raw = Some m1" "\<And>k. map_of m1 k = (if k \<in> set keys then None else map_of row k)"
      and d1: "distinct (map fst m1)"
    using strip_map [OF un assms(1)] by metis
  define m2 where "m2 = attachJSONB ''OpenHouse'' (ep_open_house ?p) (attachJSONB ''Room'' (ep_room ?p)
     (attachJSONB ''Unit'' (ep_unit ?p) (attachJSONB ''Media'' (ep_media ?p) m1)))"
  have m2: "map_of m2 = map_of row"
  proof
    fix k
    show "map_of m2 k = map_of row k"
    proof (cases "k \<in> {''Media'', ''Unit'', ''Room'', ''OpenHouse''}")
      case True
      then show ?thesis
        by (elim insertE emptyE; simp add: m2_def attach_map extract_loop_canonical [OF assms(4)] m1(2)
            has_key_def no_payload_def or_else_def split: option.split)
    next
      case False
      with assms(4) have "k \<notin> set keys" by blast
      with False show ?thesis by (simp add: m2_def attach_map m1(2))
    qed
  qed
  have d2: "distinct (map fst m2)" using d1 by (simp add: m2_def distinct_attach)
  have ne: "m2 \<noteq> []"
    using m2 assms(2) by (cases row) (auto dest: fun_cong [of _ _ "fst (hd row)"])
  have custom: "flatMergeCustomFields (BuildCustomFields row Spark keys) m2 = m2"
  proof -
    define out where "out = filter (\<lambda>(k, v). \<not> has_prefix k ''@odata'' \<and> k \<notin> set mappedScalarFieldNames \<and> k \<notin> set keys) row"
    have bc: "BuildCustomFields row Spark keys = (if out = [] then RawEmpty else RawJson (JObj out))"
      by (simp add: BuildCustomFields_def StripKeysForProvider_def out_def Let_def)
    have "distinct (map fst out)" using assms(1) by (simp add: out_def distinct_map_filter)
    moreover have "has_key m2 k" if "(k, v) \<in> set out" for k v
      using that assms(1) m2 by (auto simp: out_def has_key_def)
    then have "filter (\<lambda>(k, v). \<not> has_key m2 k) out = []" by (auto simp: filter_empty_conv)
    ultimately show ?thesis
      by (simp add: bc flatMergeCustomFields_def unmarshal_map_def gomap_of_distinct)
  qed
  have "MergeMirrorListing ?raw ?p (BuildCustomFields row Spark keys) = RawJson (JObj m2)"
    using m1(1) ne custom by (simp add: MergeMirrorListing_def Let_def m2_def [symmetric])
  moreover have "fst (ExtractExpandedPayloads row Spark keys) = ?p" "StripKeysForProvider Spark keys = keys"
    by (simp_all add: ExtractExpandedPayloads_def StripKeysForProvider_def)
  ultimately show ?thesis
    using m2 d2 by (simp add: unmarshal_map_def gomap_of_distinct)
qed

theorem spark_row_survives_split_witness:
  "\<exists>m. unmarshal_map (MergeMirrorListing
        (StripJSONBKeysFromRaw (RawJson (JObj demo_row)) (StripKeysForProvider Spark [''Media'']))
        (fst (ExtractExpandedPayloads demo_row Spark [''Media''])) (BuildCustomFields demo_row Spark [''Media''])) = Some m \<and>
      map_of m = map_of demo_row"
  by (rule spark_row_survives_split) (simp_all add: demo_row_def)

text \<open>The Bridge aliases leak into the custom fields: normalizing a Bridge row copies \<^verbatim>\<open>Rooms\<close>,
  \<^verbatim>\<open>UnitTypes\<close> and \<^verbatim>\<open>OpenHouses\<close> to canonical names in the row itself, and with the default expand
  list (which names only the Bridge spellings) those copies are neither stripped nor mapped, so the
  whole collection is stored a second time inside \<^verbatim>\<open>custom_fields\<close>.\<close>

theorem bridge_alias_leaks_into_custom_fields:
  assumes "map_of row ''Rooms'' = Some v" and "\<not> has_key row ''Room''"
  shows "\<exists>kvs. BuildCustomFields (snd (ExtractExpandedPayloads row Bridge
        [''Media'', ''OpenHouses'', ''Rooms'', ''UnitTypes''])) Bridge
        [''Media'', ''OpenHouses'', ''Rooms'', ''UnitTypes''] = RawJson (JObj kvs) \<and> (''Room'', v) \<in> set kvs"
proof -
  let ?ks = "[''Media'', ''OpenHouses'', ''Rooms'', ''UnitTypes'']"
  have sub: "set x \<subseteq> set (alias_key a b x)" for a b x
    by (auto simp: alias_key_def split: option.splits)
  have "(''Room'', v) \<in> set (alias_key ''Rooms'' ''Room'' row)"
    using assms by (simp add: alias_key_def)
  then have mem: "(''Room'', v) \<in> set (snd (ExtractExpandedPayloads row Bridge ?ks))"
    using sub by (simp add: ExtractExpandedPayloads_def NormalizeBridgeExpandKeys_def Let_def) blast
  moreover have "\<not> has_prefix ''Room'' ''@odata''" "''Room'' \<notin> set mappedScalarFieldNames"
    "''Room'' \<notin> set (StripKeysForProvider Bridge ?ks)"
    by (simp_all add: has_prefix_def mappedScalarFieldNames_def StripKeysForProvider_def)
  ultimately show ?thesis
    by (auto simp: BuildCustomFields_def Let_def filter_empty_conv)
qed

theorem bridge_alias_leaks_into_custom_fields_witness:
  "\<exists>kvs. BuildCustomFields (snd (ExtractExpandedPayloads demo_row Bridge
        [''Media'', ''OpenHouses'', ''Rooms'', ''UnitTypes''])) Bridge
        [''Media'', ''OpenHouses'', ''Rooms'', ''UnitTypes''] = RawJson (JObj kvs) \<and> (''Room'', JArr []) \<in> set kvs"
  by (rule bridge_alias_leaks_into_custom_fields) (simp_all add: demo_row_def has_key_def)

end
