(* ===== verification/Sync_Store.thy ===== *)
theory Sync_Store
  imports Queue_Worker Mls_Rows
begin

text \<open>
  The state of MLS replication and the code that schedules it (\<^verbatim>\<open>internal/service/sync\<close>: \<^verbatim>\<open>cursor.go\<close>,
  \<^verbatim>\<open>replica_page.go\<close>, \<^verbatim>\<open>freshness.go\<close>, \<^verbatim>\<open>kickoff.go\<close>, \<^verbatim>\<open>fetch_guard.go\<close>, \<^verbatim>\<open>mirror_window.go\<close>, \<^verbatim>\<open>purge.go\<close>,
  \<^verbatim>\<open>rate_limit.go\<close>). The tables \<^verbatim>\<open>listing_sync_cursors\<close>, \<^verbatim>\<open>replica_pages\<close> and \<^verbatim>\<open>listings\<close> extend the queue's
  database, so that a replication step and the jobs it enqueues act on one state.

  The gzip and base64 layers of a staged page are represented by the document they carry. A table is
  a list of rows in insertion order.
\<close>

section \<open>Configuration\<close>

record bridge_config =
  b_datasets :: "string list"
  b_api_key :: string
  b_host :: string
  b_path_prefix :: string
  b_reso_root :: string
  b_fetch_queue :: string
  b_persist_queue :: string
  b_persist_chunk :: int
  b_upsert_chunk :: int
  b_max_rps :: int
  b_max_retries :: int
  b_replication_top :: int
  b_incremental_top :: int
  b_include_media :: bool
  b_full_property :: bool
  b_nav_hydrate :: bool
  b_expand :: string
  b_max_chain :: int

record spark_config =
  s_datasets :: "string list"
  s_access_token :: string
  s_replication_host :: string
  s_replication_reso :: string
  s_fetch_queue :: string
  s_persist_queue :: string
  s_persist_chunk :: int
  s_upsert_chunk :: int
  s_replication_top :: int
  s_incremental_top :: int
  s_max_chain :: int

record mls_config =
  stellar_enabled :: bool
  beaches_enabled :: bool
  freshness_minutes :: int
  rolling_months :: int
  page_retention_hours :: int
  page_failed_days :: int
  beaches_persist_chunk :: int
  sync_expand :: string
  sync_replication_expand :: string

record sync_config =
  cfg_bridge :: bridge_config
  cfg_spark :: spark_config
  cfg_mls :: mls_config

section \<open>State\<close>

record sync_cursor =
  cur_dataset :: string
  last_modification :: "int option"
  window_end :: "int option"
  replication_next_url :: "string option"
  replication_in_progress :: bool
  last_sync_finished :: "int option"

record cursor_patch =
  cp_apply_state :: bool
  cp_next_url :: "string option"
  cp_in_progress :: "bool option"
  cp_max_modification :: "int option"
  cp_window_end :: "int option"
  cp_mark_finished :: bool

datatype page_status = PagePending | PageProcessing | PageCompleted | PageFailed

record replica_page =
  page_id :: int
  page_provider :: string
  page_dataset :: string
  page_mode :: string
  page_status :: page_status
  page_parts :: "raw_message list"
  page_row_count :: int
  page_batch :: "string option"
  page_processed_at :: "int option"
  page_created_at :: int

record mirror_row =
  mr_rec :: listing_record
  mr_coordinates :: "(real \<times> real) option"
  mr_persisted_at :: int

record sdb = qdb +
  cursors :: "sync_cursor list"
  pages :: "replica_page list"
  next_page_id :: int
  listings :: "mirror_row list"

definition empty_patch :: cursor_patch where
  "empty_patch = \<lparr>cp_apply_state = False, cp_next_url = None, cp_in_progress = None,
     cp_max_modification = None, cp_window_end = None, cp_mark_finished = False\<rparr>"

section \<open>Cursors\<close>

definition find_cursor :: "string \<Rightarrow> 'z sdb_scheme \<Rightarrow> sync_cursor option" where
  "find_cursor dataset s = find (\<lambda>c. cur_dataset c = dataset) (cursors s)"

definition new_cursor :: "string \<Rightarrow> sync_cursor" where
  "new_cursor dataset = \<lparr>cur_dataset = dataset, last_modification = None, window_end = None,
     replication_next_url = None, replication_in_progress = False, last_sync_finished = None\<rparr>"

definition ForDataset :: "string \<Rightarrow> ('z sdb_scheme, sync_cursor) go" where
  "ForDataset dataset = sql (\<lambda>s. case find_cursor dataset s of
      Some c \<Rightarrow> Some (c, s)
    | None \<Rightarrow> (if length dataset > 64 then None
        else Some (new_cursor dataset, s\<lparr>cursors := cursors s @ [new_cursor dataset]\<rparr>)))"

definition MirrorSeeded :: "string \<Rightarrow> ('z sdb_scheme, bool) go" where
  "MirrorSeeded dataset = sql (\<lambda>s. Some (\<exists>r \<in> set (listings s). lr_dataset (mr_rec r) = dataset, s))"

definition ReplicationChainActive :: "sync_cursor \<Rightarrow> bool" where
  "ReplicationChainActive c \<longleftrightarrow>
     (if replication_in_progress c then True
      else case replication_next_url c of Some u \<Rightarrow> trim_space u \<noteq> [] | None \<Rightarrow> False)"

definition ShouldKickoffReplication :: "sync_cursor \<Rightarrow> ('z sdb_scheme, bool) go" where
  "ShouldKickoffReplication c =
     (if ReplicationChainActive c then go_ret False
      else go_bind (MirrorSeeded (cur_dataset c)) (\<lambda>seeded. go_ret (\<not> seeded)))"

definition ShouldRunIncremental :: "sync_cursor \<Rightarrow> bool" where
  "ShouldRunIncremental c \<longleftrightarrow> (if replication_in_progress c then False else last_modification c \<noteq> None)"

definition mergeCursorPatch :: "sync_cursor \<Rightarrow> cursor_patch \<Rightarrow> int \<Rightarrow> sync_cursor" where
  "mergeCursorPatch c patch now =
     (let out = (case cp_in_progress patch of None \<Rightarrow> c | Some b \<Rightarrow> c\<lparr>replication_in_progress := b\<rparr>);
          out = (if cp_apply_state patch then out\<lparr>replication_next_url := cp_next_url patch\<rparr> else out);
          out = (case cp_window_end patch of None \<Rightarrow> out | Some w \<Rightarrow> out\<lparr>window_end := Some w\<rparr>);
          out = (case cp_max_modification patch of None \<Rightarrow> out
            | Some t \<Rightarrow> (case last_modification out of
                None \<Rightarrow> out\<lparr>last_modification := Some t\<rparr>
              | Some l \<Rightarrow> (if l < t then out\<lparr>last_modification := Some t\<rparr> else out)))
      in if cp_mark_finished patch then out\<lparr>last_sync_finished := Some now, window_end := None\<rparr> else out)"

definition update_cursor :: "string \<Rightarrow> sync_cursor \<Rightarrow> sync_cursor list \<Rightarrow> sync_cursor list" where
  "update_cursor dataset m = map (\<lambda>c. if cur_dataset c = dataset then m\<lparr>cur_dataset := dataset\<rparr> else c)"

definition ApplyPatch :: "string \<Rightarrow> cursor_patch \<Rightarrow> ('z sdb_scheme, unit) go" where
  "ApplyPatch dataset patch =
     go_bind (ForDataset dataset) (\<lambda>c. go_bind go_now (\<lambda>now.
       let merged = mergeCursorPatch c patch now in
       sql (\<lambda>s. Some ((), s\<lparr>cursors := update_cursor dataset merged (cursors s)\<rparr>))))"

section \<open>Staged pages\<close>

text \<open>\<^verbatim>\<open>StorePage\<close>: the rows are cut into chunks, each chunk one part. The result is the page id and the
  number of parts.\<close>

definition page_chunk_size :: "int \<Rightarrow> nat" where
  "page_chunk_size chunkSize = (if chunkSize \<le> 0 then 50 else nat chunkSize)"

definition encode_part :: "raw_message list \<Rightarrow> raw_message" where
  "encode_part rows = RawJson (JArr (map (\<lambda>r. case r of RawJson j \<Rightarrow> j | _ \<Rightarrow> JNull) rows))"

definition StorePage ::
  "string \<Rightarrow> string \<Rightarrow> string \<Rightarrow> raw_message list \<Rightarrow> int \<Rightarrow> ('z sdb_scheme, int \<times> nat) go" where
  "StorePage provider dataset mode rows chunkSize =
     (let parts = map encode_part (chunks_of (page_chunk_size chunkSize) rows) in
      go_bind go_now (\<lambda>now. sql (\<lambda>s.
        if length provider > 16 \<or> length dataset > 64 \<or> length mode > 32 \<or> \<not> int4_ok (int (length rows)) then None
        else Some ((next_page_id s, length parts),
          s\<lparr>pages := pages s @ [\<lparr>page_id = next_page_id s, page_provider = provider, page_dataset = dataset,
               page_mode = mode, page_status = PagePending, page_parts = parts,
               page_row_count = int (length rows), page_batch = None, page_processed_at = None,
               page_created_at = now\<rparr>],
            next_page_id := next_page_id s + 1\<rparr>))))"

definition update_page :: "int \<Rightarrow> (replica_page \<Rightarrow> replica_page) \<Rightarrow> replica_page list \<Rightarrow> replica_page list" where
  "update_page i f = map (\<lambda>p. if page_id p = i then f p else p)"

definition MarkProcessing :: "int \<Rightarrow> string \<Rightarrow> ('z sdb_scheme, unit) go" where
  "MarkProcessing pageID batchID = sql (\<lambda>s. Some ((), s\<lparr>pages := update_page pageID
     (\<lambda>p. p\<lparr>page_status := PageProcessing, page_batch := (if batchID = [] then None else Some batchID)\<rparr>) (pages s)\<rparr>))"

definition decode_part :: "raw_message \<Rightarrow> raw_message list option" where
  "decode_part raw = (case raw of RawJson (JArr js) \<Rightarrow> Some (map RawJson js)
     | RawJson JNull \<Rightarrow> Some [] | _ \<Rightarrow> None)"

definition RowsForChunk :: "int \<Rightarrow> int \<Rightarrow> ('z sdb_scheme, raw_message list) go" where
  "RowsForChunk pageID chunkIndex =
     go_bind (sql (\<lambda>s. map_option (\<lambda>p. (page_parts p, s)) (find (\<lambda>p. page_id p = pageID) (pages s)))) (\<lambda>parts.
       if chunkIndex < 1 \<or> chunkIndex > int (length parts) then go_fail (Err ''chunk index out of range'')
       else case decode_part (parts ! nat (chunkIndex - 1)) of
         None \<Rightarrow> go_fail (Err ''decode chunk'') | Some rows \<Rightarrow> go_ret rows)"

definition MarkCompleted :: "int \<Rightarrow> ('z sdb_scheme, unit) go" where
  "MarkCompleted pageID = go_bind go_now (\<lambda>now. sql (\<lambda>s. Some ((), s\<lparr>pages := update_page pageID
     (\<lambda>p. p\<lparr>page_status := PageCompleted, page_processed_at := Some now\<rparr>) (pages s)\<rparr>)))"

definition DeletePage :: "int \<Rightarrow> ('z sdb_scheme, unit) go" where
  "DeletePage pageID = sql (\<lambda>s. Some ((), s\<lparr>pages := filter (\<lambda>p. page_id p \<noteq> pageID) (pages s)\<rparr>))"

definition hour :: int where
  "hour = 3600 * second"

definition PurgeEligible :: "sync_config \<Rightarrow> ('z sdb_scheme, unit) go" where
  "PurgeEligible cfg =
     (let h = (if page_retention_hours (cfg_mls cfg) \<le> 0 then 24 else page_retention_hours (cfg_mls cfg));
          d = (if page_failed_days (cfg_mls cfg) \<le> 0 then 7 else page_failed_days (cfg_mls cfg))
      in go_bind go_now (\<lambda>now.
         go_bind (sql (\<lambda>s. Some ((), s\<lparr>pages := filter (\<lambda>p. \<not> (page_status p = PageCompleted \<and>
            (case page_processed_at p of None \<Rightarrow> False | Some t \<Rightarrow> t < now - h * hour))) (pages s)\<rparr>))) (\<lambda>_.
         go_bind go_now (\<lambda>now2.
         sql (\<lambda>s. Some ((), s\<lparr>pages := filter (\<lambda>p. \<not> (page_status p = PageFailed \<and>
            page_created_at p < now2 - d * 24 * hour)) (pages s)\<rparr>))))))"

definition active_page :: "string \<Rightarrow> string \<Rightarrow> replica_page \<Rightarrow> bool" where
  "active_page provider dataset p \<longleftrightarrow> page_provider p = provider \<and> page_dataset p = dataset \<and>
     page_status p \<in> {PagePending, PageProcessing}"

definition HasActivePage :: "string \<Rightarrow> string \<Rightarrow> ('z sdb_scheme, bool) go" where
  "HasActivePage provider dataset = sql (\<lambda>s. Some (\<exists>p \<in> set (pages s). active_page provider dataset p, s))"

section \<open>Freshness\<close>

definition freshness_threshold :: "sync_config \<Rightarrow> int" where
  "freshness_threshold cfg =
     (let t = freshness_minutes (cfg_mls cfg) in (if t < 1 then 15 else t) * (60 * second))"

definition IsCurrent :: "sync_config \<Rightarrow> string \<Rightarrow> string \<Rightarrow> ('z sdb_scheme, bool) go" where
  "IsCurrent cfg dataset provider =
     go_bind (HasActivePage provider dataset) (\<lambda>active.
     if active then go_ret False
     else go_bind (ForDataset dataset) (\<lambda>c.
     if replication_in_progress c then go_ret False
     else if (case replication_next_url c of Some u \<Rightarrow> u \<noteq> [] | None \<Rightarrow> False) then go_ret False
     else go_bind (if last_sync_finished c \<noteq> None then go_ret True else MirrorSeeded dataset) (\<lambda>seeded.
     if \<not> seeded then go_ret False
     else if last_modification c = None then go_ret False
     else case last_sync_finished c of
       None \<Rightarrow> go_ret False
     | Some fin \<Rightarrow> go_bind go_now (\<lambda>now. go_ret (\<not> fin < now - freshness_threshold cfg)))))"

datatype freshness_mode = CatchUp | Steady

definition Mode :: "sync_config \<Rightarrow> string \<Rightarrow> string \<Rightarrow> ('z sdb_scheme, freshness_mode) go" where
  "Mode cfg dataset provider = go_bind (IsCurrent cfg dataset provider) (\<lambda>current.
     go_ret (if current then Steady else CatchUp))"

section \<open>Job arguments\<close>

record fetch_args =
  fa_dataset :: string
  fa_mode :: string
  fa_skip :: int
  fa_depth :: int

definition enc_fetch_args :: "fetch_args \<Rightarrow> json" where
  "enc_fetch_args a = JObj [(''dataset'', JStr (fa_dataset a)), (''mode'', JStr (fa_mode a)),
     (''incremental_skip'', JNum (of_int (fa_skip a))), (''chain_depth'', JNum (of_int (fa_depth a)))]"

definition dec_fetch_args :: "json option \<Rightarrow> fetch_args option" where
  "dec_fetch_args raw = (case raw of None \<Rightarrow> None | Some j \<Rightarrow>
     (case struct_fields (RawJson j) of None \<Rightarrow> None | Some kvs \<Rightarrow>
       (case (decode_field dec_string [] ''dataset'' kvs, decode_field dec_string [] ''mode'' kvs,
              decode_field dec_int 0 ''incremental_skip'' kvs, decode_field dec_int 0 ''chain_depth'' kvs) of
          (Some d, Some m, Some sk, Some dp) \<Rightarrow> Some \<lparr>fa_dataset = d, fa_mode = m, fa_skip = sk, fa_depth = dp\<rparr>
        | _ \<Rightarrow> None)))"

section \<open>Kickoff\<close>

definition enqueueFetch ::
  "client \<Rightarrow> string \<Rightarrow> string \<Rightarrow> string \<Rightarrow> string \<Rightarrow> ('z sdb_scheme, unit) go" where
  "enqueueFetch c dataset fetchQueue jobType mode =
     go_bind (Enqueue c fetchQueue jobType (Some (enc_fetch_args
       \<lparr>fa_dataset = dataset, fa_mode = mode, fa_skip = 0, fa_depth = 0\<rparr>)) 0) (\<lambda>_. go_ret ())"

definition shouldPollIncremental :: "sync_config \<Rightarrow> sync_cursor \<Rightarrow> ('z sdb_scheme, bool) go" where
  "shouldPollIncremental cfg cursor =
     (if replication_in_progress cursor then go_ret False
      else if (case replication_next_url cursor of Some u \<Rightarrow> u \<noteq> [] | None \<Rightarrow> False) then go_ret False
      else case last_sync_finished cursor of
        None \<Rightarrow> go_ret True
      | Some fin \<Rightarrow> go_bind go_now (\<lambda>now. go_ret (now - fin \<ge> freshness_threshold cfg)))"

definition tryIncrementalKickoff ::
  "client \<Rightarrow> sync_config \<Rightarrow> string \<Rightarrow> string \<Rightarrow> string \<Rightarrow> string \<Rightarrow> sync_cursor \<Rightarrow> ('z sdb_scheme, unit) go" where
  "tryIncrementalKickoff c cfg provider dataset fetchQueue jobType cursor =
     (if ReplicationChainActive cursor then go_ret ()
      else go_bind (Mode cfg dataset provider) (\<lambda>mode.
      if mode = CatchUp then go_ret ()
      else if \<not> ShouldRunIncremental cursor then go_ret ()
      else go_bind (shouldPollIncremental cfg cursor) (\<lambda>poll.
      if \<not> poll then go_ret ()
      else enqueueFetch c dataset fetchQueue jobType ''incremental'')))"

definition dispatchDataset ::
  "client \<Rightarrow> sync_config \<Rightarrow> string \<Rightarrow> string \<Rightarrow> string \<Rightarrow> string \<Rightarrow> ('z sdb_scheme, unit) go" where
  "dispatchDataset c cfg provider dataset fetchQueue jobType =
     go_bind (HasActivePage provider dataset) (\<lambda>active.
     if active then go_ret ()
     else go_bind (ForDataset dataset) (\<lambda>cursor.
     if ReplicationChainActive cursor then go_ret ()
     else go_bind (ShouldKickoffReplication cursor) (\<lambda>runRep.
     if runRep then enqueueFetch c dataset fetchQueue jobType ''replication''
     else tryIncrementalKickoff c cfg provider dataset fetchQueue jobType cursor)))"

definition dispatchBridge :: "client \<Rightarrow> sync_config \<Rightarrow> ('z sdb_scheme, unit) go" where
  "dispatchBridge c cfg =
     (if \<not> stellar_enabled (cfg_mls cfg) then go_ret ()
      else go_each (\<lambda>ds. dispatchDataset c cfg ''bridge'' ds (b_fetch_queue (cfg_bridge cfg)) ''bridge.fetch_page'')
        (b_datasets (cfg_bridge cfg)))"

definition dispatchSpark :: "client \<Rightarrow> sync_config \<Rightarrow> ('z sdb_scheme, unit) go" where
  "dispatchSpark c cfg =
     (if \<not> beaches_enabled (cfg_mls cfg) then go_ret ()
      else if s_access_token (cfg_spark cfg) = [] then go_ret ()
      else go_each (\<lambda>ds. dispatchDataset c cfg ''spark'' ds (s_fetch_queue (cfg_spark cfg)) ''spark.fetch_page'')
        (s_datasets (cfg_spark cfg)))"

definition kickoff_run :: "client \<Rightarrow> sync_config \<Rightarrow> ('z sdb_scheme, unit) go" where
  "kickoff_run c cfg = go_bind (dispatchBridge c cfg) (\<lambda>_. dispatchSpark c cfg)"

section \<open>Fetch guard\<close>

text \<open>\<^verbatim>\<open>skipReplicationFetchWhenPageActive\<close>: whether the fetch is to be skipped.\<close>

definition skipReplicationFetchWhenPageActive :: "string \<Rightarrow> string \<Rightarrow> string \<Rightarrow> ('z sdb_scheme, bool) go" where
  "skipReplicationFetchWhenPageActive provider dataset mode =
     (if mode \<noteq> ''replication'' then go_ret False else HasActivePage provider dataset)"

section \<open>Rolling window and purge\<close>

text \<open>\<^verbatim>\<open>t.AddDate(0, -months, 0)\<close>: a day past the end of the month runs over into the next one.\<close>

definition minus_months :: "int \<Rightarrow> nat \<Rightarrow> int" where
  "minus_months t n =
     (let D = day_of t; y = year_of_day D; md = month_day y (D - days_before_year y);
          k = y * 12 + (fst md - 1) - n
      in instant (day_number (k div 12) (k mod 12 + 1) (snd md)) (second_of_day t) (nat (t mod second)) 0)"

definition MirrorRollingCutoff :: "sync_config \<Rightarrow> int \<Rightarrow> int option" where
  "MirrorRollingCutoff cfg now =
     (let months = rolling_months (cfg_mls cfg) in
      if months \<le> 0 then None else Some (minus_months now (nat months)))"

definition quoted :: "string \<Rightarrow> string" where
  "quoted s = CHR 0x27 # s @ [CHR 0x27]"

definition activePendingStatusFilter :: string where
  "activePendingStatusFilter =
     ''(StandardStatus eq '' @ quoted ''Active'' @ '' or StandardStatus eq '' @ quoted ''Pending'' @ '')''"

definition BridgeReplicationFilter :: "sync_config \<Rightarrow> string" where
  "BridgeReplicationFilter cfg = activePendingStatusFilter"

definition BridgeIncrementalFilter :: "string \<Rightarrow> int \<Rightarrow> string" where
  "BridgeIncrementalFilter dataset since =
     ''('' @ activePendingStatusFilter @ '') and '' @ ODataGTFilter (ModificationODataField dataset) since"

definition SparkReplicationFilter :: "sync_config \<Rightarrow> int \<Rightarrow> string" where
  "SparkReplicationFilter cfg now = (case MirrorRollingCutoff cfg now of
      None \<Rightarrow> activePendingStatusFilter
    | Some cutoff \<Rightarrow> activePendingStatusFilter @ '' and ModificationTimestamp gt '' @ fmt_utc cutoff)"

text \<open>SQL's \<^verbatim>\<open>LOWER(TRIM(COALESCE(standard_status, '')))\<close>: \<^verbatim>\<open>TRIM\<close> removes spaces only.\<close>

definition sql_status :: "listing_record \<Rightarrow> string" where
  "sql_status r = to_lower (trim_both (\<lambda>c. c = CHR '' '') (case lr_status r of None \<Rightarrow> [] | Some t \<Rightarrow> t))"

definition purge_row :: "int option \<Rightarrow> mirror_row \<Rightarrow> bool" where
  "purge_row cutoff r \<longleftrightarrow> sql_status (mr_rec r) = ''closed'' \<or>
     (case cutoff of None \<Rightarrow> False
      | Some t \<Rightarrow> (sql_status (mr_rec r) \<in> {''active'', ''pending''} \<and> mr_persisted_at r < t) \<or>
          (case lr_close_date (mr_rec r) of None \<Rightarrow> False
           | Some d \<Rightarrow> d < unix t div 86400 * 86400 * second))"

definition purge_closed_run :: "sync_config \<Rightarrow> ('z sdb_scheme, unit) go" where
  "purge_closed_run cfg =
     (let months = rolling_months (cfg_mls cfg) in
      if months \<le> 0 then sql (\<lambda>s. Some ((), s\<lparr>listings := filter (\<lambda>r. \<not> purge_row None r) (listings s)\<rparr>))
      else go_bind go_now (\<lambda>now. let cutoff = minus_months now (nat months) in
        sql (\<lambda>s. Some ((), s\<lparr>listings := filter (\<lambda>r. \<not> purge_row (Some cutoff) r) (listings s)\<rparr>))))"

section \<open>Rate limiter\<close>

record rate_limiter =
  rl_min_interval :: int
  rl_last :: "int option"

definition newSyncRateLimiter :: "int \<Rightarrow> rate_limiter option" where
  "newSyncRateLimiter maxPerSecond =
     (if maxPerSecond \<le> 0 then None else Some \<lparr>rl_min_interval = second div maxPerSecond, rl_last = None\<rparr>)"

text \<open>\<^verbatim>\<open>wait\<close> sleeps until the interval since the last grant has passed and records the new grant. The
  context's cancellation is not modelled.\<close>

definition sleep_for :: "int \<Rightarrow> ('z env_scheme, unit) go" where
  "sleep_for d = (\<lambda>s. (Inr (), s\<lparr>clock := clock s + d\<rparr>))"

definition limiter_wait :: "rate_limiter option \<Rightarrow> ('z env_scheme, rate_limiter option) go" where
  "limiter_wait r = (case r of None \<Rightarrow> go_ret None
     | Some l \<Rightarrow> go_bind
         (case rl_last l of None \<Rightarrow> go_ret ()
          | Some t \<Rightarrow> go_bind go_now (\<lambda>now.
              let wait = rl_min_interval l - (now - t) in
              if wait > 0 then sleep_for wait else go_ret ()))
         (\<lambda>_. go_bind go_now (\<lambda>now. go_ret (Some (l\<lparr>rl_last := Some now\<rparr>)))))"

section \<open>Lemmas: reading the state\<close>

text \<open>What the scheduling code may change before it enqueues: a fresh cursor row may appear and time
  passes.\<close>

definition only_reads :: "'z sdb_scheme \<Rightarrow> 'z sdb_scheme \<Rightarrow> bool" where
  "only_reads s s' \<longleftrightarrow> jobs s' = jobs s \<and> pages s' = pages s \<and> listings s' = listings s \<and>
     clock s \<le> clock s' \<and> (\<forall>ds c. find_cursor ds s = Some c \<longrightarrow> find_cursor ds s' = Some c)"

lemma only_reads_refl [simp]: "only_reads s s"
  by (simp add: only_reads_def)

lemma only_reads_trans: "only_reads s s' \<Longrightarrow> only_reads s' s'' \<Longrightarrow> only_reads s s''"
  by (auto simp: only_reads_def)

lemma find_cursor_frame [simp]:
  "find_cursor ds (s\<lparr>faults := bs\<rparr>) = find_cursor ds s"
  "find_cursor ds (s\<lparr>clock := t, delays := dl\<rparr>) = find_cursor ds s"
  "find_cursor ds (s\<lparr>pages := ps\<rparr>) = find_cursor ds s"
  by (simp_all add: find_cursor_def)

lemma only_reads_env [simp]:
  "only_reads s (s\<lparr>faults := bs\<rparr>)"
  "clock s \<le> t \<Longrightarrow> only_reads s (s\<lparr>clock := t, delays := dl\<rparr>)"
  by (simp_all add: only_reads_def)

lemma go_now_reads:
  obtains t s' where "go_now s = (Inr t, s')" "only_reads s s'" "clock s \<le> t" "clock s' = t"
proof (cases "delays s")
  case Nil
  with that [of "clock s" s] show thesis by (simp add: go_now_def)
next
  case (Cons d ds)
  with that [of "clock s + int d" "s\<lparr>clock := clock s + int d, delays := ds\<rparr>"] show thesis
    by (simp add: go_now_def)
qed

lemma sql_reads:
  assumes "sql (\<lambda>s. Some (f s, s)) s = (r, s')" "\<And>bs. f (s\<lparr>faults := bs\<rparr>) = f s"
  shows "only_reads s s' \<and> (\<forall>x. r = Inr x \<longrightarrow> x = f s)"
  using assms by (cases r) (auto dest!: sql_Inr sql_Inl)

lemma HasActivePage_reads:
  assumes "HasActivePage p ds s = (r, s')"
  shows "only_reads s s' \<and> (\<forall>b. r = Inr b \<longrightarrow> b = (\<exists>q \<in> set (pages s). active_page p ds q))"
  using assms unfolding HasActivePage_def by (rule sql_reads) simp

lemma MirrorSeeded_reads:
  assumes "MirrorSeeded ds s = (r, s')"
  shows "only_reads s s' \<and> (\<forall>b. r = Inr b \<longrightarrow> b = (\<exists>q \<in> set (listings s). lr_dataset (mr_rec q) = ds))"
  using assms unfolding MirrorSeeded_def by (rule sql_reads) simp

lemma find_append_None: "find P (xs @ ys) = (case find P xs of None \<Rightarrow> find P ys | Some x \<Rightarrow> Some x)"
  by (induction xs) auto

lemma ForDataset_reads:
  assumes "ForDataset ds s = (r, s')"
  shows "only_reads s s' \<and> clock s' = clock s \<and> (\<forall>c. r = Inr c \<longrightarrow> cur_dataset c = ds \<and> find_cursor ds s' = Some c \<and>
     (find_cursor ds s = Some c \<or> find_cursor ds s = None \<and> c = new_cursor ds))"
proof (cases r)
  case (Inl e)
  with assms show ?thesis unfolding ForDataset_def by (auto dest!: sql_Inl)
next
  case (Inr c)
  let ?s = "s\<lparr>faults := tl (faults s)\<rparr>"
  have f: "(case find_cursor ds ?s of
      Some c \<Rightarrow> Some (c, ?s)
    | None \<Rightarrow> (if length ds > 64 then None
        else Some (new_cursor ds, ?s\<lparr>cursors := cursors ?s @ [new_cursor ds]\<rparr>))) = Some (c, s')"
    by (rule sql_Inr [OF assms [unfolded ForDataset_def Inr]])
  show ?thesis
  proof (cases "find_cursor ds s")
    case (Some c')
    then have "cur_dataset c' = ds" by (auto simp: find_cursor_def find_Some_iff)
    with f Some Inr show ?thesis by auto
  next
    case None
    with f have s': "s' = ?s\<lparr>cursors := cursors s @ [new_cursor ds]\<rparr>" "c = new_cursor ds"
      by (auto split: if_splits)
    have "find_cursor d s' = (case find_cursor d s of None \<Rightarrow> if d = ds then Some (new_cursor ds) else None | Some x \<Rightarrow> Some x)" for d
      by (auto simp: s' find_cursor_def find_append_None new_cursor_def split: option.split)
    with s' None Inr show ?thesis
      by (auto simp: only_reads_def new_cursor_def)
  qed
qed

lemma IsCurrent_reads:
  assumes "IsCurrent cfg ds p s = (r, s')"
  shows "only_reads s s' \<and> (r = Inr True \<longrightarrow> (\<exists>c fin now. find_cursor ds s = Some c \<and>
     last_sync_finished c = Some fin \<and> clock s \<le> now \<and> now \<le> clock s' \<and> now - freshness_threshold cfg \<le> fin))"
proof -
  obtain r1 s1 where h: "HasActivePage p ds s = (r1, s1)" by fastforce
  obtain r2 s2 where f: "ForDataset ds s1 = (r2, s2)" by fastforce
  obtain r3 s3 where m: "MirrorSeeded ds s2 = (r3, s3)" by fastforce
  obtain t2 s2' where n2: "go_now s2 = (Inr t2, s2')" "only_reads s2 s2'" "clock s2 \<le> t2" "clock s2' = t2"
    by (rule go_now_reads)
  have rd: "only_reads s s1" "only_reads s1 s2" "only_reads s2 s3"
    using HasActivePage_reads [OF h] ForDataset_reads [OF f] MirrorSeeded_reads [OF m] by auto
  then have rd2: "only_reads s s2" "only_reads s s3" "only_reads s s2'"
    using n2 by (auto intro: only_reads_trans)
  show ?thesis
  proof (cases "\<exists>c. r1 = Inr False \<and> r2 = Inr c")
    case False
    then have "s' \<in> {s1, s2} \<and> r \<noteq> Inr True"
      using assms h f by (auto simp: IsCurrent_def go_simps split: sum.splits if_splits)
    with rd rd2 show ?thesis by auto
  next
    case True
    then obtain c where c: "r1 = Inr False" "r2 = Inr c" by blast
    note fc = ForDataset_reads [OF f]
    show ?thesis
    proof (cases "last_sync_finished c")
      case None
      then have "s' \<in> {s2, s3} \<and> r \<noteq> Inr True"
        using assms h f m c by (auto simp: IsCurrent_def go_simps split: sum.splits if_splits option.splits)
      with rd rd2 show ?thesis by auto
    next
      case (Some fin)
      have "c \<noteq> new_cursor ds" using Some by (auto simp: new_cursor_def)
      with fc c have "find_cursor ds s1 = Some c" by auto
      moreover have "find_cursor ds s1 = find_cursor ds s"
        using h c(1) by (auto simp: HasActivePage_def dest!: sql_Inr)
      ultimately have fs: "find_cursor ds s = Some c" by simp
      have "s' \<in> {s2, s2'}" and "r = Inr True \<Longrightarrow> s' = s2' \<and> t2 - freshness_threshold cfg \<le> fin"
        using assms h f c n2 Some by (auto simp: IsCurrent_def go_simps split: sum.splits if_splits option.splits)
      with rd2 n2 fs Some show ?thesis
        by (auto simp: only_reads_def intro!: exI [of _ c] exI [of _ fin] exI [of _ t2])
    qed
  qed
qed

section \<open>Scheduling\<close>

definition seeded :: "string \<Rightarrow> 'z sdb_scheme \<Rightarrow> bool" where
  "seeded ds s \<longleftrightarrow> (\<exists>q \<in> set (listings s). lr_dataset (mr_rec q) = ds)"

definition page_active :: "string \<Rightarrow> string \<Rightarrow> 'z sdb_scheme \<Rightarrow> bool" where
  "page_active p ds s \<longleftrightarrow> (\<exists>q \<in> set (pages s). active_page p ds q)"

text \<open>The cursor the code sees: the stored one or a fresh one.\<close>

definition cursor_of :: "string \<Rightarrow> 'z sdb_scheme \<Rightarrow> sync_cursor" where
  "cursor_of ds s = (case find_cursor ds s of None \<Rightarrow> new_cursor ds | Some c \<Rightarrow> c)"

definition fetch_job :: "string \<Rightarrow> string \<Rightarrow> string \<Rightarrow> string \<Rightarrow> job_row \<Rightarrow> bool" where
  "fetch_job q ty ds mode j \<longleftrightarrow> job_queue j = q \<and> reserved_at j = None \<and> job_payload j =
     MarshalPayload ty (Some (enc_fetch_args \<lparr>fa_dataset = ds, fa_mode = mode, fa_skip = 0, fa_depth = 0\<rparr>))"

lemma only_reads_seeded: "only_reads s s' \<Longrightarrow> seeded ds s' = seeded ds s"
  by (simp add: only_reads_def seeded_def)

lemma enqueueFetch_run:
  assumes "enqueueFetch c ds q ty mode s = (r, s')"
  shows "clock s \<le> clock s' \<and> (jobs s' = jobs s \<or> (\<exists>j. jobs s' = jobs s @ [j] \<and> fetch_job q ty ds mode j))"
proof -
  let ?args = "Some (enc_fetch_args \<lparr>fa_dataset = ds, fa_mode = mode, fa_skip = 0, fa_depth = 0\<rparr>)"
  obtain r1 s1 where e: "Enqueue c q ty ?args 0 s = (r1, s1)" by fastforce
  with assms have "s' = s1" by (auto simp: enqueueFetch_def go_simps split: sum.splits)
  moreover have "not_before (clock s) s1"
    using keepsD [OF keeps_clock_ops(1), of "clock s" s c q ty ?args 0] e by (simp add: not_before_def)
  ultimately show ?thesis
    using Enqueue_run(3) [OF e] by (auto simp: fetch_job_def not_before_def)
qed

lemma shouldPoll_reads:
  assumes "shouldPollIncremental cfg cur s = (r, s')"
  shows "only_reads s s' \<and> (r = Inr True \<longrightarrow> (\<forall>fin. last_sync_finished cur = Some fin \<longrightarrow>
     (\<exists>now. clock s \<le> now \<and> now \<le> clock s' \<and> freshness_threshold cfg \<le> now - fin)))"
proof -
  obtain t s1 where "go_now s = (Inr t, s1)" "only_reads s s1" "clock s \<le> t" "clock s1 = t" by (rule go_now_reads)
  with assms show ?thesis
    by (auto simp: shouldPollIncremental_def go_simps split: if_splits option.splits)
qed

lemma incremental_run:
  assumes "tryIncrementalKickoff c cfg p ds q ty cur s = (r, s')" "find_cursor ds s = Some cur"
  shows "clock s \<le> clock s' \<and> (jobs s' = jobs s \<or> (\<exists>j fin. jobs s' = jobs s @ [j] \<and> fetch_job q ty ds ''incremental'' j \<and>
     last_sync_finished cur = Some fin \<and>
     clock s \<le> fin + freshness_threshold cfg \<and> fin + freshness_threshold cfg \<le> clock s'))"
proof -
  obtain r1 s1 where ic: "IsCurrent cfg ds p s = (r1, s1)" by fastforce
  note i = IsCurrent_reads [OF ic]
  obtain r2 s2 where sp: "shouldPollIncremental cfg cur s1 = (r2, s2)" by fastforce
  note p = shouldPoll_reads [OF sp]
  obtain r3 s3 where ef: "enqueueFetch c ds q ty ''incremental'' s2 = (r3, s3)" by fastforce
  note e = enqueueFetch_run [OF ef]
  have c: "clock s \<le> clock s1" "clock s1 \<le> clock s2" "jobs s1 = jobs s" "jobs s2 = jobs s"
    using i p by (auto simp: only_reads_def)
  show ?thesis
  proof (cases "r1 = Inr True \<and> r2 = Inr True \<and> s' = s3")
    case True
    with i p assms(2) obtain fin t1 t2 where "last_sync_finished cur = Some fin" "clock s \<le> t1"
        "t1 - freshness_threshold cfg \<le> fin" "t2 \<le> clock s2" "freshness_threshold cfg \<le> t2 - fin"
      by auto
    with True e c show ?thesis by auto
  next
    case False
    then have "s' \<in> {s, s1, s2}"
      using assms(1) ic sp ef
      by (auto simp: tryIncrementalKickoff_def Mode_def go_simps split: if_splits sum.splits)
    with c show ?thesis by auto
  qed
qed

lemma dispatch_run:
  assumes "dispatchDataset c cfg p ds q ty s = (r, s')"
  shows "clock s \<le> clock s' \<and> (jobs s' = jobs s \<or> (\<exists>j. jobs s' = jobs s @ [j] \<and> \<not> page_active p ds s \<and>
     \<not> ReplicationChainActive (cursor_of ds s) \<and>
     (if seeded ds s then fetch_job q ty ds ''incremental'' j \<and> (\<exists>fin. last_sync_finished (cursor_of ds s) = Some fin \<and>
        clock s \<le> fin + freshness_threshold cfg \<and> fin + freshness_threshold cfg \<le> clock s')
      else fetch_job q ty ds ''replication'' j)))"
proof -
  obtain r1 s1 where h: "HasActivePage p ds s = (r1, s1)" by fastforce
  note hr = HasActivePage_reads [OF h]
  obtain r2 s2 where f: "ForDataset ds s1 = (r2, s2)" by fastforce
  note fr = ForDataset_reads [OF f]
  have rd: "only_reads s s2" "jobs s1 = jobs s" "clock s \<le> clock s1" "clock s1 \<le> clock s2"
    using hr fr by (auto simp: only_reads_def intro: only_reads_trans)
  then have rj: "jobs s2 = jobs s" "clock s \<le> clock s2" by (auto simp: only_reads_def)
  show ?thesis
  proof (cases "\<exists>cur. r1 = Inr False \<and> r2 = Inr cur \<and> \<not> ReplicationChainActive cur")
    case False
    then have "s' \<in> {s1, s2}"
      using assms h f by (auto simp: dispatchDataset_def go_simps split: sum.splits if_splits)
    with rd rj show ?thesis by auto
  next
    case True
    then obtain cur where c: "r1 = Inr False" "r2 = Inr cur" "\<not> ReplicationChainActive cur" by blast
    have fs1: "find_cursor ds s1 = find_cursor ds s"
      using h c(1) by (auto simp: HasActivePage_def dest!: sql_Inr)
    have cur: "cursor_of ds s = cur" "cur_dataset cur = ds" "find_cursor ds s2 = Some cur"
      using fr c(2) fs1 by (auto simp: cursor_of_def)
    have na: "\<not> page_active p ds s" using hr c(1) by (auto simp: page_active_def)
    obtain r3 s3 where m: "MirrorSeeded ds s2 = (r3, s3)" by fastforce
    note mr = MirrorSeeded_reads [OF m]
    have rj3: "jobs s3 = jobs s" "clock s \<le> clock s3" "find_cursor ds s3 = Some cur" "seeded ds s2 = seeded ds s"
      using mr rj rd cur only_reads_seeded [OF rd(1)] by (auto simp: only_reads_def)
    show ?thesis
    proof (cases r3)
      case (Inl e)
      then have "s' = s3"
        using assms h f c m cur by (auto simp: dispatchDataset_def ShouldKickoffReplication_def go_simps)
      with rj3 show ?thesis by auto
    next
      case (Inr b)
      with mr rj3(4) have b: "b = seeded ds s" by (auto simp: seeded_def)
      show ?thesis
      proof (cases b)
        case False
        then have "enqueueFetch c ds q ty ''replication'' s3 = (r, s')"
          using assms h f c m cur Inr by (auto simp: dispatchDataset_def ShouldKickoffReplication_def go_simps)
        from enqueueFetch_run [OF this] rj3 b False na c(3) cur(1) show ?thesis by auto
      next
        case True
        then have "tryIncrementalKickoff c cfg p ds q ty cur s3 = (r, s')"
          using assms h f c m cur Inr by (auto simp: dispatchDataset_def ShouldKickoffReplication_def go_simps)
        from incremental_run [OF this rj3(3)] rj3 b True na c(3) cur(1) show ?thesis by auto
      qed
    qed
  qed
qed

section \<open>Lemmas: cursors and pages\<close>

lemma mergeCursorPatch_dataset: "cur_dataset (mergeCursorPatch c p t) = cur_dataset c"
  by (simp add: mergeCursorPatch_def Let_def split: option.splits)

definition not_earlier :: "int option \<Rightarrow> int option \<Rightarrow> bool" where
  "not_earlier a b \<longleftrightarrow> (\<forall>x. a = Some x \<longrightarrow> (\<exists>y. b = Some y \<and> x \<le> y))"

lemma not_earlier_refl [simp]: "not_earlier a a"
  by (simp add: not_earlier_def)

lemma mergeCursorPatch_monotone: "not_earlier (last_modification c) (last_modification (mergeCursorPatch c p t))"
  by (auto simp: not_earlier_def mergeCursorPatch_def Let_def split: option.splits)

lemma find_update_cursor:
  assumes "cur_dataset m = ds"
  shows "find (\<lambda>c. cur_dataset c = d) (update_cursor ds m cs) =
     (case find (\<lambda>c. cur_dataset c = d) cs of None \<Rightarrow> None | Some c \<Rightarrow> Some (if d = ds then m else c))"
  using assms by (induction cs) (auto simp: update_cursor_def)

lemma ApplyPatch_run:
  assumes "ApplyPatch ds patch s = (r, s')" "find_cursor d s = Some c"
  obtains t where "find_cursor d s' = Some c"
  | t where "d = ds" "r = Inr ()" "find_cursor d s' = Some (mergeCursorPatch c patch t)" "clock s \<le> t"
  | "d \<noteq> ds" "find_cursor d s' = Some c"
proof -
  obtain r1 s1 where f: "ForDataset ds s = (r1, s1)" by fastforce
  note fr = ForDataset_reads [OF f]
  have c1: "find_cursor d s1 = Some c" using fr assms(2) by (auto simp: only_reads_def)
  show thesis
  proof (cases r1)
    case (Inl e)
    with assms(1) f have "s' = s1" by (simp add: ApplyPatch_def go_simps)
    with c1 that(1) show thesis by simp
  next
    case (Inr cur)
    obtain t s2 where n: "go_now s1 = (Inr t, s2)" "only_reads s1 s2" "clock s1 \<le> t" by (rule go_now_reads)
    let ?m = "mergeCursorPatch cur patch t"
    have m: "cur_dataset ?m = ds" "?m\<lparr>cur_dataset := ds\<rparr> = ?m" using fr Inr by (auto simp: mergeCursorPatch_dataset)
    have run: "sql (\<lambda>s. Some ((), s\<lparr>cursors := update_cursor ds ?m (cursors s)\<rparr>)) s2 = (r, s')"
      using assms(1) f Inr n by (simp add: ApplyPatch_def go_simps Let_def)
    have c2: "find_cursor d s2 = Some c" using n(2) c1 by (auto simp: only_reads_def)
    show thesis
    proof (cases r)
      case (Inl e)
      with run c2 that(1) show thesis by (auto dest!: sql_Inl)
    next
      case (Inr u)
      with run have "find_cursor d s' = find (\<lambda>c. cur_dataset c = d) (update_cursor ds ?m (cursors s2))"
        by (auto simp: find_cursor_def dest!: sql_Inr)
      with c2 find_update_cursor [OF m(1)] have res: "find_cursor d s' = Some (if d = ds then ?m else c)"
        by (simp add: find_cursor_def)
      show thesis
      proof (cases "d = ds")
        case True
        with fr \<open>r1 = Inr cur\<close> assms(2) have "cur = c" by auto
        with res True \<open>r = Inr u\<close> fr n(3) that(2) [of t] show thesis by simp
      next
        case False
        with res that(3) show thesis by simp
      qed
    qed
  qed
qed

definition page_inv :: "'z sdb_scheme \<Rightarrow> bool" where
  "page_inv s \<longleftrightarrow> distinct (map page_id (pages s)) \<and> (\<forall>p \<in> set (pages s). page_id p < next_page_id s)"

lemma StorePage_run:
  assumes "StorePage pr ds mode rows k s = (Inr (i, n), s')"
  shows "i = next_page_id s \<and> n = length (chunks_of (page_chunk_size k) rows) \<and> jobs s' = jobs s \<and> clock s \<le> clock s' \<and>
    (\<exists>p. pages s' = pages s @ [p] \<and> page_id p = i \<and> page_status p = PagePending \<and> page_provider p = pr \<and>
       page_dataset p = ds \<and> page_parts p = map encode_part (chunks_of (page_chunk_size k) rows))"
proof -
  obtain t s1 where now: "go_now s = (Inr t, s1)" "clock s \<le> clock s1" and s1: "pages s1 = pages s" "next_page_id s1 = next_page_id s" "jobs s1 = jobs s"
    by (cases "delays s") (auto simp: go_now_def)
  with assms show ?thesis
    by (auto simp: StorePage_def Let_def go_simps dest!: sql_Inr split: if_splits)
qed

lemma decode_encode_part: "\<forall>r \<in> set rows. \<exists>j. r = RawJson j \<Longrightarrow> decode_part (encode_part rows) = Some rows"
  by (auto simp: decode_part_def encode_part_def intro!: map_idI)

lemma page_chunk_size_pos [simp]: "0 < page_chunk_size k"
  by (simp add: page_chunk_size_def)

section \<open>Properties of scheduling and staging\<close>

definition demo_listing :: listing_record where
  "demo_listing = listing_record_of (\<lambda>_. []) ''stellar'' Bridge [] RawEmpty [] no_payload [] 1"

definition demo_cursor :: sync_cursor where
  "demo_cursor = (new_cursor ''stellar'')\<lparr>last_modification := Some (50 * second), last_sync_finished := Some (100 * second)\<rparr>"

definition demo_sync_config :: sync_config where
  "demo_sync_config = \<lparr>
     cfg_bridge = \<lparr>b_datasets = [''stellar''], b_api_key = ''k'', b_host = ''https://h'', b_path_prefix = [], b_reso_root = [],
       b_fetch_queue = ''bridge-sync-fetch'', b_persist_queue = ''bridge-sync-persist'', b_persist_chunk = 2,
       b_upsert_chunk = 375, b_max_rps = 2, b_max_retries = 4, b_replication_top = 2000, b_incremental_top = 2,
       b_include_media = True, b_full_property = True, b_nav_hydrate = False, b_expand = [], b_max_chain = 0\<rparr>,
     cfg_spark = \<lparr>s_datasets = [''beaches''], s_access_token = ''t'', s_replication_host = ''https://r'', s_replication_reso = ''v'',
       s_fetch_queue = ''spark-sync-fetch'', s_persist_queue = ''spark-sync-persist'', s_persist_chunk = 50,
       s_upsert_chunk = 375, s_replication_top = 1000, s_incremental_top = 1000, s_max_chain = 0\<rparr>,
     cfg_mls = \<lparr>stellar_enabled = True, beaches_enabled = True, freshness_minutes = 15, rolling_months = 0,
       page_retention_hours = 24, page_failed_days = 7, beaches_persist_chunk = 0, sync_expand = [], sync_replication_expand = []\<rparr>\<rparr>"

definition demo_sync :: sdb where
  "demo_sync = \<lparr>clock = 1100 * second, delays = [], faults = [], jobs = [], failed_jobs = [], job_batches = [],
     next_job_id = 1, notified = [], row_locks = [], uuid_gen = (\<lambda>n. replicate (Suc n) CHR ''u''), uuid_next = 0,
     cursors = [demo_cursor], pages = [], next_page_id = 1,
     listings = [\<lparr>mr_rec = demo_listing\<lparr>lr_dataset := ''stellar''\<rparr>, mr_coordinates = None, mr_persisted_at = 0\<rparr>]\<rparr>"

text \<open>(C20) Kickoff never overlaps a running replication: whatever fails, it adds at most one job, and
  only when no page of the dataset is staged and no replication chain is active; the job is a
  replication fetch exactly when the mirror holds no listing of the dataset, and an incremental
  fetch otherwise.\<close>

theorem kickoff_starts_at_most_one_fetch:
  "let s' = snd (dispatchDataset c cfg p ds q ty s) in
     jobs s' = jobs s \<or>
     (\<exists>j. jobs s' = jobs s @ [j] \<and> \<not> page_active p ds s \<and> \<not> ReplicationChainActive (cursor_of ds s) \<and>
        fetch_job q ty ds (if seeded ds s then ''incremental'' else ''replication'') j)"
proof -
  obtain r s' where run: "dispatchDataset c cfg p ds q ty s = (r, s')" by fastforce
  show ?thesis
    using dispatch_run [OF run] by (auto simp: run Let_def split: if_splits)
qed

text \<open>Incremental polling is dead in steady state: the kickoff of a seeded dataset enqueues an
  incremental fetch only if the last sync was still within the freshness window at one reading of
  the clock and already outside it at a later reading of the same run. Once the window has passed
  at the start of a run, or has not passed at its end, nothing is enqueued.\<close>

theorem incremental_kickoff_only_at_threshold:
  assumes "seeded ds s" and "last_sync_finished (cursor_of ds s) = Some fin"
    and "dispatchDataset c cfg p ds q ty s = (r, s')"
    and "fin + freshness_threshold cfg < clock s \<or> clock s' < fin + freshness_threshold cfg"
  shows "jobs s' = jobs s"
  using dispatch_run [OF assms(3)] assms(1,2,4) by auto

theorem incremental_kickoff_only_at_threshold_witness:
  "jobs (snd (dispatchDataset demo_client demo_sync_config ''bridge'' ''stellar'' ''q'' ''bridge.fetch_page'' demo_sync)) = jobs demo_sync"
proof -
  have "seeded ''stellar'' demo_sync" by (simp add: seeded_def demo_sync_def)
  moreover have "last_sync_finished (cursor_of ''stellar'' demo_sync) = Some (100 * second)"
    by (simp add: cursor_of_def find_cursor_def demo_sync_def demo_cursor_def new_cursor_def)
  moreover have "100 * second + freshness_threshold demo_sync_config < clock demo_sync"
    by (simp add: freshness_threshold_def demo_sync_config_def demo_sync_def second_def)
  ultimately show ?thesis
    by (intro incremental_kickoff_only_at_threshold [where r = "fst (dispatchDataset demo_client demo_sync_config ''bridge'' ''stellar'' ''q'' ''bridge.fetch_page'' demo_sync)"])
      auto
qed

text \<open>(C4) A cursor never moves back: applying a patch, whether it succeeds or fails on the way, leaves
  every dataset's last modification time where it was or later, and leaves the cursors of other
  datasets as they were.\<close>

theorem cursor_never_moves_back:
  assumes "find_cursor d s = Some c"
  shows "\<exists>c'. find_cursor d (snd (ApplyPatch ds patch s)) = Some c' \<and>
     not_earlier (last_modification c) (last_modification c') \<and> (d \<noteq> ds \<longrightarrow> c' = c)"
proof -
  obtain r s' where run: "ApplyPatch ds patch s = (r, s')" by fastforce
  show ?thesis
    by (cases rule: ApplyPatch_run [OF run assms]) (simp_all add: run mergeCursorPatch_monotone not_earlier_refl)
qed

theorem cursor_never_moves_back_witness:
  "\<exists>c'. find_cursor ''stellar'' (snd (ApplyPatch ''stellar'' (empty_patch\<lparr>cp_max_modification := Some 3\<rparr>) demo_sync)) = Some c' \<and>
     not_earlier (Some (50 * second)) (last_modification c')"
  using cursor_never_moves_back [of "''stellar''" demo_sync demo_cursor "''stellar''" "empty_patch\<lparr>cp_max_modification := Some 3\<rparr>"]
  by (simp add: find_cursor_def demo_sync_def) (auto simp: demo_cursor_def new_cursor_def)

text \<open>(C19) Staged rows come back: a page that was stored in chunks gives back, chunk by chunk from the
  first index to the last, exactly the rows it was given, each chunk within the configured size;
  an index outside that range is an error.\<close>

theorem staged_rows_come_back:
  assumes "StorePage pr ds mode rows k s = (Inr (i, n), s')" and "page_inv s" and "no_faults s'"
    and "\<forall>r \<in> set rows. \<exists>j. r = RawJson j"
  shows "map (\<lambda>x. fst (RowsForChunk i (int x) s')) [1..<Suc n] = map Inr (chunks_of (page_chunk_size k) rows) \<and>
     concat (chunks_of (page_chunk_size k) rows) = rows \<and>
     (\<forall>x. x < 1 \<or> int n < x \<longrightarrow> (\<exists>e. fst (RowsForChunk i x s') = Inl e))"
proof -
  let ?cs = "chunks_of (page_chunk_size k) rows"
  obtain p where p: "i = next_page_id s" "n = length ?cs" "pages s' = pages s @ [p]" "page_id p = i"
      "page_parts p = map encode_part ?cs"
    using StorePage_run [OF assms(1)] by auto
  have "find (\<lambda>p. page_id p = i) (pages s) = None"
    using assms(2) p(1) by (auto simp: page_inv_def find_None_iff)
  then have fnd: "find (\<lambda>p. page_id p = i) (pages s') = Some p"
    using p by (simp add: find_append_None)
  have run: "fst (RowsForChunk i x s') = (if x < 1 \<or> x > int n then Inl (Err ''chunk index out of range'')
      else case decode_part (map encode_part ?cs ! nat (x - 1)) of None \<Rightarrow> Inl (Err ''decode chunk'') | Some rows \<Rightarrow> Inr rows)" for x
    using fnd p(2,5)
    by (simp add: RowsForChunk_def go_simps Let_def sql_no_faults [OF assms(3)] split: option.split)
  have cat: "concat ?cs = rows" by (rule concat_chunks_of) simp
  have dec: "decode_part (encode_part (?cs ! x)) = Some (?cs ! x)" if "x < n" for x
  proof (rule decode_encode_part)
    have "set (?cs ! x) \<subseteq> set rows" using cat that p(2) by (metis Union_upper nth_mem set_concat image_eqI)
    with assms(4) show "\<forall>r \<in> set (?cs ! x). \<exists>j. r = RawJson j" by blast
  qed
  have "map (\<lambda>x. fst (RowsForChunk i (int x) s')) [1..<Suc n] = map Inr ?cs"
  proof (rule nth_equalityI)
    fix x assume "x < length (map (\<lambda>x. fst (RowsForChunk i (int x) s')) [1..<Suc n])"
    then have "x < n" by (simp del: upt_Suc)
    with dec [of x] p(2) show "map (\<lambda>x. fst (RowsForChunk i (int x) s')) [1..<Suc n] ! x = map Inr ?cs ! x"
      by (simp add: run del: upt_Suc)
  qed (simp add: p(2) del: upt_Suc)
  with cat run show ?thesis by auto
qed

lemma demo_store:
  "StorePage ''bridge'' ''stellar'' ''replication'' [RawJson JNull, RawJson (JBool True), RawJson (JArr [])] 2 demo_sync =
     (Inr (1, 2), snd (StorePage ''bridge'' ''stellar'' ''replication'' [RawJson JNull, RawJson (JBool True), RawJson (JArr [])] 2 demo_sync))"
  by (simp add: StorePage_def go_simps go_now_def sql_nil demo_sync_def page_chunk_size_def int4_ok_def chunks_of.simps)

theorem staged_rows_come_back_witness:
  "let s' = snd (StorePage ''bridge'' ''stellar'' ''replication'' [RawJson JNull, RawJson (JBool True), RawJson (JArr [])] 2 demo_sync)
   in map (\<lambda>x. fst (RowsForChunk 1 (int x) s')) [1, 2] = [Inr [RawJson JNull, RawJson (JBool True)], Inr [RawJson (JArr [])]]"
proof -
  let ?s' = "snd (StorePage ''bridge'' ''stellar'' ''replication'' [RawJson JNull, RawJson (JBool True), RawJson (JArr [])] 2 demo_sync)"
  have "page_inv demo_sync" by (simp add: page_inv_def demo_sync_def)
  moreover have "no_faults ?s'"
    by (simp add: StorePage_def go_simps go_now_def sql_nil demo_sync_def page_chunk_size_def int4_ok_def chunks_of.simps no_faults_def)
  moreover have "chunks_of 2 [RawJson JNull, RawJson (JBool True), RawJson (JArr [])] =
      [[RawJson JNull, RawJson (JBool True)], [RawJson (JArr [])]]"
    by (simp add: chunks_of.simps)
  ultimately show ?thesis
    using staged_rows_come_back [OF demo_store] by (simp add: page_chunk_size_def upt_rec numeral_2_eq_2)
qed

section \<open>The fetch job's arguments on the wire\<close>

definition sendable_fetch :: "fetch_args \<Rightarrow> bool" where
  "sendable_fetch a \<longleftrightarrow> int64_ok (fa_skip a) \<and> int64_ok (fa_depth a)"

interpretation fetch_codec: job_codec enc_fetch_args dec_fetch_args sendable_fetch
  by unfold_locales
    (simp add: enc_fetch_args_def dec_fetch_args_def sendable_fetch_def struct_fields_def equal_fold_def
      to_lower_def lower_char_def dec_string_def dec_int_def int64_of_real_of_int)

section \<open>The rate limiter\<close>

lemma limiter_wait_run:
  assumes "limiter_wait (Some l) s = (r, s')"
  shows "\<exists>t. r = Inr (Some (l\<lparr>rl_last := Some t\<rparr>)) \<and> clock s \<le> t \<and> clock s' = t \<and>
    (\<forall>t0. rl_last l = Some t0 \<longrightarrow> t0 + rl_min_interval l \<le> t)"
proof -
  obtain t1 s1 where n: "go_now s = (Inr t1, s1)" "clock s \<le> t1" "clock s1 = t1"
    using go_now_Inr [of s] by blast
  define w where "w = (case rl_last l of None \<Rightarrow> s
    | Some t0 \<Rightarrow> if 0 < rl_min_interval l - (t1 - t0) then s1\<lparr>clock := t1 + (rl_min_interval l - (t1 - t0))\<rparr> else s1)"
  have w: "clock s \<le> clock w" "\<forall>t0. rl_last l = Some t0 \<longrightarrow> t0 + rl_min_interval l \<le> clock w"
    using n by (auto simp: w_def split: option.splits)
  obtain t2 s2 where m: "go_now w = (Inr t2, s2)" "clock w \<le> t2" "clock s2 = t2"
    using go_now_Inr [of w] by blast
  have "limiter_wait (Some l) s = (Inr (Some (l\<lparr>rl_last := Some t2\<rparr>)), s2)"
    using m(1) n(1,3) by (cases "rl_last l") (auto simp: limiter_wait_def go_simps w_def sleep_for_def Let_def split: if_splits)
  with assms w m(2,3) show ?thesis by fastforce
qed

text \<open>Two consecutive grants of the replication rate limiter are at least its interval apart,
  whatever the clock readings in between, and the limiter always grants: it never fails and never
  loses its interval.\<close>

theorem rate_limiter_spaces_grants:
  assumes "limiter_wait (Some l) s = (r, s')"
  shows "\<exists>t. r = Inr (Some (l\<lparr>rl_last := Some t\<rparr>)) \<and> clock s \<le> t \<and> clock s' = t \<and>
    (\<forall>t0. rl_last l = Some t0 \<longrightarrow> t0 + rl_min_interval l \<le> t)"
  by (rule limiter_wait_run [OF assms])

theorem rate_limiter_spaces_grants_witness:
  "\<exists>t. fst (limiter_wait (Some \<lparr>rl_min_interval = 200, rl_last = Some (1100 * second)\<rparr>) demo_sync) =
      Inr (Some \<lparr>rl_min_interval = 200, rl_last = Some t\<rparr>) \<and> 1100 * second + 200 \<le> t"
  using rate_limiter_spaces_grants [of "\<lparr>rl_min_interval = 200, rl_last = Some (1100 * second)\<rparr>" demo_sync
      "fst (limiter_wait (Some \<lparr>rl_min_interval = 200, rl_last = Some (1100 * second)\<rparr>) demo_sync)"
      "snd (limiter_wait (Some \<lparr>rl_min_interval = 200, rl_last = Some (1100 * second)\<rparr>) demo_sync)"]
  by auto

end
