(* ===== verification/Listing_Mirror.thy ===== *)
theory Listing_Mirror
  imports Sync_Store
begin

text \<open>
  The mirror writer (\<^verbatim>\<open>internal/service/sync/listing_mirror.go\<close>): \<^verbatim>\<open>HydrateReplicaBatch\<close> turns the rows of
  a staged chunk into upserts and deletes on the table \<^verbatim>\<open>listings\<close>. Upserts are collected and written
  in transactions of at most \<^verbatim>\<open>upsertChunk\<close> records, deletes run after the last of them, outside a
  transaction.

  A listing is looked up by the pair of its dataset and its key, which the table keeps unique. The
  widths and ranges of the columns are those of \<^verbatim>\<open>migrations/00001_initial.sql\<close>: a record that does not
  fit is rejected by the server. The rounding of a numeric value to the scale of its column is not
  modelled. The maps of keys that the code iterates over are lists in order of insertion; the
  statements of one such loop commute. Where \<^verbatim>\<open>UPDATE ... FROM (VALUES ...)\<close> meets two values for one
  row, the server may take either: the choice is the parameter \<open>pick\<close>.
\<close>

section \<open>The table\<close>

type_synonym listing_id = "string \<times> string"

definition rec_id :: "listing_record \<Rightarrow> listing_id" where
  "rec_id r = (lr_dataset r, lr_key r)"

definition mr_id :: "mirror_row \<Rightarrow> listing_id" where
  "mr_id r = rec_id (mr_rec r)"

definition text_widths :: "(string \<times> nat) list" where
  "text_widths = [(''City'', 120), (''CountyOrParish'', 120), (''PostalCode'', 20), (''StateOrProvince'', 30),
     (''PropertyType'', 80), (''PropertySubType'', 80), (''SubdivisionName'', 160), (''ElementarySchool'', 160),
     (''MiddleOrJuniorSchool'', 160), (''HighSchool'', 160), (''StreetNumber'', 40), (''StreetName'', 160),
     (''ListAgentMlsId'', 64), (''ListOfficeMlsId'', 64)]"

definition fits :: "('a \<Rightarrow> bool) \<Rightarrow> 'a option \<Rightarrow> bool" where
  "fits P x \<longleftrightarrow> (case x of None \<Rightarrow> True | Some v \<Rightarrow> P v)"

definition text_fits :: "string \<times> string option \<Rightarrow> bool" where
  "text_fits c \<longleftrightarrow> fits (\<lambda>v. case map_of text_widths (fst c) of None \<Rightarrow> True | Some w \<Rightarrow> length v \<le> w) (snd c)"

definition numbers_fit :: "listing_record \<Rightarrow> bool" where
  "numbers_fit r \<longleftrightarrow> \<bar>lr_list_price r\<bar> \<le> max_14_2 \<and> fits (\<lambda>x. \<bar>x\<bar> \<le> max_14_2) (lr_previous_price r) \<and>
     fits (\<lambda>x. \<bar>x\<bar> \<le> max_14_2) (lr_monthly_fees r) \<and> fits (\<lambda>x. \<bar>x\<bar> \<le> max_12_2) (lr_living_area r) \<and>
     fits (\<lambda>x. \<bar>x\<bar> \<le> max_12_4) (lr_lot_size r) \<and> fits (\<lambda>x. \<bar>x\<bar> \<le> max_5_2) (lr_bathrooms r) \<and>
     fits int2_ok (lr_bedrooms r) \<and> fits int2_ok (lr_year_built r) \<and> fits int2_ok (lr_stories r)"

definition widths_fit :: "listing_record \<Rightarrow> bool" where
  "widths_fit r \<longleftrightarrow> length (lr_dataset r) \<le> 64 \<and> length (lr_key r) \<le> 255 \<and>
     fits (\<lambda>v. length v \<le> 128) (lr_mls_id r) \<and> fits (\<lambda>v. length v \<le> 50) (lr_status r) \<and>
     fits (\<lambda>v. length v \<le> 80) (lr_flood_zone r) \<and> list_all text_fits (lr_texts r)"

section \<open>Statements\<close>

text \<open>\<^verbatim>\<open>COALESCE(EXCLUDED.media, listings.media)\<close> and the like: a collection that the row did not carry
  stays as it was. The flood flag of a stored row is not in the update list.\<close>

definition merge_payload :: "expanded_payload \<Rightarrow> expanded_payload \<Rightarrow> expanded_payload" where
  "merge_payload new old = \<lparr>ep_media = or_else (ep_media new) (ep_media old),
     ep_unit = or_else (ep_unit new) (ep_unit old), ep_room = or_else (ep_room new) (ep_room old),
     ep_open_house = or_else (ep_open_house new) (ep_open_house old)\<rparr>"

definition merge_record :: "listing_record \<Rightarrow> mirror_row option \<Rightarrow> listing_record" where
  "merge_record rec old = (case old of None \<Rightarrow> rec
     | Some b \<Rightarrow> rec\<lparr>lr_low_risk := lr_low_risk (mr_rec b),
         lr_payloads := merge_payload (lr_payloads rec) (lr_payloads (mr_rec b))\<rparr>)"

definition upsert_row :: "int \<Rightarrow> listing_record \<Rightarrow> mirror_row option \<Rightarrow> mirror_row" where
  "upsert_row now rec old = \<lparr>mr_rec = merge_record rec old,
     mr_coordinates = (case old of None \<Rightarrow> None | Some b \<Rightarrow> mr_coordinates b), mr_persisted_at = now\<rparr>"

definition upsert_into :: "int \<Rightarrow> listing_record \<Rightarrow> mirror_row list \<Rightarrow> mirror_row list" where
  "upsert_into now rec m =
     (if \<exists>b \<in> set m. mr_id b = rec_id rec
      then map (\<lambda>b. if mr_id b = rec_id rec then upsert_row now rec (Some b) else b) m
      else m @ [upsert_row now rec None])"

definition upsertListing :: "int \<Rightarrow> listing_record \<Rightarrow> ('z sdb_scheme, unit) go" where
  "upsertListing now rec = sql (\<lambda>s.
     if widths_fit rec \<and> numbers_fit rec then Some ((), s\<lparr>listings := upsert_into now rec (listings s)\<rparr>) else None)"

text \<open>A statement that rewrites rows of the table.\<close>

definition update_listings :: "(mirror_row list \<Rightarrow> mirror_row list) \<Rightarrow> ('z sdb_scheme, unit) go" where
  "update_listings f = sql (\<lambda>s. Some ((), s\<lparr>listings := f (listings s)\<rparr>))"

type_synonym coord_pair = "listing_id \<times> real \<times> real"

definition set_coordinates :: "(coord_pair list \<Rightarrow> coord_pair) \<Rightarrow> coord_pair list \<Rightarrow> mirror_row \<Rightarrow> mirror_row" where
  "set_coordinates pick segment b = (case filter (\<lambda>v. fst v = mr_id b) segment of
      [] \<Rightarrow> b | vs \<Rightarrow> b\<lparr>mr_coordinates := Some (snd (pick vs))\<rparr>)"

definition flushCoordinates :: "(coord_pair list \<Rightarrow> coord_pair) \<Rightarrow> coord_pair list \<Rightarrow> ('z sdb_scheme, unit) go" where
  "flushCoordinates pick pairs =
     go_each (\<lambda>segment. update_listings (map (set_coordinates pick segment))) (chunks_of 250 pairs)"

text \<open>\<^verbatim>\<open>map[string]map[string]bool\<close>: the keys of each dataset.\<close>

type_synonym key_groups = "(string \<times> string list) list"

fun add_key :: "string \<Rightarrow> string \<Rightarrow> key_groups \<Rightarrow> key_groups" where
  "add_key d k [] = [(d, [k])]"
| "add_key d k ((d', ks) # g) =
     (if d' = d then (d', if k \<in> set ks then ks else ks @ [k]) # g else (d', ks) # add_key d k g)"

definition key_segments :: "key_groups \<Rightarrow> (string \<times> string list) list" where
  "key_segments g = concat (map (\<lambda>(d, ks). map (Pair d) (chunks_of 250 ks)) g)"

definition in_segment :: "string \<times> string list \<Rightarrow> mirror_row \<Rightarrow> bool" where
  "in_segment seg b \<longleftrightarrow> lr_dataset (mr_rec b) = fst seg \<and> lr_key (mr_rec b) \<in> set (snd seg)"

definition flushNullCoordinates :: "key_groups \<Rightarrow> ('z sdb_scheme, unit) go" where
  "flushNullCoordinates grouped = go_each
     (\<lambda>seg. update_listings (map (\<lambda>b. if in_segment seg b then b\<lparr>mr_coordinates := None\<rparr> else b)))
     (key_segments grouped)"

definition flushDeletes :: "key_groups \<Rightarrow> ('z sdb_scheme, unit) go" where
  "flushDeletes grouped = go_each
     (\<lambda>seg. update_listings (filter (\<lambda>b. \<not> in_segment seg b))) (key_segments grouped)"

section \<open>The writer\<close>

record mirror_writer =
  mw_chunk :: nat
  mw_spark_expand :: string
  mw_bridge_expand :: string

definition NewListingMirrorWriter :: "int \<Rightarrow> string \<Rightarrow> string \<Rightarrow> mirror_writer" where
  "NewListingMirrorWriter upsertChunk sparkExpand bridgeExpand =
     \<lparr>mw_chunk = nat (if upsertChunk \<le> 0 then 250 else upsertChunk),
      mw_spark_expand = sparkExpand, mw_bridge_expand = bridgeExpand\<rparr>"

definition expandKeys :: "mirror_writer \<Rightarrow> mirror_provider \<Rightarrow> string list" where
  "expandKeys w provider = PersistExpandKeys provider (mw_spark_expand w) (mw_bridge_expand w)"

record hydrate_stats =
  hs_received :: nat
  hs_upserted :: nat
  hs_deleted :: nat
  hs_skipped :: nat

record hydrate_acc =
  ha_pending :: "listing_record list"
  ha_coords :: "coord_pair list"
  ha_nulls :: key_groups
  ha_deletes :: key_groups
  ha_stats :: hydrate_stats

definition flush :: "(coord_pair list \<Rightarrow> coord_pair) \<Rightarrow> hydrate_acc \<Rightarrow> ('z sdb_scheme, hydrate_acc) go" where
  "flush pick a =
     (if ha_pending a = [] \<and> ha_coords a = [] \<and> ha_nulls a = [] then go_ret a
      else go_bind (with_tx (go_bind go_now (\<lambda>now.
          go_bind (go_each (upsertListing now) (ha_pending a)) (\<lambda>_.
          go_bind (flushCoordinates pick (ha_coords a)) (\<lambda>_.
          go_bind (flushNullCoordinates (ha_nulls a)) (\<lambda>_.
          go_ret (True, ()))))))) (\<lambda>_.
        go_ret (a\<lparr>ha_pending := [], ha_coords := [], ha_nulls := []\<rparr>)))"

definition row_action_of ::
  "(json \<Rightarrow> string) \<Rightarrow> mirror_writer \<Rightarrow> string \<Rightarrow> mirror_provider \<Rightarrow> raw_message \<Rightarrow> row_action" where
  "row_action_of sprint w dataset provider raw = (case unmarshal_map raw of
      None \<Rightarrow> ActSkip
    | Some row \<Rightarrow> BuildListingRecord sprint dataset provider row raw (expandKeys w provider))"

definition skip_row :: "hydrate_acc \<Rightarrow> hydrate_acc" where
  "skip_row a = a\<lparr>ha_stats := (ha_stats a)\<lparr>hs_skipped := Suc (hs_skipped (ha_stats a))\<rparr>\<rparr>"

definition delete_row :: "string \<Rightarrow> string \<Rightarrow> hydrate_acc \<Rightarrow> hydrate_acc" where
  "delete_row d k a = a\<lparr>ha_deletes := add_key d k (ha_deletes a),
     ha_stats := (ha_stats a)\<lparr>hs_deleted := Suc (hs_deleted (ha_stats a))\<rparr>\<rparr>"

definition upsert_acc :: "listing_record \<Rightarrow> hydrate_acc \<Rightarrow> hydrate_acc" where
  "upsert_acc rec a =
     (let a = a\<lparr>ha_pending := ha_pending a @ [rec],
            ha_stats := (ha_stats a)\<lparr>hs_upserted := Suc (hs_upserted (ha_stats a))\<rparr>\<rparr>
      in case (lr_lat rec, lr_lng rec) of
        (Some lat, Some lng) \<Rightarrow> a\<lparr>ha_coords := ha_coords a @ [(rec_id rec, lng, lat)]\<rparr>
      | _ \<Rightarrow> a\<lparr>ha_nulls := add_key (lr_dataset rec) (lr_key rec) (ha_nulls a)\<rparr>)"

fun hydrate_loop ::
  "(coord_pair list \<Rightarrow> coord_pair) \<Rightarrow> mirror_writer \<Rightarrow> row_action list \<Rightarrow> hydrate_acc \<Rightarrow> ('z sdb_scheme, hydrate_acc) go" where
  "hydrate_loop pick w [] a = flush pick a"
| "hydrate_loop pick w (act # acts) a = (case act of
      ActSkip \<Rightarrow> hydrate_loop pick w acts (skip_row a)
    | ActDelete d k \<Rightarrow> hydrate_loop pick w acts (delete_row d k a)
    | ActUpsert rec \<Rightarrow>
        (let a = upsert_acc rec a in
         if length (ha_pending a) \<ge> mw_chunk w then go_bind (flush pick a) (hydrate_loop pick w acts)
         else hydrate_loop pick w acts a))"

definition start_acc :: "nat \<Rightarrow> hydrate_acc" where
  "start_acc n = \<lparr>ha_pending = [], ha_coords = [], ha_nulls = [], ha_deletes = [],
     ha_stats = \<lparr>hs_received = n, hs_upserted = 0, hs_deleted = 0, hs_skipped = 0\<rparr>\<rparr>"

definition HydrateReplicaBatch ::
  "(json \<Rightarrow> string) \<Rightarrow> (coord_pair list \<Rightarrow> coord_pair) \<Rightarrow> mirror_writer \<Rightarrow> string \<Rightarrow> mirror_provider \<Rightarrow>
   raw_message list \<Rightarrow> ('z sdb_scheme, hydrate_stats) go" where
  "HydrateReplicaBatch sprint pick w dataset provider rows =
     go_bind (hydrate_loop pick w (map (row_action_of sprint w dataset provider) rows) (start_acc (length rows))) (\<lambda>a.
     go_bind (flushDeletes (ha_deletes a)) (\<lambda>_. go_ret (ha_stats a)))"

section \<open>Looking up a listing\<close>

definition mirror_at :: "mirror_row list \<Rightarrow> listing_id \<Rightarrow> mirror_row option" where
  "mirror_at m x = find (\<lambda>b. mr_id b = x) m"

definition keyset :: "key_groups \<Rightarrow> listing_id set" where
  "keyset g = {(d, k). \<exists>ks. (d, ks) \<in> set g \<and> k \<in> set ks}"

lemma keyset_Nil [simp]: "keyset [] = {}"
  by (simp add: keyset_def)

lemma keyset_add [simp]: "keyset (add_key d k g) = insert (d, k) (keyset g)"
  by (induction d k g rule: add_key.induct) (auto simp: keyset_def)

lemma in_chunks: "(\<exists>c \<in> set (chunks_of 250 ks). k \<in> set c) \<longleftrightarrow> k \<in> set ks"
  using concat_chunks_of [of 250 ks] by (metis UN_iff set_concat zero_less_numeral)

lemma in_key_segments: "(\<exists>seg \<in> set (key_segments g). in_segment seg b) \<longleftrightarrow> mr_id b \<in> keyset g"
proof -
  have "(\<exists>seg \<in> set (key_segments g). in_segment seg b) \<longleftrightarrow>
      (\<exists>(d, ks) \<in> set g. \<exists>c \<in> set (chunks_of 250 ks). lr_dataset (mr_rec b) = d \<and> lr_key (mr_rec b) \<in> set c)"
    by (simp add: key_segments_def in_segment_def split_def)
  also have "\<dots> \<longleftrightarrow> (\<exists>(d, ks) \<in> set g. lr_dataset (mr_rec b) = d \<and> lr_key (mr_rec b) \<in> set ks)"
    by (simp add: in_chunks split_def)
  also have "\<dots> \<longleftrightarrow> mr_id b \<in> keyset g"
    by (auto simp: keyset_def mr_id_def rec_id_def)
  finally show ?thesis .
qed

lemma mirror_at_map: "(\<And>b. mr_id (f b) = mr_id b) \<Longrightarrow> mirror_at (map f m) x = map_option f (mirror_at m x)"
  unfolding mirror_at_def by (rule find_map_key)

lemma mirror_at_filter:
  "(\<And>b. P b \<longleftrightarrow> mr_id b \<in> S) \<Longrightarrow> mirror_at (filter P m) x = (if x \<in> S then mirror_at m x else None)"
  by (induction m) (auto simp: mirror_at_def)

lemma mirror_at_Some: "mirror_at m x = Some b \<Longrightarrow> mr_id b = x \<and> b \<in> set m"
  by (auto simp: mirror_at_def find_Some_iff)

lemma mr_id_update [simp]: "mr_id (b\<lparr>mr_coordinates := c\<rparr>) = mr_id b"
  by (simp add: mr_id_def)

lemma mr_id_upsert_row [simp]: "mr_id (upsert_row now r b) = rec_id r"
  by (simp add: mr_id_def upsert_row_def merge_record_def rec_id_def split: option.split)

lemma mirror_at_upsert:
  "mirror_at (upsert_into now r m) x = (if x = rec_id r then Some (upsert_row now r (mirror_at m x)) else mirror_at m x)"
proof (cases "\<exists>b \<in> set m. mr_id b = rec_id r")
  case True
  then have "mirror_at m (rec_id r) \<noteq> None" by (auto simp: mirror_at_def find_None_iff)
  with True show ?thesis
    by (cases "mirror_at m x") (auto simp: upsert_into_def mirror_at_map dest: mirror_at_Some)
next
  case False
  then have "mirror_at m (rec_id r) = None" by (auto simp: mirror_at_def find_None_iff)
  moreover from False have "upsert_into now r m = m @ [upsert_row now r None]"
    unfolding upsert_into_def by (rule if_not_P)
  ultimately show ?thesis
    by (auto simp: mirror_at_def find_append_None split: option.split)
qed

lemma mirror_at_upserts:
  "distinct (map rec_id rs) \<Longrightarrow> mirror_at (fold (upsert_into now) rs m) x =
     (case find (\<lambda>r. rec_id r = x) rs of None \<Rightarrow> mirror_at m x | Some r \<Rightarrow> Some (upsert_row now r (mirror_at m x)))"
proof (induction rs arbitrary: m)
  case (Cons r rs)
  from Cons.prems have "find (\<lambda>q. rec_id q = rec_id r) rs = None"
    by (simp add: find_None_iff) (metis imageI)
  with Cons show ?case by (auto simp: mirror_at_upsert split: option.splits)
qed simp

definition picks :: "(coord_pair list \<Rightarrow> coord_pair) \<Rightarrow> bool" where
  "picks pick \<longleftrightarrow> (\<forall>vs. vs \<noteq> [] \<longrightarrow> pick vs \<in> set vs)"

lemma filter_key: "distinct (map fst vs) \<Longrightarrow>
    filter (\<lambda>v. fst v = k) vs = (case map_of vs k of None \<Rightarrow> [] | Some c \<Rightarrow> [(k, c)])"
proof (induction vs)
  case (Cons v vs)
  then have "fst v = k \<Longrightarrow> map_of vs k = None" by (auto simp: map_of_eq_None_iff)
  with Cons show ?case by (cases v) (auto split: option.splits)
qed simp

lemma set_coordinates_id [simp]: "mr_id (set_coordinates pick seg b) = mr_id b"
  by (simp add: set_coordinates_def split: list.split)

lemma set_coordinates_eq:
  assumes "picks pick" "distinct (map fst seg)"
  shows "set_coordinates pick seg b = (case map_of seg (mr_id b) of None \<Rightarrow> b | Some c \<Rightarrow> b\<lparr>mr_coordinates := Some c\<rparr>)"
proof -
  have "pick [v] = v" for v using assms(1) by (force simp: picks_def)
  then show ?thesis by (simp add: set_coordinates_def filter_key [OF assms(2)] split: option.split)
qed

lemma fold_coordinates:
  assumes "picks pick"
  shows "distinct (map fst (concat segs)) \<Longrightarrow>
    fold (set_coordinates pick) segs b = (case map_of (concat segs) (mr_id b) of None \<Rightarrow> b | Some c \<Rightarrow> b\<lparr>mr_coordinates := Some c\<rparr>)"
proof (induction segs arbitrary: b)
  case (Cons seg segs)
  then have d: "distinct (map fst seg)" "distinct (map fst (concat segs))"
      "fst ` set seg \<inter> fst ` set (concat segs) = {}" by auto
  have "map_of (concat segs) (mr_id b) = None" if "map_of seg (mr_id b) \<noteq> None"
    using d(3) that by (auto simp: map_of_eq_None_iff dest: map_of_SomeD)
  with Cons.IH [OF d(2)] show ?case
    by (auto simp: set_coordinates_eq [OF assms d(1)] map_add_def split: option.splits)
qed simp

lemma mirror_at_folded_map:
  "(\<And>x b. mr_id (f x b) = mr_id b) \<Longrightarrow> mirror_at (fold (\<lambda>x. map (f x)) xs m) y = map_option (fold f xs) (mirror_at m y)"
  by (induction xs arbitrary: m) (simp_all add: mirror_at_map option.map_comp comp_def option.map_id)

lemma fold_nulls:
  "fold (\<lambda>seg b. if in_segment seg b then b\<lparr>mr_coordinates := None\<rparr> else b) segs b =
     (if \<exists>seg \<in> set segs. in_segment seg b then b\<lparr>mr_coordinates := None\<rparr> else b)"
  by (induction segs arbitrary: b) (auto simp: in_segment_def)

lemma mirror_at_deletes:
  "mirror_at (fold (\<lambda>seg. filter (\<lambda>b. \<not> in_segment seg b)) segs m) x =
     (case mirror_at m x of None \<Rightarrow> None | Some b \<Rightarrow> if \<exists>seg \<in> set segs. in_segment seg b then None else Some b)"
proof (induction segs arbitrary: m)
  case (Cons seg segs)
  have "mirror_at (filter (\<lambda>b. \<not> in_segment seg b) m) x =
     (if x \<in> {(d, k). \<not> (d = fst seg \<and> k \<in> set (snd seg))} then mirror_at m x else None)"
    by (rule mirror_at_filter) (auto simp: in_segment_def mr_id_def rec_id_def)
  with Cons.IH show ?case
    by (auto simp: in_segment_def mr_id_def rec_id_def split: option.splits dest!: mirror_at_Some)
qed (simp split: option.split)

section \<open>Runs\<close>

text \<open>What the mirror writer may change: the mirror, and time passes.\<close>

definition mirror_moves :: "'z sdb_scheme \<Rightarrow> 'z sdb_scheme \<Rightarrow> bool" where
  "mirror_moves s s' \<longleftrightarrow> clock s \<le> clock s' \<and>
     (\<exists>m t ds bs. s' = s\<lparr>clock := t, delays := ds, faults := bs, listings := m\<rparr>)"

lemma mirror_moves_refl [simp]: "mirror_moves s s"
  unfolding mirror_moves_def
  by (intro conjI exI [of _ "listings s"] exI [of _ "clock s"] exI [of _ "delays s"] exI [of _ "faults s"]) simp_all

lemma mirror_moves_trans: "mirror_moves s s' \<Longrightarrow> mirror_moves s' s'' \<Longrightarrow> mirror_moves s s''"
  by (auto simp: mirror_moves_def) blast

lemma mirror_moves_update [simp]:
  "clock s \<le> t \<Longrightarrow> mirror_moves s (s\<lparr>clock := t, delays := ds, faults := bs, listings := m\<rparr>)"
  by (auto simp: mirror_moves_def)

lemma go_now_update:
  obtains t ds where "go_now s = (Inr t, s\<lparr>clock := t, delays := ds\<rparr>)" "clock s \<le> t"
proof (cases "delays s")
  case Nil
  with that [of "clock s" "[]"] show thesis by (simp add: go_now_def)
next
  case (Cons d ds)
  with that [of "clock s + int d" ds] show thesis by (simp add: go_now_def)
qed

lemma each_update_run:
  assumes "go_each (\<lambda>x. update_listings (f x)) xs s = (r, s')"
  shows "\<exists>n bs. s' = s\<lparr>faults := bs, listings := fold f (take n xs) (listings s)\<rparr> \<and> (r = Inr () \<longrightarrow> take n xs = xs)"
  using assms
proof (induction xs arbitrary: s)
  case Nil
  then show ?case by (auto simp: go_simps intro!: exI [of _ "faults s"])
next
  case (Cons x xs)
  obtain r1 s1 where u: "update_listings (f x) s = (r1, s1)" by fastforce
  show ?case
  proof (cases r1)
    case (Inl e)
    with u obtain bs where "s1 = s\<lparr>faults := bs\<rparr>" by (auto simp: update_listings_def dest: sql_Inl)
    with Cons.prems u Inl show ?thesis
      by (intro exI [of _ 0] exI [of _ bs]) (auto simp: go_simps)
  next
    case (Inr v)
    with u have s1: "s1 = s\<lparr>faults := tl (faults s), listings := f x (listings s)\<rparr>"
      by (auto simp: update_listings_def dest!: sql_Inr)
    from Cons.prems u Inr have "go_each (\<lambda>x. update_listings (f x)) xs s1 = (r, s')" by (simp add: go_simps)
    from Cons.IH [OF this] obtain n bs where
      "s' = s1\<lparr>faults := bs, listings := fold f (take n xs) (listings s1)\<rparr>" "r = Inr () \<longrightarrow> take n xs = xs" by blast
    then show ?thesis
      by (intro exI [of _ "Suc n"] exI [of _ bs]) (simp add: s1)
  qed
qed

lemma each_upsert_run:
  assumes "go_each (upsertListing now) rs s = (r, s')"
  shows "\<exists>m bs. s' = s\<lparr>faults := bs, listings := m\<rparr> \<and>
    (r = Inr () \<longrightarrow> m = fold (upsert_into now) rs (listings s) \<and> (\<forall>q \<in> set rs. widths_fit q \<and> numbers_fit q))"
  using assms
proof (induction rs arbitrary: s)
  case Nil
  then show ?case by (auto simp: go_simps intro!: exI [of _ "faults s"] exI [of _ "listings s"])
next
  case (Cons q rs)
  obtain r1 s1 where u: "upsertListing now q s = (r1, s1)" by fastforce
  show ?case
  proof (cases r1)
    case (Inl e)
    with u obtain bs where "s1 = s\<lparr>faults := bs\<rparr>" by (auto simp: upsertListing_def dest: sql_Inl)
    with Cons.prems u Inl show ?thesis
      by (intro exI [of _ "listings s"] exI [of _ bs]) (auto simp: go_simps)
  next
    case (Inr v)
    with u have s1: "s1 = s\<lparr>faults := tl (faults s), listings := upsert_into now q (listings s)\<rparr>"
        and fit: "widths_fit q \<and> numbers_fit q"
      by (auto simp: upsertListing_def dest!: sql_Inr split: if_splits)
    from Cons.prems u Inr have "go_each (upsertListing now) rs s1 = (r, s')" by (simp add: go_simps)
    from Cons.IH [OF this] obtain m bs where
      "s' = s1\<lparr>faults := bs, listings := m\<rparr>"
      "r = Inr () \<longrightarrow> m = fold (upsert_into now) rs (listings s1) \<and> (\<forall>q \<in> set rs. widths_fit q \<and> numbers_fit q)"
      by blast
    then show ?thesis
      by (intro exI [of _ m] exI [of _ bs]) (simp add: s1 fit)
  qed
qed

text \<open>The effect of one flush on the table.\<close>

definition flush_rows :: "(coord_pair list \<Rightarrow> coord_pair) \<Rightarrow> int \<Rightarrow> hydrate_acc \<Rightarrow> mirror_row list \<Rightarrow> mirror_row list" where
  "flush_rows pick now a m =
     fold (\<lambda>seg. map (\<lambda>b. if in_segment seg b then b\<lparr>mr_coordinates := None\<rparr> else b)) (key_segments (ha_nulls a))
      (fold (\<lambda>seg. map (set_coordinates pick seg)) (chunks_of 250 (ha_coords a))
        (fold (upsert_into now) (ha_pending a) m))"

definition flush_body :: "(coord_pair list \<Rightarrow> coord_pair) \<Rightarrow> hydrate_acc \<Rightarrow> ('z sdb_scheme, bool \<times> unit) go" where
  "flush_body pick a = go_bind go_now (\<lambda>now.
          go_bind (go_each (upsertListing now) (ha_pending a)) (\<lambda>_.
          go_bind (flushCoordinates pick (ha_coords a)) (\<lambda>_.
          go_bind (flushNullCoordinates (ha_nulls a)) (\<lambda>_.
          go_ret (True, ())))))"

lemma flush_body_run:
  assumes "flush_body pick a s = (r, s')"
  shows "\<exists>t ds bs m. s' = s\<lparr>clock := t, delays := ds, faults := bs, listings := m\<rparr> \<and> clock s \<le> t \<and>
    (\<forall>u. r = Inr u \<longrightarrow> u = (True, ()) \<and> m = flush_rows pick t a (listings s) \<and>
        (\<forall>q \<in> set (ha_pending a). widths_fit q \<and> numbers_fit q))"
proof -
  obtain t ds where n: "go_now s = (Inr t, s\<lparr>clock := t, delays := ds\<rparr>)" "clock s \<le> t"
    by (rule go_now_update)
  let ?s0 = "s\<lparr>clock := t, delays := ds\<rparr>"
  obtain r1 s1 where u: "go_each (upsertListing t) (ha_pending a) ?s0 = (r1, s1)" by fastforce
  from each_upsert_run [OF this] obtain m1 b1 where
    s1: "s1 = ?s0\<lparr>faults := b1, listings := m1\<rparr>"
    and ok1: "r1 = Inr () \<longrightarrow> m1 = fold (upsert_into t) (ha_pending a) (listings s) \<and> (\<forall>q \<in> set (ha_pending a). widths_fit q \<and> numbers_fit q)"
    by auto
  obtain r2 s2 where c: "flushCoordinates pick (ha_coords a) s1 = (r2, s2)" by fastforce
  from each_update_run [OF this [unfolded flushCoordinates_def]] obtain m2 b2 where
    s2: "s2 = s1\<lparr>faults := b2, listings := m2\<rparr>"
    and ok2: "r2 = Inr () \<longrightarrow> m2 = fold (\<lambda>seg. map (set_coordinates pick seg)) (chunks_of 250 (ha_coords a)) m1"
    by (auto simp: s1)
  obtain r3 s3 where d: "flushNullCoordinates (ha_nulls a) s2 = (r3, s3)" by fastforce
  from each_update_run [OF this [unfolded flushNullCoordinates_def]] obtain m3 b3 where
    s3: "s3 = s2\<lparr>faults := b3, listings := m3\<rparr>"
    and ok3: "r3 = Inr () \<longrightarrow> m3 = fold (\<lambda>seg. map (\<lambda>b. if in_segment seg b then b\<lparr>mr_coordinates := None\<rparr> else b)) (key_segments (ha_nulls a)) m2"
    by (auto simp: s2)
  have "s' \<in> {s1, s2, s3}" "r = Inr u \<Longrightarrow> u = (True, ()) \<and> r1 = Inr () \<and> r2 = Inr () \<and> r3 = Inr () \<and> s' = s3" for u
    using assms n(1) u c d by (auto simp: flush_body_def go_simps split: sum.splits)
  then show ?thesis
    using n(2) ok1 ok2 ok3
    by (elim insertE emptyE) (simp_all add: s1 s2 s3 flush_rows_def, blast+)
qed

lemma flush_alt: "flush pick a = (if ha_pending a = [] \<and> ha_coords a = [] \<and> ha_nulls a = [] then go_ret a
      else go_bind (with_tx (flush_body pick a)) (\<lambda>_. go_ret (a\<lparr>ha_pending := [], ha_coords := [], ha_nulls := []\<rparr>)))"
  by (simp add: flush_def flush_body_def)

lemma flush_rows_Nil: "ha_pending a = [] \<Longrightarrow> ha_coords a = [] \<Longrightarrow> ha_nulls a = [] \<Longrightarrow> flush_rows pick t a m = m"
  by (simp add: flush_rows_def key_segments_def)

lemma with_tx_Inl_cases:
  assumes "with_tx body s = (Inl e, s')"
  obtains (no_begin) bs where "s' = s\<lparr>faults := bs\<rparr>"
  | (undone) b0 rb sb bs where "body (s\<lparr>faults := b0\<rparr>) = (rb, sb)" "s' = rollback (s\<lparr>faults := b0\<rparr>) (sb\<lparr>faults := bs\<rparr>)"
proof -
  obtain r0 s0 where begin_tx: "sql (\<lambda>s. Some ((), s)) s = (r0, s0)" by fastforce
  show thesis
  proof (cases r0)
    case (Inl e')
    with begin_tx assms no_begin show thesis by (auto simp: with_tx_def go_simps dest: sql_Inl)
  next
    case (Inr u)
    with begin_tx obtain b0 where s0: "s0 = s\<lparr>faults := b0\<rparr>" by (auto dest!: sql_Inr)
    obtain rb sb where b: "body s0 = (rb, sb)" by fastforce
    have "\<exists>bs. s' = rollback s0 (sb\<lparr>faults := bs\<rparr>)"
    proof (cases rb)
      case (Inl e')
      with assms begin_tx Inr b have "s' = rollback s0 sb" by (simp add: with_tx_def go_simps)
      then show ?thesis by (intro exI [of _ "faults sb"]) simp
    next
      case r: (Inr cx)
      obtain cm x where cx: "cx = (cm, x)" by fastforce
      with assms begin_tx Inr b r have "cm" by (cases cm) (simp_all add: with_tx_def go_simps)
      with assms begin_tx Inr b r cx obtain e2 s2 where "sql (\<lambda>s. Some ((), s)) sb = (Inl e2, s2)" "s' = rollback s0 s2"
        by (auto simp: with_tx_def go_simps split: sum.splits prod.splits)
      then show ?thesis by (auto dest!: sql_Inl)
    qed
    with b s0 undone show thesis by blast
  qed
qed

lemma flush_run:
  assumes "flush pick a s = (r, s')"
  shows "mirror_moves s s' \<and> (case r of
      Inl e \<Rightarrow> listings s' = listings s
    | Inr a' \<Rightarrow> a' = a\<lparr>ha_pending := [], ha_coords := [], ha_nulls := []\<rparr> \<and>
        (\<exists>t. clock s \<le> t \<and> t \<le> clock s' \<and> listings s' = flush_rows pick t a (listings s)) \<and>
        (\<forall>q \<in> set (ha_pending a). widths_fit q \<and> numbers_fit q))"
proof (cases "ha_pending a = [] \<and> ha_coords a = [] \<and> ha_nulls a = []")
  case True
  with assms show ?thesis by (auto simp: flush_alt go_simps flush_rows_Nil)
next
  case False
  obtain r1 s1 where tx: "with_tx (flush_body pick a) s = (r1, s1)" by fastforce
  show ?thesis
  proof (cases r1)
    case (Inl e)
    with tx have "with_tx (flush_body pick a) s = (Inl e, s1)" by simp
    then have "mirror_moves s s1 \<and> listings s1 = listings s"
    proof (cases rule: with_tx_Inl_cases)
      case (no_begin bs)
      then show ?thesis using mirror_moves_update [where s = s and t = "clock s" and ds = "delays s" and bs = bs and m = "listings s"] by simp
    next
      case (undone b0 rb sb bs)
      from flush_body_run [OF undone(1)] obtain t ds b' m where
        "sb = s\<lparr>clock := t, delays := ds, faults := b', listings := m\<rparr>" "clock s \<le> t" by auto
      then show ?thesis
        using undone(2) mirror_moves_update [where s = s and t = t and ds = ds and bs = bs and m = "listings s"] by (simp add: rollback_def)
    qed
    with assms tx Inl False show ?thesis by (auto simp: flush_alt go_simps)
  next
    case (Inr u)
    from tx [unfolded Inr] obtain b0 s2 b2 where fb: "flush_body pick a (s\<lparr>faults := b0\<rparr>) = (Inr (True, u), s2)" and s1: "s1 = s2\<lparr>faults := b2\<rparr>"
    proof (cases rule: with_tx_Inr)
      case (rolled_back bs s2)
      from flush_body_run [OF this(1)] show thesis by auto
    qed (use that in blast)
    from flush_body_run [OF fb] obtain t ds bs where t: "clock s \<le> t"
        "s2 = s\<lparr>clock := t, delays := ds, faults := bs, listings := flush_rows pick t a (listings s)\<rparr>"
        "\<forall>q \<in> set (ha_pending a). widths_fit q \<and> numbers_fit q" by auto
    then have "s1 = s\<lparr>clock := t, delays := ds, faults := b2, listings := flush_rows pick t a (listings s)\<rparr>"
      by (simp add: s1)
    with t(1) have "mirror_moves s s1" "clock s1 = t" "listings s1 = flush_rows pick t a (listings s)" by simp_all
    with t(1,3) assms tx Inr False show ?thesis by (auto simp: flush_alt go_simps)
  qed
qed

section \<open>What a run leaves in the mirror\<close>

definition coords_of :: "listing_record \<Rightarrow> (real \<times> real) option" where
  "coords_of r = (case (lr_lat r, lr_lng r) of (Some lat, Some lng) \<Rightarrow> Some (lng, lat) | _ \<Rightarrow> None)"

text \<open>The row that mirrors a record, given the row that was stored before.\<close>

definition mirror_row_of :: "listing_record \<Rightarrow> mirror_row option \<Rightarrow> int \<Rightarrow> mirror_row" where
  "mirror_row_of r old t = \<lparr>mr_rec = merge_record r old, mr_coordinates = coords_of r, mr_persisted_at = t\<rparr>"

definition mirrored :: "listing_record list \<Rightarrow> int \<Rightarrow> int \<Rightarrow> mirror_row list \<Rightarrow> mirror_row list \<Rightarrow> bool" where
  "mirrored rs lo hi m m' \<longleftrightarrow> (\<forall>x. case find (\<lambda>r. rec_id r = x) rs of
      None \<Rightarrow> mirror_at m' x = mirror_at m x
    | Some r \<Rightarrow> (\<exists>t. lo \<le> t \<and> t \<le> hi \<and> mirror_at m' x = Some (mirror_row_of r (mirror_at m x) t)))"

definition coord_pairs :: "listing_record list \<Rightarrow> coord_pair list" where
  "coord_pairs rs = List.map_filter (\<lambda>r. map_option (Pair (rec_id r)) (coords_of r)) rs"

lemma coord_pairs_simps [simp]:
  "coord_pairs [] = []"
  "coord_pairs (r # rs) = (case coords_of r of None \<Rightarrow> [] | Some c \<Rightarrow> [(rec_id r, c)]) @ coord_pairs rs"
  "coord_pairs (rs @ qs) = coord_pairs rs @ coord_pairs qs"
  by (simp_all add: coord_pairs_def map_filter_def split: option.split)

lemma coord_pairs_ids: "fst ` set (coord_pairs rs) \<subseteq> rec_id ` set rs"
  by (induction rs) (auto split: option.splits)

lemma coord_pairs_distinct: "distinct (map rec_id rs) \<Longrightarrow> distinct (map fst (coord_pairs rs))"
  by (induction rs) (use coord_pairs_ids in \<open>auto split: option.split\<close>)

lemma map_of_coord_pairs:
  "distinct (map rec_id rs) \<Longrightarrow>
   map_of (coord_pairs rs) x = (case find (\<lambda>r. rec_id r = x) rs of None \<Rightarrow> None | Some r \<Rightarrow> coords_of r)"
proof (induction rs)
  case (Cons r rs)
  then have "map_of (coord_pairs rs) (rec_id r) = None"
    using coord_pairs_ids [of rs] by (auto simp: map_of_eq_None_iff)
  with Cons show ?case by (auto split: option.split)
qed simp

definition acc_ok :: "hydrate_acc \<Rightarrow> bool" where
  "acc_ok a \<longleftrightarrow>
     ha_coords a = coord_pairs (ha_pending a) \<and>
     keyset (ha_nulls a) = {rec_id r |r. r \<in> set (ha_pending a) \<and> coords_of r = None}"

lemma mirrored_flush:
  assumes "picks pick" "acc_ok a" "distinct (map rec_id (ha_pending a))" "lo \<le> t" "t \<le> hi"
  shows "mirrored (ha_pending a) lo hi m (flush_rows pick t a m)"
  unfolding mirrored_def
proof
  fix x
  let ?cs = "coord_pairs (ha_pending a)"
  let ?set = "\<lambda>b. case map_of ?cs (mr_id b) of None \<Rightarrow> b | Some c \<Rightarrow> b\<lparr>mr_coordinates := Some c\<rparr>"
  let ?null = "\<lambda>b. if mr_id b \<in> keyset (ha_nulls a) then b\<lparr>mr_coordinates := None\<rparr> else b"
  have cs: "ha_coords a = ?cs" using assms(2) by (simp add: acc_ok_def)
  have "fold (set_coordinates pick) (chunks_of 250 ?cs) b = ?set b" for b
    using fold_coordinates [OF assms(1), of "chunks_of 250 ?cs" b] coord_pairs_distinct [OF assms(3)]
    by (simp add: concat_chunks_of)
  then have *: "mirror_at (flush_rows pick t a m) x =
      map_option ?null (map_option ?set (mirror_at (fold (upsert_into t) (ha_pending a) m) x))"
    by (simp add: flush_rows_def mirror_at_folded_map fold_nulls [abs_def] in_key_segments cs cong: option.map_cong)
  show "case find (\<lambda>r. rec_id r = x) (ha_pending a) of
      None \<Rightarrow> mirror_at (flush_rows pick t a m) x = mirror_at m x
    | Some r \<Rightarrow> (\<exists>t'. lo \<le> t' \<and> t' \<le> hi \<and> mirror_at (flush_rows pick t a m) x = Some (mirror_row_of r (mirror_at m x) t'))"
  proof (cases "find (\<lambda>r. rec_id r = x) (ha_pending a)")
    case None
    then have "x \<notin> keyset (ha_nulls a)" using assms(2) by (auto simp: acc_ok_def find_None_iff)
    with None show ?thesis
      by (cases "mirror_at m x") (auto simp: * mirror_at_upserts [OF assms(3)] map_of_coord_pairs [OF assms(3)] dest: mirror_at_Some)
  next
    case (Some r)
    then have r: "rec_id r = x" "r \<in> set (ha_pending a)" by (auto simp: find_Some_iff)
    have "x \<in> keyset (ha_nulls a) \<longleftrightarrow> coords_of r = None"
      using assms(2,3) r by (auto simp: acc_ok_def distinct_map inj_on_def)
    moreover define u where "u = upsert_row t r (mirror_at m x)"
    moreover have "mr_id u = x" using r(1) by (simp add: u_def)
    ultimately have "mirror_at (flush_rows pick t a m) x = Some (u\<lparr>mr_coordinates := coords_of r\<rparr>)"
      using Some by (auto simp: * mirror_at_upserts [OF assms(3)] map_of_coord_pairs [OF assms(3)])
    with Some assms(4,5) show ?thesis
      by (auto simp: u_def upsert_row_def mirror_row_of_def intro!: exI [of _ t])
  qed
qed

definition upserts :: "row_action list \<Rightarrow> listing_record list" where
  "upserts acts = List.map_filter (\<lambda>a. case a of ActUpsert r \<Rightarrow> Some r | _ \<Rightarrow> None) acts"

definition deletes :: "row_action list \<Rightarrow> listing_id list" where
  "deletes acts = List.map_filter (\<lambda>a. case a of ActDelete d k \<Rightarrow> Some (d, k) | _ \<Rightarrow> None) acts"

lemma upserts_simps [simp]:
  "upserts [] = []" "upserts (ActSkip # acts) = upserts acts" "upserts (ActDelete d k # acts) = upserts acts"
  "upserts (ActUpsert r # acts) = r # upserts acts"
  by (simp_all add: upserts_def List.map_filter_simps)

lemma deletes_simps [simp]:
  "deletes [] = []" "deletes (ActSkip # acts) = deletes acts" "deletes (ActDelete d k # acts) = (d, k) # deletes acts"
  "deletes (ActUpsert r # acts) = deletes acts"
  by (simp_all add: deletes_def List.map_filter_simps)

lemma upserts_iff [simp]: "r \<in> set (upserts acts) \<longleftrightarrow> ActUpsert r \<in> set acts"
  by (induction acts rule: list.induct) (auto simp: upserts_def List.map_filter_simps split: row_action.splits)

lemma deletes_iff [simp]: "(d, k) \<in> set (deletes acts) \<longleftrightarrow> ActDelete d k \<in> set acts"
  by (induction acts rule: list.induct) (auto simp: deletes_def List.map_filter_simps split: row_action.splits)

lemma acc_ok_steps [simp]:
  "acc_ok (skip_row a) = acc_ok a" "acc_ok (delete_row d k a) = acc_ok a"
  "acc_ok (a\<lparr>ha_pending := [], ha_coords := [], ha_nulls := []\<rparr>)"
  by (simp_all add: acc_ok_def skip_row_def delete_row_def)

lemma acc_steps [simp]:
  "ha_pending (skip_row a) = ha_pending a" "ha_pending (delete_row d k a) = ha_pending a"
  "ha_pending (upsert_acc r a) = ha_pending a @ [r]" "ha_deletes (upsert_acc r a) = ha_deletes a"
  "ha_deletes (skip_row a) = ha_deletes a" "ha_deletes (delete_row d k a) = add_key d k (ha_deletes a)"
  by (simp_all add: skip_row_def delete_row_def upsert_acc_def Let_def split: option.split)

lemma acc_ok_upsert: "acc_ok a \<Longrightarrow> acc_ok (upsert_acc r a)"
  by (auto simp: acc_ok_def upsert_acc_def Let_def coords_of_def rec_id_def split: option.splits)

lemma mirrored_Nil: "mirrored [] lo hi m m"
  by (simp add: mirrored_def)

lemma mirrored_mono: "mirrored rs lo hi m m' \<Longrightarrow> lo' \<le> lo \<Longrightarrow> hi \<le> hi' \<Longrightarrow> mirrored rs lo' hi' m m'"
  unfolding mirrored_def
  by (rule allI, erule_tac x = x in allE) (auto split: option.splits intro: order_trans)

lemma mirrored_append:
  assumes "mirrored rs lo hi m m1" "mirrored qs lo hi m1 m2" "distinct (map rec_id (rs @ qs))"
  shows "mirrored (rs @ qs) lo hi m m2"
  unfolding mirrored_def
proof
  fix x
  have 1: "case find (\<lambda>r. rec_id r = x) rs of None \<Rightarrow> mirror_at m1 x = mirror_at m x
    | Some r \<Rightarrow> (\<exists>t. lo \<le> t \<and> t \<le> hi \<and> mirror_at m1 x = Some (mirror_row_of r (mirror_at m x) t))"
    and 2: "case find (\<lambda>r. rec_id r = x) qs of None \<Rightarrow> mirror_at m2 x = mirror_at m1 x
    | Some r \<Rightarrow> (\<exists>t. lo \<le> t \<and> t \<le> hi \<and> mirror_at m2 x = Some (mirror_row_of r (mirror_at m1 x) t))"
    using assms(1,2) unfolding mirrored_def by blast+
  have "find (\<lambda>r. rec_id r = x) qs = None" if "find (\<lambda>r. rec_id r = x) rs = Some r" for r
  proof -
    from that have "x \<in> rec_id ` set rs" by (auto simp: find_Some_iff)
    with assms(3) have "x \<notin> rec_id ` set qs" by auto
    then show ?thesis by (auto simp: find_None_iff)
  qed
  with 1 2 show "case find (\<lambda>r. rec_id r = x) (rs @ qs) of None \<Rightarrow> mirror_at m2 x = mirror_at m x
    | Some r \<Rightarrow> (\<exists>t. lo \<le> t \<and> t \<le> hi \<and> mirror_at m2 x = Some (mirror_row_of r (mirror_at m x) t))"
    by (auto simp: find_append_None split: option.splits)
qed

text \<open>The loop, whatever fails: a prefix of the collected records is mirrored; all of them when it
  returns.\<close>

lemma hydrate_loop_run:
  assumes "picks pick" "hydrate_loop pick w acts a s = (r, s')" "acc_ok a"
    "distinct (map rec_id (ha_pending a @ upserts acts))"
  shows "mirror_moves s s' \<and> (\<exists>rs qs. rs @ qs = ha_pending a @ upserts acts \<and>
     mirrored rs (clock s) (clock s') (listings s) (listings s') \<and>
     (\<forall>a'. r = Inr a' \<longrightarrow> qs = [] \<and> (\<forall>q \<in> set rs. widths_fit q \<and> numbers_fit q) \<and>
        keyset (ha_deletes a') = keyset (ha_deletes a) \<union> set (deletes acts)))"
  using assms(2-)
proof (induction acts arbitrary: a s)
  case Nil
  then have fl: "flush pick a s = (r, s')" and d: "distinct (map rec_id (ha_pending a))" by simp_all
  note run = flush_run [OF fl]
  show ?case
  proof (cases r)
    case (Inl e)
    with run show ?thesis by (intro conjI exI [of _ "[]"] exI [of _ "ha_pending a"]) (simp_all add: mirrored_Nil)
  next
    case (Inr a')
    with run mirrored_flush [OF assms(1) Nil.prems(2) d] show ?thesis
      by (intro conjI exI [of _ "ha_pending a"] exI [of _ "[]"]) auto
  qed
next
  case (Cons act acts)
  show ?case
  proof (cases act)
    case ActSkip
    with Cons.IH [of "skip_row a" s] Cons.prems show ?thesis by simp
  next
    case (ActDelete d k)
    with Cons.IH [of "delete_row d k a" s] Cons.prems show ?thesis by auto
  next
    case (ActUpsert rec)
    let ?a = "upsert_acc rec a"
    have ok: "acc_ok ?a" using Cons.prems(2) by (rule acc_ok_upsert)
    have d: "distinct (map rec_id (ha_pending ?a @ upserts acts))" using Cons.prems(3) ActUpsert by simp
    show ?thesis
    proof (cases "length (ha_pending ?a) \<ge> mw_chunk w")
      case False
      with Cons.IH [of ?a s, OF _ ok d] Cons.prems(1) ActUpsert show ?thesis by (simp add: Let_def)
    next
      case True
      obtain r1 s1 where fl: "flush pick ?a s = (r1, s1)" by fastforce
      note run = flush_run [OF fl]
      show ?thesis
      proof (cases r1)
        case (Inl e)
        with run fl True Cons.prems(1) ActUpsert show ?thesis
          by (intro conjI exI [of _ "[]"] exI [of _ "ha_pending a @ upserts (act # acts)"])
            (auto simp: mirrored_Nil go_simps Let_def)
      next
        case (Inr a1)
        with run obtain t where a1: "a1 = ?a\<lparr>ha_pending := [], ha_coords := [], ha_nulls := []\<rparr>"
          and t: "clock s \<le> t" "t \<le> clock s1" "listings s1 = flush_rows pick t ?a (listings s)"
          and fit: "\<forall>q \<in> set (ha_pending ?a). widths_fit q \<and> numbers_fit q" and mv: "mirror_moves s s1" by auto
        have m1: "mirrored (ha_pending ?a) (clock s) (clock s1) (listings s) (listings s1)"
          using mirrored_flush [OF assms(1) ok _ t(1,2)] d t(3) by simp
        have "hydrate_loop pick w acts a1 s1 = (r, s')"
          using Cons.prems(1) ActUpsert True fl Inr by (simp add: go_simps Let_def)
        from Cons.IH [OF this] d a1 obtain rs qs where
          mv2: "mirror_moves s1 s'" and rs: "rs @ qs = upserts acts" and
          m2: "mirrored rs (clock s1) (clock s') (listings s1) (listings s')" and
          ok2: "\<forall>a'. r = Inr a' \<longrightarrow> qs = [] \<and> (\<forall>q \<in> set rs. widths_fit q \<and> numbers_fit q) \<and>
            keyset (ha_deletes a') = keyset (ha_deletes a) \<union> set (deletes acts)" by auto
        have c: "clock s \<le> clock s1" "clock s1 \<le> clock s'" using mv mv2 by (simp_all add: mirror_moves_def)
        have "distinct (map rec_id (ha_pending ?a @ rs))" using d unfolding rs [symmetric] by auto
        then have "mirrored (ha_pending ?a @ rs) (clock s) (clock s') (listings s) (listings s')"
          using mirrored_append mirrored_mono [OF m1 order_refl c(2)] mirrored_mono [OF m2 c(1) order_refl] by blast
        with mirror_moves_trans [OF mv mv2] rs ok2 fit ActUpsert show ?thesis
          by (intro conjI exI [of _ "ha_pending ?a @ rs"] exI [of _ qs]) auto
      qed
    qed
  qed
qed

lemma mirror_row_of_again [simp]:
  "mirror_row_of r (Some (mirror_row_of r old t)) t' = mirror_row_of r old t'"
  by (simp add: mirror_row_of_def merge_record_def merge_payload_def or_else_def split: option.split)

lemma HydrateReplicaBatch_run:
  assumes "picks pick" "HydrateReplicaBatch sp pick w ds p rows s = (r, s')"
    "acts = map (row_action_of sp w ds p) rows" "distinct (map rec_id (upserts acts))"
  shows "mirror_moves s s' \<and> (\<exists>rs qs m1. rs @ qs = upserts acts \<and>
     mirrored rs (clock s) (clock s') (listings s) m1 \<and>
     (\<forall>x. x \<notin> set (deletes acts) \<longrightarrow> mirror_at (listings s') x = mirror_at m1 x) \<and>
     (\<forall>st. r = Inr st \<longrightarrow> qs = [] \<and> (\<forall>x \<in> set (deletes acts). mirror_at (listings s') x = None)))"
proof -
  obtain r1 s1 where lp: "hydrate_loop pick w acts (start_acc (length rows)) s = (r1, s1)" by fastforce
  have "acc_ok (start_acc (length rows))" by (simp add: acc_ok_def start_acc_def)
  with hydrate_loop_run [OF assms(1) lp] assms(4) obtain rs qs where
    mv: "mirror_moves s s1" and rs: "rs @ qs = upserts acts" "mirrored rs (clock s) (clock s1) (listings s) (listings s1)"
    and ok: "\<And>a'. r1 = Inr a' \<Longrightarrow> qs = [] \<and> keyset (ha_deletes a') = set (deletes acts)"
    by (auto simp: start_acc_def)
  show ?thesis
  proof (cases r1)
    case (Inl e)
    with assms(2,3) lp have "s' = s1" "r = Inl e" by (simp_all add: HydrateReplicaBatch_def go_simps)
    with mv rs show ?thesis by blast
  next
    case (Inr a)
    obtain r2 s2 where fd: "flushDeletes (ha_deletes a) s1 = (r2, s2)" by fastforce
    from each_update_run [OF this [unfolded flushDeletes_def]] obtain n bs where
      s2: "s2 = s1\<lparr>faults := bs, listings := fold (\<lambda>seg. filter (\<lambda>b. \<not> in_segment seg b)) (take n (key_segments (ha_deletes a))) (listings s1)\<rparr>"
      and n: "r2 = Inr () \<Longrightarrow> take n (key_segments (ha_deletes a)) = key_segments (ha_deletes a)" by blast
    have s': "s' = s2" "r = Inr st \<Longrightarrow> r2 = Inr ()" for st
      using assms(2,3) lp Inr fd by (cases r2; simp add: HydrateReplicaBatch_def go_simps)+
    have del: "mr_id b \<in> set (deletes acts)" if "seg \<in> set (take n (key_segments (ha_deletes a)))" "in_segment seg b" for seg b
      using that ok [OF Inr] in_key_segments [of "ha_deletes a" b] in_set_takeD [OF that(1)] by auto
    have "mirror_at (listings s') x = mirror_at (listings s1) x" if "x \<notin> set (deletes acts)" for x
      using that del by (auto simp: s' s2 mirror_at_deletes dest!: mirror_at_Some split: option.splits)
    moreover have "mirror_at (listings s') x = None" if "r = Inr st" "x \<in> set (deletes acts)" for st x
      using that ok [OF Inr] n [OF s'(2) [OF that(1)]]
      by (auto simp: s'(1) s2 mirror_at_deletes in_key_segments dest!: mirror_at_Some split: option.splits)
    moreover have "mirror_moves s1 s2"
      using mirror_moves_update [where s = s1 and t = "clock s1" and ds = "delays s1"] by (simp add: s2)
    moreover have "mirrored rs (clock s) (clock s') (listings s) (listings s1)"
      using mirrored_mono [OF rs(2)] by (simp add: s' s2)
    ultimately show ?thesis using mirror_moves_trans [OF mv] rs(1) ok [OF Inr] s'(1) by blast
  qed
qed

section \<open>Properties of the mirror\<close>

text \<open>What the mirror is meant to be after a chunk, as a function on lookups: a deleted listing is
  gone, an upserted one holds the new record with its old collections and flood flag where the row
  brought none, every other listing is as before.\<close>

definition hydrate_spec :: "row_action list \<Rightarrow> (listing_id \<Rightarrow> mirror_row option) \<Rightarrow> (listing_id \<Rightarrow> int) \<Rightarrow> listing_id \<Rightarrow> mirror_row option" where
  "hydrate_spec acts m t x =
     (if x \<in> set (deletes acts) then None
      else case find (\<lambda>r. rec_id r = x) (upserts acts) of
        None \<Rightarrow> m x | Some r \<Rightarrow> Some (mirror_row_of r (m x) (t x)))"

lemma mirrored_spec:
  assumes "mirrored (upserts acts) lo hi m m1" "lo \<le> hi" "\<And>x. x \<notin> set (deletes acts) \<Longrightarrow> mirror_at m' x = mirror_at m1 x"
    "\<And>x. x \<in> set (deletes acts) \<Longrightarrow> mirror_at m' x = None"
  shows "\<exists>t. (\<forall>x. lo \<le> t x \<and> t x \<le> hi) \<and> mirror_at m' = hydrate_spec acts (mirror_at m) t"
proof -
  have "\<exists>t. lo \<le> t \<and> t \<le> hi \<and> mirror_at m' x = hydrate_spec acts (mirror_at m) (\<lambda>_. t) x" for x
  proof (cases "x \<in> set (deletes acts)")
    case True
    with assms(2,4) show ?thesis by (intro exI [of _ lo]) (simp add: hydrate_spec_def)
  next
    case False
    have "case find (\<lambda>r. rec_id r = x) (upserts acts) of None \<Rightarrow> mirror_at m1 x = mirror_at m x
      | Some r \<Rightarrow> (\<exists>t. lo \<le> t \<and> t \<le> hi \<and> mirror_at m1 x = Some (mirror_row_of r (mirror_at m x) t))"
      using assms(1) unfolding mirrored_def by blast
    with assms(2) assms(3) [OF False] False show ?thesis
      by (auto simp: hydrate_spec_def split: option.splits intro: exI [of _ lo])
  qed
  then obtain t where "\<And>x. lo \<le> t x \<and> t x \<le> hi \<and> mirror_at m' x = hydrate_spec acts (mirror_at m) (\<lambda>_. t x) x" by metis
  then show ?thesis by (intro exI [of _ t]) (auto simp: hydrate_spec_def fun_eq_iff split: option.split)
qed

text \<open>(C1) A chunk that is persisted without error leaves exactly the mirror it describes: rows that are
  no longer active or pending are gone, the others hold the row's record and coordinates (with the
  collections and flood flag that were stored before where the row carries none), every other
  listing is untouched, and no other table changes.\<close>

theorem hydrate_refines_spec:
  assumes "picks pick" and "HydrateReplicaBatch sp pick w ds p rows s = (Inr st, s')"
    and "distinct (map rec_id (upserts (map (row_action_of sp w ds p) rows)))"
  shows "\<exists>t. (\<forall>x. clock s \<le> t x \<and> t x \<le> clock s') \<and>
      mirror_at (listings s') = hydrate_spec (map (row_action_of sp w ds p) rows) (mirror_at (listings s)) t \<and>
      jobs s' = jobs s \<and> cursors s' = cursors s \<and> pages s' = pages s"
proof -
  let ?acts = "map (row_action_of sp w ds p) rows"
  obtain m1 where mv: "mirror_moves s s'" and
    m1: "mirrored (upserts ?acts) (clock s) (clock s') (listings s) m1"
      "\<And>x. x \<notin> set (deletes ?acts) \<Longrightarrow> mirror_at (listings s') x = mirror_at m1 x"
      "\<And>x. x \<in> set (deletes ?acts) \<Longrightarrow> mirror_at (listings s') x = None"
    using HydrateReplicaBatch_run [OF assms(1,2) refl assms(3)] by force
  from mv have "jobs s' = jobs s" "cursors s' = cursors s" "pages s' = pages s" "clock s \<le> clock s'"
    by (auto simp: mirror_moves_def)
  with mirrored_spec [OF m1(1) _ m1(2,3)] show ?thesis by blast
qed

text \<open>(C6) Persisting a chunk again is safe: whatever part of it an earlier attempt wrote before it
  failed, a later attempt that succeeds leaves the mirror as if the earlier one had never run.\<close>

theorem hydrate_retry_safe:
  assumes "picks pick" and "HydrateReplicaBatch sp pick w ds p rows s = (r1, s1)"
    and "listings s2 = listings s1" and "clock s1 \<le> clock s2"
    and "HydrateReplicaBatch sp pick w ds p rows s2 = (Inr st, s3)"
    and "distinct (map rec_id (upserts (map (row_action_of sp w ds p) rows)))"
  shows "\<exists>t. (\<forall>x. clock s \<le> t x \<and> t x \<le> clock s3) \<and>
      mirror_at (listings s3) = hydrate_spec (map (row_action_of sp w ds p) rows) (mirror_at (listings s)) t"
proof -
  let ?acts = "map (row_action_of sp w ds p) rows"
  obtain rs qs m1 where mv: "mirror_moves s s1" and rs: "rs @ qs = upserts ?acts"
    and m1: "mirrored rs (clock s) (clock s1) (listings s) m1"
      "\<And>x. x \<notin> set (deletes ?acts) \<Longrightarrow> mirror_at (listings s1) x = mirror_at m1 x"
    using HydrateReplicaBatch_run [OF assms(1,2) refl assms(6)] by force
  obtain m3 where mv3: "mirror_moves s2 s3" and
    m3: "mirrored (upserts ?acts) (clock s2) (clock s3) (listings s2) m3"
      "\<And>x. x \<notin> set (deletes ?acts) \<Longrightarrow> mirror_at (listings s3) x = mirror_at m3 x"
      "\<And>x. x \<in> set (deletes ?acts) \<Longrightarrow> mirror_at (listings s3) x = None"
    using HydrateReplicaBatch_run [OF assms(1,5) refl assms(6)] by force
  have c: "clock s \<le> clock s2" "clock s2 \<le> clock s3"
    using mv mv3 assms(4) by (auto simp: mirror_moves_def)
  have "\<exists>t. clock s \<le> t \<and> t \<le> clock s3 \<and> mirror_at (listings s3) x = hydrate_spec ?acts (mirror_at (listings s)) (\<lambda>_. t) x" for x
  proof (cases "x \<in> set (deletes ?acts)")
    case True
    with m3(3) c show ?thesis by (intro exI [of _ "clock s2"]) (simp add: hydrate_spec_def)
  next
    case False
    have e1: "case find (\<lambda>r. rec_id r = x) rs of None \<Rightarrow> mirror_at m1 x = mirror_at (listings s) x
      | Some r \<Rightarrow> (\<exists>t. clock s \<le> t \<and> t \<le> clock s1 \<and> mirror_at m1 x = Some (mirror_row_of r (mirror_at (listings s) x) t))"
      using m1(1) unfolding mirrored_def by blast
    have e3: "case find (\<lambda>r. rec_id r = x) (upserts ?acts) of None \<Rightarrow> mirror_at m3 x = mirror_at (listings s2) x
      | Some r \<Rightarrow> (\<exists>t. clock s2 \<le> t \<and> t \<le> clock s3 \<and> mirror_at m3 x = Some (mirror_row_of r (mirror_at (listings s2) x) t))"
      using m3(1) unfolding mirrored_def by blast
    have f: "find (\<lambda>r. rec_id r = x) (upserts ?acts) = (case find (\<lambda>r. rec_id r = x) rs of None \<Rightarrow> find (\<lambda>r. rec_id r = x) qs | Some r \<Rightarrow> Some r)"
      unfolding rs [symmetric] by (rule find_append_None)
    show ?thesis
    proof (cases "find (\<lambda>r. rec_id r = x) (upserts ?acts)")
      case None
      with e1 e3 f False m1(2) m3(2) assms(3) c show ?thesis
        by (auto simp: hydrate_spec_def split: option.splits intro: exI [of _ "clock s2"])
    next
      case (Some r)
      from e3 Some obtain t where t: "clock s2 \<le> t" "t \<le> clock s3" "mirror_at m3 x = Some (mirror_row_of r (mirror_at (listings s2) x) t)" by auto
      have "mirror_row_of r (mirror_at (listings s2) x) t = mirror_row_of r (mirror_at (listings s) x) t"
        using e1 f Some False m1(2) assms(3) by (auto split: option.splits)
      with t Some False m3(2) c show ?thesis
        by (intro exI [of _ t]) (simp add: hydrate_spec_def)
    qed
  qed
  then obtain t where "\<And>x. clock s \<le> t x \<and> t x \<le> clock s3 \<and>
      mirror_at (listings s3) x = hydrate_spec ?acts (mirror_at (listings s)) (\<lambda>_. t x) x" by metis
  then show ?thesis by (intro exI [of _ t]) (auto simp: hydrate_spec_def fun_eq_iff split: option.split)
qed

section \<open>Runs without failing statements\<close>

text \<open>A computation that returns whenever no statement fails.\<close>

definition succeeds :: "('z env_scheme, 'a) go \<Rightarrow> bool" where
  "succeeds m \<longleftrightarrow> (\<forall>s. no_faults s \<longrightarrow> (\<exists>x s'. m s = (Inr x, s') \<and> no_faults s'))"

lemma succeedsD: "succeeds m \<Longrightarrow> no_faults s \<Longrightarrow> \<exists>x s'. m s = (Inr x, s') \<and> no_faults s'"
  by (simp add: succeeds_def)

lemma succeeds_ret [intro!]: "succeeds (go_ret x)"
  by (simp add: succeeds_def go_simps)

lemma succeeds_bind [intro]: "succeeds m \<Longrightarrow> (\<And>x. succeeds (f x)) \<Longrightarrow> succeeds (go_bind m f)"
  unfolding succeeds_def by (simp add: go_simps) (metis (no_types, lifting) old.prod.case old.sum.simps(6))

lemma succeeds_bind_run:
  "succeeds m \<Longrightarrow> (\<And>s x s'. m s = (Inr x, s') \<Longrightarrow> succeeds (f x)) \<Longrightarrow> succeeds (go_bind m f)"
  unfolding succeeds_def by (simp add: go_simps) (metis (no_types, lifting) old.prod.case old.sum.simps(6))

lemma succeeds_if [intro]: "(b \<Longrightarrow> succeeds m) \<Longrightarrow> (\<not> b \<Longrightarrow> succeeds n) \<Longrightarrow> succeeds (if b then m else n)"
  by simp

lemma succeeds_each: "(\<And>x. x \<in> set xs \<Longrightarrow> succeeds (f x)) \<Longrightarrow> succeeds (go_each f xs)"
  by (induction xs) auto

lemma succeeds_sql: "(\<And>s. \<exists>a s'. f s = Some (a, s') \<and> faults s' = faults s) \<Longrightarrow> succeeds (sql f)"
  unfolding succeeds_def
proof (intro allI impI)
  fix s :: "'a env_scheme"
  assume f: "\<And>s. \<exists>a s'. f s = Some (a, s') \<and> faults s' = faults s" and s: "no_faults s"
  from f [of "s\<lparr>faults := tl (faults s)\<rparr>"] obtain a s' where
    "f (s\<lparr>faults := tl (faults s)\<rparr>) = Some (a, s')" "faults s' = tl (faults s)" by auto
  with s no_faults_tl [OF s] show "\<exists>x s'. sql f s = (Inr x, s') \<and> no_faults s'"
    by (simp add: sql_no_faults Let_def no_faults_def)
qed

lemma succeeds_now [intro!]: "succeeds go_now"
  by (auto simp: succeeds_def go_now_def no_faults_def split: list.splits)

lemma succeeds_tx:
  assumes "succeeds body"
  shows "succeeds (with_tx body)"
  unfolding succeeds_def
proof (intro allI impI)
  fix s :: "'a qdb_scheme"
  assume s: "no_faults s"
  let ?s0 = "s\<lparr>faults := tl (faults s)\<rparr>"
  obtain cx s1 where b: "body ?s0 = (Inr cx, s1)" "no_faults s1"
    using succeedsD [OF assms no_faults_tl [OF s]] by blast
  obtain cm x where cx: "cx = (cm, x)" by fastforce
  show "\<exists>x s'. with_tx body s = (Inr x, s') \<and> no_faults s'"
    using b s cx no_faults_tl [OF b(2)]
    by (cases cm) (simp_all add: with_tx_def go_simps sql_no_faults Let_def rollback_def no_faults_def)
qed

lemma succeeds_flush: "\<forall>q \<in> set (ha_pending a). widths_fit q \<and> numbers_fit q \<Longrightarrow> succeeds (flush pick a)"
  unfolding flush_def flushCoordinates_def flushNullCoordinates_def upsertListing_def update_listings_def
  by (intro succeeds_if succeeds_ret succeeds_bind succeeds_tx succeeds_now succeeds_each succeeds_sql) auto

lemma succeeds_hydrate_loop:
  "\<forall>q \<in> set (ha_pending a @ upserts acts). widths_fit q \<and> numbers_fit q \<Longrightarrow>
   succeeds (hydrate_loop pick w acts a :: ('z sdb_scheme, hydrate_acc) go)"
proof (induction acts arbitrary: a)
  case Nil
  then show ?case by (simp add: succeeds_flush)
next
  case (Cons act acts)
  show ?case
  proof (cases act)
    case ActSkip
    with Cons.IH [of "skip_row a"] Cons.prems show ?thesis by simp
  next
    case (ActDelete d k)
    with Cons.IH [of "delete_row d k a"] Cons.prems show ?thesis by simp
  next
    case (ActUpsert rec)
    let ?a = "upsert_acc rec a"
    have pend: "\<forall>q \<in> set (ha_pending ?a). widths_fit q \<and> numbers_fit q" using Cons.prems ActUpsert by auto
    have rest: "\<forall>q \<in> set (ha_pending (?a\<lparr>ha_pending := [], ha_coords := [], ha_nulls := []\<rparr>) @ upserts acts). widths_fit q \<and> numbers_fit q"
      "\<forall>q \<in> set (ha_pending ?a @ upserts acts). widths_fit q \<and> numbers_fit q"
      using Cons.prems ActUpsert by auto
    note all = Cons.IH [OF rest(1)] Cons.IH [OF rest(2)]
    have "succeeds (hydrate_loop pick w acts a' :: ('z sdb_scheme, hydrate_acc) go)"
      if "flush pick ?a s = (Inr a', s')" for a' and s s' :: "'z sdb_scheme"
      using flush_run [OF that] all(1) by simp
    from succeeds_bind_run [OF succeeds_flush [OF pend] this]
    have "succeeds (go_bind (flush pick ?a) (hydrate_loop pick w acts) :: ('z sdb_scheme, hydrate_acc) go)" .
    with all(2) ActUpsert show ?thesis by (simp add: Let_def)
  qed
qed

lemma HydrateReplicaBatch_succeeds:
  "\<forall>q \<in> set (upserts (map (row_action_of sp w ds p) rows)). widths_fit q \<and> numbers_fit q \<Longrightarrow>
   succeeds (HydrateReplicaBatch sp pick w ds p rows)"
  unfolding HydrateReplicaBatch_def flushDeletes_def update_listings_def
  by (intro succeeds_bind succeeds_ret succeeds_each succeeds_sql succeeds_hydrate_loop) (auto simp: start_acc_def)

text \<open>The clamping of the row mapping keeps every number inside its column.\<close>

lemma fits_iff: "fits P v \<longleftrightarrow> (\<forall>x. v = Some x \<longrightarrow> P x)"
  by (simp add: fits_def split: option.split)

lemma BuildListingRecord_numbers_fit:
  assumes "BuildListingRecord sp ds p row raw ks = ActUpsert r"
  shows "numbers_fit r"
proof -
  obtain row' pl keys where r: "r = listing_record_of sp ds p row raw keys pl row' (lr_list_price r)"
      and x: "ResolveListPrice row = Some (lr_list_price r)"
    using BuildListingRecord_upsert [OF assms] by metis
  note f = listing_record_fields [OF r]
  show ?thesis
    unfolding numbers_fit_def fits_iff f(4-11)
    using ResolveListPrice_fits [OF x]
    by (auto dest: ClampNumeric14_2_fits MonthlyFees_fits ResolveLivingArea_fits
        ClampNumeric12_4_fits BathroomsTotal_fits BoundedInt16Ptr_fits)
qed

lemma row_action_numbers_fit: "row_action_of sp w ds p raw = ActUpsert r \<Longrightarrow> numbers_fit r"
  by (auto simp: row_action_of_def dest: BuildListingRecord_numbers_fit split: option.splits)

lemma hydrate_loop_fits:
  "hydrate_loop pick w acts a s = (Inr a', s') \<Longrightarrow> \<forall>q \<in> set (ha_pending a @ upserts acts). widths_fit q"
proof (induction acts arbitrary: a s)
  case Nil
  then show ?case using flush_run [of pick a s "Inr a'" s'] by auto
next
  case (Cons act acts)
  show ?case
  proof (cases act)
    case ActSkip
    with Cons.IH [of "skip_row a" s] Cons.prems show ?thesis by simp
  next
    case (ActDelete d k)
    with Cons.IH [of "delete_row d k a" s] Cons.prems show ?thesis by simp
  next
    case (ActUpsert rec)
    let ?a = "upsert_acc rec a"
    show ?thesis
    proof (cases "length (ha_pending ?a) \<ge> mw_chunk w")
      case False
      with Cons.IH [of ?a s] Cons.prems ActUpsert show ?thesis by (simp add: Let_def)
    next
      case True
      with Cons.prems ActUpsert obtain a1 s1 where fl: "flush pick ?a s = (Inr a1, s1)"
          and lp: "hydrate_loop pick w acts a1 s1 = (Inr a', s')"
        by (auto simp: Let_def go_simps split: prod.splits sum.splits)
      from flush_run [OF fl] have "\<forall>q \<in> set (ha_pending ?a). widths_fit q" "ha_pending a1 = []" by auto
      with Cons.IH [OF lp] ActUpsert show ?thesis by auto
    qed
  qed
qed

text \<open>A chunk is persisted exactly when every live row's text fits its columns: with no failing
  statement, numbers never make it fail, and one text value that is too long makes it fail whatever
  happens. The job of a chunk with such a row therefore never succeeds, however often it is retried.\<close>

theorem hydrate_succeeds_iff_text_fits:
  assumes "no_faults s"
  shows "(\<exists>st s'. HydrateReplicaBatch sp pick w ds p rows s = (Inr st, s')) \<longleftrightarrow>
     (\<forall>raw \<in> set rows. \<forall>r. row_action_of sp w ds p raw = ActUpsert r \<longrightarrow> widths_fit r)"
    (is "?L \<longleftrightarrow> ?R")
proof
  assume ?L
  then obtain a s1 where "hydrate_loop pick w (map (row_action_of sp w ds p) rows) (start_acc (length rows)) s = (Inr a, s1)"
    by (auto simp: HydrateReplicaBatch_def go_simps split: prod.splits sum.splits)
  from hydrate_loop_fits [OF this] have "\<forall>q. ActUpsert q \<in> row_action_of sp w ds p ` set rows \<longrightarrow> widths_fit q" by auto
  then show ?R by (metis imageI)
next
  assume R: ?R
  have "\<forall>q \<in> set (upserts (map (row_action_of sp w ds p) rows)). widths_fit q \<and> numbers_fit q"
    using R by (auto simp: image_iff dest: sym [THEN row_action_numbers_fit])
  from succeedsD [OF HydrateReplicaBatch_succeeds [OF this] assms] show ?L by blast
qed

section \<open>A chunk with an active and a closed row\<close>

definition demo_writer :: mirror_writer where
  "demo_writer = NewListingMirrorWriter 250 [] []"

definition demo_closed :: gomap where
  "demo_closed = [(''ListingKey'', JStr ''stellar:2''), (''StandardStatus'', JStr ''Closed'')]"

definition demo_chunk :: "raw_message list" where
  "demo_chunk = [RawJson (JObj demo_row), RawJson (JObj demo_closed)]"

lemmas demo_trim = trim_space_def trim_both_def trim_left_def trim_right_def is_space_def to_lower_def
  lower_char_def char_of_def bit_0

lemma demo_row_fields:
  "lookup_any demo_row ''ListingKey'' = JStr ''stellar:1''" "lookup_any demo_row ''StandardStatus'' = JStr ''Active''"
  "lookup_any demo_row ''ListPrice'' = JNum 5000000000000000" "lookup_any demo_row ''ListingId'' = JNull"
  "k \<in> set text_columns \<Longrightarrow> lookup_any demo_row k = JNull"
  "lookup_any demo_closed ''ListingKey'' = JStr ''stellar:2''" "lookup_any demo_closed ''StandardStatus'' = JStr ''Closed''"
  by (auto simp: demo_row_def demo_closed_def lookup_any_def text_columns_def)

lemma demo_key: "row_key (\<lambda>_. []) demo_row = ''stellar:1''" "row_key (\<lambda>_. []) demo_closed = ''stellar:2''"
  by (simp_all add: row_key_def demo_row_fields stringValue_def)
    (simp_all add: demo_trim)

lemma demo_slug: "datasetSlugFromListingKey ''stellar:1'' d = ''stellar''" "datasetSlugFromListingKey ''stellar:2'' d = ''stellar''"
  by (simp_all add: datasetSlugFromListingKey_def to_lower_def lower_char_def char_of_def bit_0 numeral_eq_Suc)

lemma demo_live: "row_live (\<lambda>_. []) demo_row" "\<not> row_live (\<lambda>_. []) demo_closed"
  by (simp_all add: row_live_def demo_row_fields stringValue_def)
    (simp_all add: demo_trim)

lemma demo_flood: "ResolveFloodZoneCode (\<lambda>_. []) (snd (ExtractExpandedPayloads demo_row Bridge ks)) Bridge ''STELLAR'' = None"
  by (simp add: ResolveFloodZoneCode_def extract_row_other Let_def firstNonEmpty_def stringValue_def)
    (simp add: demo_row_def lookup_any_def)

definition demo_record :: listing_record where
  "demo_record = (let ks = expand_or_default (expandKeys demo_writer Bridge) in
     listing_record_of (\<lambda>_. []) ''stellar'' Bridge demo_row (RawJson (JObj demo_row)) ks
       (fst (ExtractExpandedPayloads demo_row Bridge ks)) (snd (ExtractExpandedPayloads demo_row Bridge ks))
       (clampNumeric14_2 5000000000000000))"

lemma demo_actions:
  "map (row_action_of (\<lambda>_. []) demo_writer ''stellar'' Bridge) demo_chunk =
     [ActUpsert demo_record, ActDelete ''stellar'' ''stellar:2'']"
proof -
  have u: "unmarshal_map (RawJson (JObj demo_row)) = Some demo_row" "unmarshal_map (RawJson (JObj demo_closed)) = Some demo_closed"
    by (simp_all add: unmarshal_map_def gomap_of_distinct demo_row_def demo_closed_def)
  have price: "ResolveListPrice demo_row = Some (clampNumeric14_2 5000000000000000)"
    by (simp add: ResolveListPrice_def demo_row_fields numericValue_def)
  show ?thesis
    by (simp add: demo_chunk_def row_action_of_def u BuildListingRecord_shape demo_key demo_live demo_slug price demo_record_def Let_def)
qed

lemma demo_record_id: "rec_id demo_record = (''stellar'', ''stellar:1'')"
  using listing_record_fields(1,2) [OF demo_record_def [unfolded Let_def]]
  by (simp add: rec_id_def demo_key demo_slug)

lemma demo_record_fits: "widths_fit demo_record" "numbers_fit demo_record"
proof -
  have up: "to_upper ''stellar'' = ''STELLAR''" by (simp add: to_upper_def upper_char_def char_of_def bit_0)
  have st: "trim_space ''Active'' = ''Active''" by (simp add: demo_trim)
  have "list_all text_fits (lr_texts demo_record)"
    by (auto simp: demo_record_def listing_record_of_def Let_def list_all_iff text_fits_def fits_def optionalString_def
        stringValue_def extract_row_other demo_row_fields text_columns_def)
  moreover have "fits (\<lambda>v. length v \<le> 50) (lr_status demo_record)" "fits (\<lambda>v. length v \<le> 128) (lr_mls_id demo_record)"
    "fits (\<lambda>v. length v \<le> 80) (lr_flood_zone demo_record)"
    using demo_flood by (simp_all add: demo_record_def listing_record_of_def Let_def fits_def optionalString_def
        stringValue_def extract_row_other demo_row_fields st up)
  ultimately show "widths_fit demo_record"
    using demo_record_id by (simp add: widths_fit_def rec_id_def)
  show "numbers_fit demo_record"
    using demo_actions row_action_numbers_fit [of "\<lambda>_. []" demo_writer "''stellar''" Bridge "RawJson (JObj demo_row)"]
    by (simp add: demo_chunk_def)
qed

lemma demo_succeeds:
  "succeeds (HydrateReplicaBatch (\<lambda>_. []) hd demo_writer ''stellar'' Bridge demo_chunk)"
  by (rule HydrateReplicaBatch_succeeds) (simp add: demo_actions demo_record_fits)

lemma demo_sync_no_faults: "no_faults demo_sync"
  by (simp add: no_faults_def demo_sync_def)

theorem hydrate_refines_spec_witness:
  "\<exists>st s'. HydrateReplicaBatch (\<lambda>_. []) hd demo_writer ''stellar'' Bridge demo_chunk demo_sync = (Inr st, s') \<and>
     mirror_at (listings s') (''stellar'', ''stellar:2'') = None \<and> mirror_at (listings s') (''stellar'', ''stellar:1'') \<noteq> None"
proof -
  obtain st s' where run: "HydrateReplicaBatch (\<lambda>_. []) hd demo_writer ''stellar'' Bridge demo_chunk demo_sync = (Inr st, s')"
    using succeedsD [OF demo_succeeds demo_sync_no_faults] by auto
  have "\<exists>t. (\<forall>x. clock demo_sync \<le> t x \<and> t x \<le> clock s') \<and> mirror_at (listings s') =
      hydrate_spec (map (row_action_of (\<lambda>_. []) demo_writer ''stellar'' Bridge) demo_chunk) (mirror_at (listings demo_sync)) t \<and>
      jobs s' = jobs demo_sync \<and> cursors s' = cursors demo_sync \<and> pages s' = pages demo_sync"
    by (rule hydrate_refines_spec [OF _ run]) (simp_all add: picks_def demo_actions)
  then obtain t where
    "mirror_at (listings s') = hydrate_spec [ActUpsert demo_record, ActDelete ''stellar'' ''stellar:2''] (mirror_at (listings demo_sync)) t"
    unfolding demo_actions by (elim exE conjE)
  with run demo_record_id show ?thesis by (intro exI [of _ st] exI [of _ s']) (simp add: hydrate_spec_def)
qed

theorem hydrate_retry_safe_witness:
  "\<exists>s1 st s3 t. snd (HydrateReplicaBatch (\<lambda>_. []) hd demo_writer ''stellar'' Bridge demo_chunk (demo_sync\<lparr>faults := [True]\<rparr>)) = s1 \<and>
     HydrateReplicaBatch (\<lambda>_. []) hd demo_writer ''stellar'' Bridge demo_chunk (s1\<lparr>faults := []\<rparr>) = (Inr st, s3) \<and>
     mirror_at (listings s3) = hydrate_spec (map (row_action_of (\<lambda>_. []) demo_writer ''stellar'' Bridge) demo_chunk)
       (mirror_at (listings demo_sync)) t"
proof -
  let ?h = "HydrateReplicaBatch (\<lambda>_. []) hd demo_writer ''stellar'' Bridge demo_chunk :: (sdb, hydrate_stats) go"
  obtain r1 s1 where h1: "?h (demo_sync\<lparr>faults := [True]\<rparr>) = (r1, s1)" by fastforce
  obtain st s3 where h3: "?h (s1\<lparr>faults := []\<rparr>) = (Inr st, s3)"
    using succeedsD [OF demo_succeeds, of "s1\<lparr>faults := []\<rparr>"] by (auto simp: no_faults_def)
  have "\<exists>t. (\<forall>x. clock (demo_sync\<lparr>faults := [True]\<rparr>) \<le> t x \<and> t x \<le> clock s3) \<and> mirror_at (listings s3) =
      hydrate_spec (map (row_action_of (\<lambda>_. []) demo_writer ''stellar'' Bridge) demo_chunk) (mirror_at (listings (demo_sync\<lparr>faults := [True]\<rparr>))) t"
    by (rule hydrate_retry_safe [OF _ h1 _ _ h3]) (simp_all add: picks_def demo_actions)
  then obtain t where "mirror_at (listings s3) =
      hydrate_spec (map (row_action_of (\<lambda>_. []) demo_writer ''stellar'' Bridge) demo_chunk) (mirror_at (listings demo_sync)) t"
    by (elim exE conjE) simp
  with h1 h3 show ?thesis by (intro exI [of _ s1] exI [of _ st] exI [of _ s3] exI [of _ t]) simp
qed

theorem hydrate_succeeds_iff_text_fits_witness:
  "no_faults demo_sync \<and>
   (\<exists>st s'. HydrateReplicaBatch (\<lambda>_. []) hd demo_writer ''stellar'' Bridge demo_chunk demo_sync = (Inr st, s'))"
proof -
  have "\<forall>raw \<in> set demo_chunk. \<forall>q. row_action_of (\<lambda>_. []) demo_writer ''stellar'' Bridge raw = ActUpsert q \<longrightarrow> widths_fit q"
    using demo_actions demo_record_fits by (simp add: demo_chunk_def)
  with demo_sync_no_faults hydrate_succeeds_iff_text_fits [OF demo_sync_no_faults, of "\<lambda>_. []" hd demo_writer "''stellar''" Bridge demo_chunk]
  show ?thesis by simp
qed

section \<open>Unique ids\<close>

definition mirror_inv :: "'z sdb_scheme \<Rightarrow> bool" where
  "mirror_inv s \<longleftrightarrow> distinct (map mr_id (listings s))"

lemma mirror_inv_frame [simp]:
  "mirror_inv (s\<lparr>faults := bs\<rparr>) = mirror_inv s" "mirror_inv (s\<lparr>clock := t, delays := ds\<rparr>) = mirror_inv s"
  "mirror_inv (rollback s s1) = mirror_inv s"
  by (simp_all add: mirror_inv_def rollback_def)

lemma upsert_into_distinct: "distinct (map mr_id m) \<Longrightarrow> distinct (map mr_id (upsert_into now r m))"
proof (cases "\<exists>b \<in> set m. mr_id b = rec_id r")
  case True
  have "map mr_id (map (\<lambda>b. if mr_id b = rec_id r then upsert_row now r (Some b) else b) m) = map mr_id m" by simp
  moreover assume "distinct (map mr_id m)"
  ultimately show ?thesis using True by (simp add: upsert_into_def del: map_map)
next
  case False
  moreover assume "distinct (map mr_id m)"
  ultimately show ?thesis unfolding upsert_into_def by (auto simp: image_iff dest: sym)
qed

lemma keeps_update_listings:
  "(\<And>m. distinct (map mr_id m) \<Longrightarrow> distinct (map mr_id (f m))) \<Longrightarrow> keeps mirror_inv (update_listings f)"
  unfolding update_listings_def by (rule keeps_sql) (auto simp: mirror_inv_def)

lemma distinct_map_ids: "(\<And>b. mr_id (f b) = mr_id b) \<Longrightarrow> distinct (map mr_id m) \<Longrightarrow> distinct (map mr_id (map f m))"
  by (simp add: comp_def)

lemma keeps_flush: "keeps mirror_inv (flush pick a)"
proof -
  have "keeps mirror_inv (upsertListing now r)" for now r
    unfolding upsertListing_def
    by (rule keeps_sql) (auto simp: mirror_inv_def upsert_into_distinct split: if_splits)
  moreover have "keeps mirror_inv (flushCoordinates pick cs)" for cs
    unfolding flushCoordinates_def by (intro keeps_each keeps_update_listings distinct_map_ids) simp_all
  moreover have "keeps mirror_inv (flushNullCoordinates g)" for g
    unfolding flushNullCoordinates_def by (intro keeps_each keeps_update_listings distinct_map_ids) simp_all
  ultimately show ?thesis
    unfolding flush_def
    by (intro keeps_if keeps_ret keeps_bind keeps_with_tx keeps_each keeps_now) (auto simp: mirror_inv_def rollback_def)
qed

lemma keeps_hydrate_loop: "keeps mirror_inv (hydrate_loop pick w acts a)"
  by (induction acts arbitrary: a) (auto simp: Let_def keeps_flush intro!: keeps_bind split: row_action.split)

text \<open>The mirror never holds a listing twice: persisting a chunk, whether it succeeds or fails on the
  way, keeps the pairs of dataset and listing key unique.\<close>

theorem hydrate_keeps_ids_unique:
  assumes "mirror_inv s"
  shows "mirror_inv (snd (HydrateReplicaBatch sp pick w ds p rows s))"
proof -
  have "keeps mirror_inv (flushDeletes g)" for g
    unfolding flushDeletes_def
    by (intro keeps_each keeps_update_listings) (auto intro: distinct_map_filter)
  then have "keeps mirror_inv (HydrateReplicaBatch sp pick w ds p rows)"
    unfolding HydrateReplicaBatch_def by (intro keeps_bind keeps_ret keeps_hydrate_loop)
  from keepsD [OF this assms] show ?thesis .
qed

theorem hydrate_keeps_ids_unique_witness:
  "mirror_inv demo_sync \<and> mirror_inv (snd (HydrateReplicaBatch (\<lambda>_. []) hd demo_writer ''stellar'' Bridge demo_chunk demo_sync))"
  using hydrate_keeps_ids_unique [of demo_sync] by (simp add: mirror_inv_def demo_sync_def)

end
