(* ===== verification/Sync_Fetch.thy ===== *)
theory Sync_Fetch
  imports Listing_Mirror "HOL-Library.List_Lexorder" "HOL-Library.Char_ord"
begin

text \<open>
  Fetching a page of listings from the two MLS providers (\<^verbatim>\<open>internal/service/sync\<close>: \<^verbatim>\<open>bridge_sync.go\<close>,
  \<^verbatim>\<open>spark_sync.go\<close>): the request URL and its OData query, the request with its rate limit and retries,
  and what is read from the response.

  The provider is outside the program. What it answers is the list \<open>http_replies\<close> of the state: each
  request consumes the next entry, which is a transport error (also for a URL that does not parse, or
  when the list is used up) or a response with its status, its \<^verbatim>\<open>Link\<close> header and its body. \<open>http_log\<close>
  records every request with the time it was made.
\<close>

section \<open>Requests\<close>

record http_response =
  http_status :: int
  http_link :: string
  http_body :: raw_message

datatype http_reply = HttpFail | HttpReply http_response

record fdb = sdb +
  http_replies :: "http_reply list"
  http_log :: "(int \<times> string) list"
  bridge_limiter :: "rate_limiter option"

definition http_get :: "string \<Rightarrow> ('z fdb_scheme, http_response) go" where
  "http_get reqURL = go_bind go_now (\<lambda>now s.
     let s1 = s\<lparr>http_log := http_log s @ [(now, reqURL)], http_replies := tl (http_replies s)\<rparr> in
     case http_replies s of
       HttpReply resp # _ \<Rightarrow> (Inr resp, s1)
     | _ \<Rightarrow> (Inl (Err ''http request failed''), s1))"

section \<open>URLs and queries\<close>

text \<open>\<^verbatim>\<open>url.Values\<close> as the code uses it: \<^verbatim>\<open>Set\<close> only, so one value per key. \<^verbatim>\<open>Encode\<close> sorts by key.\<close>

type_synonym url_values = "(string \<times> string) list"

definition query_set :: "string \<Rightarrow> string \<Rightarrow> url_values \<Rightarrow> url_values" where
  "query_set k v q = AList.update k v q"

definition unreserved :: "char \<Rightarrow> bool" where
  "unreserved c \<longleftrightarrow> (CHR ''a'' \<le> c \<and> c \<le> CHR ''z'') \<or> (CHR ''A'' \<le> c \<and> c \<le> CHR ''Z'') \<or>
     (CHR ''0'' \<le> c \<and> c \<le> CHR ''9'') \<or> c \<in> {CHR ''-'', CHR ''_'', CHR ''.'', CHR ''~''}"

definition hex_char :: "nat \<Rightarrow> char" where
  "hex_char n = (if n < 10 then char_of (48 + n) else char_of (55 + n))"

definition escape_char :: "char \<Rightarrow> string" where
  "escape_char c = (if unreserved c then [c] else if c = CHR '' '' then ''+''
     else let n = of_char c :: nat in [CHR ''%'', hex_char (n div 16), hex_char (n mod 16)])"

definition query_escape :: "string \<Rightarrow> string" where
  "query_escape s = concat (map escape_char s)"

definition query_encode :: "url_values \<Rightarrow> string" where
  "query_encode q = join_with ''&'' (map (\<lambda>(k, v). query_escape k @ ''='' @ query_escape v) (sort_key fst q))"

definition request_url :: "string \<Rightarrow> url_values \<Rightarrow> string" where
  "request_url fetchURL query =
     (if query = [] then fetchURL
      else fetchURL @ (if contains_sub fetchURL ''?'' then ''&'' else ''?'') @ query_encode query)"

fun show_nat :: "nat \<Rightarrow> string" where
  "show_nat n = (if n < 10 then [digit_char n] else show_nat (n div 10) @ [digit_char (n mod 10)])"

text \<open>\<^verbatim>\<open>fmt.Sprintf("%d", n)\<close>.\<close>

definition show_int :: "int \<Rightarrow> string" where
  "show_int n = (if n < 0 then CHR ''-'' # show_nat (nat (- n)) else show_nat (nat n))"

text \<open>\<^verbatim>\<open>fmt.Sprintf("%f", x)\<close>: six decimals, ties to even.\<close>

definition half_even :: "real \<Rightarrow> int" where
  "half_even y = (let n = \<lfloor>y + 1 / 2\<rfloor> in if of_int n = y + 1 / 2 \<and> odd n then n - 1 else n)"

definition pad_zeros :: "nat \<Rightarrow> string \<Rightarrow> string" where
  "pad_zeros n s = replicate (n - length s) CHR ''0'' @ s"

definition fmt_f :: "real \<Rightarrow> string" where
  "fmt_f x = (let n = nat (half_even (\<bar>x\<bar> * 1000000)) in
     (if x < 0 then ''-'' else []) @ show_nat (n div 1000000) @ ''.'' @ pad_zeros 6 (show_nat (n mod 1000000)))"

definition is_slash :: "char \<Rightarrow> bool" where
  "is_slash c \<longleftrightarrow> c = CHR ''/''"

definition oDataPropertyBase :: "bridge_config \<Rightarrow> string \<Rightarrow> string" where
  "oDataPropertyBase b dataset =
     (let host = trim_right is_slash (b_host b);
          prefix = trim_both is_slash (b_path_prefix b);
          resoRoot = trim_both is_slash (b_reso_root b);
          basePath = (if prefix \<noteq> [] then prefix @ ''/OData/'' @ dataset
            else if resoRoot \<noteq> [] then resoRoot @ ''/OData/'' @ dataset
            else ''OData/'' @ dataset)
      in host @ ''/'' @ basePath)"

definition Bridge_propertyCollectionURL :: "bridge_config \<Rightarrow> string \<Rightarrow> string" where
  "Bridge_propertyCollectionURL b dataset = oDataPropertyBase b dataset @ ''/Property''"

definition propertyReplicationURL :: "bridge_config \<Rightarrow> string \<Rightarrow> string" where
  "propertyReplicationURL b dataset = oDataPropertyBase b dataset @ ''/Property/replication''"

definition Spark_propertyCollectionURL :: "spark_config \<Rightarrow> string" where
  "Spark_propertyCollectionURL c =
     trim_right is_slash (s_replication_host c) @ ''/'' @ trim_both is_slash (s_replication_reso c) @ ''/Property''"

definition sync_fields :: "string \<Rightarrow> string list" where
  "sync_fields upper = [
    ''ListingKey'', ''ListingId'', ''BridgeModificationTimestamp'', ''ModificationTimestamp'',
    ''StandardStatus'', ''ListPrice'', ''ClosePrice'', ''PreviousListPrice'', ''PriceChangeTimestamp'',
    ''BedroomsTotal'', ''BathroomsTotalDecimal'', ''LivingArea'', ''LotSizeAcres'', ''YearBuilt'',
    ''City'', ''CountyOrParish'', ''PostalCode'', ''StateOrProvince'', ''PropertyType'', ''PropertySubType'',
    ''OnMarketDate'', ''CloseDate'', ''Latitude'', ''Longitude'', ''Coordinates'',
    ''WaterfrontYN'', ''PoolPrivateYN'', ''NewConstructionYN'', ''GarageYN'', ''AssociationYN'',
    ''SpaYN'', ''FireplaceYN'', ''SeniorCommunityYN'', ''SpecialListingConditions'', ''SubdivisionName'',
    ''ElementarySchool'', ''MiddleOrJuniorSchool'', ''HighSchool'', ''StreetNumber'', ''StreetName'',
    ''ListAgentMlsId'', ''ListOfficeMlsId'', ''Media'',
    upper @ ''_FloodZoneCode'', upper @ ''_TotalMonthlyFees'']"

definition syncSelectList :: "bridge_config \<Rightarrow> string \<Rightarrow> string" where
  "syncSelectList b dataset =
     (let fields = sync_fields (to_upper dataset);
          fields = (if b_include_media b then fields else filter (\<lambda>f. f \<noteq> ''Media'') fields)
      in join_with '','' (dedup_into [] (filter (\<lambda>f. f \<noteq> [] \<and> f \<noteq> ''DockYN'') (map trim_space fields))))"

definition replicationSelectList :: "bridge_config \<Rightarrow> string \<Rightarrow> string" where
  "replicationSelectList b dataset =
     (let fields = split_char CHR '','' (syncSelectList b dataset) @ ParseExpandKeys (b_expand b)
      in join_with '','' (dedup_into [] (filter (\<lambda>f. f \<noteq> []) (map trim_space fields))))"

definition BridgeNavigationExpandCSV :: "string \<Rightarrow> string" where
  "BridgeNavigationExpandCSV bridgeExpandCSV = join_with '','' (BridgeNavigationExpandKeys bridgeExpandCSV)"

definition Bridge_applySyncExpand :: "bridge_config \<Rightarrow> url_values \<Rightarrow> url_values" where
  "Bridge_applySyncExpand b query =
     (if b_full_property b
      then let nav = BridgeNavigationExpandCSV (b_expand b) in
           if nav \<noteq> [] then query_set ''$expand'' nav query else query
      else let expand = trim_space (b_expand b) in
           if expand \<noteq> [] then query_set ''$expand'' expand query else query)"

definition Spark_applySyncExpand :: "mls_config \<Rightarrow> bool \<Rightarrow> url_values \<Rightarrow> url_values" where
  "Spark_applySyncExpand m replication query =
     (let repl = trim_space (sync_replication_expand m);
          expand = (if replication \<and> repl \<noteq> [] then repl else trim_space (sync_expand m))
      in if expand \<noteq> [] then query_set ''$expand'' expand query else query)"

section \<open>Responses\<close>

record page_result =
  pr_rows :: "raw_message list"
  pr_next_url :: "string option"
  pr_complete :: bool
  pr_has_more :: bool
  pr_max_mod :: "int option"
  pr_window_end :: "int option"
  pr_forbidden :: bool
  pr_http_error :: bool
  pr_status :: int
  pr_fetch_url :: string
  pr_upstream_url :: string

definition empty_result :: page_result where
  "empty_result = \<lparr>pr_rows = [], pr_next_url = None, pr_complete = False, pr_has_more = False, pr_max_mod = None,
     pr_window_end = None, pr_forbidden = False, pr_http_error = False, pr_status = 0, pr_fetch_url = [], pr_upstream_url = []\<rparr>"

text \<open>\<^verbatim>\<open>linkNextRE\<close>, \<^verbatim>\<open><([^>]+)>;\s*rel\s*=\s*["']?next["']?\<close>: the match that starts at the head of the string,
  and the leftmost match. Every part of the pattern is determined by the next character, so that no
  backtracking is needed.\<close>

definition re_space :: "char \<Rightarrow> bool" where
  "re_space c \<longleftrightarrow> c \<in> {CHR '' '', CHR 0x09, CHR 0x0A, CHR 0x0C, CHR 0x0D}"

definition after :: "string \<Rightarrow> string \<Rightarrow> string option" where
  "after p s = (if has_prefix s p then Some (drop (length p) s) else None)"

definition link_rel_next :: "string \<Rightarrow> bool" where
  "link_rel_next s = (case after ''>;'' s of None \<Rightarrow> False
     | Some r \<Rightarrow> (case after ''rel'' (dropWhile re_space r) of None \<Rightarrow> False
        | Some r2 \<Rightarrow> (case after ''='' (dropWhile re_space r2) of None \<Rightarrow> False
           | Some r3 \<Rightarrow> (let v = dropWhile re_space r3;
                v = (case v of c # w \<Rightarrow> if c = CHR 0x22 \<or> c = CHR 0x27 then w else v | [] \<Rightarrow> v)
              in has_prefix v ''next''))))"

definition link_match_at :: "string \<Rightarrow> string option" where
  "link_match_at s = (case s of
      c # r \<Rightarrow> (let u = takeWhile (\<lambda>c. c \<noteq> CHR ''>'') r in
        if c = CHR ''<'' \<and> u \<noteq> [] \<and> link_rel_next (drop (length u) r) then Some u else None)
    | [] \<Rightarrow> None)"

fun link_match :: "string \<Rightarrow> string option" where
  "link_match [] = None"
| "link_match (c # s) = (case link_match_at (c # s) of Some u \<Rightarrow> Some u | None \<Rightarrow> link_match s)"

definition body_next_link :: "raw_message \<Rightarrow> string option" where
  "body_next_link body = (case struct_fields body of None \<Rightarrow> None
     | Some kvs \<Rightarrow> (case decode_field dec_string [] ''@odata.nextLink'' kvs of
          Some u \<Rightarrow> (if u \<noteq> [] then Some u else None) | None \<Rightarrow> None))"

definition extractNextURL :: "string \<Rightarrow> raw_message \<Rightarrow> string option" where
  "extractNextURL linkHeader body =
     (case (if linkHeader = [] then []
            else List.map_filter (\<lambda>seg. link_match (trim_space seg)) (split_char CHR '','' linkHeader)) of
        u # _ \<Rightarrow> Some u
      | [] \<Rightarrow> body_next_link body)"

definition later :: "int option \<Rightarrow> int option \<Rightarrow> int option" where
  "later m ts = (case ts of None \<Rightarrow> m | Some t \<Rightarrow> (case m of None \<Rightarrow> Some t | Some x \<Rightarrow> if x < t then Some t else m))"

definition maxModificationTimestampFromRows ::
  "(json \<Rightarrow> string) \<Rightarrow> string \<Rightarrow> raw_message list \<Rightarrow> int option" where
  "maxModificationTimestampFromRows sprint dataset rows =
     foldl (\<lambda>m raw. case unmarshal_map raw of None \<Rightarrow> m
       | Some row \<Rightarrow> later m (ResolveModificationTimestamp sprint dataset row)) None rows"

definition dec_rows :: "raw_message list \<Rightarrow> json \<Rightarrow> raw_message list option" where
  "dec_rows acc v = (case v of JArr js \<Rightarrow> Some (map RawJson js) | JNull \<Rightarrow> Some [] | _ \<Rightarrow> None)"

definition parse_value :: "raw_message \<Rightarrow> raw_message list option" where
  "parse_value body = (case struct_fields body of None \<Rightarrow> None
     | Some kvs \<Rightarrow> decode_field dec_rows [] ''value'' kvs)"

text \<open>The part of \<^verbatim>\<open>fetchPage\<close> after the response has been read; \<open>pageTop\<close> is the page size that decides
  whether there is more.\<close>

definition status_result :: "string \<Rightarrow> string \<Rightarrow> http_response \<Rightarrow> page_result" where
  "status_result fetchURL reqURL resp =
     empty_result\<lparr>pr_fetch_url := fetchURL, pr_upstream_url := reqURL, pr_status := http_status resp\<rparr>"

definition rows_result ::
  "(json \<Rightarrow> string) \<Rightarrow> string \<Rightarrow> bool \<Rightarrow> int \<Rightarrow> raw_message list \<Rightarrow> string option \<Rightarrow> page_result \<Rightarrow> page_result" where
  "rows_result sprint dataset replication pageTop rows next0 result0 =
     (let result = result0\<lparr>pr_rows := rows, pr_max_mod := maxModificationTimestampFromRows sprint dataset rows, pr_next_url := next0\<rparr>
      in if replication then result\<lparr>pr_complete := (next0 = None \<or> next0 = Some [])\<rparr>
         else if rows = [] then result\<lparr>pr_complete := True\<rparr>
         else result\<lparr>pr_has_more := (pageTop \<le> int (length rows))\<rparr>)"

definition read_page ::
  "(json \<Rightarrow> string) \<Rightarrow> string \<Rightarrow> string \<Rightarrow> string \<Rightarrow> bool \<Rightarrow> int \<Rightarrow> http_response \<Rightarrow> go_error + page_result" where
  "read_page sprint fetchURL reqURL dataset replication pageTop resp =
     (if http_status resp = 403 then Inr ((status_result fetchURL reqURL resp)\<lparr>pr_forbidden := True\<rparr>)
      else if http_status resp < 200 \<or> http_status resp \<ge> 300 then Inr ((status_result fetchURL reqURL resp)\<lparr>pr_http_error := True\<rparr>)
      else case parse_value (http_body resp) of
        None \<Rightarrow> Inl (Err ''decode odata'')
      | Some rows \<Rightarrow> Inr (rows_result sprint dataset replication pageTop rows
          (extractNextURL (http_link resp) (http_body resp)) (status_result fetchURL reqURL resp)))"

definition lift_result :: "go_error + 'a \<Rightarrow> ('s, 'a) go" where
  "lift_result r = (case r of Inl e \<Rightarrow> go_fail e | Inr x \<Rightarrow> go_ret x)"

section \<open>Bridge\<close>

definition incremental_top :: "int \<Rightarrow> int \<Rightarrow> int" where
  "incremental_top dflt n = (if n \<le> 0 then dflt else n)"

definition limiter_step :: "('z fdb_scheme, unit) go" where
  "limiter_step = (\<lambda>s. case limiter_wait (bridge_limiter s) s of
      (Inr l, s') \<Rightarrow> (Inr (), s'\<lparr>bridge_limiter := l\<rparr>)
    | (Inl e, s') \<Rightarrow> (Inl e, s'))"

text \<open>The retry loop: \<open>n\<close> attempts are left, \<open>attempt\<close> have been made. With no attempt at all the status
  would stay 0.\<close>

fun fetch_attempts :: "nat \<Rightarrow> nat \<Rightarrow> string \<Rightarrow> ('z fdb_scheme, http_response) go" where
  "fetch_attempts 0 attempt reqURL = go_ret \<lparr>http_status = 0, http_link = [], http_body = RawEmpty\<rparr>"
| "fetch_attempts (Suc n) attempt reqURL =
     go_bind limiter_step (\<lambda>_. go_bind (http_get reqURL) (\<lambda>resp.
       if http_status resp \<noteq> 429 \<and> http_status resp \<noteq> 503 then go_ret resp
       else if n = 0 then go_ret resp
       else go_bind (sleep_for (int (Suc attempt) * (second div 2))) (\<lambda>_. fetch_attempts n (Suc attempt) reqURL)))"

definition max_attempts :: "bridge_config \<Rightarrow> nat" where
  "max_attempts b = nat (if b_max_retries b < 1 then 1 else b_max_retries b)"

definition Bridge_fetchPage ::
  "(json \<Rightarrow> string) \<Rightarrow> sync_config \<Rightarrow> string \<Rightarrow> url_values \<Rightarrow> string \<Rightarrow> bool \<Rightarrow> ('z fdb_scheme, page_result) go" where
  "Bridge_fetchPage sprint cfg fetchURL query dataset replication =
     (if b_api_key (cfg_bridge cfg) = [] then go_fail (Err ''BRIDGE_API_KEY is not configured'')
      else let reqURL = request_url fetchURL query in
        go_bind (fetch_attempts (max_attempts (cfg_bridge cfg)) 0 reqURL) (\<lambda>resp.
          lift_result (read_page sprint fetchURL reqURL dataset replication
            (incremental_top 200 (b_incremental_top (cfg_bridge cfg))) resp)))"

definition has_next :: "sync_cursor \<Rightarrow> string option" where
  "has_next c = (case replication_next_url c of Some u \<Rightarrow> (if u \<noteq> [] then Some u else None) | None \<Rightarrow> None)"

definition bridge_replication_query :: "sync_config \<Rightarrow> string \<Rightarrow> url_values" where
  "bridge_replication_query cfg dataset =
     (let b = cfg_bridge cfg;
          pageTop = incremental_top 2000 (b_replication_top b);
          q = query_set ''$top'' (show_int pageTop) (query_set ''$filter'' (BridgeReplicationFilter cfg) []);
          q = (if b_full_property b then q else query_set ''$select'' (replicationSelectList b dataset) q)
      in Bridge_applySyncExpand b q)"

definition Bridge_FetchReplicationPage ::
  "(json \<Rightarrow> string) \<Rightarrow> sync_config \<Rightarrow> string \<Rightarrow> sync_cursor \<Rightarrow> ('z fdb_scheme, page_result) go" where
  "Bridge_FetchReplicationPage sprint cfg dataset cursor = (case has_next cursor of
      Some u \<Rightarrow> Bridge_fetchPage sprint cfg u [] dataset True
    | None \<Rightarrow> Bridge_fetchPage sprint cfg (propertyReplicationURL (cfg_bridge cfg) dataset)
        (bridge_replication_query cfg dataset) dataset True)"

definition bridge_incremental_query :: "sync_config \<Rightarrow> string \<Rightarrow> string \<Rightarrow> string \<Rightarrow> int \<Rightarrow> url_values" where
  "bridge_incremental_query cfg dataset field filterLiteral skip =
     (let b = cfg_bridge cfg;
          q = query_set ''$skip'' (show_int skip)
             (query_set ''$top'' (show_int (incremental_top 200 (b_incremental_top b)))
             (query_set ''$orderby'' (field @ '' asc'') (query_set ''$filter'' filterLiteral [])));
          q = (if b_full_property b then q else query_set ''$select'' (syncSelectList b dataset) q);
          q = (if b_include_media b then q else query_set ''$unselect'' ''Media'' q)
      in Bridge_applySyncExpand b q)"

definition Bridge_FetchIncrementalPage ::
  "(json \<Rightarrow> string) \<Rightarrow> sync_config \<Rightarrow> string \<Rightarrow> sync_cursor \<Rightarrow> int \<Rightarrow> ('z fdb_scheme, page_result) go" where
  "Bridge_FetchIncrementalPage sprint cfg dataset cursor skip = (case last_modification cursor of
      None \<Rightarrow> go_ret (empty_result\<lparr>pr_complete := True\<rparr>)
    | Some since \<Rightarrow>
        (let field = ModificationODataField dataset;
             url = Bridge_propertyCollectionURL (cfg_bridge cfg) dataset
         in go_bind (Bridge_fetchPage sprint cfg url
              (bridge_incremental_query cfg dataset field (BridgeIncrementalFilter dataset since) skip) dataset False) (\<lambda>result.
            if pr_http_error result \<and> (pr_status result = 400 \<or> pr_status result = 501) \<and> field \<noteq> ''ModificationTimestamp''
            then Bridge_fetchPage sprint cfg url (bridge_incremental_query cfg dataset ''ModificationTimestamp''
                 (''('' @ activePendingStatusFilter @ '') and '' @ ODataGTFilter ''ModificationTimestamp'' since) skip) dataset False
            else go_ret result)))"

definition bridge_nav_query :: "sync_config \<Rightarrow> string \<Rightarrow> int \<Rightarrow> url_values" where
  "bridge_nav_query cfg dataset skip =
     (let b = cfg_bridge cfg;
          q = query_set ''$skip'' (show_int skip)
             (query_set ''$top'' (show_int (incremental_top 200 (b_incremental_top b)))
             (query_set ''$filter'' (BridgeReplicationFilter cfg) []));
          q = (if b_full_property b then q else query_set ''$select'' (replicationSelectList b dataset) q)
      in Bridge_applySyncExpand b q)"

definition FetchNavHydratePage ::
  "(json \<Rightarrow> string) \<Rightarrow> sync_config \<Rightarrow> string \<Rightarrow> int \<Rightarrow> ('z fdb_scheme, page_result) go" where
  "FetchNavHydratePage sprint cfg dataset skip =
     go_bind (Bridge_fetchPage sprint cfg (Bridge_propertyCollectionURL (cfg_bridge cfg) dataset)
        (bridge_nav_query cfg dataset skip) dataset False) (\<lambda>result.
     if pr_rows result = [] then go_ret (result\<lparr>pr_complete := True\<rparr>)
     else go_ret (result\<lparr>pr_has_more :=
       int (length (pr_rows result)) \<ge> incremental_top 200 (b_incremental_top (cfg_bridge cfg))\<rparr>))"

section \<open>Spark\<close>

definition Spark_fetchPage ::
  "(json \<Rightarrow> string) \<Rightarrow> sync_config \<Rightarrow> string \<Rightarrow> url_values \<Rightarrow> string \<Rightarrow> bool \<Rightarrow> ('z fdb_scheme, page_result) go" where
  "Spark_fetchPage sprint cfg fetchURL query dataset replication =
     (if s_access_token (cfg_spark cfg) = [] then go_fail (Err ''SPARK_ACCESS_TOKEN is not configured'')
      else let reqURL = request_url fetchURL query in
        go_bind (http_get reqURL) (\<lambda>resp.
          lift_result (read_page sprint fetchURL reqURL dataset replication
            (incremental_top 1000 (s_incremental_top (cfg_spark cfg))) resp)))"

definition spark_top :: "int \<Rightarrow> int" where
  "spark_top n = (let t = incremental_top 1000 n in if t > 1000 then 1000 else t)"

definition Spark_FetchReplicationPage ::
  "(json \<Rightarrow> string) \<Rightarrow> sync_config \<Rightarrow> sync_cursor \<Rightarrow> ('z fdb_scheme, page_result) go" where
  "Spark_FetchReplicationPage sprint cfg cursor = (case has_next cursor of
      Some u \<Rightarrow> Spark_fetchPage sprint cfg u [] (cur_dataset cursor) True
    | None \<Rightarrow> go_bind go_now (\<lambda>now.
        Spark_fetchPage sprint cfg (Spark_propertyCollectionURL (cfg_spark cfg))
          (Spark_applySyncExpand (cfg_mls cfg) True
            (query_set ''$top'' (show_int (spark_top (s_replication_top (cfg_spark cfg))))
            (query_set ''$filter'' (SparkReplicationFilter cfg now) []))) (cur_dataset cursor) True))"

definition spark_incremental_filter :: "int \<Rightarrow> int \<Rightarrow> string" where
  "spark_incremental_filter lo hi =
     ''('' @ activePendingStatusFilter @ '') and ModificationTimestamp gt '' @ fmt_utc lo @
     '' and ModificationTimestamp lt '' @ fmt_utc hi"

definition Spark_FetchIncrementalPage ::
  "(json \<Rightarrow> string) \<Rightarrow> sync_config \<Rightarrow> sync_cursor \<Rightarrow> int \<Rightarrow> ('z fdb_scheme, page_result) go" where
  "Spark_FetchIncrementalPage sprint cfg cursor skip = (case last_modification cursor of
      None \<Rightarrow> go_ret (empty_result\<lparr>pr_complete := True\<rparr>)
    | Some since \<Rightarrow>
        go_bind (case window_end cursor of Some w \<Rightarrow> go_ret w | None \<Rightarrow> go_now) (\<lambda>windowEnd.
        go_bind (Spark_fetchPage sprint cfg (Spark_propertyCollectionURL (cfg_spark cfg))
          (Spark_applySyncExpand (cfg_mls cfg) False
            (query_set ''$skip'' (show_int skip)
            (query_set ''$top'' (show_int (spark_top (s_incremental_top (cfg_spark cfg))))
            (query_set ''$orderby'' ''ModificationTimestamp asc''
            (query_set ''$filter'' (spark_incremental_filter since windowEnd) []))))) (cur_dataset cursor) False) (\<lambda>result.
        go_ret (if window_end cursor = None then result\<lparr>pr_window_end := Some windowEnd\<rparr> else result))))"

section \<open>The next page\<close>

lemma trim_space_subset: "set (trim_space s) \<subseteq> set s"
proof -
  have "set (trim_right p t) \<subseteq> set t" for p t
    by (auto simp: trim_right_def dest: set_dropWhileD)
  moreover have "set (trim_left p t) \<subseteq> set t" for p t
    by (auto simp: trim_left_def dest: set_dropWhileD)
  ultimately show ?thesis unfolding trim_space_def trim_both_def by blast
qed

lemma link_match_no_open: "CHR ''<'' \<notin> set s \<Longrightarrow> link_match s = None"
  by (induction s rule: link_match.induct) (auto simp: link_match_at_def)

lemma link_rel_next_Nil: "\<not> link_rel_next []"
  by (simp add: link_rel_next_def after_def has_prefix_def)

lemma link_match_no_close: "CHR ''>'' \<notin> set s \<Longrightarrow> link_match s = None"
proof (induction s rule: link_match.induct)
  case (2 c s)
  then have "takeWhile (\<lambda>c. c \<noteq> CHR ''>'') s = s" by (auto simp: takeWhile_eq_all_conv)
  then have "drop (length (takeWhile (\<lambda>c. c \<noteq> CHR ''>'') s)) s = []" by (metis drop_all order_refl)
  then have "link_match_at (c # s) = None" by (simp add: link_match_at_def Let_def link_rel_next_Nil)
  with 2 show ?case by simp
qed simp

lemma split_char_none: "c \<notin> set s \<Longrightarrow> split_char c s = [s]"
  by (induction c s rule: split_char.induct) (auto split: list.splits)

lemma split_char_not_Nil [simp]: "split_char c s \<noteq> []"
  by (induction c s rule: split_char.induct) (auto split: list.splits)

lemma split_char_append:
  "c \<notin> set a \<Longrightarrow> split_char c (a @ s) = (case split_char c s of [] \<Rightarrow> [a] | x # xs \<Rightarrow> (a @ x) # xs)"
  by (induction a) (auto split: list.splits)

lemma split_char_Cons: "split_char c (c # s) = [] # split_char c s"
  by simp

lemma set_split_char: "x \<in> set (split_char c s) \<Longrightarrow> set x \<subseteq> set s"
  by (induction c s arbitrary: x rule: split_char.induct) (fastforce split: list.splits if_splits)+

definition next_link :: "string \<Rightarrow> string" where
  "next_link u = CHR ''<'' # u @ ''>; rel='' @ [CHR 0x22] @ ''next'' @ [CHR 0x22]"

lemma link_match_next:
  assumes "u \<noteq> []" "CHR ''>'' \<notin> set u"
  shows "link_match (next_link u) = Some u"
proof -
  have "takeWhile (\<lambda>c. c \<noteq> CHR ''>'') (u @ CHR ''>'' # w) = u" for w
    using assms(2) by (subst takeWhile_append2) auto
  moreover have "link_rel_next (''>; rel='' @ [CHR 0x22] @ ''next'' @ [CHR 0x22])"
    by (simp add: link_rel_next_def after_def has_prefix_def re_space_def)
  ultimately show ?thesis
    using assms(1) by (simp add: next_link_def link_match_at_def Let_def)
qed

text \<open>The next page is found in the Link header exactly when its URL has no comma: the header is
  split at commas before it is matched, so a URL with a comma in it (an OData \<^verbatim>\<open>$select\<close> or \<^verbatim>\<open>$expand\<close> list)
  is cut apart and only the link in the body is left.\<close>

theorem next_link_lost_at_comma:
  assumes "u \<noteq> []" and "CHR ''<'' \<notin> set u" and "CHR ''>'' \<notin> set u" and "trim_space (next_link u) = next_link u"
  shows "extractNextURL (next_link u) body = (if CHR '','' \<in> set u then body_next_link body else Some u)"
proof (cases "CHR '','' \<in> set u")
  case False
  then have "split_char CHR '','' (next_link u) = [next_link u]"
    by (intro split_char_none) (simp add: next_link_def)
  with False assms link_match_next [OF assms(1,3)] show ?thesis
    by (simp add: extractNextURL_def List.map_filter_simps next_link_def)
next
  case True
  then obtain a b where u: "u = a @ CHR '','' # b" "CHR '','' \<notin> set a" by (meson split_list_first)
  define rest where "rest = b @ ''>; rel='' @ [CHR 0x22] @ ''next'' @ [CHR 0x22]"
  have sp: "split_char CHR '','' (next_link u) = (CHR ''<'' # a) # split_char CHR '','' rest"
    using split_char_append [of "CHR '',''" "CHR ''<'' # a" "CHR '','' # rest"] u by (simp add: next_link_def rest_def)
  have "CHR ''>'' \<notin> set (trim_space (CHR ''<'' # a))"
    using assms(3) u trim_space_subset [of "CHR ''<'' # a"] by auto
  then have "link_match (trim_space (CHR ''<'' # a)) = None" by (rule link_match_no_close)
  moreover have "link_match (trim_space seg) = None" if "seg \<in> set (split_char CHR '','' rest)" for seg
  proof (rule link_match_no_open)
    have "CHR ''<'' \<notin> set rest" using assms(2) u by (simp add: rest_def)
    with set_split_char [OF that] trim_space_subset [of seg] show "CHR ''<'' \<notin> set (trim_space seg)" by blast
  qed
  then have "List.map_filter (\<lambda>seg. link_match (trim_space seg)) (split_char CHR '','' rest) = []"
    by (auto simp: map_filter_def filter_empty_conv)
  ultimately show ?thesis
    using True by (simp add: extractNextURL_def sp List.map_filter_simps)
qed

theorem next_link_lost_at_comma_witness:
  "extractNextURL (next_link ''h?$select=A,B'') RawEmpty = None"
proof -
  have "extractNextURL (next_link ''h?$select=A,B'') RawEmpty =
      (if CHR '','' \<in> set ''h?$select=A,B'' then body_next_link RawEmpty else Some ''h?$select=A,B'')"
    by (rule next_link_lost_at_comma)
      (simp_all add: next_link_def trim_space_def trim_both_def trim_left_def trim_right_def is_space_def)
  then show ?thesis by (simp add: body_next_link_def struct_fields_def)
qed

section \<open>The newest modification\<close>

definition row_times :: "(json \<Rightarrow> string) \<Rightarrow> string \<Rightarrow> raw_message list \<Rightarrow> int set" where
  "row_times sp ds rows = {t. \<exists>raw \<in> set rows. \<exists>row. unmarshal_map raw = Some row \<and> ResolveModificationTimestamp sp ds row = Some t}"

lemma finite_row_times: "finite (row_times sp ds rows)"
proof -
  have "row_times sp ds rows \<subseteq> (\<lambda>raw. the (ResolveModificationTimestamp sp ds (the (unmarshal_map raw)))) ` set rows"
    by (force simp: row_times_def image_iff)
  then show ?thesis by (rule finite_subset) simp
qed

text \<open>The time a page advances the cursor to is the latest modification time among its rows, and
  none exactly when no row has one.\<close>

theorem max_modification_is_maximum:
  "maxModificationTimestampFromRows sp ds rows =
     (if row_times sp ds rows = {} then None else Some (Max (row_times sp ds rows)))"
proof (induction rows rule: rev_induct)
  case Nil
  then show ?case by (simp add: maxModificationTimestampFromRows_def row_times_def)
next
  case (snoc raw rows)
  let ?S = "row_times sp ds rows"
  define ts where "ts = (case unmarshal_map raw of None \<Rightarrow> None | Some row \<Rightarrow> ResolveModificationTimestamp sp ds row)"
  have S: "row_times sp ds (rows @ [raw]) = (case ts of None \<Rightarrow> ?S | Some t \<Rightarrow> insert t ?S)"
    by (auto simp: row_times_def ts_def split: option.splits)
  have "maxModificationTimestampFromRows sp ds (rows @ [raw]) = later (maxModificationTimestampFromRows sp ds rows) ts"
    by (simp add: maxModificationTimestampFromRows_def ts_def later_def split: option.split)
  with snoc S finite_row_times [of sp ds rows] show ?case
    by (cases "?S = {}"; cases ts) (simp_all add: later_def max_def del: Max_less_iff)
qed

section \<open>Pacing\<close>

lemma limiter_wait_frame: "\<exists>t ds. snd (limiter_wait r s) = s\<lparr>clock := t, delays := ds\<rparr>"
proof (cases r)
  case None
  then show ?thesis by (intro exI [of _ "clock s"] exI [of _ "delays s"]) (simp add: limiter_wait_def go_simps)
next
  case (Some l)
  obtain t1 d1 where n1: "go_now s = (Inr t1, s\<lparr>clock := t1, delays := d1\<rparr>)" by (rule go_now_update)
  define w where "w = (case rl_last l of None \<Rightarrow> s
    | Some t0 \<Rightarrow> if 0 < rl_min_interval l - (t1 - t0)
        then s\<lparr>delays := d1, clock := t1 + (rl_min_interval l - (t1 - t0))\<rparr> else s\<lparr>clock := t1, delays := d1\<rparr>)"
  obtain t2 d2 where n2: "go_now w = (Inr t2, w\<lparr>clock := t2, delays := d2\<rparr>)" by (rule go_now_update)
  have "snd (limiter_wait r s) = w\<lparr>clock := t2, delays := d2\<rparr>"
    using n1 n2 Some by (cases "rl_last l") (auto simp: limiter_wait_def go_simps w_def sleep_for_def Let_def split: if_splits)
  moreover have "w\<lparr>clock := t2, delays := d2\<rparr> = s\<lparr>clock := t2, delays := d2\<rparr>"
    by (simp add: w_def split: option.split)
  ultimately show ?thesis by auto
qed

lemma limiter_step_run:
  assumes "bridge_limiter s = Some l"
  obtains t s' where "limiter_step s = (Inr (), s')" "clock s \<le> t" "clock s' = t" "http_log s' = http_log s"
    "http_replies s' = http_replies s" "bridge_limiter s' = Some (l\<lparr>rl_last := Some t\<rparr>)"
    "\<And>t0. rl_last l = Some t0 \<Longrightarrow> t0 + rl_min_interval l \<le> t"
proof -
  obtain r s1 where run: "limiter_wait (Some l) s = (r, s1)" by fastforce
  from limiter_wait_run [OF run] obtain t where t: "r = Inr (Some (l\<lparr>rl_last := Some t\<rparr>))" "clock s \<le> t" "clock s1 = t"
    "\<And>t0. rl_last l = Some t0 \<Longrightarrow> t0 + rl_min_interval l \<le> t" by auto
  from limiter_wait_frame [of "Some l" s] run obtain c ds where "s1 = s\<lparr>clock := c, delays := ds\<rparr>" by auto
  with t run assms that [of "s1\<lparr>bridge_limiter := Some (l\<lparr>rl_last := Some t\<rparr>)\<rparr>" t] show thesis
    by (simp add: limiter_step_def)
qed

lemma http_get_run:
  assumes "http_get u s = (r, s')"
  shows "\<exists>t. clock s \<le> t \<and> clock s' = t \<and> http_log s' = http_log s @ [(t, u)] \<and> bridge_limiter s' = bridge_limiter s"
proof -
  obtain t ds where "go_now s = (Inr t, s\<lparr>clock := t, delays := ds\<rparr>)" "clock s \<le> t" by (rule go_now_update)
  with assms show ?thesis
    by (auto simp: http_get_def go_simps Let_def split: list.splits http_reply.splits)
qed

lemma fetch_attempts_paced:
  assumes "fetch_attempts n k u s = (r, s')" "bridge_limiter s = Some l" "clock s \<le> e" "\<forall>t0. rl_last l = Some t0 \<longrightarrow> e \<le> max (clock s) (t0 + rl_min_interval l)"
    "rl_last l = None \<longrightarrow> e = clock s"
  shows "\<exists>reqs l'. http_log s' = http_log s @ reqs \<and> length reqs \<le> n \<and> (\<forall>q \<in> set reqs. snd q = u) \<and>
     bridge_limiter s' = Some l' \<and> rl_min_interval l' = rl_min_interval l \<and> clock s \<le> clock s' \<and>
     (reqs \<noteq> [] \<longrightarrow> e + int (length reqs - 1) * rl_min_interval l \<le> clock s')"
  using assms
proof (induction n arbitrary: k s l e)
  case 0
  then show ?case by (auto simp: go_simps)
next
  case (Suc n)
  obtain g s1 where ls: "limiter_step s = (Inr (), s1)" "clock s \<le> g" "clock s1 = g" "http_log s1 = http_log s"
      "bridge_limiter s1 = Some (l\<lparr>rl_last := Some g\<rparr>)" and sp: "\<And>t0. rl_last l = Some t0 \<Longrightarrow> t0 + rl_min_interval l \<le> g"
    using limiter_step_run [OF Suc.prems(2)] by metis
  have eg: "e \<le> g" using Suc.prems(3-) ls(2) sp by (cases "rl_last l") force+
  obtain r2 s2 where hg: "http_get u s1 = (r2, s2)" by fastforce
  from http_get_run [OF this] ls obtain t where t: "g \<le> t" "clock s2 = t" "http_log s2 = http_log s @ [(t, u)]"
      "bridge_limiter s2 = Some (l\<lparr>rl_last := Some g\<rparr>)" by auto
  show ?case
  proof (cases "\<exists>resp. r2 = Inr resp \<and> (http_status resp = 429 \<or> http_status resp = 503) \<and> n \<noteq> 0")
    case False
    then have "s' = s2" using Suc.prems(1) ls(1) hg by (auto simp: go_simps split: sum.splits if_splits)
    with t eg ls(2) show ?thesis by (intro exI [of _ "[(t, u)]"] exI [of _ "l\<lparr>rl_last := Some g\<rparr>"]) auto
  next
    case True
    define s3 where "s3 = s2\<lparr>clock := clock s2 + int (Suc k) * (second div 2)\<rparr>"
    have rec: "fetch_attempts n (Suc k) u s3 = (r, s')"
      using Suc.prems(1) ls(1) hg True by (auto simp: go_simps sleep_for_def s3_def split: sum.splits if_splits)
    have c3: "t \<le> clock s3" using t(2) by (simp add: s3_def second_def)
    define e3 where "e3 = max (clock s3) (g + rl_min_interval l)"
    have "\<exists>reqs l'. http_log s' = http_log s3 @ reqs \<and> length reqs \<le> n \<and> (\<forall>q \<in> set reqs. snd q = u) \<and>
      bridge_limiter s' = Some l' \<and> rl_min_interval l' = rl_min_interval (l\<lparr>rl_last := Some g\<rparr>) \<and> clock s3 \<le> clock s' \<and>
      (reqs \<noteq> [] \<longrightarrow> e3 + int (length reqs - 1) * rl_min_interval (l\<lparr>rl_last := Some g\<rparr>) \<le> clock s')"
      by (rule Suc.IH [OF rec]) (use t(4) in \<open>auto simp: s3_def e3_def\<close>)
    then obtain reqs l' where q: "http_log s' = http_log s @ (t, u) # reqs" "length reqs \<le> n" "\<forall>q \<in> set reqs. snd q = u"
      "bridge_limiter s' = Some l'" "rl_min_interval l' = rl_min_interval l" "clock s3 \<le> clock s'"
      "reqs \<noteq> [] \<Longrightarrow> e3 + int (length reqs - 1) * rl_min_interval l \<le> clock s'"
      using t(3) by (auto simp: s3_def)
    have "e + int (length reqs) * rl_min_interval l \<le> clock s'"
    proof (cases reqs)
      case Nil
      with q(6) c3 t(1) eg show ?thesis by simp
    next
      case (Cons a as)
      with q(7) eg have "e + rl_min_interval l + int (length as) * rl_min_interval l \<le> clock s'" by (simp add: e3_def)
      with Cons show ?thesis by (simp add: algebra_simps)
    qed
    with q c3 t ls(2) show ?thesis
      by (intro exI [of _ "(t, u) # reqs"] exI [of _ l']) auto
  qed
qed

text \<open>Fetching a Bridge page keeps to the configured pace: one call makes at most the configured
  number of attempts, all for the same URL, and \<open>n\<close> requests take at least \<open>n - 1\<close> times the interval
  that the request rate allows, whatever the provider answers and however long each step takes.\<close>

theorem bridge_fetch_keeps_pace:
  assumes "bridge_limiter s = Some l"
    and "Bridge_fetchPage sp cfg url query ds replication s = (r, s')"
  shows "\<exists>reqs. http_log s' = http_log s @ reqs \<and> length reqs \<le> max_attempts (cfg_bridge cfg) \<and>
     (\<forall>q \<in> set reqs. snd q = request_url url query) \<and>
     (reqs \<noteq> [] \<longrightarrow> int (length reqs - 1) * rl_min_interval l \<le> clock s' - clock s)"
proof (cases "b_api_key (cfg_bridge cfg) = []")
  case True
  with assms show ?thesis by (auto simp: Bridge_fetchPage_def go_simps)
next
  case False
  obtain r1 s1 where f: "fetch_attempts (max_attempts (cfg_bridge cfg)) 0 (request_url url query) s = (r1, s1)" by fastforce
  have "s' = s1"
    using assms(2) False f by (auto simp: Bridge_fetchPage_def go_simps Let_def lift_result_def split: sum.splits)
  moreover have "\<exists>reqs l'. http_log s1 = http_log s @ reqs \<and> length reqs \<le> max_attempts (cfg_bridge cfg) \<and>
     (\<forall>q \<in> set reqs. snd q = request_url url query) \<and>
     bridge_limiter s1 = Some l' \<and> rl_min_interval l' = rl_min_interval l \<and> clock s \<le> clock s1 \<and>
     (reqs \<noteq> [] \<longrightarrow> clock s + int (length reqs - 1) * rl_min_interval l \<le> clock s1)"
    by (rule fetch_attempts_paced [OF f assms(1)]) auto
  ultimately show ?thesis by (elim exE conjE) (auto simp: algebra_simps)
qed

definition demo_fetch :: fdb where
  "demo_fetch = sdb.extend demo_sync \<lparr>http_replies = [HttpReply \<lparr>http_status = 429, http_link = [], http_body = RawEmpty\<rparr>],
     http_log = [], bridge_limiter = newSyncRateLimiter 2\<rparr>"

theorem bridge_fetch_keeps_pace_witness:
  "\<exists>reqs. http_log (snd (Bridge_fetchPage (\<lambda>_. []) demo_sync_config ''https://h'' [] ''stellar'' True demo_fetch)) = reqs \<and>
     length reqs \<le> 4"
proof -
  have "bridge_limiter demo_fetch = Some \<lparr>rl_min_interval = second div 2, rl_last = None\<rparr>"
    by (simp add: demo_fetch_def newSyncRateLimiter_def sdb.defs)
  from bridge_fetch_keeps_pace [OF this prod.collapse [symmetric], of "\<lambda>_. []" demo_sync_config "''https://h''" "[]" "''stellar''" True]
  show ?thesis by (auto simp: demo_fetch_def sdb.defs max_attempts_def demo_sync_config_def)
qed

end
