(* ===== verification/Sync_Workers.thy ===== *)
theory Sync_Workers
  imports Sync_Fetch
begin

text \<open>
  The replication workers (\<^verbatim>\<open>internal/service/sync\<close>: \<^verbatim>\<open>bridge_worker.go\<close>, \<^verbatim>\<open>spark_worker.go\<close>) and the FEMA kickoff
  they trigger (\<^verbatim>\<open>internal/service/fema/enrich.go\<close>). A fetch job reads one page, stages it and enqueues one
  persist job per chunk as a batch; the batch's completion job applies the cursor patch, drops the
  page and enqueues the next fetch. The two workers share most of their code line by line: the
  shared part is written once over a record \<open>worker_kind\<close> of the queue names, job types and sizes in
  which they differ.
\<close>

section \<open>Job arguments\<close>

record persist_chunk_args =
  ca_page :: int
  ca_index :: int
  ca_total :: int
  ca_dataset :: string

definition enc_chunk_args :: "persist_chunk_args \<Rightarrow> json" where
  "enc_chunk_args a = JObj [(''replica_page_id'', JNum (of_int (ca_page a))), (''chunk_index'', JNum (of_int (ca_index a))),
     (''chunk_total'', JNum (of_int (ca_total a))), (''dataset'', JStr (ca_dataset a))]"

definition zero_chunk_args :: persist_chunk_args where
  "zero_chunk_args = \<lparr>ca_page = 0, ca_index = 0, ca_total = 0, ca_dataset = []\<rparr>"

definition dec_chunk_args :: "persist_chunk_args \<Rightarrow> json \<Rightarrow> persist_chunk_args option" where
  "dec_chunk_args acc v = (case v of
      JNull \<Rightarrow> Some acc
    | JObj kvs \<Rightarrow> (case (decode_field dec_int (ca_page acc) ''replica_page_id'' kvs, decode_field dec_int (ca_index acc) ''chunk_index'' kvs,
          decode_field dec_int (ca_total acc) ''chunk_total'' kvs, decode_field dec_string (ca_dataset acc) ''dataset'' kvs) of
        (Some p, Some i, Some t, Some d) \<Rightarrow> Some \<lparr>ca_page = p, ca_index = i, ca_total = t, ca_dataset = d\<rparr>
      | _ \<Rightarrow> None)
    | _ \<Rightarrow> None)"

text \<open>The arguments of a batch child: \<^verbatim>\<open>{"batch_id": ..., "job": ...}\<close>.\<close>

definition dec_chunk_wrapper :: "json option \<Rightarrow> persist_chunk_args option" where
  "dec_chunk_wrapper raw = (case raw of None \<Rightarrow> None | Some j \<Rightarrow>
     (case struct_fields (RawJson j) of None \<Rightarrow> None | Some kvs \<Rightarrow>
       (case (decode_field dec_string [] ''batch_id'' kvs, decode_field dec_chunk_args zero_chunk_args ''job'' kvs) of
          (Some _, Some a) \<Rightarrow> Some a | _ \<Rightarrow> None)))"

record finalize_args =
  za_page :: "int option"
  za_dataset :: string
  za_apply_state :: bool
  za_next_url :: "string option"
  za_in_progress :: "bool option"
  za_max_mod :: "string option"
  za_window_end :: "string option"
  za_mark_finished :: bool
  za_dispatch_incremental :: bool
  za_next_mode :: "string option"
  za_next_skip :: int
  za_next_depth :: int

definition enc_finalize_args :: "finalize_args \<Rightarrow> json" where
  "enc_finalize_args a = JObj (
     enc_opt ''replica_page_id'' (\<lambda>n. JNum (of_int n)) (za_page a) @
     [(''dataset'', JStr (za_dataset a))] @
     enc_bool_omit ''apply_replication_state'' (za_apply_state a) @
     enc_opt ''replication_next_url'' JStr (za_next_url a) @
     enc_opt ''replication_in_progress'' JBool (za_in_progress a) @
     enc_opt ''max_modification_ts'' JStr (za_max_mod a) @
     enc_opt ''incremental_window_end'' JStr (za_window_end a) @
     enc_bool_omit ''mark_sync_finished'' (za_mark_finished a) @
     enc_bool_omit ''dispatch_incremental_after'' (za_dispatch_incremental a) @
     enc_opt ''next_fetch_mode'' JStr (za_next_mode a) @
     enc_int_omit ''next_incremental_skip'' (za_next_skip a) @
     enc_int_omit ''next_chain_depth'' (za_next_depth a))"

definition dec_finalize_args :: "json option \<Rightarrow> finalize_args option" where
  "dec_finalize_args raw = (case raw of None \<Rightarrow> None | Some j \<Rightarrow>
     (case struct_fields (RawJson j) of None \<Rightarrow> None | Some kvs \<Rightarrow>
       (case (decode_field (dec_ptr 0 dec_int) None ''replica_page_id'' kvs, decode_field dec_string [] ''dataset'' kvs,
              decode_field dec_bool False ''apply_replication_state'' kvs, decode_field (dec_ptr [] dec_string) None ''replication_next_url'' kvs,
              decode_field (dec_ptr False dec_bool) None ''replication_in_progress'' kvs, decode_field (dec_ptr [] dec_string) None ''max_modification_ts'' kvs,
              decode_field (dec_ptr [] dec_string) None ''incremental_window_end'' kvs, decode_field dec_bool False ''mark_sync_finished'' kvs,
              decode_field dec_bool False ''dispatch_incremental_after'' kvs, decode_field (dec_ptr [] dec_string) None ''next_fetch_mode'' kvs,
              decode_field dec_int 0 ''next_incremental_skip'' kvs, decode_field dec_int 0 ''next_chain_depth'' kvs) of
          (Some pg, Some ds, Some ap, Some nu, Some ip, Some mm, Some we, Some mf, Some di, Some nm, Some ns, Some nd) \<Rightarrow>
            Some \<lparr>za_page = pg, za_dataset = ds, za_apply_state = ap, za_next_url = nu, za_in_progress = ip, za_max_mod = mm,
              za_window_end = we, za_mark_finished = mf, za_dispatch_incremental = di, za_next_mode = nm, za_next_skip = ns, za_next_depth = nd\<rparr>
        | _ \<Rightarrow> None)))"

section \<open>FEMA kickoff\<close>

text \<open>\<^verbatim>\<open>payload::jsonb->>'type'\<close>: the cast fails on a payload that is not JSON; a later duplicate key wins.\<close>

definition payload_type_text :: "raw_message \<Rightarrow> string option option" where
  "payload_type_text raw = (case raw of
      RawJson (JObj kvs) \<Rightarrow> Some (case map_of (gomap_of kvs) ''type'' of Some (JStr t) \<Rightarrow> Some t | _ \<Rightarrow> None)
    | RawJson _ \<Rightarrow> Some None
    | _ \<Rightarrow> None)"

definition fema_active :: "int \<Rightarrow> job_row \<Rightarrow> bool" where
  "fema_active now j \<longleftrightarrow>
     (case payload_type_text (job_payload j) of
        Some (Some t) \<Rightarrow> t \<in> {''fema.flood_enrich_kickoff'', ''fema.flood_enrich_batch''}
      | _ \<Rightarrow> False) \<and>
     (case reserved_at j of None \<Rightarrow> True | Some r \<Rightarrow> r > unix now - 7200)"

definition HasActiveFloodEnrichJob :: "('z sdb_scheme, bool) go" where
  "HasActiveFloodEnrichJob = go_bind go_now (\<lambda>now. sql (\<lambda>s.
     if \<exists>j \<in> set (jobs s). payload_type_text (job_payload j) = None then None
     else Some (\<exists>j \<in> set (jobs s). fema_active now j, s)))"

definition EnqueueKickoffIfAbsent :: "client \<Rightarrow> string \<Rightarrow> string \<Rightarrow> ('z sdb_scheme, unit) go" where
  "EnqueueKickoffIfAbsent c enrichQueue datasetSlug =
     go_bind HasActiveFloodEnrichJob (\<lambda>active.
     if active then go_ret ()
     else go_bind (Enqueue c enrichQueue ''fema.flood_enrich_kickoff''
            (Some (JObj (enc_str_omit ''dataset_slug'' datasetSlug))) 0) (\<lambda>_. go_ret ()))"

section \<open>Workers\<close>

record sync_worker =
  sw_cfg :: sync_config
  sw_client :: client
  sw_fema :: "string option"

record worker_kind =
  wk_name :: string
  wk_provider :: mirror_provider
  wk_fetch_queue :: string
  wk_persist_queue :: string
  wk_fetch_type :: string
  wk_chunk_type :: string
  wk_finalize_type :: string
  wk_batch_name :: string
  wk_chunk_size :: int
  wk_writer :: mirror_writer

definition bridge_kind :: "sync_config \<Rightarrow> worker_kind" where
  "bridge_kind cfg = \<lparr>wk_name = ''bridge'', wk_provider = Bridge,
     wk_fetch_queue = b_fetch_queue (cfg_bridge cfg), wk_persist_queue = b_persist_queue (cfg_bridge cfg),
     wk_fetch_type = ''bridge.fetch_page'', wk_chunk_type = ''bridge.persist_chunk'', wk_finalize_type = ''bridge.persist_finalize'',
     wk_batch_name = ''bridge-replica-persist:'', wk_chunk_size = b_persist_chunk (cfg_bridge cfg),
     wk_writer = NewListingMirrorWriter (b_upsert_chunk (cfg_bridge cfg)) (sync_expand (cfg_mls cfg)) (b_expand (cfg_bridge cfg))\<rparr>"

definition spark_kind :: "sync_config \<Rightarrow> worker_kind" where
  "spark_kind cfg = \<lparr>wk_name = ''spark'', wk_provider = Spark,
     wk_fetch_queue = s_fetch_queue (cfg_spark cfg), wk_persist_queue = s_persist_queue (cfg_spark cfg),
     wk_fetch_type = ''spark.fetch_page'', wk_chunk_type = ''spark.persist_chunk'', wk_finalize_type = ''spark.persist_finalize'',
     wk_batch_name = ''spark-replica-persist:'',
     wk_chunk_size = (if beaches_persist_chunk (cfg_mls cfg) > 0 then beaches_persist_chunk (cfg_mls cfg) else s_persist_chunk (cfg_spark cfg)),
     wk_writer = NewListingMirrorWriter (if s_upsert_chunk (cfg_spark cfg) \<le> 0 then 250 else s_upsert_chunk (cfg_spark cfg))
       (sync_expand (cfg_mls cfg)) (b_expand (cfg_bridge cfg))\<rparr>"

definition fema_kickoff :: "sync_worker \<Rightarrow> ('z sdb_scheme, unit) go" where
  "fema_kickoff w = (case sw_fema w of None \<Rightarrow> go_ret ()
     | Some q \<Rightarrow> go_ignore (EnqueueKickoffIfAbsent (sw_client w) q []))"

section \<open>What follows a page\<close>

type_synonym plan = "cursor_patch \<times> bool \<times> fetch_args option"

definition next_fetch :: "fetch_args \<Rightarrow> string \<Rightarrow> int \<Rightarrow> fetch_args" where
  "next_fetch args mode skip = \<lparr>fa_dataset = fa_dataset args, fa_mode = mode, fa_skip = skip, fa_depth = fa_depth args + 1\<rparr>"

definition replication_patch :: "page_result \<Rightarrow> cursor_patch" where
  "replication_patch result = empty_patch\<lparr>cp_apply_state := True, cp_next_url := pr_next_url result,
     cp_in_progress := Some (\<not> pr_complete result), cp_max_modification := pr_max_mod result\<rparr>"

definition chain_continues :: "page_result \<Rightarrow> bool" where
  "chain_continues result \<longleftrightarrow> \<not> pr_complete result \<and>
     (case pr_next_url result of Some u \<Rightarrow> u \<noteq> [] | None \<Rightarrow> False)"

definition Bridge_continuationPlan :: "sync_config \<Rightarrow> fetch_args \<Rightarrow> page_result \<Rightarrow> plan" where
  "Bridge_continuationPlan cfg args result =
     (let bridgeTop = incremental_top 200 (b_incremental_top (cfg_bridge cfg));
          skip = fa_skip args + bridgeTop;
          dispatchMod = (pr_max_mod result \<noteq> None) in
      if fa_mode args = ''replication'' then
        (if chain_continues result then (replication_patch result, False, Some (next_fetch args ''replication'' 0))
         else if pr_complete result \<and> b_nav_hydrate (cfg_bridge cfg)
         then (replication_patch result, False, Some (next_fetch args ''nav_hydrate'' 0))
         else (replication_patch result, pr_complete result \<and> dispatchMod, None))
      else if fa_mode args = ''nav_hydrate'' then
        (let patch = empty_patch\<lparr>cp_max_modification := pr_max_mod result\<rparr> in
         if pr_has_more result then
           (if skip \<ge> 10000 then (patch, dispatchMod, None)
            else (patch, False, Some (next_fetch args ''nav_hydrate'' skip)))
         else (patch, dispatchMod, None))
      else
        (let patch = empty_patch\<lparr>cp_max_modification := pr_max_mod result, cp_mark_finished := \<not> pr_has_more result\<rparr> in
         if pr_has_more result then
           (if skip \<ge> 10000 then (patch, False, None)
            else (patch, False, Some (next_fetch args ''incremental'' skip)))
         else (patch, False, None)))"

definition Spark_continuationPlan :: "sync_config \<Rightarrow> fetch_args \<Rightarrow> page_result \<Rightarrow> plan" where
  "Spark_continuationPlan cfg args result =
     (let sparkTop = incremental_top 1000 (s_incremental_top (cfg_spark cfg));
          skip = fa_skip args + sparkTop in
      if fa_mode args = ''replication'' then
        (let patch = (replication_patch result)\<lparr>cp_window_end := pr_window_end result\<rparr> in
         if chain_continues result then (patch, False, Some (next_fetch args ''replication'' 0))
         else (patch, pr_complete result \<and> pr_max_mod result \<noteq> None, None))
      else
        (let patch = empty_patch\<lparr>cp_window_end := pr_window_end result, cp_max_modification := pr_max_mod result,
               cp_mark_finished := \<not> pr_has_more result\<rparr> in
         if pr_has_more result then
           (if skip \<ge> 10000 then (patch, False, None)
            else (patch, False, Some (next_fetch args ''incremental'' skip)))
         else (patch, False, None)))"

definition buildFinalizeArgs :: "string \<Rightarrow> int option \<Rightarrow> plan \<Rightarrow> finalize_args" where
  "buildFinalizeArgs dataset pageID p = (case p of (patch, dispatchIncremental, nextFetch) \<Rightarrow>
     \<lparr>za_page = pageID, za_dataset = dataset, za_apply_state = cp_apply_state patch,
      za_next_url = (if cp_apply_state patch then cp_next_url patch else None),
      za_in_progress = (if cp_apply_state patch then cp_in_progress patch else None),
      za_max_mod = map_option fmt_utc (cp_max_modification patch),
      za_window_end = map_option fmt_utc (cp_window_end patch),
      za_mark_finished = cp_mark_finished patch,
      za_dispatch_incremental = dispatchIncremental,
      za_next_mode = map_option fa_mode nextFetch,
      za_next_skip = (case nextFetch of None \<Rightarrow> 0 | Some n \<Rightarrow> fa_skip n),
      za_next_depth = (case nextFetch of None \<Rightarrow> 0 | Some n \<Rightarrow> fa_depth n)\<rparr>)"

section \<open>Staging a page\<close>

definition enqueue_finalize :: "sync_worker \<Rightarrow> worker_kind \<Rightarrow> finalize_args \<Rightarrow> ('z sdb_scheme, unit) go" where
  "enqueue_finalize w k args =
     go_bind (Enqueue (sw_client w) (wk_persist_queue k) (wk_finalize_type k) (Some (enc_finalize_args args)) 0) (\<lambda>_. go_ret ())"

definition chunk_jobs :: "worker_kind \<Rightarrow> string \<Rightarrow> int \<Rightarrow> nat \<Rightarrow> batch_job list" where
  "chunk_jobs k dataset pageID chunkTotal = map (\<lambda>i. \<lparr>bj_type = wk_chunk_type k, bj_args = Some (enc_chunk_args
     \<lparr>ca_page = pageID, ca_index = int i, ca_total = int chunkTotal, ca_dataset = dataset\<rparr>)\<rparr>) [1..<Suc chunkTotal]"

definition dispatchPersistBatch ::
  "sync_worker \<Rightarrow> worker_kind \<Rightarrow> string \<Rightarrow> string \<Rightarrow> page_result \<Rightarrow> plan \<Rightarrow> ('z sdb_scheme, unit) go" where
  "dispatchPersistBatch w k dataset mode result p =
     (if pr_rows result = [] then enqueue_finalize w k (buildFinalizeArgs dataset None p)
      else go_bind (StorePage (wk_name k) dataset mode (pr_rows result) (wk_chunk_size k)) (\<lambda>(pageID, chunkTotal).
        let finalizeArgs = buildFinalizeArgs dataset (Some pageID) p in
        if chunkTotal = 0 then enqueue_finalize w k finalizeArgs
        else go_bind (EnqueueBatch (sw_client w) \<lparr>bs_name = wk_batch_name k @ dataset, bs_queue = wk_persist_queue k,
            bs_jobs = chunk_jobs k dataset pageID chunkTotal,
            bs_on_complete = \<lparr>bj_type = wk_finalize_type k, bj_args = Some (enc_finalize_args finalizeArgs)\<rparr>\<rparr>) (\<lambda>batchID.
          MarkProcessing pageID batchID)))"

definition Bridge_dispatchPersistBatch ::
  "sync_worker \<Rightarrow> string \<Rightarrow> string \<Rightarrow> page_result \<Rightarrow> plan \<Rightarrow> ('z sdb_scheme, unit) go" where
  "Bridge_dispatchPersistBatch w = dispatchPersistBatch w (bridge_kind (sw_cfg w))"

definition Spark_dispatchPersistBatch ::
  "sync_worker \<Rightarrow> string \<Rightarrow> string \<Rightarrow> page_result \<Rightarrow> plan \<Rightarrow> ('z sdb_scheme, unit) go" where
  "Spark_dispatchPersistBatch w = dispatchPersistBatch w (spark_kind (sw_cfg w))"

section \<open>Fetch jobs\<close>

definition stop_chain :: cursor_patch where
  "stop_chain = empty_patch\<lparr>cp_apply_state := True, cp_next_url := None, cp_in_progress := Some False\<rparr>"

definition finish_sync :: "sync_worker \<Rightarrow> string \<Rightarrow> cursor_patch \<Rightarrow> ('z sdb_scheme, unit) go" where
  "finish_sync w dataset patch = go_bind (ApplyPatch dataset patch) (\<lambda>_. fema_kickoff w)"

definition mark_in_progress :: "fetch_args \<Rightarrow> page_result \<Rightarrow> ('z sdb_scheme, unit) go" where
  "mark_in_progress args result =
     (if fa_mode args = ''replication'' \<and> pr_rows result \<noteq> []
      then ApplyPatch (fa_dataset args) (empty_patch\<lparr>cp_in_progress := Some True\<rparr>) else go_ret ())"

definition Bridge_FetchPage :: "(json \<Rightarrow> string) \<Rightarrow> sync_worker \<Rightarrow> json option \<Rightarrow> ('z fdb_scheme, unit) go" where
  "Bridge_FetchPage sprint w jobArgs = (case dec_fetch_args jobArgs of
      None \<Rightarrow> go_fail (Err ''bad arguments'')
    | Some args \<Rightarrow>
     (let cfg = sw_cfg w; maxChain = b_max_chain (cfg_bridge cfg) in
      if fa_dataset args = [] then go_fail (Err ''bridge fetch: missing dataset'')
      else if maxChain > 0 \<and> fa_depth args \<ge> maxChain then go_ret ()
      else go_bind (ForDataset (fa_dataset args)) (\<lambda>cursor.
      if fa_mode args = ''incremental'' \<and> replication_in_progress cursor then go_ret ()
      else go_bind (skipReplicationFetchWhenPageActive ''bridge'' (fa_dataset args) (fa_mode args)) (\<lambda>skip.
      if skip then go_ret ()
      else go_bind
        (if fa_mode args = ''replication'' then Bridge_FetchReplicationPage sprint cfg (fa_dataset args) cursor
         else if fa_mode args = ''nav_hydrate'' then FetchNavHydratePage sprint cfg (fa_dataset args) (fa_skip args)
         else Bridge_FetchIncrementalPage sprint cfg (fa_dataset args) cursor (fa_skip args)) (\<lambda>result.
      if pr_forbidden result then ApplyPatch (fa_dataset args) stop_chain
      else if pr_http_error result then go_fail (Err ''bridge fetch http error'')
      else if pr_rows result = [] \<and> (fa_mode args = ''incremental'' \<or> fa_mode args = ''nav_hydrate'') \<and> \<not> pr_has_more result
      then finish_sync w (fa_dataset args) (empty_patch\<lparr>cp_mark_finished := True\<rparr>)
      else go_bind (mark_in_progress args result) (\<lambda>_.
        Bridge_dispatchPersistBatch w (fa_dataset args) (fa_mode args) result (Bridge_continuationPlan cfg args result)))))))"

definition Spark_FetchPage :: "(json \<Rightarrow> string) \<Rightarrow> sync_worker \<Rightarrow> json option \<Rightarrow> ('z fdb_scheme, unit) go" where
  "Spark_FetchPage sprint w jobArgs = (case dec_fetch_args jobArgs of
      None \<Rightarrow> go_fail (Err ''bad arguments'')
    | Some args \<Rightarrow>
     (let cfg = sw_cfg w; maxChain = s_max_chain (cfg_spark cfg) in
      if fa_dataset args = [] then go_fail (Err ''spark fetch: missing dataset'')
      else if maxChain > 0 \<and> fa_depth args \<ge> maxChain then go_ret ()
      else go_bind (ForDataset (fa_dataset args)) (\<lambda>cursor.
      if fa_mode args = ''incremental'' \<and> replication_in_progress cursor then go_ret ()
      else go_bind (skipReplicationFetchWhenPageActive ''spark'' (fa_dataset args) (fa_mode args)) (\<lambda>skip.
      if skip then go_ret ()
      else go_bind
        (if fa_mode args = ''replication'' then Spark_FetchReplicationPage sprint cfg cursor
         else Spark_FetchIncrementalPage sprint cfg cursor (fa_skip args)) (\<lambda>result.
      if pr_forbidden result then ApplyPatch (fa_dataset args) stop_chain
      else if pr_http_error result then go_fail (Err ''spark fetch http error'')
      else if pr_rows result = [] \<and> fa_mode args = ''incremental'' \<and> \<not> pr_has_more result
      then finish_sync w (fa_dataset args) (empty_patch\<lparr>cp_mark_finished := True, cp_window_end := pr_window_end result\<rparr>)
      else go_bind (mark_in_progress args result) (\<lambda>_.
        Spark_dispatchPersistBatch w (fa_dataset args) (fa_mode args) result (Spark_continuationPlan cfg args result)))))))"

section \<open>Persist jobs\<close>

definition PersistChunk ::
  "(json \<Rightarrow> string) \<Rightarrow> (coord_pair list \<Rightarrow> coord_pair) \<Rightarrow> worker_kind \<Rightarrow> json option \<Rightarrow> ('z sdb_scheme, unit) go" where
  "PersistChunk sprint pick k jobArgs = (case dec_chunk_wrapper jobArgs of
      None \<Rightarrow> go_fail (Err ''bad arguments'')
    | Some args \<Rightarrow>
      (if ca_page args = 0 then go_ret ()
       else go_bind (RowsForChunk (ca_page args) (ca_index args)) (\<lambda>rows.
         go_bind (HydrateReplicaBatch sprint pick (wk_writer k) (ca_dataset args) (wk_provider k) rows) (\<lambda>_. go_ret ()))))"

definition Bridge_PersistChunk ::
  "(json \<Rightarrow> string) \<Rightarrow> (coord_pair list \<Rightarrow> coord_pair) \<Rightarrow> sync_worker \<Rightarrow> json option \<Rightarrow> ('z sdb_scheme, unit) go" where
  "Bridge_PersistChunk sprint pick w = PersistChunk sprint pick (bridge_kind (sw_cfg w))"

definition Spark_PersistChunk ::
  "(json \<Rightarrow> string) \<Rightarrow> (coord_pair list \<Rightarrow> coord_pair) \<Rightarrow> sync_worker \<Rightarrow> json option \<Rightarrow> ('z sdb_scheme, unit) go" where
  "Spark_PersistChunk sprint pick w = PersistChunk sprint pick (spark_kind (sw_cfg w))"

text \<open>\<^verbatim>\<open>time.Parse(time.RFC3339, s)\<close>: a string that does not parse leaves the field empty.\<close>

definition finalize_patch :: "finalize_args \<Rightarrow> cursor_patch option" where
  "finalize_patch args =
     (if za_apply_state args \<or> za_max_mod args \<noteq> None \<or> za_window_end args \<noteq> None \<or> za_mark_finished args \<or> za_in_progress args \<noteq> None
      then Some \<lparr>cp_apply_state = za_apply_state args, cp_next_url = za_next_url args, cp_in_progress = za_in_progress args,
        cp_max_modification = Option.bind (za_max_mod args) parse_rfc3339,
        cp_window_end = Option.bind (za_window_end args) parse_rfc3339, cp_mark_finished = za_mark_finished args\<rparr>
      else None)"

definition enqueue_fetch :: "sync_worker \<Rightarrow> worker_kind \<Rightarrow> fetch_args \<Rightarrow> ('z sdb_scheme, unit) go" where
  "enqueue_fetch w k args =
     go_bind (Enqueue (sw_client w) (wk_fetch_queue k) (wk_fetch_type k) (Some (enc_fetch_args args)) 0) (\<lambda>_. go_ret ())"

definition PersistFinalize :: "sync_worker \<Rightarrow> worker_kind \<Rightarrow> json option \<Rightarrow> ('z sdb_scheme, unit) go" where
  "PersistFinalize w k jobArgs = (case dec_finalize_args jobArgs of
      None \<Rightarrow> go_fail (Err ''bad arguments'')
    | Some args \<Rightarrow>
      go_bind (case finalize_patch args of None \<Rightarrow> go_ret () | Some patch \<Rightarrow> ApplyPatch (za_dataset args) patch) (\<lambda>_.
      go_bind (case za_page args of None \<Rightarrow> go_ret ()
        | Some i \<Rightarrow> go_bind (go_ignore (MarkCompleted i)) (\<lambda>_. go_ignore (DeletePage i))) (\<lambda>_.
      if za_dispatch_incremental args
      then enqueue_fetch w k \<lparr>fa_dataset = za_dataset args, fa_mode = ''incremental'', fa_skip = 0, fa_depth = 0\<rparr>
      else case za_next_mode args of
        Some mode \<Rightarrow> enqueue_fetch w k \<lparr>fa_dataset = za_dataset args, fa_mode = mode, fa_skip = za_next_skip args, fa_depth = za_next_depth args\<rparr>
      | None \<Rightarrow> (if za_mark_finished args then fema_kickoff w else go_ret ()))))"

definition Bridge_PersistFinalize :: "sync_worker \<Rightarrow> json option \<Rightarrow> ('z sdb_scheme, unit) go" where
  "Bridge_PersistFinalize w = PersistFinalize w (bridge_kind (sw_cfg w))"

definition Spark_PersistFinalize :: "sync_worker \<Rightarrow> json option \<Rightarrow> ('z sdb_scheme, unit) go" where
  "Spark_PersistFinalize w = PersistFinalize w (spark_kind (sw_cfg w))"

section \<open>Arguments on the wire\<close>

definition sendable_finalize :: "finalize_args \<Rightarrow> bool" where
  "sendable_finalize a \<longleftrightarrow> (case za_page a of None \<Rightarrow> True | Some n \<Rightarrow> int64_ok n) \<and> int64_ok (za_next_skip a) \<and> int64_ok (za_next_depth a)"

lemma decode_field_single: "decode_field d acc name [(k, v)] = (if equal_fold k name then d acc v else Some acc)"
  by (simp split: option.split)

lemma dec_ptr_enc:
  "(case x of None \<Rightarrow> Some None | Some a \<Rightarrow> dec_ptr [] dec_string None (JStr a)) = Some x"
  "(case y of None \<Rightarrow> Some None | Some a \<Rightarrow> dec_ptr False dec_bool None (JBool a)) = Some y"
  "(case z of None \<Rightarrow> True | Some n \<Rightarrow> int64_ok n) \<Longrightarrow>
     (case z of None \<Rightarrow> Some None | Some n \<Rightarrow> dec_ptr 0 dec_int None (JNum (of_int n))) = Some z"
  by (simp_all add: dec_ptr_def dec_string_def dec_bool_def dec_int_def int64_of_real_of_int split: option.splits)

lemma dec_enc_finalize:
  assumes "sendable_finalize a"
  shows "dec_finalize_args (Some (enc_finalize_args a)) = Some a"
proof -
  have ok: "case za_page a of None \<Rightarrow> True | Some n \<Rightarrow> int64_ok n" "int64_ok (za_next_skip a)" "int64_ok (za_next_depth a)"
    using assms by (simp_all add: sendable_finalize_def)
  have lower: "\<And>c cs. to_lower (c # cs) = lower_char c # to_lower cs" by (simp add: to_lower_def)
  let ?k = "case enc_finalize_args a of JObj kvs \<Rightarrow> kvs | _ \<Rightarrow> []"
  have f: "decode_field (dec_ptr 0 dec_int) None ''replica_page_id'' ?k = Some (za_page a)"
    "decode_field dec_string [] ''dataset'' ?k = Some (za_dataset a)"
    "decode_field dec_bool False ''apply_replication_state'' ?k = Some (za_apply_state a)"
    "decode_field (dec_ptr [] dec_string) None ''replication_next_url'' ?k = Some (za_next_url a)"
    "decode_field (dec_ptr False dec_bool) None ''replication_in_progress'' ?k = Some (za_in_progress a)"
    "decode_field (dec_ptr [] dec_string) None ''max_modification_ts'' ?k = Some (za_max_mod a)"
    "decode_field (dec_ptr [] dec_string) None ''incremental_window_end'' ?k = Some (za_window_end a)"
    "decode_field dec_bool False ''mark_sync_finished'' ?k = Some (za_mark_finished a)"
    "decode_field dec_bool False ''dispatch_incremental_after'' ?k = Some (za_dispatch_incremental a)"
    "decode_field (dec_ptr [] dec_string) None ''next_fetch_mode'' ?k = Some (za_next_mode a)"
    "decode_field dec_int 0 ''next_incremental_skip'' ?k = Some (za_next_skip a)"
    "decode_field dec_int 0 ''next_chain_depth'' ?k = Some (za_next_depth a)"
    using ok
    by (simp_all add: enc_finalize_args_def decode_field_append decode_field_single decode_field_enc dec_ptr_enc
        equal_fold_def lower lower_char_def dec_string_def)
  have "struct_fields (RawJson (enc_finalize_args a)) = Some ?k" by (simp add: struct_fields_def enc_finalize_args_def)
  with f show ?thesis by (simp add: dec_finalize_args_def)
qed

interpretation finalize_codec: job_codec enc_finalize_args dec_finalize_args sendable_finalize
  by unfold_locales (rule dec_enc_finalize)

definition sendable_chunk :: "persist_chunk_args \<Rightarrow> bool" where
  "sendable_chunk a \<longleftrightarrow> int64_ok (ca_page a) \<and> int64_ok (ca_index a) \<and> int64_ok (ca_total a)"

interpretation chunk_codec: job_codec
    "\<lambda>a. JObj [(''batch_id'', JStr b), (''job'', enc_chunk_args a)]" dec_chunk_wrapper sendable_chunk for b
  by unfold_locales
    (simp add: dec_chunk_wrapper_def enc_chunk_args_def dec_chunk_args_def zero_chunk_args_def sendable_chunk_def struct_fields_def
      equal_fold_def to_lower_def lower_char_def dec_string_def dec_int_def int64_of_real_of_int)

section \<open>What the completion job carries\<close>

definition whole_seconds :: "int option \<Rightarrow> int option" where
  "whole_seconds x = map_option (\<lambda>t. unix t * second) x"

definition in_range :: "int option \<Rightarrow> bool" where
  "in_range x \<longleftrightarrow> (case x of None \<Rightarrow> True | Some t \<Rightarrow> time_in_range t)"

definition plan_ok :: "plan \<Rightarrow> bool" where
  "plan_ok p \<longleftrightarrow> (case p of (patch, d, nf) \<Rightarrow>
     (cp_apply_state patch \<or> cp_next_url patch = None \<and> cp_in_progress patch = None) \<and>
     in_range (cp_max_modification patch) \<and> in_range (cp_window_end patch) \<and>
     (case nf of None \<Rightarrow> True | Some n \<Rightarrow> int64_ok (fa_skip n) \<and> int64_ok (fa_depth n)))"

lemma parse_seconds: "in_range x \<Longrightarrow> Option.bind (map_option fmt_utc x) parse_rfc3339 = whole_seconds x"
  by (simp add: in_range_def whole_seconds_def parse_fmt_utc split: option.splits)

lemma sendable_build:
  "plan_ok p \<Longrightarrow> (case pg of None \<Rightarrow> True | Some n \<Rightarrow> int64_ok n) \<Longrightarrow> sendable_finalize (buildFinalizeArgs ds pg p)"
  by (auto simp: plan_ok_def sendable_finalize_def buildFinalizeArgs_def int64_ok_def split: prod.splits option.splits)

lemma finalize_patch_build:
  assumes "plan_ok (patch, d, nf)"
  shows "finalize_patch (buildFinalizeArgs ds pg (patch, d, nf)) = (if patch = empty_patch then None
    else Some (patch\<lparr>cp_max_modification := whole_seconds (cp_max_modification patch), cp_window_end := whole_seconds (cp_window_end patch)\<rparr>))"
proof -
  have r: "in_range (cp_max_modification patch)" "in_range (cp_window_end patch)"
    "cp_apply_state patch \<or> cp_next_url patch = None \<and> cp_in_progress patch = None"
    using assms by (simp_all add: plan_ok_def)
  then show ?thesis
    by (cases patch) (auto simp: finalize_patch_def buildFinalizeArgs_def parse_seconds empty_patch_def)
qed

lemma incremental_top_pos: "0 < d \<Longrightarrow> 0 < incremental_top d n"
  by (simp add: incremental_top_def)

lemma next_skip_ok: "int64_ok a \<Longrightarrow> 0 < d \<Longrightarrow> a + incremental_top d n < 10000 \<Longrightarrow> int64_ok (a + incremental_top d n)"
  using incremental_top_pos [of d n] by (simp add: int64_ok_def)

lemma plan_ok_plans:
  assumes "in_range (pr_max_mod res)" "in_range (pr_window_end res)" "int64_ok (fa_skip a)" "int64_ok (fa_depth a + 1)"
  shows "plan_ok (Bridge_continuationPlan cfg a res)" "plan_ok (Spark_continuationPlan cfg a res)"
  using assms next_skip_ok [OF assms(3), of 200 "b_incremental_top (cfg_bridge cfg)"]
    next_skip_ok [OF assms(3), of 1000 "s_incremental_top (cfg_spark cfg)"]
  by (auto simp: plan_ok_def Bridge_continuationPlan_def Spark_continuationPlan_def Let_def replication_patch_def
      empty_patch_def next_fetch_def in_range_def int64_ok_def [of 0])

text \<open>(C10) The completion job of a page carries the fetch's plan through the queue: decoding the stored
  arguments gives back the dataset, the staged page, the follow-up fetch and the cursor patch, whose
  times lose only their fraction of a second; a plan that changes no cursor applies none.\<close>

theorem finalize_carries_plan:
  assumes "plan = Bridge_continuationPlan cfg a res \<or> plan = Spark_continuationPlan cfg a res"
    and "in_range (pr_max_mod res)" and "in_range (pr_window_end res)" and "int64_ok (fa_skip a)"
    and "int64_ok (fa_depth a + 1)" and "int64_ok page"
  shows "\<exists>args. dec_finalize_args (Some (enc_finalize_args (buildFinalizeArgs ds (Some page) plan))) = Some args \<and>
     za_dataset args = ds \<and> za_page args = Some page \<and> za_dispatch_incremental args = fst (snd plan) \<and>
     (case snd (snd plan) of None \<Rightarrow> za_next_mode args = None
      | Some n \<Rightarrow> za_next_mode args = Some (fa_mode n) \<and> za_next_skip args = fa_skip n \<and> za_next_depth args = fa_depth n) \<and>
     finalize_patch args = (if fst plan = empty_patch then None
       else Some ((fst plan)\<lparr>cp_max_modification := whole_seconds (cp_max_modification (fst plan)),
              cp_window_end := whole_seconds (cp_window_end (fst plan))\<rparr>))"
proof -
  have ok: "plan_ok plan" using assms(1) plan_ok_plans [OF assms(2-5)] by auto
  obtain patch d nf where p: "plan = (patch, d, nf)" by (cases plan)
  let ?args = "buildFinalizeArgs ds (Some page) plan"
  have "dec_finalize_args (Some (enc_finalize_args ?args)) = Some ?args"
    using sendable_build [OF ok] assms(6) by (intro finalize_codec.dec_enc) simp
  moreover have "finalize_patch ?args = (if patch = empty_patch then None
     else Some (patch\<lparr>cp_max_modification := whole_seconds (cp_max_modification patch), cp_window_end := whole_seconds (cp_window_end patch)\<rparr>))"
    using finalize_patch_build ok unfolding p by blast
  ultimately show ?thesis
    by (intro exI [of _ ?args]) (simp add: p buildFinalizeArgs_def split: option.split)
qed

theorem finalize_carries_plan_witness:
  "\<exists>args. dec_finalize_args (Some (enc_finalize_args (buildFinalizeArgs ''stellar'' (Some 1)
       (Bridge_continuationPlan demo_sync_config \<lparr>fa_dataset = ''stellar'', fa_mode = ''incremental'', fa_skip = 0, fa_depth = 0\<rparr>
          (empty_result\<lparr>pr_has_more := True\<rparr>))))) = Some args \<and> za_next_mode args = Some ''incremental'' \<and> za_next_skip args = 2"
proof -
  let ?a = "\<lparr>fa_dataset = ''stellar'', fa_mode = ''incremental'', fa_skip = 0, fa_depth = 0\<rparr>"
  let ?r = "empty_result\<lparr>pr_has_more := True\<rparr>"
  have pl: "Bridge_continuationPlan demo_sync_config ?a ?r =
      (empty_patch\<lparr>cp_max_modification := None, cp_mark_finished := False\<rparr>, False, Some (next_fetch ?a ''incremental'' 2))"
    by (simp add: Bridge_continuationPlan_def Let_def empty_result_def incremental_top_def demo_sync_config_def)
  have nx: "fa_mode (next_fetch ?a ''incremental'' 2) = ''incremental''" "fa_skip (next_fetch ?a ''incremental'' 2) = 2"
    by (simp_all add: next_fetch_def)
  from finalize_carries_plan [of "Bridge_continuationPlan demo_sync_config ?a ?r" demo_sync_config ?a ?r 1 "''stellar''"]
  show ?thesis
    unfolding pl snd_conv fst_conv option.case nx
    by (simp add: in_range_def empty_result_def int64_ok_def) blast
qed

section \<open>Operations that leave cursors and listings alone\<close>

definition sync_view :: "(sync_cursor list \<Rightarrow> mirror_row list \<Rightarrow> bool) \<Rightarrow> 'z sdb_scheme \<Rightarrow> bool" where
  "sync_view P s \<longleftrightarrow> P (cursors s) (listings s)"

lemma sync_view_frame [simp]:
  "sync_view P (s\<lparr>faults := bs\<rparr>) = sync_view P s" "sync_view P (s\<lparr>clock := t, delays := ds\<rparr>) = sync_view P s"
  "sync_view P (s\<lparr>clock := t\<rparr>) = sync_view P s"
  "sync_view P (rollback s s1) = sync_view P s" "sync_view P (s\<lparr>pages := ps\<rparr>) = sync_view P s"
  "sync_view P (s\<lparr>pages := ps, next_page_id := i\<rparr>) = sync_view P s"
  "sync_view P (s\<lparr>jobs := js, next_job_id := i\<rparr>) = sync_view P s" "sync_view P (s\<lparr>notified := nf\<rparr>) = sync_view P s"
  "sync_view P (s\<lparr>job_batches := bb\<rparr>) = sync_view P s" "sync_view P (s\<lparr>uuid_next := u\<rparr>) = sync_view P s"
  "sync_view P (s\<lparr>failed_jobs := fj\<rparr>) = sync_view P s" "sync_view P (s\<lparr>jobs := js\<rparr>) = sync_view P s"
  by (simp_all add: sync_view_def rollback_def)

lemma keeps_view_sql: "(\<And>s a s'. f s = Some (a, s') \<Longrightarrow> sync_view P s' = sync_view P s) \<Longrightarrow> keeps (sync_view P) (sql f)"
  by (rule keeps_sql) auto

lemma keeps_view_now [intro!]: "keeps (sync_view P) go_now"
  by (rule keeps_now) simp

lemma keeps_view_queue [intro!]:
  "keeps (sync_view P) (Enqueue c q ty a d)" "keeps (sync_view P) (EnqueueBatch c spec)"
  unfolding Enqueue_def EnqueueBatch_def insert_job_def pg_notify_def insert_batch_def next_uuid_def Let_def
  by (intro keeps_if keeps_bind keeps_ret keeps_fail keeps_ignore keeps_with_tx keeps_each keeps_view_now keeps_view_sql keepsI;
      force split: if_splits)+

lemma keeps_view_pages [intro!]:
  "keeps (sync_view P) (StorePage pr ds mode rows k)" "keeps (sync_view P) (MarkProcessing i b)"
  "keeps (sync_view P) (MarkCompleted i)" "keeps (sync_view P) (DeletePage i)" "keeps (sync_view P) (HasActivePage pr ds)"
  unfolding StorePage_def MarkProcessing_def MarkCompleted_def DeletePage_def HasActivePage_def Let_def
  by (intro keeps_bind keeps_view_now keeps_view_sql; force split: if_splits)+

lemma keeps_view_fema [intro!]: "keeps (sync_view P) (fema_kickoff w)"
  unfolding fema_kickoff_def EnqueueKickoffIfAbsent_def HasActiveFloodEnrichJob_def
  by (intro keeps_case_option keeps_ret keeps_ignore keeps_bind keeps_if keeps_view_now keeps_view_queue keeps_view_sql)
    (auto split: if_splits)

lemma keeps_view_dispatch [intro!]: "keeps (sync_view P) (dispatchPersistBatch w k ds mode res p)"
  unfolding dispatchPersistBatch_def enqueue_finalize_def Let_def
  by (auto intro!: keeps_bind split: prod.splits)

lemma keeps_view_http [intro!]:
  "keeps (sync_view P) (http_get u)" "keeps (sync_view P) (limiter_step :: ('z fdb_scheme, unit) go)" "keeps (sync_view P) (sleep_for d)"
proof -
  have "keeps (sync_view P) (\<lambda>s. let s1 = s\<lparr>http_log := http_log s @ [(now, u)], http_replies := tl (http_replies s)\<rparr> in
     case http_replies s of HttpReply resp # _ \<Rightarrow> (Inr resp, s1) | _ \<Rightarrow> (Inl (Err ''http request failed''), s1))" for now
    by (rule keepsI) (auto simp: Let_def sync_view_def split: list.split http_reply.split)
  then show "keeps (sync_view P) (http_get u)"
    unfolding http_get_def by (intro keeps_bind keeps_view_now)
  show "keeps (sync_view P) (limiter_step :: ('z fdb_scheme, unit) go)"
  proof (rule keepsI)
    fix s :: "'z fdb_scheme" assume s: "sync_view P s"
    obtain t ds where f: "snd (limiter_wait (bridge_limiter s) s) = s\<lparr>clock := t, delays := ds\<rparr>"
      using limiter_wait_frame by blast
    have "cursors (snd (limiter_step s)) = cursors (snd (limiter_wait (bridge_limiter s) s))"
      "listings (snd (limiter_step s)) = listings (snd (limiter_wait (bridge_limiter s) s))"
      by (simp_all add: limiter_step_def split: prod.split sum.split)
    with s show "sync_view P (snd (limiter_step s))" by (simp add: sync_view_def f)
  qed
  show "keeps (sync_view P) (sleep_for d)" by (rule keepsI) (simp add: sleep_for_def)
qed

lemma keeps_view_attempts [intro!]: "keeps (sync_view P) (fetch_attempts n k u)"
  by (induction n arbitrary: k) (auto intro!: keeps_bind)

lemma keeps_view_lift [intro!]: "keeps (sync_view P) (lift_result r)"
  unfolding lift_result_def by (intro keeps_case_sum keeps_fail keeps_ret)

lemma keeps_view_fetch [intro!]:
  "keeps (sync_view P) (Bridge_fetchPage sp cfg url q ds rep)" "keeps (sync_view P) (Spark_fetchPage sp cfg url q ds rep)"
  unfolding Bridge_fetchPage_def Spark_fetchPage_def Let_def by (auto intro!: keeps_bind)

lemma keeps_view_fetches [intro!]:
  "keeps (sync_view P) (Bridge_FetchReplicationPage sp cfg ds c)" "keeps (sync_view P) (Bridge_FetchIncrementalPage sp cfg ds c sk)"
  "keeps (sync_view P) (FetchNavHydratePage sp cfg ds sk)"
  "keeps (sync_view P) (Spark_FetchReplicationPage sp cfg c)" "keeps (sync_view P) (Spark_FetchIncrementalPage sp cfg c sk)"
  unfolding Bridge_FetchReplicationPage_def Bridge_FetchIncrementalPage_def FetchNavHydratePage_def
    Spark_FetchReplicationPage_def Spark_FetchIncrementalPage_def Let_def
  by (auto intro!: keeps_bind split: option.splits)

text \<open>The cursor of a dataset stands at a modification time, and the mirror holds these rows.\<close>

definition stands_at :: "string \<Rightarrow> int option \<Rightarrow> mirror_row list \<Rightarrow> sync_cursor list \<Rightarrow> mirror_row list \<Rightarrow> bool" where
  "stands_at d m l cs ls \<longleftrightarrow> (\<exists>c. find (\<lambda>c. cur_dataset c = d) cs = Some c \<and> last_modification c = m) \<and> ls = l"

lemma keeps_ForDataset [intro!]: "keeps (sync_view (stands_at d m l)) (ForDataset ds)"
  unfolding ForDataset_def
  by (rule keeps_sql)
    (auto simp: sync_view_def stands_at_def find_cursor_def find_append_None split: option.splits if_splits)

lemma keeps_ApplyPatch:
  assumes "cp_max_modification patch = None"
  shows "keeps (sync_view (stands_at d m l)) (ApplyPatch ds patch)"
proof (rule keepsI)
  fix s :: "'a sdb_scheme"
  assume s: "sync_view (stands_at d m l) s"
  obtain r s' where run: "ApplyPatch ds patch s = (r, s')" by fastforce
  from s obtain c where c: "find_cursor d s = Some c" "last_modification c = m" "listings s = l"
    by (auto simp: sync_view_def stands_at_def find_cursor_def)
  have mod: "last_modification (mergeCursorPatch c patch t) = last_modification c" for t
    using assms by (simp add: mergeCursorPatch_def Let_def split: option.split)
  have "listings s' = l"
  proof -
    have "keeps (\<lambda>s :: 'a sdb_scheme. listings s = l) (ApplyPatch ds patch)"
      unfolding ApplyPatch_def ForDataset_def Let_def
      by (intro keeps_bind keeps_now keeps_sql) (auto split: option.splits if_splits)
    from keepsD [OF this c(3)] run show ?thesis by simp
  qed
  then show "sync_view (stands_at d m l) (snd (ApplyPatch ds patch s))"
    using c run by (cases rule: ApplyPatch_run [OF run c(1)])
      (simp_all add: sync_view_def stands_at_def find_cursor_def mod)
qed

lemma keeps_FetchPage:
  "keeps (sync_view (stands_at d m l)) (Bridge_FetchPage sp w a)" "keeps (sync_view (stands_at d m l)) (Spark_FetchPage sp w a)"
  unfolding Bridge_FetchPage_def Spark_FetchPage_def Bridge_dispatchPersistBatch_def Spark_dispatchPersistBatch_def
    skipReplicationFetchWhenPageActive_def finish_sync_def mark_in_progress_def Let_def
  by (auto intro!: keeps_bind keeps_ApplyPatch simp: empty_patch_def stop_chain_def split: option.splits)


definition demo_worker :: sync_worker where
  "demo_worker = \<lparr>sw_cfg = demo_sync_config, sw_client = demo_client, sw_fema = None\<rparr>"


section \<open>A staged page\<close>

lemma keeps_pages_batch: "keeps (\<lambda>s. pages s = ps) (EnqueueBatch c spec)"
  unfolding EnqueueBatch_def insert_job_def pg_notify_def insert_batch_def next_uuid_def Let_def
  by (intro keeps_if keeps_bind keeps_ret keeps_fail keeps_ignore keeps_with_tx keeps_each keeps_now keeps_sql keepsI;
      force simp: rollback_def split: if_splits)

lemma StorePage_batches: "StorePage pr ds mode rows k s = (r, s') \<Longrightarrow> job_batches s' = job_batches s"
proof -
  assume st: "StorePage pr ds mode rows k s = (r, s')"
  have "keeps (\<lambda>t. job_batches t = job_batches s) (StorePage pr ds mode rows k)"
    unfolding StorePage_def Let_def by (intro keeps_bind keeps_now keeps_sql) (auto split: if_splits)
  from keepsD [OF this, of s] st show ?thesis by simp
qed

lemma length_chunks_le:
  assumes "0 < n"
  shows "length (chunks_of n xs) \<le> length xs"
proof -
  have "(\<Sum>c\<leftarrow>chunks_of n xs. 1) \<le> (\<Sum>c\<leftarrow>chunks_of n xs. length c)"
    by (rule sum_list_mono) (use chunks_of_bounds in \<open>auto simp: Suc_le_eq\<close>)
  then show ?thesis
    using concat_chunks_of [OF assms, of xs] by (metis length_concat sum_list_triv mult.right_neutral of_nat_id)
qed

lemma update_page_last:
  "\<forall>q \<in> set ps. page_id q \<noteq> page_id p \<Longrightarrow> update_page (page_id p) f (ps @ [p]) = ps @ [f p]"
  by (auto simp: update_page_def intro: map_idI)

lemma chunk_jobs_length: "length (chunk_jobs k ds i n) = n"
  by (simp add: chunk_jobs_def)

lemma chunk_jobs_nth: "x < n \<Longrightarrow> chunk_jobs k ds i n ! x = \<lparr>bj_type = wk_chunk_type k, bj_args = Some (enc_chunk_args
     \<lparr>ca_page = i, ca_index = int x + 1, ca_total = int n, ca_dataset = ds\<rparr>)\<rparr>"
  by (simp add: chunk_jobs_def add.commute del: upt_Suc)

lemma batch_child_decodes:
  assumes "sendable_chunk a" "bj_args j = Some (enc_chunk_args a)"
  shows "\<exists>pl. UnmarshalPayload (batch_child_payload bid j) = Some pl \<and> payload_type pl = bj_type j \<and> dec_chunk_wrapper (payload_args pl) = Some a"
  using chunk_codec.payload_roundtrip [OF assms(1), of "bj_type j" bid] assms(2) by (simp add: batch_child_payload_def)


definition demo_page :: page_result where
  "demo_page = empty_result\<lparr>pr_rows := [RawJson JNull, RawJson (JBool True), RawJson (JArr [])]\<rparr>"

lemma demo_dispatch:
  "fst (dispatchPersistBatch demo_worker (bridge_kind demo_sync_config) ''stellar'' ''replication'' demo_page (empty_patch, False, None) demo_sync) = Inr ()"
  by (simp add: dispatchPersistBatch_def demo_page_def empty_result_def bridge_kind_def demo_sync_config_def demo_worker_def
      StorePage_def page_chunk_size_def chunks_of.simps go_simps go_now_def sql_nil demo_sync_def int4_ok_def
      EnqueueBatch_def next_uuid_def with_tx_def insert_batch_def insert_job_def pg_notify_def MarkProcessing_def chunk_jobs_def
      upt_rec unix_def second_def rollback_def batch_child_payload_def)


section \<open>Datasets that stop\<close>

lemma dispatchDataset_idle:
  assumes "page_active p ds s \<or> ReplicationChainActive (cursor_of ds s)"
  shows "jobs (snd (dispatchDataset c cfg p ds q ty s)) = jobs s"
proof -
  obtain r s' where run: "dispatchDataset c cfg p ds q ty s = (r, s')" by fastforce
  from dispatch_run [OF run] assms show ?thesis by (auto simp: run)
qed

lemma PurgeEligible_keeps_active: "page_active p ds s \<Longrightarrow> page_active p ds (snd (PurgeEligible cfg s))"
proof -
  have "keeps (page_active p ds) (PurgeEligible cfg)"
    unfolding PurgeEligible_def Let_def
    by (intro keeps_bind keeps_now keeps_sql) (fastforce simp: page_active_def active_page_def)+
  then show "page_active p ds s \<Longrightarrow> ?thesis" by (rule keepsD)
qed

lemma Bridge_FetchPage_idle:
  assumes "dec_fetch_args a = Some args" "fa_mode args = ''replication''" "page_active ''bridge'' (fa_dataset args) s"
  shows "jobs (snd (Bridge_FetchPage sp w a s)) = jobs s \<and> http_log (snd (Bridge_FetchPage sp w a s)) = http_log s \<and>
     pages (snd (Bridge_FetchPage sp w a s)) = pages s"
proof -
  obtain r1 s1 where f: "ForDataset (fa_dataset args) s = (r1, s1)" by fastforce
  obtain r2 s2 where h: "HasActivePage ''bridge'' (fa_dataset args) s1 = (r2, s2)" by fastforce
  have kp: "keeps (\<lambda>t. jobs t = jobs s \<and> pages t = pages s \<and> http_log t = http_log s) (ForDataset (fa_dataset args))"
    "keeps (\<lambda>t. jobs t = jobs s \<and> pages t = pages s \<and> http_log t = http_log s) (HasActivePage ''bridge'' (fa_dataset args))"
    unfolding ForDataset_def HasActivePage_def by (rule keeps_sql; auto split: option.splits if_splits)+
  have s1: "jobs s1 = jobs s \<and> pages s1 = pages s \<and> http_log s1 = http_log s"
    using keepsD [OF kp(1), of s] f by simp
  have s2: "jobs s2 = jobs s \<and> pages s2 = pages s \<and> http_log s2 = http_log s"
    using keepsD [OF kp(2) s1] h by simp
  have "r2 = Inr b \<Longrightarrow> b" for b
    using HasActivePage_reads [OF h] assms(3) s1 by (auto simp: page_active_def)
  then have "snd (Bridge_FetchPage sp w a s) \<in> {s, s1, s2}"
    using f h assms(1,2)
    by (auto simp: Bridge_FetchPage_def Let_def go_simps skipReplicationFetchWhenPageActive_def split: sum.splits)
  with s1 s2 show ?thesis by auto
qed

lemma page_active_cong: "pages s' = pages s \<Longrightarrow> page_active p ds s' = page_active p ds s"
  by (simp add: page_active_def)

lemma keeps_active_of_pages:
  fixes m :: "('z sdb_scheme, 'a) go"
  assumes "\<And>ps. keeps (\<lambda>s. pages s = ps) m"
  shows "keeps (page_active p ds) m"
proof (rule keepsI)
  fix s :: "'z sdb_scheme"
  assume "page_active p ds s"
  moreover have "pages (snd (m s)) = pages s" by (rule keepsD [OF assms refl])
  ultimately show "page_active p ds (snd (m s))" by (simp add: page_active_def)
qed

lemma keeps_pages_finalize: "keeps (\<lambda>s. pages s = ps) (enqueue_finalize w k a)"
  unfolding enqueue_finalize_def Enqueue_def insert_job_def pg_notify_def Let_def
  by (intro keeps_bind keeps_ret keeps_ignore keeps_now keeps_sql) (auto split: if_splits)

lemma active_page_update:
  "(\<And>q. active_page p ds q \<Longrightarrow> active_page p ds (f q)) \<Longrightarrow> page_active p ds s \<Longrightarrow> page_active p ds (s\<lparr>pages := update_page i f (pages s)\<rparr>)"
  by (auto simp: page_active_def update_page_def)

lemma keeps_active_mark: "keeps (page_active p ds) (MarkProcessing i b)"
  unfolding MarkProcessing_def
  by (rule keeps_sql) (auto intro!: active_page_update simp: active_page_def, simp add: page_active_def)

lemma StorePage_fails: "StorePage pr ds mode rows k s = (Inl e, s') \<Longrightarrow> pages s' = pages s"
  by (auto simp: StorePage_def Let_def go_simps go_now_def dest!: sql_Inl split: list.splits)

lemma dispatch_pages:
  assumes "dispatchPersistBatch w k ds mode res p s = (r, s')"
  shows "pages s' = pages s \<or> page_active (wk_name k) ds s'"
proof (cases "pr_rows res = []")
  case True
  then show ?thesis
    using keepsD [OF keeps_pages_finalize [of "pages s"], of s] assms by (simp add: dispatchPersistBatch_def) (metis snd_conv)
next
  case False
  obtain r0 s0 where st: "StorePage (wk_name k) ds mode (pr_rows res) (wk_chunk_size k) s = (r0, s0)" by fastforce
  show ?thesis
  proof (cases r0)
    case (Inl e)
    with StorePage_fails st False assms show ?thesis by (auto simp: dispatchPersistBatch_def go_simps)
  next
    case (Inr x)
    obtain i n where x: "x = (i, n)" by fastforce
    have act: "page_active (wk_name k) ds s0"
      using StorePage_run [OF st [unfolded Inr x]] by (auto simp: page_active_def active_page_def)
    let ?rest = "if n = 0 then enqueue_finalize w k (buildFinalizeArgs ds (Some i) p)
        else go_bind (EnqueueBatch (sw_client w) \<lparr>bs_name = wk_batch_name k @ ds, bs_queue = wk_persist_queue k,
            bs_jobs = chunk_jobs k ds i n, bs_on_complete = \<lparr>bj_type = wk_finalize_type k,
              bj_args = Some (enc_finalize_args (buildFinalizeArgs ds (Some i) p))\<rparr>\<rparr>) (MarkProcessing i)"
    have "keeps (page_active (wk_name k) ds) ?rest"
      by (intro keeps_if keeps_bind keeps_active_mark keeps_active_of_pages keeps_pages_finalize keeps_pages_batch)
    from keepsD [OF this act] assms st Inr x False show ?thesis by (simp add: dispatchPersistBatch_def go_simps Let_def)
  qed
qed


lemma demo_half_dispatch:
  "fst (dispatchPersistBatch demo_worker (bridge_kind demo_sync_config) ''stellar'' ''replication'' demo_page (empty_patch, False, None)
     (demo_fetch\<lparr>faults := [False, True]\<rparr>)) = Inl DbErr"
  "pages (snd (dispatchPersistBatch demo_worker (bridge_kind demo_sync_config) ''stellar'' ''replication'' demo_page (empty_patch, False, None)
     (demo_fetch\<lparr>faults := [False, True]\<rparr>))) \<noteq> []"
  by (simp_all add: dispatchPersistBatch_def demo_page_def empty_result_def bridge_kind_def demo_sync_config_def demo_worker_def
      StorePage_def page_chunk_size_def chunks_of.simps go_simps go_now_def sql_def demo_fetch_def demo_sync_def sdb.defs int4_ok_def
      EnqueueBatch_def next_uuid_def with_tx_def unix_def second_def Let_def chunk_jobs_def)


text \<open>The cap on chained fetches strands a replication: a fetch job at the cap returns without doing
  anything, and since the cursor still shows an active chain, no later kickoff starts the dataset
  again. The documentation describes the cap as a limit per kickoff.\<close>

theorem chain_cap_strands_replication:
  assumes "dec_fetch_args a = Some args" and "fa_dataset args \<noteq> []" and "0 < b_max_chain (cfg_bridge (sw_cfg w))"
    and "b_max_chain (cfg_bridge (sw_cfg w)) \<le> fa_depth args" and "ReplicationChainActive (cursor_of (fa_dataset args) s)"
  shows "Bridge_FetchPage sp w a s = (Inr (), s) \<and>
     jobs (snd (dispatchDataset c cfg p (fa_dataset args) q ty s)) = jobs s"
  using assms dispatchDataset_idle [of p "fa_dataset args" s]
  by (simp add: Bridge_FetchPage_def Let_def go_simps)

definition capped_worker :: sync_worker where
  "capped_worker = demo_worker\<lparr>sw_cfg := demo_sync_config\<lparr>cfg_bridge := (cfg_bridge demo_sync_config)\<lparr>b_max_chain := 5\<rparr>\<rparr>\<rparr>"

definition running_fetch :: fdb where
  "running_fetch = demo_fetch\<lparr>cursors := [demo_cursor\<lparr>replication_in_progress := True\<rparr>]\<rparr>"

theorem chain_cap_strands_replication_witness:
  "Bridge_FetchPage (\<lambda>_. []) capped_worker
     (Some (enc_fetch_args \<lparr>fa_dataset = ''stellar'', fa_mode = ''replication'', fa_skip = 0, fa_depth = 5\<rparr>)) running_fetch = (Inr (), running_fetch)"
proof -
  let ?args = "\<lparr>fa_dataset = ''stellar'', fa_mode = ''replication'', fa_skip = 0, fa_depth = 5\<rparr>"
  have "dec_fetch_args (Some (enc_fetch_args ?args)) = Some ?args"
    by (rule fetch_codec.dec_enc) (simp add: sendable_fetch_def int64_ok_def)
  moreover have "ReplicationChainActive (cursor_of ''stellar'' running_fetch)"
    by (simp add: ReplicationChainActive_def cursor_of_def find_cursor_def demo_cursor_def new_cursor_def running_fetch_def)
  ultimately show ?thesis
    using chain_cap_strands_replication [of "Some (enc_fetch_args ?args)" ?args capped_worker running_fetch "\<lambda>_. []"]
    by (simp add: capped_worker_def)
qed

section \<open>Paging while the cursor moves\<close>

lemma filter_after_nth:
  fixes T :: "'a :: linorder list"
  assumes "sorted_wrt (<) T" and "0 < n" and "n \<le> length T"
  shows "filter (\<lambda>t. T ! (n - 1) < t) T = drop n T"
proof -
  have nth: "T ! i < T ! j" if "i < j" "j < length T" for i j using assms(1) that by (simp add: sorted_wrt_iff_nth_less)
  have "\<not> T ! (n - 1) < t" if "t \<in> set (take n T)" for t
  proof -
    from that obtain i where i: "t = T ! i" "i < n" by (auto simp: in_set_conv_nth)
    show ?thesis
    proof (cases "i = n - 1")
      case False
      then have "T ! i < T ! (n - 1)" using i assms(2,3) by (intro nth) simp_all
      with i show ?thesis by simp
    qed (simp add: i)
  qed
  then have "filter (\<lambda>t. T ! (n - 1) < t) (take n T) = []" by (simp add: filter_empty_conv)
  moreover have "filter (\<lambda>t. T ! (n - 1) < t) (drop n T) = drop n T"
    using assms by (auto simp: filter_id_conv in_set_conv_nth intro!: nth)
  ultimately show ?thesis by (metis append_take_drop_id append_Nil filter_append)
qed



end
