(* ===== verification/Fema_Enrich.thy ===== *)
theory Fema_Enrich
  imports Sync_Workers
begin

text \<open>
  Flood-zone enrichment (\<^verbatim>\<open>internal/service/fema\<close>: \<^verbatim>\<open>client.go\<close>, \<^verbatim>\<open>enrich.go\<close>, \<^verbatim>\<open>resolve.go\<close>;
  \<^verbatim>\<open>internal/repository/fema/listings.go\<close>). A kickoff job counts the listings whose flood data is missing or old and
  starts a chain of batch jobs; a batch reads the next stale listings in the order of their ids, asks FEMA's map
  service about each of them through a rate limiter, retries and a circuit breaker, writes the answers in one
  transaction and, when it was full, enqueues the next batch.

  \<open>flood_rows\<close> holds the columns of \<^verbatim>\<open>listings\<close> that these statements read or write. The goroutines of a batch
  are run one after another, in any order: the parameter \<open>order\<close>. What they share is the breaker, the limiter and
  the list of updates, each behind a mutex; which queries fail and in which order the updates are appended is
  arbitrary under this reading, too. The attributes \<^verbatim>\<open>STATIC_BFE\<close> and \<^verbatim>\<open>DEPTH\<close> of an answer have no reader and are left out.
\<close>

section \<open>State\<close>

record fema_config =
  fm_base_url :: string
  fm_layer :: int
  fm_rps :: int
  fm_threshold :: int
  fm_queue :: string
  fm_batch_size :: int
  fm_stale_days :: int

record circuit_breaker =
  cb_threshold :: int
  cb_failures :: int
  cb_open :: bool
  cb_until :: int

record nfhl_client =
  nc_base_url :: string
  nc_layer :: int
  nc_max_retries :: nat

record point_attributes =
  pa_zone :: "string option"
  pa_sfha :: "string option"
  pa_dfirm :: "string option"
  pa_raw :: raw_message

record flood_row =
  fl_id :: int
  fl_dataset :: string
  fl_lat :: "real option"
  fl_lng :: "real option"
  fl_code :: "string option"
  fl_sfha :: "string option"
  fl_raw :: "raw_message option"
  fl_enriched :: "int option"
  fl_low_risk :: bool
  fl_updated :: int

record femadb = fdb +
  flood_rows :: "flood_row list"
  nfhl_limiter :: "rate_limiter option"
  nfhl_breaker :: circuit_breaker

section \<open>The circuit breaker\<close>

definition newCircuitBreaker :: "int \<Rightarrow> circuit_breaker" where
  "newCircuitBreaker threshold = \<lparr>cb_threshold = threshold, cb_failures = 0, cb_open = False, cb_until = 0\<rparr>"

definition breaker_allow :: "('z femadb_scheme, unit) go" where
  "breaker_allow = (\<lambda>s. let b = nfhl_breaker s in
     if \<not> cb_open b then (Inr (), s)
     else go_bind go_now (\<lambda>now s.
       if now > cb_until b then (Inr (), s\<lparr>nfhl_breaker := b\<lparr>cb_open := False, cb_failures := 0\<rparr>\<rparr>)
       else (Inl (Err ''fema nfhl circuit breaker open''), s)) s)"

definition recordSuccess :: "('z femadb_scheme, unit) go" where
  "recordSuccess = (\<lambda>s. (Inr (), s\<lparr>nfhl_breaker := (nfhl_breaker s)\<lparr>cb_failures := 0, cb_open := False\<rparr>\<rparr>))"

definition recordFailure :: "('z femadb_scheme, unit) go" where
  "recordFailure = (\<lambda>s. let b = (nfhl_breaker s)\<lparr>cb_failures := cb_failures (nfhl_breaker s) + 1\<rparr> in
     if cb_failures b \<ge> cb_threshold b
     then go_bind go_now (\<lambda>now s. (Inr (), s\<lparr>nfhl_breaker := b\<lparr>cb_open := True, cb_until := now + 30 * second\<rparr>\<rparr>)) s
     else (Inr (), s\<lparr>nfhl_breaker := b\<rparr>))"

section \<open>The client\<close>

definition newRateLimiter :: "int \<Rightarrow> rate_limiter option" where
  "newRateLimiter maxPerSecond = newSyncRateLimiter maxPerSecond"

definition NewFemaClient :: "fema_config \<Rightarrow> nfhl_client \<times> rate_limiter option \<times> circuit_breaker" where
  "NewFemaClient cfg =
     (\<lparr>nc_base_url = trim_right is_slash (fm_base_url cfg), nc_layer = fm_layer cfg, nc_max_retries = 4\<rparr>,
      newRateLimiter (fm_rps cfg), newCircuitBreaker (if fm_threshold cfg \<le> 0 then 5 else fm_threshold cfg))"

definition nfhl_wait :: "('z femadb_scheme, unit) go" where
  "nfhl_wait = go_bind (go_get nfhl_limiter) (\<lambda>l. go_bind (limiter_wait l) (\<lambda>l' s.
     (Inr (), s\<lparr>nfhl_limiter := l'\<rparr>)))"

definition nfhl_backoff :: "nat \<Rightarrow> int" where
  "nfhl_backoff attempt = min (2 ^ attempt * (second div 2)) (8 * second)"

text \<open>\<^verbatim>\<open>fmt.Sprint\<close> of a null is \<^verbatim>\<open><nil>\<close>; \<open>sprint\<close> gives the text of numbers, arrays and objects.\<close>

definition stringifyAttr :: "(json \<Rightarrow> string) \<Rightarrow> json \<Rightarrow> string" where
  "stringifyAttr sprint v = (case v of
      JStr t \<Rightarrow> trim_space t
    | JNull \<Rightarrow> ''<nil>''
    | JBool b \<Rightarrow> (if b then ''true'' else ''false'')
    | JNum _ \<Rightarrow> sprint v
    | _ \<Rightarrow> trim_space (sprint v))"

definition attr_text :: "(json \<Rightarrow> string) \<Rightarrow> gomap \<Rightarrow> string \<Rightarrow> string option" where
  "attr_text sprint attrs k = (case map_of attrs k of None \<Rightarrow> None
     | Some v \<Rightarrow> (let s = stringifyAttr sprint v in if s \<noteq> [] then Some s else None))"

text \<open>\<^verbatim>\<open>arcgisQueryResponse\<close>: the attributes of the features and the error object.\<close>

definition dec_attributes :: "gomap option \<Rightarrow> json \<Rightarrow> gomap option option" where
  "dec_attributes acc v = (case v of
      JObj kvs \<Rightarrow> Some (Some (gomap_of ((case acc of None \<Rightarrow> [] | Some m \<Rightarrow> m) @ kvs)))
    | JNull \<Rightarrow> Some None
    | _ \<Rightarrow> None)"

fun dec_features :: "json list \<Rightarrow> gomap option list option" where
  "dec_features [] = Some []"
| "dec_features (v # vs) =
     (case struct_fields (RawJson v) of None \<Rightarrow> None
      | Some kvs \<Rightarrow> (case (decode_field dec_attributes None ''attributes'' kvs, dec_features vs) of
           (Some a, Some as) \<Rightarrow> Some (a # as) | _ \<Rightarrow> None))"

definition dec_feature_list :: "gomap option list \<Rightarrow> json \<Rightarrow> gomap option list option" where
  "dec_feature_list acc v = (case v of JArr vs \<Rightarrow> dec_features vs | JNull \<Rightarrow> Some [] | _ \<Rightarrow> None)"

definition dec_arcgis_error :: "int \<times> string \<Rightarrow> json \<Rightarrow> (int \<times> string) option" where
  "dec_arcgis_error acc v = (case struct_fields (RawJson v) of None \<Rightarrow> None
     | Some kvs \<Rightarrow> (case (decode_field dec_int (fst acc) ''code'' kvs, decode_field dec_string (snd acc) ''message'' kvs) of
          (Some c, Some m) \<Rightarrow> Some (c, m) | _ \<Rightarrow> None))"

definition dec_arcgis :: "raw_message \<Rightarrow> (gomap option list \<times> (int \<times> string) option) option" where
  "dec_arcgis body = (case struct_fields body of None \<Rightarrow> None
     | Some kvs \<Rightarrow> (case (decode_field dec_feature_list [] ''features'' kvs,
            decode_field (dec_ptr (0, []) dec_arcgis_error) None ''error'' kvs) of
          (Some fs, Some e) \<Rightarrow> Some (fs, e) | _ \<Rightarrow> None))"

text \<open>The outcome of one request. A body that breaks off is one that is not JSON.\<close>

datatype nfhl_outcome = NfhlAnswer "point_attributes option" | NfhlRetry string | NfhlFail string

definition nfhl_attributes :: "(json \<Rightarrow> string) \<Rightarrow> gomap \<Rightarrow> point_attributes" where
  "nfhl_attributes sprint attrs = \<lparr>pa_zone = attr_text sprint attrs ''FLD_ZONE'', pa_sfha = attr_text sprint attrs ''SFHA_TF'',
     pa_dfirm = attr_text sprint attrs ''DFIRM_ID'', pa_raw = RawJson (JObj attrs)\<rparr>"

definition arcgis_text :: "int \<times> string \<Rightarrow> string" where
  "arcgis_text e = ''fema nfhl arcgis error '' @ show_int (fst e) @ '': '' @ snd e"

definition nfhl_outcome_of :: "(json \<Rightarrow> string) \<Rightarrow> http_response \<Rightarrow> nfhl_outcome" where
  "nfhl_outcome_of sprint resp =
     (if http_status resp = 429 \<or> http_status resp \<ge> 500 then NfhlRetry (''fema nfhl http '' @ show_int (http_status resp))
      else if http_status resp \<noteq> 200 then NfhlFail (''fema nfhl http '' @ show_int (http_status resp))
      else case dec_arcgis (http_body resp) of
        None \<Rightarrow> NfhlFail ''fema nfhl json''
      | Some (features, Some e) \<Rightarrow>
          (if fst e = 429 \<or> fst e \<ge> 500 then NfhlRetry (arcgis_text e) else NfhlFail (arcgis_text e))
      | Some (features, None) \<Rightarrow>
          (case features of
             Some attrs # _ \<Rightarrow> NfhlAnswer (Some (nfhl_attributes sprint attrs))
           | _ \<Rightarrow> NfhlAnswer None))"

definition doQuery :: "(json \<Rightarrow> string) \<Rightarrow> string \<Rightarrow> ('z femadb_scheme, nfhl_outcome) go" where
  "doQuery sprint rawURL = go_bind (go_try (http_get rawURL)) (\<lambda>r. go_ret (case r of
      Inl _ \<Rightarrow> NfhlRetry ''http request failed''
    | Inr resp \<Rightarrow> nfhl_outcome_of sprint resp))"

definition nfhl_url :: "nfhl_client \<Rightarrow> real \<Rightarrow> real \<Rightarrow> string" where
  "nfhl_url cl lat lng = nc_base_url cl @ ''/'' @ show_int (nc_layer cl) @ ''/query?'' @ query_encode (
     query_set ''f'' ''json'' (query_set ''returnGeometry'' ''false''
     (query_set ''outFields'' ''FLD_ZONE,SFHA_TF,DFIRM_ID,STATIC_BFE,DEPTH'' (query_set ''spatialRel'' ''esriSpatialRelIntersects''
     (query_set ''inSR'' ''4326'' (query_set ''geometryType'' ''esriGeometryPoint''
     (query_set ''geometry'' (fmt_f lng @ '','' @ fmt_f lat) [])))))))"

text \<open>The retry loop of \<^verbatim>\<open>QueryPoint\<close>: attempts left, attempt number, last error.\<close>

fun nfhl_attempts ::
  "(json \<Rightarrow> string) \<Rightarrow> nat \<Rightarrow> nat \<Rightarrow> string \<Rightarrow> go_error option \<Rightarrow> ('z femadb_scheme, point_attributes option) go" where
  "nfhl_attempts sprint 0 k url lastErr = go_bind recordFailure (\<lambda>_.
     case lastErr of None \<Rightarrow> go_ret None | Some e \<Rightarrow> go_fail e)"
| "nfhl_attempts sprint (Suc n) k url lastErr =
     go_bind (if k > 0 then sleep_for (nfhl_backoff k) else go_ret ()) (\<lambda>_.
     go_bind (doQuery sprint url) (\<lambda>r. case r of
       NfhlAnswer attrs \<Rightarrow> go_bind recordSuccess (\<lambda>_. go_ret attrs)
     | NfhlRetry e \<Rightarrow> nfhl_attempts sprint n (Suc k) url (Some (Err e))
     | NfhlFail e \<Rightarrow> go_bind recordFailure (\<lambda>_. go_fail (Err e))))"

definition QueryPoint ::
  "(json \<Rightarrow> string) \<Rightarrow> nfhl_client \<Rightarrow> real \<Rightarrow> real \<Rightarrow> ('z femadb_scheme, point_attributes option) go" where
  "QueryPoint sprint cl lat lng = go_bind breaker_allow (\<lambda>_. go_bind nfhl_wait (\<lambda>_.
     nfhl_attempts sprint (nc_max_retries cl) 0 (nfhl_url cl lat lng) None))"

definition EffectiveFloodZoneCode :: "string option \<Rightarrow> string option \<Rightarrow> int option \<Rightarrow> string option" where
  "EffectiveFloodZoneCode mls fema femaAt =
     (if femaAt \<noteq> None \<and> fema \<noteq> None \<and> fema \<noteq> Some [] then fema else mls)"

section \<open>The repository\<close>

definition stale_interval :: "int \<Rightarrow> int" where
  "stale_interval staleDays = (if staleDays \<le> 0 then 30 else staleDays) * 24 * 3600 * second"

definition is_stale :: "int \<Rightarrow> string \<Rightarrow> int \<Rightarrow> flood_row \<Rightarrow> bool" where
  "is_stale staleDays datasetSlug now r \<longleftrightarrow>
     (case (fl_lat r, fl_lng r) of (Some la, Some lo) \<Rightarrow> - 90 \<le> la \<and> la \<le> 90 \<and> - 180 \<le> lo \<and> lo \<le> 180 | _ \<Rightarrow> False) \<and>
     (case fl_enriched r of None \<Rightarrow> True | Some t \<Rightarrow> t < now - stale_interval staleDays) \<and>
     (datasetSlug \<noteq> [] \<longrightarrow> fl_dataset r = datasetSlug)"

record listing_coord =
  lc_id :: int
  lc_lat :: real
  lc_lng :: real

definition coord_of :: "flood_row \<Rightarrow> listing_coord" where
  "coord_of r = \<lparr>lc_id = fl_id r, lc_lat = (case fl_lat r of Some x \<Rightarrow> x | None \<Rightarrow> 0),
     lc_lng = (case fl_lng r of Some x \<Rightarrow> x | None \<Rightarrow> 0)\<rparr>"

definition SelectStaleForEnrichment ::
  "int \<Rightarrow> int \<Rightarrow> int \<Rightarrow> string \<Rightarrow> ('z femadb_scheme, listing_coord list) go" where
  "SelectStaleForEnrichment staleDays cursorID limit datasetSlug =
     (let limit = (if limit \<le> 0 then 2000 else limit) in
      go_bind go_now (\<lambda>now. sql (\<lambda>s. Some (take (nat limit) (map coord_of (sort_key fl_id
        (filter (\<lambda>r. fl_id r > cursorID \<and> is_stale staleDays datasetSlug now r) (flood_rows s)))), s))))"

definition CountStale :: "int \<Rightarrow> string \<Rightarrow> ('z femadb_scheme, int) go" where
  "CountStale staleDays datasetSlug = go_bind go_now (\<lambda>now. sql (\<lambda>s.
     Some (int (length (filter (is_stale staleDays datasetSlug now) (flood_rows s))), s)))"

record fema_update =
  fu_id :: int
  fu_code :: "string option"
  fu_sfha :: "string option"
  fu_raw :: "raw_message option"
  fu_at :: int
  fu_low_risk :: bool

definition apply_fema :: "int \<Rightarrow> fema_update \<Rightarrow> flood_row \<Rightarrow> flood_row" where
  "apply_fema now u r = (if fl_id r = fu_id u
     then r\<lparr>fl_code := fu_code u, fl_sfha := fu_sfha u, fl_raw := fu_raw u, fl_enriched := Some (fu_at u),
            fl_low_risk := fu_low_risk u, fl_updated := now\<rparr>
     else r)"

text \<open>\<^verbatim>\<open>fema_flood_zone_code\<close> is VARCHAR(80), \<^verbatim>\<open>flood_zone_sfha_tf\<close> VARCHAR(32); the statement fails on a longer text.\<close>

definition fema_fits :: "fema_update \<Rightarrow> bool" where
  "fema_fits u \<longleftrightarrow> (case fu_code u of None \<Rightarrow> True | Some c \<Rightarrow> length c \<le> 80) \<and>
     (case fu_sfha u of None \<Rightarrow> True | Some c \<Rightarrow> length c \<le> 32)"

definition update_fema :: "int \<Rightarrow> fema_update \<Rightarrow> ('z femadb_scheme, unit) go" where
  "update_fema now u = sql (\<lambda>s.
     if fema_fits u \<or> (\<forall>r \<in> set (flood_rows s). fl_id r \<noteq> fu_id u)
     then Some ((), s\<lparr>flood_rows := map (apply_fema now u) (flood_rows s)\<rparr>) else None)"

definition BatchUpdateFEMA :: "fema_update list \<Rightarrow> ('z femadb_scheme, unit) go" where
  "BatchUpdateFEMA updates =
     (if updates = [] then go_ret ()
      else with_tx (go_bind go_now (\<lambda>now. go_bind (go_each (update_fema now) updates) (\<lambda>_. go_ret (True, ())))))"

section \<open>Jobs\<close>

record kickoff_args =
  ka_dataset :: string

record batch_args =
  ba_cursor :: int
  ba_limit :: int
  ba_dataset :: string

definition enc_kickoff_args :: "kickoff_args \<Rightarrow> json" where
  "enc_kickoff_args a = JObj (enc_str_omit ''dataset_slug'' (ka_dataset a))"

definition UnmarshalKickoffArgs :: "json option \<Rightarrow> kickoff_args option" where
  "UnmarshalKickoffArgs raw = (case raw of None \<Rightarrow> Some \<lparr>ka_dataset = []\<rparr>
     | Some j \<Rightarrow> (case struct_fields (RawJson j) of None \<Rightarrow> None
        | Some kvs \<Rightarrow> map_option kickoff_args.make (decode_field dec_string [] ''dataset_slug'' kvs)))"

definition enc_batch_args :: "batch_args \<Rightarrow> json" where
  "enc_batch_args a = JObj ([(''cursor_id'', JNum (of_int (ba_cursor a))), (''limit'', JNum (of_int (ba_limit a)))] @
     enc_str_omit ''dataset_slug'' (ba_dataset a))"

definition UnmarshalBatchArgs :: "json option \<Rightarrow> batch_args option" where
  "UnmarshalBatchArgs raw = (case raw of None \<Rightarrow> Some \<lparr>ba_cursor = 0, ba_limit = 0, ba_dataset = []\<rparr>
     | Some j \<Rightarrow> (case struct_fields (RawJson j) of None \<Rightarrow> None
        | Some kvs \<Rightarrow> (case (decode_field dec_int 0 ''cursor_id'' kvs, decode_field dec_int 0 ''limit'' kvs,
              decode_field dec_string [] ''dataset_slug'' kvs) of
            (Some c, Some l, Some d) \<Rightarrow> Some \<lparr>ba_cursor = c, ba_limit = l, ba_dataset = d\<rparr>
          | _ \<Rightarrow> None)))"

definition buildListingFEMAUpdate :: "int \<Rightarrow> int \<Rightarrow> point_attributes option \<Rightarrow> fema_update" where
  "buildListingFEMAUpdate i now attrs = (case attrs of
      None \<Rightarrow> \<lparr>fu_id = i, fu_code = None, fu_sfha = None, fu_raw = None, fu_at = now, fu_low_risk = False\<rparr>
    | Some a \<Rightarrow> \<lparr>fu_id = i, fu_code = pa_zone a, fu_sfha = pa_sfha a,
        fu_raw = (if pa_raw a = RawEmpty then None else Some (pa_raw a)), fu_at = now,
        fu_low_risk = ComputeLowRiskFloodZoneYN (pa_zone a)\<rparr>)"

text \<open>The queries of a batch; a failed one leaves its listing out of the updates.\<close>

fun query_rows ::
  "(json \<Rightarrow> string) \<Rightarrow> nfhl_client \<Rightarrow> int \<Rightarrow> listing_coord list \<Rightarrow> ('z femadb_scheme, fema_update list) go" where
  "query_rows sprint cl now [] = go_ret []"
| "query_rows sprint cl now (r # rs) = go_bind (go_try (QueryPoint sprint cl (lc_lat r) (lc_lng r))) (\<lambda>res.
     case res of
       Inl _ \<Rightarrow> query_rows sprint cl now rs
     | Inr attrs \<Rightarrow> go_bind (query_rows sprint cl now rs) (\<lambda>us. go_ret (buildListingFEMAUpdate (lc_id r) now attrs # us)))"

record fema_service =
  fs_cfg :: fema_config
  fs_client :: nfhl_client
  fs_queue :: client

definition batch_limit :: "fema_config \<Rightarrow> int \<Rightarrow> int" where
  "batch_limit cfg l =
     (let limit = (if l \<le> 0 then fm_batch_size cfg else l) in if limit \<le> 0 then 2000 else limit)"

text \<open>\<^verbatim>\<open>RunBatch\<close> up to the enqueueing: the rows of the batch and the arguments of the next one.\<close>

definition process_batch ::
  "(json \<Rightarrow> string) \<Rightarrow> (listing_coord list \<Rightarrow> listing_coord list) \<Rightarrow> fema_service \<Rightarrow> batch_args \<Rightarrow>
   ('z femadb_scheme, listing_coord list \<times> batch_args option) go" where
  "process_batch sprint order svc args =
     (let limit = batch_limit (fs_cfg svc) (ba_limit args) in
      go_bind (SelectStaleForEnrichment (fm_stale_days (fs_cfg svc)) (ba_cursor args) limit (ba_dataset args)) (\<lambda>rows.
      if rows = [] then go_ret ([], None)
      else go_bind go_now (\<lambda>now.
           go_bind (query_rows sprint (fs_client svc) now (order rows)) (\<lambda>updates.
           go_bind (BatchUpdateFEMA updates) (\<lambda>_.
           go_ret (rows, if int (length rows) = limit
             then Some (args\<lparr>ba_cursor := lc_id (last rows), ba_limit := limit\<rparr>) else None))))))"

definition enqueue_fema_batch :: "fema_service \<Rightarrow> batch_args \<Rightarrow> ('z femadb_scheme, unit) go" where
  "enqueue_fema_batch svc a = go_bind (Enqueue (fs_queue svc) (fm_queue (fs_cfg svc)) ''fema.flood_enrich_batch''
     (Some (enc_batch_args a)) 0) (\<lambda>_. go_ret ())"

definition RunBatch ::
  "(json \<Rightarrow> string) \<Rightarrow> (listing_coord list \<Rightarrow> listing_coord list) \<Rightarrow> fema_service \<Rightarrow> batch_args \<Rightarrow> ('z femadb_scheme, unit) go" where
  "RunBatch sprint order svc args = go_bind (process_batch sprint order svc args) (\<lambda>(rows, nxt).
     case nxt of None \<Rightarrow> go_ret () | Some a \<Rightarrow> enqueue_fema_batch svc a)"

definition FemaKickoff :: "fema_service \<Rightarrow> kickoff_args \<Rightarrow> ('z femadb_scheme, unit) go" where
  "FemaKickoff svc args = go_bind (CountStale (fm_stale_days (fs_cfg svc)) (ka_dataset args)) (\<lambda>stale.
     if stale = 0 then go_ret ()
     else enqueue_fema_batch svc \<lparr>ba_cursor = 0, ba_limit = (if fm_batch_size (fs_cfg svc) \<le> 0 then 2000 else fm_batch_size (fs_cfg svc)),
            ba_dataset = ka_dataset args\<rparr>)"

definition AdminKickoff :: "fema_service \<Rightarrow> string \<Rightarrow> ('z femadb_scheme, int \<times> bool) go" where
  "AdminKickoff svc datasetSlug = go_bind (CountStale (fm_stale_days (fs_cfg svc)) datasetSlug) (\<lambda>stale.
     go_bind (EnqueueKickoffIfAbsent (fs_queue svc) (fm_queue (fs_cfg svc)) datasetSlug) (\<lambda>_. go_ret (stale, True)))"

text \<open>A chain of batches: the jobs that follow a first batch, until one enqueues no successor or fails.\<close>

partial_function (option) batch_chain ::
  "(json \<Rightarrow> string) \<Rightarrow> (listing_coord list \<Rightarrow> listing_coord list) \<Rightarrow> fema_service \<Rightarrow> batch_args \<Rightarrow> 'z femadb_scheme \<Rightarrow>
   ((go_error + listing_coord list) \<times> 'z femadb_scheme) option" where
  "batch_chain sprint order svc args s =
     (case process_batch sprint order svc args s of
        (Inl e, s') \<Rightarrow> Some (Inl e, s')
      | (Inr (rows, None), s') \<Rightarrow> Some (Inr rows, s')
      | (Inr (rows, Some a), s') \<Rightarrow>
          Option.bind (batch_chain sprint order svc a s') (\<lambda>(r, t). Some (map_sum id ((@) rows) r, t)))"

section \<open>Lemmas: what a query changes\<close>

text \<open>A query passes time; the table stays as it is.\<close>

definition fema_frame :: "int \<Rightarrow> flood_row list \<Rightarrow> 'z femadb_scheme \<Rightarrow> bool" where
  "fema_frame t F s \<longleftrightarrow> t \<le> clock s \<and> flood_rows s = F"

lemma keeps_frame_now [intro!]: "keeps (fema_frame t F) go_now"
  by (rule keepsI) (auto simp: fema_frame_def go_now_def split: list.splits)

lemma keeps_frame_sleep [intro]: "0 \<le> d \<Longrightarrow> keeps (fema_frame t F) (sleep_for d)"
  by (rule keepsI) (auto simp: fema_frame_def sleep_for_def)

lemma keeps_frame_upd [intro!]:
  "keeps (fema_frame t F) (\<lambda>s. (r, s\<lparr>nfhl_limiter := l\<rparr>))"
  "keeps (fema_frame t F) (\<lambda>s. (r, s\<lparr>nfhl_breaker := b\<rparr>))"
  "keeps (fema_frame t F) (\<lambda>s. (r, s))"
  by (simp_all add: keeps_def fema_frame_def)

lemma keeps_frame_http [intro!]: "keeps (fema_frame t F) (http_get u)"
  unfolding http_get_def Let_def
  by (rule keeps_bind, blast, rule keepsI) (auto simp: fema_frame_def split: list.splits http_reply.splits)

lemma keeps_frame_limiter [intro!]: "keeps (fema_frame t F) (limiter_wait l)"
  unfolding limiter_wait_def Let_def
  by (auto intro!: keeps_bind keeps_frame_sleep split: option.split)

lemma keeps_frame_allow [intro!]: "keeps (fema_frame t F) breaker_allow"
  unfolding breaker_allow_def Let_def
  by (rule keepsI) (auto simp: fema_frame_def go_bind_def go_now_def split: list.splits if_splits)

lemma keeps_frame_success [intro!]: "keeps (fema_frame t F) recordSuccess"
  by (rule keepsI) (simp add: recordSuccess_def fema_frame_def)

lemma keeps_frame_failure [intro!]: "keeps (fema_frame t F) recordFailure"
  unfolding recordFailure_def Let_def
  by (rule keepsI) (auto simp: fema_frame_def go_bind_def go_now_def split: list.splits if_splits)

lemma keeps_frame_wait [intro!]: "keeps (fema_frame t F) nfhl_wait"
  unfolding nfhl_wait_def by (intro keeps_bind keeps_frame_upd keeps_get keeps_frame_limiter)

lemma nfhl_backoff_nonneg [simp]: "0 \<le> nfhl_backoff k"
  by (simp add: nfhl_backoff_def second_def)

lemma keeps_frame_doQuery [intro!]: "keeps (fema_frame t F) (doQuery sprint u)"
  unfolding doQuery_def by (intro keeps_bind keeps_try keeps_frame_http keeps_ret)

lemma keeps_frame_attempts [intro!]: "keeps (fema_frame t F) (nfhl_attempts sprint n k u e)"
proof (induction n arbitrary: k e)
  case 0
  show ?case by (auto intro!: keeps_bind split: option.splits)
next
  case (Suc n)
  show ?case by (auto intro!: keeps_bind Suc.IH split: nfhl_outcome.splits)
qed

lemma keeps_frame_QueryPoint [intro!]: "keeps (fema_frame t F) (QueryPoint sprint cl lat lng)"
  unfolding QueryPoint_def by (intro keeps_bind keeps_frame_allow keeps_frame_wait keeps_frame_attempts)

lemma keeps_frame_rows [intro!]: "keeps (fema_frame t F) (query_rows sprint cl now rs)"
proof (induction rs)
  case (Cons r rs)
  then show ?case by (auto intro!: keeps_bind keeps_try keeps_case_sum split: sum.splits)
qed auto

text \<open>Which updates the queries give: one for some of the rows, built from some answer.\<close>

lemma query_rows_updates:
  assumes "query_rows sprint cl now rs s = (r, s')"
  shows "\<exists>us. r = Inr us \<and> (\<forall>u \<in> set us. \<exists>c \<in> set rs. \<exists>attrs. u = buildListingFEMAUpdate (lc_id c) now attrs)"
  using assms
proof (induction rs arbitrary: s r s')
  case Nil
  then show ?case by (simp add: go_simps)
next
  case (Cons c rs)
  obtain q s1 where q: "QueryPoint sprint cl (lc_lat c) (lc_lng c) s = (q, s1)" by fastforce
  obtain r2 s2 where rest: "query_rows sprint cl now rs s1 = (r2, s2)" by fastforce
  from Cons.IH [OF rest] obtain us where us: "r2 = Inr us"
    "\<forall>u \<in> set us. \<exists>c \<in> set rs. \<exists>attrs. u = buildListingFEMAUpdate (lc_id c) now attrs" by blast
  show ?case using Cons.prems q rest us by (cases q) (auto simp: go_simps)
qed

lemma fu_id_build [simp]: "fu_id (buildListingFEMAUpdate i now attrs) = i"
  by (simp add: buildListingFEMAUpdate_def split: option.splits)

section \<open>Lemmas: what a batch changes\<close>

text \<open>Time passes, and only rows with an id of the set change, none of which loses its id.\<close>

definition fema_kept :: "int \<Rightarrow> int set \<Rightarrow> flood_row list \<Rightarrow> 'z femadb_scheme \<Rightarrow> bool" where
  "fema_kept t ids F s \<longleftrightarrow> t \<le> clock s \<and>
     list_all2 (\<lambda>r r'. fl_id r' = fl_id r \<and> (fl_id r \<in> ids \<or> r' = r)) F (flood_rows s)"

lemma fema_kept_refl [simp]: "fema_kept (clock s) ids (flood_rows s) s"
  by (simp add: fema_kept_def list_all2_refl)

lemma fema_kept_of_frame: "fema_frame t F s \<Longrightarrow> fema_kept t ids F s"
  by (simp add: fema_frame_def fema_kept_def list_all2_refl)

lemma fema_kept_ids: "fema_kept t ids F s \<Longrightarrow> map fl_id (flood_rows s) = map fl_id F"
proof -
  assume "fema_kept t ids F s"
  then have "list_all2 (\<lambda>r r'. fl_id r' = fl_id r) F (flood_rows s)"
    unfolding fema_kept_def by (auto elim: list_all2_mono)
  then show ?thesis by (induction rule: list_all2_induct) auto
qed

lemma fema_kept_row:
  assumes "fema_kept t ids F s" "r \<in> set F" "fl_id r \<notin> ids"
  shows "r \<in> set (flood_rows s)"
proof -
  from assms(1) have "list_all2 (\<lambda>r r'. fl_id r' = fl_id r \<and> (fl_id r \<in> ids \<or> r' = r)) F (flood_rows s)"
    by (simp add: fema_kept_def)
  then show ?thesis using assms(2,3)
    by (induction rule: list_all2_induct) auto
qed

lemma keeps_kept_update:
  assumes "fu_id u \<in> ids"
  shows "keeps (fema_kept t ids F) (update_fema now u)"
  unfolding update_fema_def
proof (rule keeps_sql)
  fix s :: "'z femadb_scheme" and a s'
  assume k: "fema_kept t ids F s" and upd: "(if fema_fits u \<or> (\<forall>r \<in> set (flood_rows s). fl_id r \<noteq> fu_id u)
    then Some ((), s\<lparr>flood_rows := map (apply_fema now u) (flood_rows s)\<rparr>) else None) = Some (a, s')"
  then show "fema_kept t ids F s'" using assms
    by (auto simp: fema_kept_def list.rel_map apply_fema_def elim!: list_all2_mono split: if_splits)
qed (simp add: fema_kept_def)

lemma keeps_kept_now: "keeps (fema_kept t ids F) go_now"
  by (rule keepsI) (auto simp: fema_kept_def go_now_def split: list.splits)

lemma keeps_each_on: "(\<And>x. x \<in> set xs \<Longrightarrow> keeps P (f x)) \<Longrightarrow> keeps P (go_each f xs)"
  by (induction xs) (auto intro!: keeps_bind)

lemma keeps_kept_batch:
  assumes "fu_id ` set us \<subseteq> ids"
  shows "keeps (fema_kept t ids F) (BatchUpdateFEMA us)"
  unfolding BatchUpdateFEMA_def
proof (intro keeps_if keeps_ret keeps_with_tx keeps_bind keeps_kept_now keeps_each_on)
  show "keeps (fema_kept t ids F) (update_fema x u)" if "u \<in> set us" for x u
    using that assms by (intro keeps_kept_update) auto
qed (auto simp: fema_kept_def rollback_def)

definition fema_selected :: "fema_service \<Rightarrow> batch_args \<Rightarrow> int \<Rightarrow> flood_row list \<Rightarrow> flood_row list" where
  "fema_selected svc args t F = take (nat (batch_limit (fs_cfg svc) (ba_limit args)))
     (sort_key fl_id (filter (\<lambda>r. fl_id r > ba_cursor args \<and> is_stale (fm_stale_days (fs_cfg svc)) (ba_dataset args) t r) F))"

lemma batch_limit_pos [simp]: "0 < batch_limit cfg l"
  by (simp add: batch_limit_def Let_def)

lemma select_stale_run:
  assumes "SelectStaleForEnrichment (fm_stale_days (fs_cfg svc)) (ba_cursor args) (batch_limit (fs_cfg svc) (ba_limit args))
    (ba_dataset args) s = (r, s')"
  shows "fema_frame (clock s) (flood_rows s) s'"
    and "r = Inr rows \<Longrightarrow> \<exists>t \<ge> clock s. rows = map coord_of (fema_selected svc args t (flood_rows s))"
proof -
  obtain t s1 where now: "go_now s = (Inr t, s1)" "clock s \<le> t" "clock s1 = t" "flood_rows s1 = flood_rows s"
    using go_now_Inr [of s] by (cases "delays s") (auto simp: go_now_def)
  from assms now batch_limit_pos [of "fs_cfg svc" "ba_limit args"]
  have sel: "sql (\<lambda>s. Some (map coord_of (fema_selected svc args t (flood_rows s)), s)) s1 = (r, s')"
    by (simp add: SelectStaleForEnrichment_def Let_def go_simps fema_selected_def take_map)
  show "fema_frame (clock s) (flood_rows s) s'"
    using sel now by (cases r) (auto simp: fema_frame_def dest: sql_Inl sql_Inr)
  show "\<exists>t \<ge> clock s. rows = map coord_of (fema_selected svc args t (flood_rows s))" if "r = Inr rows"
    using sel now that by (auto dest!: sql_Inr)
qed

lemma frame_step:
  assumes "keeps (fema_frame t F) m" "fema_frame t F s" "m s = (r, s')"
  shows "fema_frame t F s'"
  using keepsD [OF assms(1,2)] assms(3) by simp

text \<open>One batch: what it selected, what it may have changed, and which batch it asks for next.\<close>

lemma process_batch_run:
  assumes run: "process_batch sprint order svc args s = (r, s')"
    and order: "\<And>rows. set (order rows) = set rows"
  shows "\<exists>ids. fema_kept (clock s) ids (flood_rows s) s' \<and>
    (\<forall>rows nxt. r = Inr (rows, nxt) \<longrightarrow> ids = lc_id ` set rows \<and>
       (\<exists>t \<ge> clock s. rows = map coord_of (fema_selected svc args t (flood_rows s))) \<and>
       nxt = (if int (length rows) = batch_limit (fs_cfg svc) (ba_limit args)
         then Some (args\<lparr>ba_cursor := lc_id (last rows), ba_limit := batch_limit (fs_cfg svc) (ba_limit args)\<rparr>) else None))"
proof -
  let ?F = "fema_frame (clock s) (flood_rows s)"
  obtain q s1 where sel: "SelectStaleForEnrichment (fm_stale_days (fs_cfg svc)) (ba_cursor args)
      (batch_limit (fs_cfg svc) (ba_limit args)) (ba_dataset args) s = (q, s1)" by fastforce
  note f1 = select_stale_run(1) [OF sel] and rows = select_stale_run(2) [OF sel]
  show ?thesis
  proof (cases q)
    case (Inl e)
    with run sel have "r = Inl e" "s' = s1" by (auto simp: process_batch_def Let_def go_simps)
    with fema_kept_of_frame [OF f1, of "{}"] show ?thesis by auto
  next
    case (Inr rs)
    show ?thesis
    proof (cases "rs = []")
      case True
      with run sel Inr have "r = Inr ([], None)" "s' = s1" by (auto simp: process_batch_def Let_def go_simps)
      with True fema_kept_of_frame [OF f1, of "{}"] rows [OF Inr] show ?thesis
        by (auto simp: less_imp_neq)
    next
      case False
      obtain now s2 where now: "go_now s1 = (Inr now, s2)" using go_now_Inr by metis
      obtain u s3 where qs: "query_rows sprint (fs_client svc) now (order rs) s2 = (u, s3)" by fastforce
      from query_rows_updates [OF qs] order obtain us where us: "u = Inr us"
        "\<forall>u \<in> set us. \<exists>c \<in> set rs. \<exists>attrs. u = buildListingFEMAUpdate (lc_id c) now attrs" by metis
      obtain v s4 where bu: "BatchUpdateFEMA us s3 = (v, s4)" by fastforce
      have "?F s3"
        by (rule frame_step [OF keeps_frame_rows _ qs], rule frame_step [OF keeps_frame_now f1 now])
      moreover have "fu_id ` set us \<subseteq> lc_id ` set rs" using us(2) by fastforce
      ultimately have "fema_kept (clock s) (lc_id ` set rs) (flood_rows s) s4"
        using keepsD [OF keeps_kept_batch fema_kept_of_frame] bu by (metis snd_conv)
      moreover have "s' = s4" and "r = map_sum id (\<lambda>_. (rs, if int (length rs) = batch_limit (fs_cfg svc) (ba_limit args)
         then Some (args\<lparr>ba_cursor := lc_id (last rs), ba_limit := batch_limit (fs_cfg svc) (ba_limit args)\<rparr>) else None)) v"
        using run sel Inr False now qs us(1) bu by (cases v; simp add: process_batch_def Let_def go_simps)+
      ultimately show ?thesis using rows [OF Inr] by (cases v) auto
    qed
  qed
qed

section \<open>The chain of batches\<close>

lemma is_stale_mono: "is_stale d ds t r \<Longrightarrow> t \<le> t' \<Longrightarrow> is_stale d ds t' r"
  by (auto simp: is_stale_def split: option.splits)

lemma fema_selected_mem:
  "r \<in> set (fema_selected svc args t F) \<Longrightarrow> r \<in> set F \<and> fl_id r > ba_cursor args"
  by (auto simp: fema_selected_def dest!: in_set_takeD)

lemma fema_selected_sorted:
  assumes "distinct (map fl_id F)"
  shows "sorted_wrt (<) (map fl_id (fema_selected svc args t F))"
proof -
  let ?xs = "sort_key fl_id (filter (\<lambda>r. fl_id r > ba_cursor args \<and>
     is_stale (fm_stale_days (fs_cfg svc)) (ba_dataset args) t r) F)"
  have "distinct (map fl_id ?xs)" using assms by (simp add: distinct_map inj_on_def)
  then have "sorted_wrt (<) (map fl_id ?xs)" by (simp add: strict_sorted_iff)
  then show ?thesis by (simp add: fema_selected_def sorted_wrt_take flip: take_map)
qed

text \<open>A stale listing that a batch does not select lies behind the batch, and the batch is full.\<close>

lemma fema_selected_rest:
  assumes "distinct (map fl_id F)" "v \<in> set F" "fl_id v > ba_cursor args"
    and "is_stale (fm_stale_days (fs_cfg svc)) (ba_dataset args) t v"
    and "v \<notin> set (fema_selected svc args t F)"
  shows "int (length (fema_selected svc args t F)) = batch_limit (fs_cfg svc) (ba_limit args)"
    and "w \<in> set (fema_selected svc args t F) \<Longrightarrow> fl_id w < fl_id v"
proof -
  define n where "n = nat (batch_limit (fs_cfg svc) (ba_limit args))"
  define xs where "xs = sort_key fl_id (filter (\<lambda>r. fl_id r > ba_cursor args \<and>
     is_stale (fm_stale_days (fs_cfg svc)) (ba_dataset args) t r) F)"
  have sel: "fema_selected svc args t F = take n xs" by (simp add: fema_selected_def n_def xs_def)
  have "v \<in> set xs" using assms by (simp add: xs_def)
  moreover have "set xs = set (take n xs) \<union> set (drop n xs)" by (metis append_take_drop_id set_append)
  ultimately have v: "v \<in> set (drop n xs)" using assms(5) sel by auto
  then have "n < length xs" by (metis drop_all empty_iff leI list.set(1))
  then show "int (length (fema_selected svc args t F)) = batch_limit (fs_cfg svc) (ba_limit args)"
    by (simp add: sel n_def less_imp_le)
  have "distinct (map fl_id xs)" using assms(1) by (simp add: xs_def distinct_map inj_on_def)
  then have "sorted_wrt (<) (map fl_id xs)" by (simp add: strict_sorted_iff xs_def)
  then have "sorted_wrt (<) (map fl_id (take n xs) @ map fl_id (drop n xs))" by (simp flip: map_append)
  then show "w \<in> set (fema_selected svc args t F) \<Longrightarrow> fl_id w < fl_id v"
    using v by (auto simp: sorted_wrt_append sel)
qed

definition ids_after :: "int \<Rightarrow> 'z femadb_scheme \<Rightarrow> nat" where
  "ids_after c s = length (filter (\<lambda>i. i > c) (map fl_id (flood_rows s)))"

lemma ids_after_less:
  assumes "map fl_id (flood_rows s') = map fl_id (flood_rows s)" "c < i" "i \<in> fl_id ` set (flood_rows s)"
  shows "ids_after i s' < ids_after c s"
proof -
  let ?xs = "map fl_id (flood_rows s)"
  have "filter (\<lambda>j. j > i) ?xs = filter (\<lambda>j. j > i) (filter (\<lambda>j. j > c) ?xs)"
    using assms(2) by (auto simp: filter_filter intro: filter_cong)
  moreover have "i \<in> set (filter (\<lambda>j. j > c) ?xs)" using assms(2,3) by auto
  ultimately show ?thesis
    unfolding ids_after_def assms(1) by (metis length_filter_less less_irrefl)
qed

lemma map_lc_id [simp]: "map lc_id (map coord_of xs) = map fl_id xs"
  by (simp add: coord_of_def)

definition chain_ok :: "fema_service \<Rightarrow> batch_args \<Rightarrow> 'z femadb_scheme \<Rightarrow> listing_coord list \<Rightarrow> bool" where
  "chain_ok svc args s visited \<longleftrightarrow>
     sorted_wrt (<) (map lc_id visited) \<and>
     (\<forall>c \<in> set visited. lc_id c > ba_cursor args \<and> lc_id c \<in> fl_id ` set (flood_rows s)) \<and>
     (\<forall>v \<in> set (flood_rows s). fl_id v > ba_cursor args \<and>
        is_stale (fm_stale_days (fs_cfg svc)) (ba_dataset args) (clock s) v \<longrightarrow> fl_id v \<in> lc_id ` set visited)"

lemma chain_ok_last:
  assumes "distinct (map fl_id (flood_rows s))" "clock s \<le> t" "rows = map coord_of (fema_selected svc args t (flood_rows s))"
    and "int (length rows) \<noteq> batch_limit (fs_cfg svc) (ba_limit args)"
  shows "chain_ok svc args s rows"
proof -
  have "fl_id v \<in> lc_id ` set rows" if "v \<in> set (flood_rows s)" "fl_id v > ba_cursor args"
    "is_stale (fm_stale_days (fs_cfg svc)) (ba_dataset args) (clock s) v" for v
    using fema_selected_rest(1) [OF assms(1) that(1,2) is_stale_mono [OF that(3) assms(2)]] assms(3,4)
    by (force simp: coord_of_def)
  then show ?thesis
    using fema_selected_sorted [OF assms(1)] fema_selected_mem assms(3)
    by (fastforce simp: chain_ok_def coord_of_def comp_def)
qed

lemma chain_ok_more:
  assumes d: "distinct (map fl_id (flood_rows s))" and t: "clock s \<le> t"
    and rows: "rows = map coord_of (fema_selected svc args t (flood_rows s))" "rows \<noteq> []"
    and kept: "fema_kept (clock s) (lc_id ` set rows) (flood_rows s) s'"
    and rest: "chain_ok svc (args\<lparr>ba_cursor := lc_id (last rows), ba_limit := l\<rparr>) s' visited"
  shows "chain_ok svc args s (rows @ visited)"
proof -
  let ?sel = "fema_selected svc args t (flood_rows s)"
  have sorted: "sorted_wrt (<) (map lc_id rows)" using fema_selected_sorted [OF d] rows(1) by (metis map_lc_id)
  have le_last: "lc_id c \<le> lc_id (last rows)" if "c \<in> set rows" for c
    using rows(2) sorted that by (cases rows rule: rev_cases) (auto simp: sorted_wrt_append)
  have mem: "ba_cursor args < lc_id c \<and> lc_id c \<in> fl_id ` set (flood_rows s)" if "c \<in> set rows" for c
    using that rows(1) fema_selected_mem [of _ svc args t "flood_rows s"] by (auto simp: coord_of_def)
  have ids: "fl_id ` set (flood_rows s') = fl_id ` set (flood_rows s)"
    using fema_kept_ids [OF kept] by (metis list.set_map)
  have cl: "clock s \<le> clock s'" using kept by (simp add: fema_kept_def)
  have v: "\<forall>c \<in> set visited. lc_id (last rows) < lc_id c \<and> lc_id c \<in> fl_id ` set (flood_rows s)"
    using rest ids by (auto simp: chain_ok_def)
  have all: "fl_id v \<in> lc_id ` set rows \<union> lc_id ` set visited" if v: "v \<in> set (flood_rows s)" "fl_id v > ba_cursor args"
    "is_stale (fm_stale_days (fs_cfg svc)) (ba_dataset args) (clock s) v" for v
  proof (cases "v \<in> set ?sel")
    case True
    then show ?thesis using rows(1) by (force simp: coord_of_def)
  next
    case False
    have st: "is_stale (fm_stale_days (fs_cfg svc)) (ba_dataset args) t v" by (rule is_stale_mono [OF v(3) t])
    have less: "lc_id c < fl_id v" if "c \<in> set rows" for c
      using that rows(1) fema_selected_rest(2) [OF d v(1,2) st False] by (auto simp: coord_of_def)
    then have "fl_id v \<notin> lc_id ` set rows" by (metis image_iff less_irrefl)
    then have "v \<in> set (flood_rows s')" by (rule fema_kept_row [OF kept v(1)])
    moreover have "is_stale (fm_stale_days (fs_cfg svc)) (ba_dataset args) (clock s') v" by (rule is_stale_mono [OF v(3) cl])
    ultimately show ?thesis using rest less [OF last_in_set [OF rows(2)]] by (auto simp: chain_ok_def)
  qed
  have "sorted_wrt (<) (map lc_id (rows @ visited))"
    using sorted rest v le_last by (fastforce simp: sorted_wrt_append chain_ok_def)
  moreover have "\<forall>c \<in> set (rows @ visited). lc_id c > ba_cursor args \<and> lc_id c \<in> fl_id ` set (flood_rows s)"
    using mem v le_last last_in_set [OF rows(2)] by fastforce
  ultimately show ?thesis using all unfolding chain_ok_def by auto
qed

lemma batch_chain_returns:
  fixes s :: "'z femadb_scheme"
  assumes order: "\<And>rows. set (order rows) = set rows" and "distinct (map fl_id (flood_rows s))"
  shows "\<exists>r s'. batch_chain sprint order svc args s = Some (r, s') \<and> (\<forall>visited. r = Inr visited \<longrightarrow> chain_ok svc args s visited)"
  using assms(2)
proof (induction "ids_after (ba_cursor args) s" arbitrary: args s rule: less_induct)
  case less
  obtain r s1 where run: "process_batch sprint order svc args s = (r, s1)" by fastforce
  obtain ids where kept: "fema_kept (clock s) ids (flood_rows s) s1" and res: "\<And>rows nxt. r = Inr (rows, nxt) \<Longrightarrow>
      ids = lc_id ` set rows \<and> (\<exists>t \<ge> clock s. rows = map coord_of (fema_selected svc args t (flood_rows s))) \<and>
      nxt = (if int (length rows) = batch_limit (fs_cfg svc) (ba_limit args)
        then Some (args\<lparr>ba_cursor := lc_id (last rows), ba_limit := batch_limit (fs_cfg svc) (ba_limit args)\<rparr>) else None)"
    using process_batch_run [OF run order] by blast
  note eq = batch_chain.simps [of sprint order svc args s]
  show ?case
  proof (cases r)
    case (Inl e)
    with eq run show ?thesis by simp
  next
    case (Inr p)
    obtain rows nxt where p: "p = (rows, nxt)" by fastforce
    note res = res [OF Inr [unfolded p]]
    from res obtain t where t: "clock s \<le> t" "rows = map coord_of (fema_selected svc args t (flood_rows s))" by blast
    show ?thesis
    proof (cases "int (length rows) = batch_limit (fs_cfg svc) (ba_limit args)")
      case False
      with res Inr p have "r = Inr (rows, None)" by simp
      with eq run chain_ok_last [OF less.prems t False] show ?thesis by simp
    next
      case True
      let ?a = "args\<lparr>ba_cursor := lc_id (last rows), ba_limit := batch_limit (fs_cfg svc) (ba_limit args)\<rparr>"
      have ne: "rows \<noteq> []" using True by (metis batch_limit_pos less_irrefl list.size(3) of_nat_0)
      have ids: "map fl_id (flood_rows s1) = map fl_id (flood_rows s)" by (rule fema_kept_ids [OF kept])
      have "ba_cursor args < lc_id (last rows) \<and> lc_id (last rows) \<in> fl_id ` set (flood_rows s)"
        using last_in_set [OF ne] t(2) fema_selected_mem [of _ svc args t "flood_rows s"] by (auto simp: coord_of_def)
      then have "ids_after (ba_cursor ?a) s1 < ids_after (ba_cursor args) s"
        using ids_after_less [OF ids] by simp
      from less.hyps [OF this] less.prems ids obtain r2 s2 where
        more: "batch_chain sprint order svc ?a s1 = Some (r2, s2)" "\<And>v. r2 = Inr v \<Longrightarrow> chain_ok svc ?a s1 v"
        by (metis (no_types, lifting))
      have "r = Inr (rows, Some ?a)" using res True Inr p by simp
      with eq run more(1) have "batch_chain sprint order svc args s = Some (map_sum id ((@) rows) r2, s2)" by simp
      moreover have "chain_ok svc args s (rows @ v)" if "r2 = Inr v" for v
        using chain_ok_more [OF less.prems t ne _ more(2) [OF that]] kept res by metis
      ultimately show ?thesis by (cases r2) auto
    qed
  qed
qed

section \<open>The breaker\<close>

lemma http_get_logs:
  assumes "http_get u s = (r, s')"
  shows "length (http_log s') = Suc (length (http_log s)) \<and> nfhl_breaker s' = nfhl_breaker s"
  using assms by (cases "delays s"; cases "http_replies s"; auto simp: http_get_def Let_def go_simps go_now_def split: http_reply.splits)

lemma doQuery_run:
  assumes "doQuery sprint u s = (r, s')"
  shows "\<exists>x. r = Inr x \<and> length (http_log s') = Suc (length (http_log s)) \<and> nfhl_breaker s' = nfhl_breaker s"
proof -
  obtain q s1 where q: "http_get u s = (q, s1)" by fastforce
  with assms http_get_logs [OF q] show ?thesis by (auto simp: doQuery_def go_simps)
qed

lemma recordFailure_run:
  assumes "recordFailure s = (r, s')"
  shows "r = Inr () \<and> http_log s' = http_log s \<and> cb_threshold (nfhl_breaker s') = cb_threshold (nfhl_breaker s) \<and>
    cb_failures (nfhl_breaker s') = cb_failures (nfhl_breaker s) + 1 \<and>
    cb_open (nfhl_breaker s') = (cb_open (nfhl_breaker s) \<or> cb_failures (nfhl_breaker s') \<ge> cb_threshold (nfhl_breaker s))"
  using assms by (cases "delays s") (auto simp: recordFailure_def Let_def go_simps go_now_def split: if_splits)

definition breaker_moves :: "circuit_breaker \<Rightarrow> circuit_breaker \<Rightarrow> bool \<Rightarrow> bool" where
  "breaker_moves b b' ok \<longleftrightarrow> cb_threshold b' = cb_threshold b \<and>
     (if ok then cb_failures b' = 0 \<and> \<not> cb_open b'
      else cb_failures b' = cb_failures b + 1 \<and> cb_open b' = (cb_open b \<or> cb_failures b' \<ge> cb_threshold b))"

lemma nfhl_attempts_run:
  assumes "nfhl_attempts sprint n k u e s = (r, s')" "0 < n \<or> e \<noteq> None"
  shows "length (http_log s') \<le> length (http_log s) + n \<and> breaker_moves (nfhl_breaker s) (nfhl_breaker s') (\<not> isl r)"
  using assms
proof (induction n arbitrary: k e s)
  case 0
  obtain x s1 where f: "recordFailure s = (x, s1)" by fastforce
  with recordFailure_run [OF f] 0 show ?case
    by (auto simp: go_simps breaker_moves_def)
next
  case (Suc n)
  define s0 where "s0 = (if k > 0 then s\<lparr>clock := clock s + nfhl_backoff k\<rparr> else s)"
  have wait: "(if k > 0 then sleep_for (nfhl_backoff k) else go_ret ()) s = (Inr (), s0)"
    by (simp add: s0_def sleep_for_def go_simps)
  have s0: "http_log s0 = http_log s" "nfhl_breaker s0 = nfhl_breaker s" by (simp_all add: s0_def)
  obtain y s1 where q0: "doQuery sprint u s0 = (y, s1)" by fastforce
  with doQuery_run [OF q0] s0 obtain x where q: "doQuery sprint u s0 = (Inr x, s1)"
    "length (http_log s1) = Suc (length (http_log s))" "nfhl_breaker s1 = nfhl_breaker s" by auto
  show ?case
  proof (cases x)
    case (NfhlAnswer a)
    with Suc.prems wait q show ?thesis by (auto simp: go_simps recordSuccess_def breaker_moves_def)
  next
    case (NfhlRetry m)
    with Suc.prems wait q have "nfhl_attempts sprint n (Suc k) u (Some (Err m)) s1 = (r, s')" by (simp add: go_simps)
    from Suc.IH [OF this] q show ?thesis by auto
  next
    case (NfhlFail m)
    obtain z s2 where f: "recordFailure s1 = (z, s2)" by fastforce
    with recordFailure_run [OF f] Suc.prems wait q NfhlFail show ?thesis by (auto simp: go_simps breaker_moves_def)
  qed
qed

lemma nfhl_wait_run: "\<exists>s'. nfhl_wait s = (Inr (), s') \<and> http_log s' = http_log s \<and> nfhl_breaker s' = nfhl_breaker s"
  by (auto simp: nfhl_wait_def limiter_wait_def Let_def go_simps go_now_def sleep_for_def
      split: option.splits list.splits prod.splits sum.splits if_splits)

lemma breaker_allow_run:
  assumes "breaker_allow s = (r, s')"
  shows "http_log s' = http_log s"
    and "r = Inr () \<Longrightarrow> \<not> cb_open (nfhl_breaker s') \<and> cb_threshold (nfhl_breaker s') = cb_threshold (nfhl_breaker s) \<and>
      cb_failures (nfhl_breaker s') = (if cb_open (nfhl_breaker s) then 0 else cb_failures (nfhl_breaker s))"
    and "r = Inl e \<Longrightarrow> nfhl_breaker s' = nfhl_breaker s"
    and "cb_open (nfhl_breaker s) \<Longrightarrow> fst (go_now s) = Inr t \<Longrightarrow> t \<le> cb_until (nfhl_breaker s) \<Longrightarrow>
      r = Inl (Err ''fema nfhl circuit breaker open'')"
  using assms
  by (cases "delays s"; auto simp: breaker_allow_def Let_def go_simps go_now_def split: if_splits)+

section \<open>The risk flag\<close>

text \<open>A row is consistent when its flag is the one its FEMA code gives; before the first enrichment it is unset.\<close>

definition flood_ok :: "flood_row \<Rightarrow> bool" where
  "flood_ok r \<longleftrightarrow> fl_low_risk r = (fl_enriched r \<noteq> None \<and> ComputeLowRiskFloodZoneYN (fl_code r))"

definition flood_inv :: "'z femadb_scheme \<Rightarrow> bool" where
  "flood_inv s \<longleftrightarrow> (\<forall>r \<in> set (flood_rows s). flood_ok r)"

lemma flood_ok_apply: "flood_ok r \<Longrightarrow> flood_ok (apply_fema now (buildListingFEMAUpdate i t attrs) r)"
  by (auto simp: flood_ok_def apply_fema_def buildListingFEMAUpdate_def ComputeLowRiskFloodZoneYN_def split: option.splits)

lemma flood_inv_frame: "fema_frame t F s \<Longrightarrow> \<forall>r \<in> set F. flood_ok r \<Longrightarrow> flood_inv s"
  by (simp add: fema_frame_def flood_inv_def)

lemma keeps_flood_inv:
  assumes "\<And>t F. keeps (fema_frame t F) m"
  shows "keeps flood_inv m"
  using keepsD [OF assms] by (intro keepsI) (metis fema_frame_def flood_inv_def order_refl)

lemma keeps_inv_batch:
  assumes "\<forall>u \<in> set us. \<exists>i t attrs. u = buildListingFEMAUpdate i t attrs"
  shows "keeps flood_inv (BatchUpdateFEMA us)"
  unfolding BatchUpdateFEMA_def
proof (intro keeps_if keeps_ret keeps_with_tx keeps_bind keeps_each_on)
  show "keeps flood_inv go_now" by (rule keeps_flood_inv) blast
  show "keeps flood_inv (update_fema x u)" if m: "u \<in> set us" for x u
  proof -
    obtain i t attrs where u: "u = buildListingFEMAUpdate i t attrs" using m assms by blast
    show ?thesis unfolding update_fema_def u
      by (rule keeps_sql) (auto simp: flood_inv_def intro!: flood_ok_apply split: if_splits)
  qed
qed (auto simp: flood_inv_def rollback_def)

lemma keeps_frame_sql_read [intro!]: "keeps (fema_frame t F) (sql (\<lambda>s. Some (f s, s)))"
  by (rule keeps_sql) (auto simp: fema_frame_def)

lemma keeps_frame_select [intro!]: "keeps (fema_frame t F) (SelectStaleForEnrichment d c l ds)"
  unfolding SelectStaleForEnrichment_def Let_def by (auto intro!: keeps_bind)

lemma keeps_frame_count [intro!]: "keeps (fema_frame t F) (CountStale d ds)"
  unfolding CountStale_def by (auto intro!: keeps_bind)

lemma keeps_frame_Enqueue [intro!]: "keeps (fema_frame t F) (Enqueue c q ty a 0)"
  unfolding Enqueue_def Let_def insert_job_def pg_notify_def
  by (intro keeps_bind keeps_frame_now keeps_ignore keeps_ret keeps_sql) (auto simp: fema_frame_def split: if_splits)

lemma keeps_frame_enqueue_batch [intro!]: "keeps (fema_frame t F) (enqueue_fema_batch svc a)"
  unfolding enqueue_fema_batch_def by (intro keeps_bind keeps_frame_Enqueue keeps_ret)

lemma keeps_frame_active [intro!]: "keeps (fema_frame t F) HasActiveFloodEnrichJob"
  unfolding HasActiveFloodEnrichJob_def
  by (intro keeps_bind keeps_frame_now keeps_sql) (auto simp: fema_frame_def split: if_splits)

lemma keeps_frame_kickoffs [intro!]:
  "keeps (fema_frame t F) (FemaKickoff svc ka)" "keeps (fema_frame t F) (AdminKickoff svc ds)"
  unfolding FemaKickoff_def AdminKickoff_def EnqueueKickoffIfAbsent_def
  by (intro keeps_bind keeps_if keeps_ret keeps_frame_count keeps_frame_enqueue_batch keeps_frame_active keeps_frame_Enqueue)+

lemma keeps_inv_query_update:
  "keeps flood_inv (go_bind (query_rows sprint cl now rows) (\<lambda>updates. go_bind (BatchUpdateFEMA updates) (\<lambda>_. go_ret x)))"
proof (rule keepsI)
  fix s assume s: "flood_inv s"
  obtain r s1 where q: "query_rows sprint cl now rows s = (r, s1)" by fastforce
  from query_rows_updates [OF q] obtain us where us: "r = Inr us"
    "\<forall>u \<in> set us. \<exists>c \<in> set rows. \<exists>attrs. u = buildListingFEMAUpdate (lc_id c) now attrs" by blast
  then have built: "\<forall>u \<in> set us. \<exists>i t attrs. u = buildListingFEMAUpdate i t attrs" by metis
  have s1: "flood_inv s1" using keepsD [OF keeps_flood_inv [OF keeps_frame_rows] s] q by (metis snd_conv)
  obtain v s2 where b: "BatchUpdateFEMA us s1 = (v, s2)" by fastforce
  have "flood_inv s2" using keepsD [OF keeps_inv_batch [OF built] s1] b by simp
  with q us(1) b show "flood_inv (snd (go_bind (query_rows sprint cl now rows)
      (\<lambda>updates. go_bind (BatchUpdateFEMA updates) (\<lambda>_. go_ret x)) s))"
    by (cases v) (simp_all add: go_simps)
qed

lemma keeps_inv_process: "keeps flood_inv (process_batch sprint order svc args)"
  unfolding process_batch_def Let_def
  by (intro keeps_inv_query_update keeps_bind keeps_if keeps_ret keeps_flood_inv keeps_frame_select keeps_frame_now)

text \<open>Enrichment never calls a listing in a flood hazard zone low risk: whatever FEMA answers and whichever statements fail, after a
  batch, a kickoff or an administrator's kickoff every row's flag is the one its stored FEMA code gives, and a flagged row
  has a code in which neither A nor V occurs.\<close>

theorem low_risk_flag_follows_fema_code:
  assumes "\<forall>r \<in> set (flood_rows s). flood_ok r"
    and "s' \<in> {snd (RunBatch sprint order svc args s), snd (FemaKickoff svc ka s), snd (AdminKickoff svc ds s)}"
    and "r \<in> set (flood_rows s')"
  shows "flood_ok r \<and> (fl_low_risk r \<longrightarrow> (\<exists>z. fl_code r = Some z \<and>
    \<not> contains_sub (to_upper (trim_space z)) ''A'' \<and> \<not> contains_sub (to_upper (trim_space z)) ''V''))"
proof -
  have inv: "flood_inv s" using assms(1) by (simp add: flood_inv_def)
  have "keeps flood_inv (RunBatch sprint order svc args)"
    unfolding RunBatch_def
    by (auto intro!: keeps_bind keeps_inv_process keeps_flood_inv [OF keeps_frame_enqueue_batch] split: option.split)
  with assms(2) inv have "flood_inv s'"
    using keeps_flood_inv [OF keeps_frame_kickoffs(1), of svc ka] keeps_flood_inv [OF keeps_frame_kickoffs(2), of svc ds]
    by (auto simp: keeps_def)
  with assms(3) have "flood_ok r" by (simp add: flood_inv_def)
  then show ?thesis
    by (auto simp: flood_ok_def ComputeLowRiskFloodZoneYN_def Let_def split: option.splits if_splits)
qed

section \<open>Properties of the chain and of the client\<close>


text \<open>One point query makes at most as many requests as it has attempts; while the breaker is open and its time has not
  passed it makes none and fails; otherwise an answer resets the breaker, and a failure counts one and opens the breaker
  exactly when the count reaches the threshold.\<close>

theorem nfhl_query_respects_breaker:
  assumes "QueryPoint sprint cl lat lng s = (r, s')" and "0 < nc_max_retries cl"
  shows "length (http_log s') \<le> length (http_log s) + nc_max_retries cl \<and>
    (cb_open (nfhl_breaker s) \<and> (\<exists>t. fst (go_now s) = Inr t \<and> t \<le> cb_until (nfhl_breaker s)) \<longrightarrow>
       isl r \<and> http_log s' = http_log s \<and> nfhl_breaker s' = nfhl_breaker s) \<and>
    (\<not> cb_open (nfhl_breaker s) \<longrightarrow>
       (if isl r then cb_failures (nfhl_breaker s') = cb_failures (nfhl_breaker s) + 1 \<and>
           cb_open (nfhl_breaker s') = (cb_failures (nfhl_breaker s') \<ge> cb_threshold (nfhl_breaker s))
        else cb_failures (nfhl_breaker s') = 0 \<and> \<not> cb_open (nfhl_breaker s')))"
proof -
  obtain a s1 where al: "breaker_allow s = (a, s1)" by fastforce
  note allow = breaker_allow_run [OF al]
  show ?thesis
  proof (cases a)
    case (Inl e)
    then have "r = Inl e" "s' = s1" using assms al by (auto simp: QueryPoint_def go_simps)
    moreover have "cb_open (nfhl_breaker s)" using Inl al by (auto simp: breaker_allow_def Let_def split: if_splits)
    ultimately show ?thesis using allow(1,3) Inl by auto
  next
    case (Inr u)
    obtain s2 where w: "nfhl_wait s1 = (Inr (), s2)" "http_log s2 = http_log s1" "nfhl_breaker s2 = nfhl_breaker s1"
      using nfhl_wait_run by metis
    have run: "nfhl_attempts sprint (nc_max_retries cl) 0 (nfhl_url cl lat lng) None s2 = (r, s')"
      using assms(1) al Inr w by (simp add: QueryPoint_def go_simps)
    have "\<not> (cb_open (nfhl_breaker s) \<and> (\<exists>t. fst (go_now s) = Inr t \<and> t \<le> cb_until (nfhl_breaker s)))"
      using allow(4) Inr by auto
    then show ?thesis
      using nfhl_attempts_run [OF run disjI1 [OF assms(2)]] allow(1,2) Inr w by (auto simp: breaker_moves_def split: if_splits)
  qed
qed

section \<open>A run against an open breaker\<close>

definition breaker_holds :: "flood_row list \<Rightarrow> (int \<times> string) list \<Rightarrow> 'z femadb_scheme \<Rightarrow> bool" where
  "breaker_holds F L s \<longleftrightarrow> flood_rows s = F \<and> http_log s = L \<and> no_faults s \<and> delays s = [] \<and>
     cb_open (nfhl_breaker s) \<and> clock s \<le> cb_until (nfhl_breaker s)"

lemma breaker_holds_query:
  "breaker_holds F L s \<Longrightarrow> QueryPoint sprint cl la lo s = (Inl (Err ''fema nfhl circuit breaker open''), s)"
  by (simp add: breaker_holds_def QueryPoint_def breaker_allow_def Let_def go_simps go_now_def)

lemma breaker_holds_rows: "breaker_holds F L s \<Longrightarrow> query_rows sprint cl now rs s = (Inr [], s)"
  by (induction rs) (simp_all add: go_simps breaker_holds_query)

lemma breaker_holds_process:
  assumes "breaker_holds F L s"
  shows "\<exists>x s'. process_batch sprint order svc args s = (Inr x, s') \<and> breaker_holds F L s'"
proof -
  define s1 where "s1 = s\<lparr>faults := tl (faults s)\<rparr>"
  have s1: "breaker_holds F L s1" using assms by (simp add: s1_def breaker_holds_def)
  have now: "go_now s = (Inr (clock s), s)" "go_now s1 = (Inr (clock s1), s1)"
    using assms s1 by (simp_all add: breaker_holds_def go_now_def)
  obtain rows where "SelectStaleForEnrichment (fm_stale_days (fs_cfg svc)) (ba_cursor args)
      (batch_limit (fs_cfg svc) (ba_limit args)) (ba_dataset args) s = (Inr rows, s1)"
    using assms by (simp add: SelectStaleForEnrichment_def Let_def go_simps now sql_no_faults breaker_holds_def s1_def)
  then show ?thesis
    using s1 by (simp add: process_batch_def Let_def go_simps now breaker_holds_rows BatchUpdateFEMA_def)
qed

lemma breaker_holds_chain_all:
  "batch_chain sprint order svc args s = Some y \<Longrightarrow>
     \<forall>F L. breaker_holds F L s \<longrightarrow> breaker_holds F L (snd y) \<and> \<not> isl (fst y)"
proof (erule batch_chain.raw_induct [where P = "\<lambda>sprint order svc args s y.
    \<forall>F L. breaker_holds F L s \<longrightarrow> breaker_holds F L (snd y) \<and> \<not> isl (fst y)", rotated], intro allI impI)
  fix f sprint order svc args and s :: "'a femadb_scheme" and y F L
  assume IH: "\<And>sprint order svc args (s :: 'a femadb_scheme) y. f sprint order svc args s = Some y \<Longrightarrow>
      \<forall>F L. breaker_holds F L s \<longrightarrow> breaker_holds F L (snd y) \<and> \<not> isl (fst y)"
    and run: "(case process_batch sprint order svc args s of
        (Inl e, s') \<Rightarrow> Some (Inl e, s')
      | (Inr (rows, None), s') \<Rightarrow> Some (Inr rows, s')
      | (Inr (rows, Some a), s') \<Rightarrow>
          Option.bind (f sprint order svc a s') (\<lambda>(r, t). Some (map_sum id ((@) rows) r, t))) = Some y"
    and s: "breaker_holds F L s"
  obtain x s1 where p: "process_batch sprint order svc args s = (Inr x, s1)" "breaker_holds F L s1"
    using breaker_holds_process [OF s] by blast
  obtain rows nxt where x: "x = (rows, nxt)" by fastforce
  show "breaker_holds F L (snd y) \<and> \<not> isl (fst y)"
  proof (cases nxt)
    case None
    with run p x show ?thesis by auto
  next
    case (Some a)
    with run p(1) x obtain z where z: "f sprint order svc a s1 = Some z"
      "y = (map_sum id ((@) rows) (fst z), snd z)" by (cases "f sprint order svc a s1") auto
    with IH [OF z(1)] p(2) show ?thesis by (cases "fst z") auto
  qed
qed

lemmas breaker_holds_chain = breaker_holds_chain_all [rule_format]

text \<open>An open breaker uses up a whole run: if it is open, its time has not passed while the jobs run and no statement fails, the
  chain passes over every stale listing behind the cursor without a single request to FEMA and without a change to any row, and
  ends as if it had succeeded. The rows stay stale until another run starts.\<close>

theorem open_breaker_uses_up_run:
  assumes "\<And>rows. set (order rows) = set rows" and "distinct (map fl_id (flood_rows s))"
    and "cb_open (nfhl_breaker s)" "clock s \<le> cb_until (nfhl_breaker s)" "delays s = []" "no_faults s"
  shows "\<exists>visited s'. batch_chain sprint order svc args s = Some (Inr visited, s') \<and>
    flood_rows s' = flood_rows s \<and> http_log s' = http_log s \<and>
    (\<forall>v \<in> set (flood_rows s). fl_id v > ba_cursor args \<and>
       is_stale (fm_stale_days (fs_cfg svc)) (ba_dataset args) (clock s) v \<longrightarrow> fl_id v \<in> lc_id ` set visited)"
proof -
  have "breaker_holds (flood_rows s) (http_log s) s" using assms by (simp add: breaker_holds_def)
  with batch_chain_returns [OF assms(1,2)] breaker_holds_chain obtain r s' where
    "batch_chain sprint order svc args s = Some (r, s')" "\<forall>visited. r = Inr visited \<longrightarrow> chain_ok svc args s visited"
    "breaker_holds (flood_rows s) (http_log s) s'" "\<not> isl r" by (metis fst_conv snd_conv)
  then show ?thesis by (cases r) (auto simp: breaker_holds_def chain_ok_def)
qed

section \<open>What the jobs carry\<close>

definition sendable_batch :: "batch_args \<Rightarrow> bool" where
  "sendable_batch a \<longleftrightarrow> int64_ok (ba_cursor a) \<and> int64_ok (ba_limit a)"

interpretation batch_codec: job_codec enc_batch_args UnmarshalBatchArgs sendable_batch
  by unfold_locales
    (simp add: enc_batch_args_def UnmarshalBatchArgs_def sendable_batch_def struct_fields_def enc_str_omit_def equal_fold_def
      to_lower_def lower_char_def dec_string_def dec_int_def int64_of_real_of_int)

interpretation kickoff_codec: job_codec enc_kickoff_args UnmarshalKickoffArgs "\<lambda>_. True"
  by unfold_locales
    (simp add: enc_kickoff_args_def UnmarshalKickoffArgs_def struct_fields_def enc_str_omit_def equal_fold_def
      to_lower_def lower_char_def dec_string_def kickoff_args.make_def)

text \<open>A full batch hands over to its successor: the last job of the queue then decodes to the batch that starts behind the last row.\<close>

lemma enqueue_fema_batch_decodes:
  assumes "no_faults s" "clock_fits s" "sendable_batch a"
  shows "\<exists>s' j p. enqueue_fema_batch svc a s = (Inr (), s') \<and> jobs s' = jobs s @ [j] \<and>
    job_queue j = fm_queue (fs_cfg svc) \<and> UnmarshalPayload (job_payload j) = Some p \<and>
    payload_type p = ''fema.flood_enrich_batch'' \<and> UnmarshalBatchArgs (payload_args p) = Some a"
proof -
  obtain t s' where e: "Enqueue (fs_queue svc) (fm_queue (fs_cfg svc)) ''fema.flood_enrich_batch'' (Some (enc_batch_args a)) 0 s =
      (Inr (next_job_id s), s')" "jobs s' = jobs s @ [\<lparr>job_id = next_job_id s, job_queue = fm_queue (fs_cfg svc),
        job_payload = MarshalPayload ''fema.flood_enrich_batch'' (Some (enc_batch_args a)),
        job_attempts = 0, reserved_at = None, available_at = unix t, job_created_at = unix t\<rparr>]"
    by (rule Enqueue_ok [OF assms(1,2), of "fs_queue svc" "fm_queue (fs_cfg svc)" "''fema.flood_enrich_batch''" "Some (enc_batch_args a)"])
      blast
  then show ?thesis
    using batch_codec.payload_roundtrip [OF assms(3), of "''fema.flood_enrich_batch''"] by (auto simp: enqueue_fema_batch_def go_simps)
qed

section \<open>Witnesses\<close>

definition demo_flood_row :: "int \<Rightarrow> int option \<Rightarrow> flood_row" where
  "demo_flood_row i t = \<lparr>fl_id = i, fl_dataset = ''stellar'', fl_lat = Some 28, fl_lng = Some (- 82), fl_code = None, fl_sfha = None,
     fl_raw = None, fl_enriched = t, fl_low_risk = False, fl_updated = 0\<rparr>"

definition demo_fema_config :: fema_config where
  "demo_fema_config = \<lparr>fm_base_url = ''https://f/'', fm_layer = 28, fm_rps = 4, fm_threshold = 1, fm_queue = ''fema'', fm_batch_size = 1,
     fm_stale_days = 30\<rparr>"

definition demo_fema :: fema_service where
  "demo_fema = \<lparr>fs_cfg = demo_fema_config, fs_client = fst (NewFemaClient demo_fema_config), fs_queue = demo_client\<rparr>"

definition demo_flood :: "circuit_breaker \<Rightarrow> femadb" where
  "demo_flood b = (fdb.extend demo_fetch (femadb.fields [demo_flood_row 3 None, demo_flood_row 2 (Some (100 * second)), demo_flood_row 1 None]
     (newRateLimiter 4) b))\<lparr>http_replies := []\<rparr>"

definition demo_batch :: batch_args where
  "demo_batch = \<lparr>ba_cursor = 0, ba_limit = 0, ba_dataset = ''stellar''\<rparr>"

lemmas demo_flood_defs = demo_flood_def demo_flood_row_def demo_fetch_def demo_sync_def sdb.defs fdb.defs femadb.defs

lemma demo_flood_fields:
  "flood_rows (demo_flood b) = [demo_flood_row 3 None, demo_flood_row 2 (Some (100 * second)), demo_flood_row 1 None]"
  "nfhl_breaker (demo_flood b) = b" "delays (demo_flood b) = []" "faults (demo_flood b) = []" "http_log (demo_flood b) = []"
  by (simp_all add: demo_flood_defs)

lemma demo_flood_stale: "is_stale 30 ''stellar'' t (demo_flood_row i None)"
  by (simp add: is_stale_def demo_flood_row_def)

lemma demo_fema_fields: "fm_stale_days (fs_cfg demo_fema) = 30" "ba_cursor demo_batch = 0" "ba_dataset demo_batch = ''stellar''"
  by (simp_all add: demo_fema_def demo_fema_config_def demo_batch_def)


definition demo_open_breaker :: circuit_breaker where
  "demo_open_breaker = \<lparr>cb_threshold = 1, cb_failures = 1, cb_open = True, cb_until = 1000000 * second\<rparr>"

theorem open_breaker_uses_up_run_witness:
  "\<exists>visited s'. batch_chain (\<lambda>_. []) rev demo_fema demo_batch (demo_flood demo_open_breaker) = Some (Inr visited, s') \<and>
     flood_rows s' = flood_rows (demo_flood demo_open_breaker) \<and> http_log s' = [] \<and> {1, 3} \<subseteq> lc_id ` set visited"
proof -
  have "set (rev rows) = set rows" for rows :: "listing_coord list" by simp
  moreover have "distinct (map fl_id (flood_rows (demo_flood demo_open_breaker)))"
    by (simp add: demo_flood_fields demo_flood_row_def)
  moreover have "cb_open (nfhl_breaker (demo_flood demo_open_breaker))"
    "clock (demo_flood demo_open_breaker) \<le> cb_until (nfhl_breaker (demo_flood demo_open_breaker))"
    "delays (demo_flood demo_open_breaker) = []" "no_faults (demo_flood demo_open_breaker)"
    by (simp_all add: demo_flood_fields demo_open_breaker_def no_faults_def) (simp add: demo_flood_defs second_def)
  ultimately have "\<exists>visited s'. batch_chain (\<lambda>_. []) rev demo_fema demo_batch (demo_flood demo_open_breaker) = Some (Inr visited, s') \<and>
    flood_rows s' = flood_rows (demo_flood demo_open_breaker) \<and> http_log s' = http_log (demo_flood demo_open_breaker) \<and>
    (\<forall>v \<in> set (flood_rows (demo_flood demo_open_breaker)). fl_id v > ba_cursor demo_batch \<and>
       is_stale (fm_stale_days (fs_cfg demo_fema)) (ba_dataset demo_batch) (clock (demo_flood demo_open_breaker)) v \<longrightarrow>
       fl_id v \<in> lc_id ` set visited)"
    by (rule open_breaker_uses_up_run)
  then obtain visited s' where w: "batch_chain (\<lambda>_. []) rev demo_fema demo_batch (demo_flood demo_open_breaker) = Some (Inr visited, s')"
    "flood_rows s' = flood_rows (demo_flood demo_open_breaker)" "http_log s' = http_log (demo_flood demo_open_breaker)"
    "\<forall>v \<in> set (flood_rows (demo_flood demo_open_breaker)). fl_id v > ba_cursor demo_batch \<and>
       is_stale (fm_stale_days (fs_cfg demo_fema)) (ba_dataset demo_batch) (clock (demo_flood demo_open_breaker)) v \<longrightarrow>
       fl_id v \<in> lc_id ` set visited" by blast
  have "{1, 3} \<subseteq> lc_id ` set visited"
    using w(4) demo_flood_stale by (auto simp: demo_flood_fields demo_fema_fields demo_flood_row_def)
  with w(1-3) show ?thesis by (auto simp: demo_flood_fields)
qed

lemma demo_query_fails:
  "\<exists>e s'. QueryPoint (\<lambda>_. []) (fs_client demo_fema) 28 (- 82) (demo_flood (newCircuitBreaker 1)) = (Inl e, s')"
  by (simp add: QueryPoint_def breaker_allow_def demo_flood_fields newCircuitBreaker_def go_simps nfhl_wait_def demo_fema_def NewFemaClient_def
      numeral_eq_Suc doQuery_def http_get_def recordFailure_def sleep_for_def go_now_def limiter_wait_def
      newRateLimiter_def newSyncRateLimiter_def demo_flood_defs Let_def)

theorem nfhl_query_respects_breaker_witness:
  "\<exists>r s'. QueryPoint (\<lambda>_. []) (fs_client demo_fema) 28 (- 82) (demo_flood (newCircuitBreaker 1)) = (r, s') \<and>
     length (http_log s') \<le> 4 \<and> cb_failures (nfhl_breaker s') = 1 \<and> cb_open (nfhl_breaker s')"
proof -
  obtain e s' where q: "QueryPoint (\<lambda>_. []) (fs_client demo_fema) 28 (- 82) (demo_flood (newCircuitBreaker 1)) = (Inl e, s')"
    using demo_query_fails by blast
  have "0 < nc_max_retries (fs_client demo_fema)" by (simp add: demo_fema_def NewFemaClient_def)
  from nfhl_query_respects_breaker [OF q this] q show ?thesis
    by (simp add: demo_flood_fields newCircuitBreaker_def demo_fema_def NewFemaClient_def)
qed

theorem low_risk_flag_follows_fema_code_witness:
  "list_all flood_ok (flood_rows (snd (RunBatch (\<lambda>_. []) rev demo_fema demo_batch (demo_flood (newCircuitBreaker 5)))))"
  unfolding list_all_iff
proof
  fix r assume r: "r \<in> set (flood_rows (snd (RunBatch (\<lambda>_. []) rev demo_fema demo_batch (demo_flood (newCircuitBreaker 5)))))"
  have "\<forall>r \<in> set (flood_rows (demo_flood (newCircuitBreaker 5))). flood_ok r"
    by (simp add: demo_flood_fields demo_flood_row_def flood_ok_def ComputeLowRiskFloodZoneYN_def)
  from low_risk_flag_follows_fema_code [OF this insertI1 r] show "flood_ok r" by simp
qed

end
