(* ===== verification/Comps_Property.thy ===== *)
theory Comps_Property
  imports Mls_Rows
begin

text \<open>
  The data of the comparables engine (\<^verbatim>\<open>internal/service/comps\<close>: \<^verbatim>\<open>types.go\<close>, \<^verbatim>\<open>property.go\<close>, \<^verbatim>\<open>condition.go\<close>) and the
  part of \<^verbatim>\<open>subject.go\<close> that needs no database: requests, subjects and comparables, and how they are read from
  a RESO property.

  Fields of the request that no code reads (the \<^verbatim>\<open>match_*\<close> filters, the tolerances, \<^verbatim>\<open>aggregation_method\<close>, \<^verbatim>\<open>simulation\<close>) are left
  out. A pointer field of the request is an option. \<open>marshal\<close> stands for \<^verbatim>\<open>json.Marshal\<close> of a value that is not a
  string; the theorems hold for every such function. A \<^verbatim>\<open>float64\<close> is an exact real. \<^verbatim>\<open>int(x)\<close> cuts the fraction.
\<close>

section \<open>Requests\<close>

record subject_input =
  si_type :: string
  si_listing_id :: string
  si_lat :: "real option"
  si_lng :: "real option"
  si_bedrooms :: "real option"
  si_bathrooms :: "real option"
  si_living_area :: "real option"
  si_lot_sqft :: "real option"
  si_garage :: "real option"
  si_monthly_fees :: "real option"
  si_flood_zone :: "string option"
  si_stellar_flood_zone :: "string option"
  si_stellar_fees :: "real option"
  si_subdivision :: "string option"
  si_mls_area :: "string option"
  si_address :: "string option"
  si_property_type :: "string option"
  si_year_built :: "int option"
  si_condition :: "string option"
  si_kitchen_year :: "int option"
  si_bathrooms_year :: "int option"
  si_hvac_year :: "int option"

record scope_input =
  sc_type :: string
  sc_radius :: "real option"
  sc_postal_codes :: "string list"

record filters_input =
  fi_sold_months :: "int option"
  fi_max_sold :: "int option"
  fi_max_competition :: "int option"
  fi_include_active :: "bool option"
  fi_include_overpriced :: "bool option"
  fi_living_area_pct :: "real option"
  fi_beds_tolerance :: "real option"
  fi_adj_pool :: "real option"
  fi_adj_garage :: "real option"
  fi_adj_waterfront :: "real option"
  fi_adj_year :: "real option"

definition no_filters :: filters_input where
  "no_filters = \<lparr>fi_sold_months = None, fi_max_sold = None, fi_max_competition = None, fi_include_active = None,
     fi_include_overpriced = None, fi_living_area_pct = None, fi_beds_tolerance = None, fi_adj_pool = None,
     fi_adj_garage = None, fi_adj_waterfront = None, fi_adj_year = None\<rparr>"

record bpo_params =
  bp_max_comps :: "int option"
  bp_sold_months :: "int option"
  bp_min_regression :: "int option"
  bp_confidence :: "real option"
  bp_zscore :: "real option"

record home_value_params =
  hv_sold_months :: "int option"
  hv_max_comps :: "int option"

record run_request =
  rq_subject :: subject_input
  rq_mode :: string
  rq_scope :: scope_input
  rq_filters :: filters_input
  rq_keywords :: "string list"
  rq_rental :: raw_message
  rq_flip :: raw_message
  rq_bpo :: bpo_params
  rq_home_value :: home_value_params

section \<open>Subjects and comparables\<close>

record subject_profile =
  sp_type :: string
  sp_listing_key :: string
  sp_listing_id :: string
  sp_lat :: real
  sp_lng :: real
  sp_bedrooms :: real
  sp_bathrooms :: real
  sp_living_area :: real
  sp_lot_acres :: real
  sp_year_built :: int
  sp_garage :: real
  sp_pool :: bool
  sp_waterfront :: bool
  sp_list_price :: real
  sp_monthly_fees :: real
  sp_flood_zone :: string
  sp_subdivision :: string
  sp_mls_area :: string
  sp_property_type :: string
  sp_condition :: string
  sp_kitchen_year :: int
  sp_bathrooms_year :: int
  sp_hvac_year :: int
  sp_raw :: raw_message

definition zero_subject :: subject_profile where
  "zero_subject = \<lparr>sp_type = [], sp_listing_key = [], sp_listing_id = [], sp_lat = 0, sp_lng = 0, sp_bedrooms = 0,
     sp_bathrooms = 0, sp_living_area = 0, sp_lot_acres = 0, sp_year_built = 0, sp_garage = 0, sp_pool = False,
     sp_waterfront = False, sp_list_price = 0, sp_monthly_fees = 0, sp_flood_zone = [], sp_subdivision = [], sp_mls_area = [],
     sp_property_type = [], sp_condition = [], sp_kitchen_year = 0, sp_bathrooms_year = 0, sp_hvac_year = 0, sp_raw = RawEmpty\<rparr>"

type_synonym adjustment_line = "string \<times> real"

record comp_record =
  c_key :: string
  c_status :: string
  c_close_price :: real
  c_list_price :: real
  c_bedrooms :: real
  c_bathrooms :: real
  c_living_area :: real
  c_lot_acres :: real
  c_year_built :: int
  c_garage :: real
  c_pool :: bool
  c_waterfront :: bool
  c_lat :: real
  c_lng :: real
  c_close_date :: string
  c_distance :: real
  c_adjusted :: real
  c_adjustments :: "adjustment_line list"
  c_monthly_fees :: real
  c_flood_zone :: string
  c_keyword_score :: real
  c_property :: raw_message

definition zero_comp :: "raw_message \<Rightarrow> comp_record" where
  "zero_comp raw = \<lparr>c_key = [], c_status = [], c_close_price = 0, c_list_price = 0, c_bedrooms = 0, c_bathrooms = 0,
     c_living_area = 0, c_lot_acres = 0, c_year_built = 0, c_garage = 0, c_pool = False, c_waterfront = False,
     c_lat = 0, c_lng = 0, c_close_date = [], c_distance = 0, c_adjusted = 0, c_adjustments = [], c_monthly_fees = 0,
     c_flood_zone = [], c_keyword_score = 0, c_property = raw\<rparr>"

section \<open>Reading a property\<close>

definition str :: "(json \<Rightarrow> string) \<Rightarrow> json \<Rightarrow> string" where
  "str marshal v = (case v of JNull \<Rightarrow> [] | JStr s \<Rightarrow> trim_space s
     | _ \<Rightarrow> trim_both (\<lambda>c. c = CHR 0x22) (trim_space (marshal v)))"

definition num :: "json \<Rightarrow> real" where
  "num v = (case v of JNum x \<Rightarrow> x | _ \<Rightarrow> 0)"

definition boolVal :: "json \<Rightarrow> bool" where
  "boolVal v = (case v of JBool b \<Rightarrow> b
     | JStr s \<Rightarrow> equal_fold s ''true'' \<or> s = ''1'' \<or> equal_fold s ''yes'' | _ \<Rightarrow> False)"

definition go_int :: "real \<Rightarrow> int" where
  "go_int x = (if x < 0 then - \<lfloor>- x\<rfloor> else \<lfloor>x\<rfloor>)"

definition float_or :: "real \<Rightarrow> json \<Rightarrow> real" where
  "float_or d v = (case v of JNum x \<Rightarrow> x | _ \<Rightarrow> d)"

definition coordsFromMap :: "gomap \<Rightarrow> real \<times> real" where
  "coordsFromMap m =
     (let lat = float_or 0 (lookup_any m ''Latitude''); lng = float_or 0 (lookup_any m ''Longitude'') in
      if lat \<noteq> 0 \<and> lng \<noteq> 0 then (lat, lng)
      else case lookup_any m ''Coordinates'' of
        JObj c \<Rightarrow> (case lookup_any (gomap_of c) ''coordinates'' of
            JArr (x # y # _) \<Rightarrow> (float_or lat y, float_or lng x)
          | _ \<Rightarrow> (lat, lng))
      | _ \<Rightarrow> (lat, lng))"

definition nonzero_or :: "real \<Rightarrow> real \<Rightarrow> real" where
  "nonzero_or x y = (if x = 0 then y else x)"

definition parseProperty :: "(json \<Rightarrow> string) \<Rightarrow> raw_message \<Rightarrow> comp_record" where
  "parseProperty marshal raw = (case unmarshal_map raw of
      None \<Rightarrow> zero_comp raw
    | Some m \<Rightarrow>
       (let s = (\<lambda>k. str marshal (lookup_any m k)); n = (\<lambda>k. num (lookup_any m k)); coords = coordsFromMap m;
            flood = s ''STELLAR_FloodZoneCode'' in
        (zero_comp raw)\<lparr>c_key := s ''ListingKey'', c_status := s ''StandardStatus'', c_close_price := n ''ClosePrice'',
          c_list_price := n ''ListPrice'', c_bedrooms := n ''BedroomsTotal'',
          c_bathrooms := nonzero_or (n ''BathroomsTotalDecimal'') (n ''BathroomsTotal''),
          c_living_area := n ''LivingArea'', c_lot_acres := n ''LotSizeAcres'', c_year_built := go_int (n ''YearBuilt''),
          c_garage := n ''GarageSpaces'', c_pool := boolVal (lookup_any m ''PoolPrivateYN''),
          c_waterfront := boolVal (lookup_any m ''WaterfrontYN''), c_lat := fst coords, c_lng := snd coords,
          c_close_date := s ''CloseDate'',
          c_monthly_fees := nonzero_or (n ''STELLAR_TotalMonthlyFees'') (n ''TotalMonthlyFees''),
          c_flood_zone := (if flood = [] then s ''FloodZoneCode'' else flood)\<rparr>))"

definition strFromRaw :: "(json \<Rightarrow> string) \<Rightarrow> raw_message \<Rightarrow> string \<Rightarrow> string" where
  "strFromRaw marshal raw key = (case unmarshal_map raw of None \<Rightarrow> [] | Some m \<Rightarrow> str marshal (lookup_any m key))"

definition stringField :: "raw_message \<Rightarrow> string \<Rightarrow> string" where
  "stringField raw key = (case unmarshal_map raw of None \<Rightarrow> []
     | Some m \<Rightarrow> (case lookup_any m key of JStr s \<Rightarrow> s | _ \<Rightarrow> []))"

text \<open>\<^verbatim>\<open>math.Atan2(y, x)\<close> for \<open>y\<close> and \<open>x\<close> that are not negative.\<close>

definition atan2_pos :: "real \<Rightarrow> real \<Rightarrow> real" where
  "atan2_pos y x = (if x > 0 then arctan (y / x) else if y > 0 then pi / 2 else 0)"

definition haversine :: "real \<Rightarrow> real \<Rightarrow> real \<Rightarrow> real \<Rightarrow> real" where
  "haversine lat1 lng1 lat2 lng2 =
     (let rad = pi / 180; la1 = lat1 * rad; lo1 = lng1 * rad; la2 = lat2 * rad; lo2 = lng2 * rad;
          dla = la2 - la1; dlo = lo2 - lo1 in
      sin (dla / 2) * sin (dla / 2) + cos la1 * cos la2 * sin (dlo / 2) * sin (dlo / 2))"

definition haversineMiles :: "real \<Rightarrow> real \<Rightarrow> real \<Rightarrow> real \<Rightarrow> real" where
  "haversineMiles lat1 lng1 lat2 lng2 =
     (let a = haversine lat1 lng1 lat2 lng2 in 39587613 / 10000 * 2 * atan2_pos (sqrt a) (sqrt (1 - a)))"

section \<open>Condition\<close>

definition excellentRemarkPhrases :: "string list" where
  "excellentRemarkPhrases = [''mint condition'', ''turnkey'', ''completely renovated'', ''fully renovated'', ''like new'',
     ''no expense spared'', ''model perfect'', ''showcase'']"

definition poorRemarkPhrases :: "string list" where
  "poorRemarkPhrases = [''fixer upper'', ''fixer-upper'', ''needs major work'', ''major work needed'', ''tear down'',
     ''teardown'', ''investor special'', ''distressed'', ''needs complete renovation'', ''contractor special'']"

definition fairRemarkPhrases :: "string list" where
  "fairRemarkPhrases = [''needs some tlc'', ''needs tlc'', ''as-is'', ''as is'', ''needs updating'', ''handyman special'',
     ''estate sale'', ''bring your contractor'']"

definition goodRemarkPhrases :: "string list" where
  "goodRemarkPhrases = [''well maintained'', ''well-maintained'', ''move-in ready'', ''move in ready'', ''immaculate'',
     ''pride of ownership'', ''updated throughout'']"

definition conditionFromRemarks :: "string \<Rightarrow> string" where
  "conditionFromRemarks remarks0 =
     (let remarks = to_lower (trim_space remarks0); has = list_ex (contains_sub remarks) in
      if remarks = [] then []
      else if has excellentRemarkPhrases then ''excellent''
      else if has poorRemarkPhrases then ''poor''
      else if has fairRemarkPhrases then ''fair''
      else if has goodRemarkPhrases then ''good''
      else [])"

definition conditionFromPropertyCondition :: "string list \<Rightarrow> string" where
  "conditionFromPropertyCondition values =
     (if list_ex (\<lambda>v. let n = to_lower (trim_space v) in n = ''fixer'' \<or> contains_sub n ''fixer'') values then ''poor'' else [])"

definition propertyConditionValues :: "gomap \<Rightarrow> string list" where
  "propertyConditionValues m = (case lookup_any m ''PropertyCondition'' of
      JStr t \<Rightarrow> (let s = trim_space t in if s = [] then [] else [s])
    | JArr items \<Rightarrow> filter (\<lambda>s. s \<noteq> []) (map trim_space (List.map_filter (\<lambda>i. case i of JStr s \<Rightarrow> Some s | _ \<Rightarrow> None) items))
    | _ \<Rightarrow> [])"

definition DeriveConditionFromProperty :: "(json \<Rightarrow> string) \<Rightarrow> raw_message \<Rightarrow> string" where
  "DeriveConditionFromProperty marshal raw = (case unmarshal_map raw of None \<Rightarrow> [] | Some m \<Rightarrow>
     (let c = conditionFromPropertyCondition (propertyConditionValues m) in
      if c \<noteq> [] then c
      else let remarks = to_lower (str marshal (lookup_any m ''PublicRemarks'')) in
        conditionFromRemarks (if remarks = [] then to_lower (str marshal (lookup_any m ''PropertyDescription'')) else remarks)))"

definition applyDerivedCondition :: "(json \<Rightarrow> string) \<Rightarrow> subject_profile \<Rightarrow> subject_input \<Rightarrow> subject_profile" where
  "applyDerivedCondition marshal sub inp =
     (if (case si_condition inp of Some c \<Rightarrow> trim_space c \<noteq> [] | None \<Rightarrow> False) then sub
      else if trim_space (sp_condition sub) \<noteq> [] then sub
      else let c = DeriveConditionFromProperty marshal (sp_raw sub) in
        if c \<noteq> [] then sub\<lparr>sp_condition := c\<rparr> else sub)"

section \<open>Subjects\<close>

definition mergeSubjectAliases :: "subject_input \<Rightarrow> subject_input" where
  "mergeSubjectAliases inp =
     (let inp = (if si_flood_zone inp = None \<and> si_stellar_flood_zone inp \<noteq> None
                 then inp\<lparr>si_flood_zone := si_stellar_flood_zone inp\<rparr> else inp)
      in if si_monthly_fees inp = None \<and> si_stellar_fees inp \<noteq> None then inp\<lparr>si_monthly_fees := si_stellar_fees inp\<rparr> else inp)"

definition given :: "'a option \<Rightarrow> 'a \<Rightarrow> 'a" where
  "given x d = (case x of None \<Rightarrow> d | Some v \<Rightarrow> v)"

definition applySubjectOverrides :: "subject_profile \<Rightarrow> subject_input \<Rightarrow> subject_profile" where
  "applySubjectOverrides sub inp = sub\<lparr>
     sp_bedrooms := given (si_bedrooms inp) (sp_bedrooms sub),
     sp_bathrooms := given (si_bathrooms inp) (sp_bathrooms sub),
     sp_living_area := given (si_living_area inp) (sp_living_area sub),
     sp_lot_acres := (case si_lot_sqft inp of Some v \<Rightarrow> (if v > 0 then v / 43560 else sp_lot_acres sub) | None \<Rightarrow> sp_lot_acres sub),
     sp_year_built := given (si_year_built inp) (sp_year_built sub),
     sp_garage := given (si_garage inp) (sp_garage sub),
     sp_monthly_fees := given (si_monthly_fees inp) (sp_monthly_fees sub),
     sp_flood_zone := given (si_flood_zone inp) (sp_flood_zone sub),
     sp_subdivision := given (si_subdivision inp) (sp_subdivision sub),
     sp_mls_area := given (si_mls_area inp) (sp_mls_area sub),
     sp_property_type := given (si_property_type inp) (sp_property_type sub),
     sp_condition := given (si_condition inp) (sp_condition sub),
     sp_kitchen_year := given (si_kitchen_year inp) (sp_kitchen_year sub),
     sp_bathrooms_year := given (si_bathrooms_year inp) (sp_bathrooms_year sub),
     sp_hvac_year := given (si_hvac_year inp) (sp_hvac_year sub)\<rparr>"

definition subjectFromOffMarket :: "subject_input \<Rightarrow> go_error + subject_profile" where
  "subjectFromOffMarket inp = (case (si_lat inp, si_lng inp) of
      (Some lat, Some lng) \<Rightarrow>
        (let sub = applySubjectOverrides (zero_subject\<lparr>sp_type := ''off_market'', sp_lat := lat, sp_lng := lng\<rparr>) inp in
         if sp_bedrooms sub \<le> 0 \<or> sp_living_area sub \<le> 0
         then Inl (Err ''off_market subject requires bedrooms and living_area_sqft'') else Inr sub)
    | _ \<Rightarrow> Inl (Err ''subject.lat and subject.lng are required for off_market''))"

definition normalizeDataset :: "string \<Rightarrow> string" where
  "normalizeDataset s = trim_prefix (trim_prefix (to_lower (trim_space s)) ''bridge_'') ''spark_''"

definition parseListingRef :: "string \<Rightarrow> string \<Rightarrow> string \<times> string" where
  "parseListingRef ident defaultDataset =
     (let s = trim_space ident in case index_char CHR '':'' s of
        Some i \<Rightarrow> (if i > 0 then (normalizeDataset (take i s), drop (Suc i) s) else (defaultDataset, s))
      | None \<Rightarrow> (defaultDataset, s))"

section \<open>Distances\<close>

lemma atan2_pos_bounds: "0 \<le> y \<Longrightarrow> 0 \<le> atan2_pos y x \<and> atan2_pos y x \<le> pi / 2"
  using arctan_ubound [of "y / x"] by (auto simp: atan2_pos_def)

lemma haversine_sym: "haversine a b c d = haversine c d a b"
proof -
  have s: "sin ((x - y) / 2) * sin ((x - y) / 2) = sin ((y - x) / 2) * sin ((y - x) / 2)" for x y :: real
  proof -
    have "(x - y) / 2 = - ((y - x) / 2)" by (simp add: field_simps)
    then have "sin ((x - y) / 2) = - sin ((y - x) / 2)" by (simp only: sin_minus)
    then show ?thesis by simp
  qed
  show ?thesis
    unfolding haversine_def Let_def
    using s [of "c * (pi / 180)" "a * (pi / 180)"] s [of "d * (pi / 180)" "b * (pi / 180)"]
    by (simp add: mult.assoc mult.commute mult.left_commute)
qed

lemma haversineMiles_laws:
  "haversineMiles a b c d = haversineMiles c d a b" "haversineMiles a b a b = 0"
  "haversine a b c d \<ge> 0 \<Longrightarrow> 0 \<le> haversineMiles a b c d \<and> haversineMiles a b c d \<le> 39587613 / 10000 * pi"
proof -
  show "haversineMiles a b c d = haversineMiles c d a b" unfolding haversineMiles_def haversine_sym [of a b c d] ..
  show "haversineMiles a b a b = 0" by (simp add: haversineMiles_def haversine_def atan2_pos_def)
  assume "haversine a b c d \<ge> 0"
  then have "0 \<le> sqrt (haversine a b c d)" by simp
  from atan2_pos_bounds [OF this, of "sqrt (1 - haversine a b c d)"]
  show "0 \<le> haversineMiles a b c d \<and> haversineMiles a b c d \<le> 39587613 / 10000 * pi"
    by (simp add: haversineMiles_def Let_def)
qed

section \<open>Reading back what a listing says\<close>

lemma condition_values:
  "DeriveConditionFromProperty marshal raw \<in> {[], ''poor'', ''fair'', ''good'', ''excellent''}"
  by (simp add: DeriveConditionFromProperty_def conditionFromPropertyCondition_def conditionFromRemarks_def Let_def split: option.split)

end
