(* ===== verification/Comps_Rates.thy ===== *)
theory Comps_Rates
  imports Comps_Property "HOL-Library.Multiset"
begin

text \<open>
  Market rates from sold comparables (\<^verbatim>\<open>internal/service/comps\<close>: \<^verbatim>\<open>outliers.go\<close>, \<^verbatim>\<open>paired_sales.go\<close>, \<^verbatim>\<open>bpo_market.go\<close>):
  medians, removal of outliers, paired sales, and the least-squares regression with its Gauss-Jordan
  inversion. A matrix is a list of rows. The clock is the argument \<open>now\<close>: the readings of one
  valuation are taken as one instant.
\<close>

section \<open>Medians and outliers\<close>

definition medianOf :: "real list \<Rightarrow> real" where
  "medianOf vals =
     (if vals = [] then 0
      else let s = sort vals; mid = length s div 2 in
        if even (length s) then (s ! (mid - 1) + s ! mid) / 2 else s ! mid)"

definition compPrice :: "comp_record \<Rightarrow> real" where
  "compPrice c = (if c_adjusted c > 0 then c_adjusted c else c_close_price c)"

definition mean :: "real list \<Rightarrow> real" where
  "mean vals = sum_list vals / real (length vals)"

definition meanStd :: "real list \<Rightarrow> real \<times> real" where
  "meanStd vals = (let m = mean vals in (m, sqrt (sum_list (map (\<lambda>v. (v - m) * (v - m)) vals) / real (length vals))))"

definition filterOutlierZScore :: "comp_record list \<Rightarrow> real \<Rightarrow> comp_record list" where
  "filterOutlierZScore sold threshold =
     (if threshold \<le> 0 \<or> length sold < 3 then sold
      else let prices = filter (\<lambda>p. p > 0) (map compPrice sold) in
        if length prices < 3 then sold
        else case meanStd prices of (m, std) \<Rightarrow>
          if std < 1 / 10 ^ 9 then sold
          else let out = filter (\<lambda>c. compPrice c > 0 \<and> \<bar>(compPrice c - m) / std\<bar> \<le> threshold) sold in
            if out = [] then sold else out)"

section \<open>Paired sales\<close>

text \<open>The loops over \<open>i < j\<close>: the pairs in their order.\<close>

fun pairs :: "'a list \<Rightarrow> ('a \<times> 'a) list" where
  "pairs [] = []"
| "pairs (x # xs) = map (Pair x) xs @ pairs xs"

definition ppsf_pair :: "comp_record \<times> comp_record \<Rightarrow> bool" where
  "ppsf_pair p = (case p of (a, b) \<Rightarrow>
     c_living_area a > 0 \<and> c_living_area b > 0 \<and> \<bar>c_living_area a - c_living_area b\<bar> \<ge> 50 \<and>
     \<bar>compPrice a - compPrice b\<bar> > 0 \<and> \<bar>c_bedrooms a - c_bedrooms b\<bar> \<le> 1 \<and> \<bar>c_bathrooms a - c_bathrooms b\<bar> \<le> 1 / 2)"

definition pairedSalesPPSF :: "comp_record list \<Rightarrow> real" where
  "pairedSalesPPSF sold =
     (if length sold < 3 then 0
      else let rates = map (\<lambda>(a, b). \<bar>compPrice a - compPrice b\<bar> / \<bar>c_living_area a - c_living_area b\<bar>) (filter ppsf_pair (pairs sold)) in
        if rates = [] then 0 else sum_list rates / real (length rates))"

definition compsAlignedForPair :: "comp_record \<Rightarrow> comp_record \<Rightarrow> bool" where
  "compsAlignedForPair a b \<longleftrightarrow>
     c_living_area a > 0 \<and> c_living_area b > 0 \<and> \<bar>c_living_area a - c_living_area b\<bar> \<le> 200 \<and>
     \<bar>c_bedrooms a - c_bedrooms b\<bar> \<le> 1 \<and> \<bar>c_bathrooms a - c_bathrooms b\<bar> \<le> 1 / 2"

definition clamp :: "real \<Rightarrow> real \<Rightarrow> real \<Rightarrow> real" where
  "clamp v lo hi = (if v < lo then lo else if v > hi then hi else v)"

definition pairedBinaryDelta :: "comp_record list \<Rightarrow> (comp_record \<Rightarrow> bool) \<Rightarrow> real" where
  "pairedBinaryDelta sold feat =
     clamp (medianOf (filter (\<lambda>d. d > 0)
       (map (\<lambda>(a, b). if feat a then compPrice a - compPrice b else compPrice b - compPrice a)
         (filter (\<lambda>(a, b). compsAlignedForPair a b \<and> feat a \<noteq> feat b) (pairs sold))))) 0 80000"

definition pairedContinuousDelta :: "comp_record list \<Rightarrow> (comp_record \<Rightarrow> real) \<Rightarrow> real \<Rightarrow> real" where
  "pairedContinuousDelta sold feat minDiff =
     medianOf (map (\<lambda>(a, b). (compPrice a - compPrice b) / (feat a - feat b))
       (filter (\<lambda>(a, b). compsAlignedForPair a b \<and> \<bar>feat a - feat b\<bar> \<ge> minDiff \<and> compPrice a - compPrice b \<noteq> 0) (pairs sold)))"

record paired_rates =
  pr_gla :: real
  pr_bed :: real
  pr_bath :: real
  pr_age :: real
  pr_lot :: real
  pr_garage :: real
  pr_pool :: real
  pr_waterfront :: real

definition extractPairedRates :: "comp_record list \<Rightarrow> paired_rates" where
  "extractPairedRates sold = \<lparr>pr_gla = pairedSalesPPSF sold,
     pr_bed = pairedContinuousDelta sold c_bedrooms (1 / 4),
     pr_bath = pairedContinuousDelta sold c_bathrooms (1 / 4),
     pr_age = pairedContinuousDelta sold (\<lambda>c. real_of_int (c_year_built c)) 3,
     pr_lot = pairedContinuousDelta sold c_lot_acres (1 / 10),
     pr_garage = pairedContinuousDelta sold c_garage (1 / 2),
     pr_pool = pairedBinaryDelta sold c_pool,
     pr_waterfront = pairedBinaryDelta sold c_waterfront\<rparr>"

section \<open>Matrices\<close>

definition unit_row :: "nat \<Rightarrow> nat \<Rightarrow> real list" where
  "unit_row n i = map (\<lambda>j. if j = i then 1 else 0) [0..<n]"

definition augment :: "real list list \<Rightarrow> real list list" where
  "augment m = map (\<lambda>i. m ! i @ unit_row (length m) i) [0..<length m]"

text \<open>The row with the largest entry of the column among the rows from \<open>col\<close> on, the first on ties.\<close>

definition pivot_row :: "real list list \<Rightarrow> nat \<Rightarrow> nat" where
  "pivot_row aug col = foldl (\<lambda>p r. if \<bar>aug ! r ! col\<bar> > \<bar>aug ! p ! col\<bar> then r else p) col [Suc col..<length aug]"

definition eliminate :: "nat \<Rightarrow> real list list \<Rightarrow> real list list" where
  "eliminate col aug =
     (let prow = map (\<lambda>x. x / (aug ! col ! col)) (aug ! col) in
      map (\<lambda>r. if r = col then prow else map2 (\<lambda>x y. x - aug ! r ! col * y) (aug ! r) prow) [0..<length aug])"

fun gauss_jordan :: "nat list \<Rightarrow> real list list \<Rightarrow> real list list option" where
  "gauss_jordan [] aug = Some aug"
| "gauss_jordan (col # cols) aug =
     (let pivot = pivot_row aug col in
      if \<bar>aug ! pivot ! col\<bar> < 1 / 10 ^ 12 then None
      else gauss_jordan cols (eliminate col (aug[col := aug ! pivot, pivot := aug ! col])))"

definition invertMatrix :: "real list list \<Rightarrow> real list list option" where
  "invertMatrix m = map_option (map (drop (length m))) (gauss_jordan [0..<length m] (augment m))"

section \<open>Regression\<close>

definition dot :: "real list \<Rightarrow> real list \<Rightarrow> real" where
  "dot xs ys = sum_list (map2 (*) xs ys)"

definition gram :: "real list list \<Rightarrow> nat \<Rightarrow> real list list" where
  "gram D p = map (\<lambda>a. map (\<lambda>b. sum_list (map (\<lambda>row. row ! a * row ! b) D)) [0..<p]) [0..<p]"

definition moment :: "real list list \<Rightarrow> real list \<Rightarrow> nat \<Rightarrow> real list" where
  "moment D y p = map (\<lambda>a. sum_list (map2 (\<lambda>row v. row ! a * v) D y)) [0..<p]"

definition solveOLS :: "real list list \<Rightarrow> real list \<Rightarrow> real list option" where
  "solveOLS X y = (if X = [] then None
     else let p = length (hd X) + 1; D = map ((#) 1) X in
       map_option (map (\<lambda>row. dot row (moment D y p))) (invertMatrix (gram D p)))"

definition predict :: "real list \<Rightarrow> real list \<Rightarrow> real" where
  "predict coef row = hd coef + dot (tl coef) row"

definition ss_res :: "real list list \<Rightarrow> real list \<Rightarrow> real list \<Rightarrow> real" where
  "ss_res X y coef = sum_list (map2 (\<lambda>row v. (v - predict coef row) * (v - predict coef row)) X y)"

definition olsRSquared :: "real list list \<Rightarrow> real list \<Rightarrow> real list \<Rightarrow> real" where
  "olsRSquared X y coef = (if y = [] then 0
     else let ssTot = sum_list (map (\<lambda>v. (v - mean y) * (v - mean y)) y) in
       if ssTot < 1 / 10 ^ 9 then 0 else max 0 (1 - ss_res X y coef / ssTot))"

section \<open>Market rates\<close>

text \<open>\<^verbatim>\<open>time.Parse("2006-01-02", ...)\<close> of the first ten characters. \<^verbatim>\<open>time.Since\<close> saturates at the range of a 64-bit
  duration; days and months are fractions.\<close>

definition time_since :: "int \<Rightarrow> int \<Rightarrow> int" where
  "time_since now t = max (- 9223372036854775808) (min 9223372036854775807 (now - t))"

definition monthsSinceClose :: "int \<Rightarrow> string \<Rightarrow> real" where
  "monthsSinceClose now closeDate = (case parse_date (take 10 closeDate) of
      Some (D, []) \<Rightarrow> (real_of_int (time_since now (instant D 0 0 0)) / (86400 * real_of_int second)) / (30437 / 1000)
    | _ \<Rightarrow> 0)"

definition meanCloseMonths :: "int \<Rightarrow> comp_record list \<Rightarrow> real" where
  "meanCloseMonths now sold = (if sold = [] then 0 else mean (map (\<lambda>c. monthsSinceClose now (c_close_date c)) sold))"

definition bool01 :: "bool \<Rightarrow> real" where
  "bool01 v = (if v then 1 else 0)"

record bpo_rates =
  r_gla :: real
  r_bed :: real
  r_bath :: real
  r_age :: real
  r_lot :: real
  r_garage :: real
  r_pool :: real
  r_waterfront :: real
  r_time :: real
  r_intercept :: real
  r_rsquared :: real
  r_method :: string
  r_count :: nat
  r_median_gla :: real
  r_warnings :: "string list"

definition zero_rates :: bpo_rates where
  "zero_rates = \<lparr>r_gla = 0, r_bed = 0, r_bath = 0, r_age = 0, r_lot = 0, r_garage = 0, r_pool = 0, r_waterfront = 0,
     r_time = 0, r_intercept = 0, r_rsquared = 0, r_method = [], r_count = 0, r_median_gla = 0, r_warnings = []\<rparr>"

definition ols_comps :: "comp_record list \<Rightarrow> comp_record list" where
  "ols_comps sold = filter (\<lambda>c. c_close_price c > 0 \<and> c_living_area c > 0) sold"

definition ols_row :: "int \<Rightarrow> real \<Rightarrow> comp_record \<Rightarrow> real list" where
  "ols_row now meanMonths c = [c_living_area c, c_bedrooms c, c_bathrooms c, real_of_int (c_year_built c), c_lot_acres c,
     c_garage c, bool01 (c_pool c), bool01 (c_waterfront c), monthsSinceClose now (c_close_date c) - meanMonths]"

definition fitBpoOLS :: "int \<Rightarrow> comp_record list \<Rightarrow> bpo_rates option" where
  "fitBpoOLS now sold =
     (let rows = map (ols_row now (meanCloseMonths now sold)) (ols_comps sold); y = map c_close_price (ols_comps sold) in
      if length rows < 6 then None
      else case solveOLS rows y of
        None \<Rightarrow> None
      | Some coef \<Rightarrow>
         (if length coef \<noteq> 10 \<or> coef ! 1 \<le> 0 then None
          else Some (zero_rates\<lparr>r_intercept := coef ! 0, r_gla := coef ! 1, r_bed := coef ! 2, r_bath := coef ! 3,
            r_age := \<bar>coef ! 4\<bar>, r_lot := coef ! 5, r_garage := coef ! 6, r_pool := coef ! 7, r_waterfront := coef ! 8,
            r_time := coef ! 9 / 100, r_rsquared := olsRSquared rows y coef, r_method := ''ols_regression''\<rparr>)))"

definition sanitizeMarketRates :: "bpo_rates \<Rightarrow> bpo_rates" where
  "sanitizeMarketRates r = r\<lparr>r_gla := clamp (r_gla r) 40 900, r_bed := clamp (r_bed r) 0 25000,
     r_bath := clamp (r_bath r) 0 20000, r_age := clamp (r_age r) 0 6000, r_lot := clamp (r_lot r) 0 150000,
     r_garage := clamp (r_garage r) 0 35000, r_pool := clamp (r_pool r) (- 50000) 80000,
     r_waterfront := clamp (r_waterfront r) (- 100000) 200000,
     r_time := (let t = (if r_time r < 0 then - r_time r else r_time r) in if t > 2 / 100 then 2 / 100 else t)\<rparr>"

definition default_rate :: "real \<Rightarrow> real \<Rightarrow> real" where
  "default_rate x d = (if x = 0 then d else x)"

definition fillDefaultRates :: "bpo_rates \<Rightarrow> bpo_rates" where
  "fillDefaultRates r = r\<lparr>r_bed := default_rate (r_bed r) 8000, r_bath := default_rate (r_bath r) 5000,
     r_age := default_rate (r_age r) 1500, r_lot := default_rate (r_lot r) 25000, r_garage := default_rate (r_garage r) 10000,
     r_pool := default_rate (r_pool r) 20000, r_waterfront := default_rate (r_waterfront r) 50000\<rparr>"

definition medianPPSF :: "comp_record list \<Rightarrow> real" where
  "medianPPSF sold = medianOf (map (\<lambda>c. c_close_price c / c_living_area c)
     (filter (\<lambda>c. c_living_area c > 0 \<and> c_close_price c > 0) sold))"

definition medianGLA :: "comp_record list \<Rightarrow> real" where
  "medianGLA sold = medianOf (filter (\<lambda>a. a > 0) (map c_living_area sold))"

definition paired_market_rates :: "comp_record list \<Rightarrow> bpo_rates \<Rightarrow> bpo_rates" where
  "paired_market_rates sold rates =
     (let p = extractPairedRates sold;
          rates = rates\<lparr>r_gla := (if pr_gla p \<le> 0 then medianPPSF sold else pr_gla p), r_bed := pr_bed p, r_bath := pr_bath p,
            r_age := pr_age p, r_lot := pr_lot p, r_garage := pr_garage p, r_pool := pr_pool p, r_waterfront := pr_waterfront p,
            r_method := ''paired_sales''\<rparr>
      in sanitizeMarketRates (fillDefaultRates rates))"

definition extractMarketRates :: "int \<Rightarrow> comp_record list \<Rightarrow> int \<Rightarrow> bpo_rates" where
  "extractMarketRates now sold minOLS0 =
     (let rates = zero_rates\<lparr>r_count := length sold, r_method := ''median_fallback''\<rparr>;
          minOLS = (if minOLS0 \<le> 0 then 6 else minOLS0) in
      if sold = [] then rates\<lparr>r_warnings := [''no sold comps'']\<rparr>
      else let rates = rates\<lparr>r_median_gla := medianGLA sold\<rparr>;
        tried = (minOLS \<le> int (length sold)) in
        case (if tried then fitBpoOLS now sold else None) of
          Some fit \<Rightarrow> (sanitizeMarketRates fit)\<lparr>r_count := length sold, r_median_gla := medianGLA sold\<rparr>
        | None \<Rightarrow>
          (let rates = (if tried then rates\<lparr>r_warnings := r_warnings rates @ [''OLS regression failed; using paired-sales or median fallback'']\<rparr> else rates) in
           if 3 \<le> length sold then paired_market_rates sold rates
           else let out = sanitizeMarketRates (fillDefaultRates (rates\<lparr>r_gla := medianPPSF sold\<rparr>)) in
             out\<lparr>r_warnings := r_warnings out @ [''insufficient comps for regression; median PPSF only'']\<rparr>))"

section \<open>Medians\<close>

lemma filter_sorted_prefix:
  assumes "\<And>i. k \<le> i \<Longrightarrow> i < length s \<Longrightarrow> \<not> P (s ! i)"
  shows "length (filter P s) \<le> k"
proof -
  have "filter P (drop k s) = []"
    using assms by (auto simp: filter_empty_conv in_set_conv_nth)
  then have "filter P s = filter P (take k s)"
    by (metis append_Nil2 append_take_drop_id filter_append)
  then show ?thesis using length_filter_le [of P "take k s"] by simp
qed

lemma filter_sorted_suffix:
  assumes "\<And>i. i < k \<Longrightarrow> i < length s \<Longrightarrow> \<not> P (s ! i)"
  shows "length (filter P s) \<le> length s - k"
proof -
  have "filter P (take k s) = []"
    using assms by (auto simp: filter_empty_conv in_set_conv_nth)
  then have "filter P s = filter P (drop k s)"
    by (metis append_Nil append_take_drop_id filter_append)
  then show ?thesis using length_filter_le [of P "drop k s"] by simp
qed

lemma length_filter_sort: "length (filter P (sort xs)) = length (filter P xs)"
  by (metis mset_filter mset_sort size_mset)

lemma median_bounds:
  assumes "vals \<noteq> []"
  shows "sort vals ! ((length vals - 1) div 2) \<le> medianOf vals \<and> medianOf vals \<le> sort vals ! (length vals div 2)"
proof -
  let ?s = "sort vals" and ?n = "length vals"
  have le: "?s ! i \<le> ?s ! j" if "i \<le> j" "j < ?n" for i j using that by (simp add: sorted_nth_mono)
  show ?thesis
  proof (cases "even ?n")
    case True
    have "?n \<noteq> 0" using assms by simp
    with True have "0 < ?n div 2" by presburger
    then have "?s ! (?n div 2 - 1) \<le> ?s ! (?n div 2)" by (intro le) auto
    moreover have "(?n - 1) div 2 = ?n div 2 - 1" using True assms by (auto elim!: evenE)
    ultimately show ?thesis using True assms by (simp add: medianOf_def Let_def)
  next
    case False
    then have "(?n - 1) div 2 = ?n div 2" by (auto elim!: oddE)
    with False assms show ?thesis by (simp add: medianOf_def Let_def)
  qed
qed

lemma median_halves:
  "2 * length (filter (\<lambda>v. v < medianOf vals) vals) \<le> length vals \<and>
   2 * length (filter (\<lambda>v. v > medianOf vals) vals) \<le> length vals"
proof (cases "vals = []")
  case False
  let ?s = "sort vals" and ?n = "length vals" and ?m = "medianOf vals"
  note b = median_bounds [OF False]
  have le: "?s ! i \<le> ?s ! j" if "i \<le> j" "j < ?n" for i j using that by (simp add: sorted_nth_mono)
  have "length (filter (\<lambda>v. v < ?m) ?s) \<le> ?n div 2"
  proof (rule filter_sorted_prefix)
    fix i assume "?n div 2 \<le> i" "i < length ?s"
    with le [of "?n div 2" i] b show "\<not> ?s ! i < ?m" by simp
  qed
  moreover have "length (filter (\<lambda>v. v > ?m) ?s) \<le> length ?s - Suc ((?n - 1) div 2)"
  proof (rule filter_sorted_suffix)
    fix i assume "i < Suc ((?n - 1) div 2)" "i < length ?s"
    moreover have "(?n - 1) div 2 < ?n" using False by (cases vals) auto
    ultimately have "?s ! i \<le> ?s ! ((?n - 1) div 2)" by (intro le) auto
    with b show "\<not> ?m < ?s ! i" by simp
  qed
  moreover have "2 * (?n - Suc ((?n - 1) div 2)) \<le> ?n" "2 * (?n div 2) \<le> ?n" by linarith+
  ultimately show ?thesis by (simp add: length_filter_sort)
qed simp

lemma medianOf_perm: "mset xs = mset ys \<Longrightarrow> medianOf xs = medianOf ys"
proof -
  assume "mset xs = mset ys"
  then have "sort xs = sort ys" "length xs = length ys" by (metis sorted_list_of_multiset_mset, metis size_mset)
  then show ?thesis by (simp add: medianOf_def) (metis length_0_conv)
qed

lemma medianOf_between:
  assumes "vals \<noteq> []" "\<And>v. v \<in> set vals \<Longrightarrow> lo \<le> v \<and> v \<le> hi"
  shows "lo \<le> medianOf vals \<and> medianOf vals \<le> hi"
proof -
  have "sort vals ! i \<in> set vals" if "i < length vals" for i
    using that nth_mem [of i "sort vals"] by simp
  moreover have "(length vals - 1) div 2 < length vals" "length vals div 2 < length vals" using assms(1) by (cases vals; simp)+
  ultimately show ?thesis using median_bounds [OF assms(1)] assms(2) by (meson order_trans)
qed
section \<open>Inversion solves linear systems\<close>

text \<open>A row of the augmented matrix states an equation about \<open>x\<close> and \<open>b\<close>: its left half applied to \<open>x\<close> is its
  right half applied to \<open>b\<close>. Row operations keep the set of solutions.\<close>

definition resid :: "nat \<Rightarrow> (nat \<Rightarrow> real) \<Rightarrow> (nat \<Rightarrow> real) \<Rightarrow> real list \<Rightarrow> real" where
  "resid n x b row = (\<Sum>j<n. row ! j * x j) - (\<Sum>j<n. row ! (n + j) * b j)"

definition wf_aug :: "nat \<Rightarrow> real list list \<Rightarrow> bool" where
  "wf_aug n aug \<longleftrightarrow> length aug = n \<and> (\<forall>i<n. length (aug ! i) = 2 * n)"

definition solves :: "nat \<Rightarrow> (nat \<Rightarrow> real) \<Rightarrow> (nat \<Rightarrow> real) \<Rightarrow> real list list \<Rightarrow> bool" where
  "solves n x b aug \<longleftrightarrow> (\<forall>i<n. resid n x b (aug ! i) = 0)"

definition unit_cols :: "nat \<Rightarrow> nat \<Rightarrow> real list list \<Rightarrow> bool" where
  "unit_cols n k aug \<longleftrightarrow> (\<forall>r<n. \<forall>c<k. aug ! r ! c = (if r = c then 1 else 0))"

lemma resid_scale: "length row = 2 * n \<Longrightarrow> resid n x b (map (\<lambda>e. e / d) row) = resid n x b row / d"
  by (simp add: resid_def sum_divide_distrib diff_divide_distrib)

lemma resid_sub:
  assumes "length row = 2 * n" "length p = 2 * n"
  shows "resid n x b (map2 (\<lambda>u v. u - f * v) row p) = resid n x b row - f * resid n x b p"
proof -
  have "(\<Sum>j<n. map2 (\<lambda>u v. u - f * v) row p ! (m + j) * y j) = (\<Sum>j<n. row ! (m + j) * y j) - f * (\<Sum>j<n. p ! (m + j) * y j)"
    if "m + n \<le> 2 * n" for m y
    using assms that by (simp add: sum_subtractf sum_distrib_left left_diff_distrib mult.assoc)
  from this [of 0 x] this [of n b] show ?thesis by (simp add: resid_def right_diff_distrib)
qed

lemma eliminate_nth:
  "wf_aug n aug \<Longrightarrow> r < n \<Longrightarrow> eliminate col aug ! r =
     (if r = col then map (\<lambda>x. x / (aug ! col ! col)) (aug ! col)
      else map2 (\<lambda>x y. x - aug ! r ! col * y) (aug ! r) (map (\<lambda>x. x / (aug ! col ! col)) (aug ! col)))"
  by (simp add: eliminate_def wf_aug_def Let_def)

lemma eliminate_wf: "wf_aug n aug \<Longrightarrow> col < n \<Longrightarrow> wf_aug n (eliminate col aug)"
  by (simp add: wf_aug_def eliminate_def Let_def)

lemma eliminate_solves:
  assumes wf: "wf_aug n aug" and "col < n" and "aug ! col ! col \<noteq> 0"
  shows "solves n x b (eliminate col aug) = solves n x b aug"
proof -
  let ?d = "aug ! col ! col"
  have len: "length (aug ! i) = 2 * n" if "i < n" for i using wf that by (simp add: wf_aug_def)
  have pr: "resid n x b (map (\<lambda>x. x / ?d) (aug ! col)) = resid n x b (aug ! col) / ?d"
    by (rule resid_scale) (use len assms(2) in simp)
  have e: "resid n x b (eliminate col aug ! r) = (if r = col then resid n x b (aug ! col) / ?d
      else resid n x b (aug ! r) - aug ! r ! col * (resid n x b (aug ! col) / ?d))" if "r < n" for r
    using eliminate_nth [OF wf that, of col] pr len assms(2) that by (simp add: resid_sub)
  show ?thesis
  proof
    assume s: "solves n x b (eliminate col aug)"
    have c: "resid n x b (aug ! col) = 0" using s e [OF assms(2)] assms(2,3) by (simp add: solves_def)
    show "solves n x b aug" unfolding solves_def
    proof (intro allI impI)
      fix i assume "i < n"
      with s e [of i] c show "resid n x b (aug ! i) = 0" by (cases "i = col") (auto simp: solves_def)
    qed
  next
    assume "solves n x b aug"
    then show "solves n x b (eliminate col aug)" using e assms(2) by (simp add: solves_def)
  qed
qed

lemma eliminate_cols:
  assumes wf: "wf_aug n aug" and "col < n" and "aug ! col ! col \<noteq> 0" and "unit_cols n col aug"
  shows "unit_cols n (Suc col) (eliminate col aug)"
  unfolding unit_cols_def
proof (intro allI impI)
  fix r c assume r: "r < n" and c: "c < Suc col"
  have len: "length (aug ! i) = 2 * n" if "i < n" for i using wf that by (simp add: wf_aug_def)
  have u: "aug ! i ! c = (if i = c then 1 else 0)" if "i < n" "c < col" for i using assms(4) that by (simp add: unit_cols_def)
  show "eliminate col aug ! r ! c = (if r = c then 1 else 0)"
    using eliminate_nth [OF wf r, of col] len [OF r] len [OF assms(2)] c assms(2,3) u [OF r] u [OF assms(2)]
    by (cases "c = col") auto
qed

lemma swap_nth:
  "p < length aug \<Longrightarrow> q < length aug \<Longrightarrow> i < length aug \<Longrightarrow> aug[p := aug ! q, q := aug ! p] ! i =
     (if i = q then aug ! p else if i = p then aug ! q else aug ! i)"
  by (auto simp: nth_list_update)

lemma swap_wf: "wf_aug n aug \<Longrightarrow> p < n \<Longrightarrow> q < n \<Longrightarrow> wf_aug n (aug[p := aug ! q, q := aug ! p])"
  by (auto simp: wf_aug_def swap_nth)

lemma swap_solves:
  assumes "wf_aug n aug" "p < n" "q < n"
  shows "solves n x b (aug[p := aug ! q, q := aug ! p]) = solves n x b aug"
proof -
  have n: "length aug = n" using assms(1) by (simp add: wf_aug_def)
  have "set (aug[p := aug ! q, q := aug ! p]) = set aug" using assms n by (intro set_swap) simp_all
  moreover have "solves n x b a \<longleftrightarrow> (\<forall>row \<in> set a. resid n x b row = 0)" if "length a = n" for a
    using that by (auto simp: solves_def in_set_conv_nth dest: nth_mem)
  ultimately show ?thesis using n by simp
qed

lemma pivot_row_range: "col < length aug \<Longrightarrow> col \<le> pivot_row aug col \<and> pivot_row aug col < length aug"
proof -
  have "foldl (\<lambda>p r. if P r p then r else p) k rs \<in> insert k (set rs)" for P and k :: nat and rs
    by (induction rs arbitrary: k) auto
  from this [of "\<lambda>r p. \<bar>aug ! r ! col\<bar> > \<bar>aug ! p ! col\<bar>" col "[Suc col..<length aug]"]
  show "col < length aug \<Longrightarrow> ?thesis" by (auto simp: pivot_row_def)
qed

lemma gauss_jordan_reduces:
  assumes "gauss_jordan [k..<n] aug = Some out" and "wf_aug n aug" and "unit_cols n k aug" and "k \<le> n"
  shows "wf_aug n out \<and> unit_cols n n out \<and> solves n x b out = solves n x b aug"
  using assms
proof (induction "n - k" arbitrary: k aug)
  case 0
  then have "k = n" by simp
  with 0 show ?case by simp
next
  case (Suc d)
  then have k: "k < n" by simp
  have n: "length aug = n" using Suc.prems(2) by (simp add: wf_aug_def)
  let ?p = "pivot_row aug k"
  let ?a = "aug[k := aug ! ?p, ?p := aug ! k]"
  have p: "k \<le> ?p" "?p < n" using pivot_row_range [of k aug] k n by simp_all
  have piv: "\<not> \<bar>aug ! ?p ! k\<bar> < 1 / 10 ^ 12" and out: "gauss_jordan [Suc k..<n] (eliminate k ?a) = Some out"
    using Suc.prems(1) k by (auto simp: upt_conv_Cons Let_def split: if_splits)
  have wf: "wf_aug n ?a" using swap_wf [OF Suc.prems(2) k p(2)] .
  have "?a ! k ! k = aug ! ?p ! k" using k p n by (simp add: swap_nth)
  then have nz: "?a ! k ! k \<noteq> 0" using piv by auto
  have uc: "unit_cols n k ?a"
    using Suc.prems(3) k p n by (auto simp: unit_cols_def swap_nth)
  have "wf_aug n out \<and> unit_cols n n out \<and> solves n x b out = solves n x b (eliminate k ?a)"
    using Suc.hyps(2) k by (intro Suc.hyps(1) [of "Suc k"] out eliminate_wf wf eliminate_cols nz uc) simp_all
  then show ?case using eliminate_solves [OF wf k nz] swap_solves [OF Suc.prems(2) k p(2)] by simp
qed

definition square :: "nat \<Rightarrow> real list list \<Rightarrow> bool" where
  "square n m \<longleftrightarrow> length m = n \<and> (\<forall>i<n. length (m ! i) = n)"

lemma augment_wf: "square n m \<Longrightarrow> wf_aug n (augment m)"
  by (simp add: square_def wf_aug_def augment_def unit_row_def)

lemma augment_solves:
  assumes "square n m"
  shows "solves n x b (augment m) \<longleftrightarrow> (\<forall>i<n. (\<Sum>j<n. m ! i ! j * x j) = b i)"
proof -
  have "resid n x b (augment m ! i) = (\<Sum>j<n. m ! i ! j * x j) - b i" if i: "i < n" for i
  proof -
    have row: "augment m ! i = m ! i @ unit_row n i" "length (m ! i) = n" using assms i by (simp_all add: square_def augment_def)
    have "(\<Sum>j<n. (m ! i @ unit_row n i) ! (n + j) * b j) = (\<Sum>j<n. if j = i then b j else 0)"
      using row(2) by (intro sum.cong) (auto simp: nth_append unit_row_def)
    then show ?thesis using i row by (simp add: resid_def nth_append)
  qed
  then show ?thesis by (simp add: solves_def)
qed

lemma invert_solves:
  assumes "square n m" and "invertMatrix m = Some minv"
  shows "square n minv \<and> ((\<forall>i<n. (\<Sum>j<n. m ! i ! j * x j) = b i) \<longleftrightarrow> (\<forall>i<n. x i = (\<Sum>j<n. minv ! i ! j * b j)))"
proof -
  have n: "length m = n" using assms(1) by (simp add: square_def)
  from assms(2) obtain out where gj: "gauss_jordan [0..<n] (augment m) = Some out" and minv: "minv = map (drop n) out"
    by (auto simp: invertMatrix_def n)
  from gauss_jordan_reduces [OF gj augment_wf [OF assms(1)], of x b]
  have out: "wf_aug n out" "unit_cols n n out" "solves n x b out = solves n x b (augment m)" by (simp_all add: unit_cols_def)
  have "resid n x b (out ! i) = x i - (\<Sum>j<n. minv ! i ! j * b j)" if i: "i < n" for i
  proof -
    have "(\<Sum>j<n. out ! i ! j * x j) = (\<Sum>j<n. if j = i then x j else 0)"
      using out(2) i by (intro sum.cong) (auto simp: unit_cols_def)
    then show ?thesis using i out(1) by (simp add: resid_def minv wf_aug_def)
  qed
  moreover have "square n minv" using out(1) by (simp add: square_def minv wf_aug_def)
  ultimately show ?thesis using out(3) augment_solves [OF assms(1)] by (auto simp: solves_def)
qed
section \<open>Least squares\<close>

lemma dot_sum: "length xs = n \<Longrightarrow> length ys = n \<Longrightarrow> dot xs ys = (\<Sum>i<n. xs ! i * ys ! i)"
  by (simp add: dot_def sum_list_sum_nth atLeast0LessThan)

lemma predict_sum: "length coef = Suc k \<Longrightarrow> length row = k \<Longrightarrow> predict coef row = (\<Sum>a<Suc k. (1 # row) ! a * coef ! a)"
  by (cases coef) (simp_all add: predict_def dot_sum [of _ k] sum.lessThan_Suc_shift mult.commute del: sum.lessThan_Suc)

lemma square_gram: "square p (gram D p)"
  by (simp add: square_def gram_def)

lemma gram_nth: "a < p \<Longrightarrow> b < p \<Longrightarrow> gram D p ! a ! b = (\<Sum>i<length D. D ! i ! a * D ! i ! b)"
  by (simp add: gram_def sum_list_sum_nth atLeast0LessThan)

lemma moment_nth: "a < p \<Longrightarrow> length y = length D \<Longrightarrow> moment D y p ! a = (\<Sum>i<length D. D ! i ! a * y ! i)"
  by (simp add: moment_def sum_list_sum_nth atLeast0LessThan)

lemma gram_apply:
  "a < p \<Longrightarrow> (\<Sum>b<p. gram D p ! a ! b * v b) = (\<Sum>i<length D. D ! i ! a * (\<Sum>b<p. D ! i ! b * v b))"
proof -
  assume "a < p"
  then have "(\<Sum>b<p. gram D p ! a ! b * v b) = (\<Sum>b<p. \<Sum>i<length D. D ! i ! a * (D ! i ! b * v b))"
    by (simp add: gram_nth sum_distrib_right mult.assoc)
  also have "\<dots> = (\<Sum>i<length D. \<Sum>b<p. D ! i ! a * (D ! i ! b * v b))" by (rule sum.swap)
  finally show ?thesis by (simp add: sum_distrib_left)
qed

lemma normal_equations:
  assumes "X \<noteq> []" and "length (hd X) = k" and "length y = length X" and "solveOLS X y = Some coef"
  shows "length coef = Suc k \<and>
     (\<forall>a<Suc k. (\<Sum>i<length X. (1 # X ! i) ! a * (y ! i - (\<Sum>b<Suc k. (1 # X ! i) ! b * coef ! b))) = 0) \<and>
     (\<forall>v. (\<forall>i<length X. (\<Sum>b<Suc k. (1 # X ! i) ! b * v b) = 0) \<longrightarrow> (\<forall>b<Suc k. v b = 0))"
proof -
  let ?p = "Suc k" and ?D = "map ((#) 1) X"
  obtain minv where minv: "invertMatrix (gram ?D ?p) = Some minv" and coef: "coef = map (\<lambda>row. dot row (moment ?D y ?p)) minv"
    using assms(1,2,4) by (auto simp: solveOLS_def Let_def)
  note iv = invert_solves [OF square_gram minv]
  have sq: "square ?p minv" using iv by blast
  then have len: "length coef = ?p" by (simp add: coef square_def)
  have cn: "coef ! a = (\<Sum>b<?p. minv ! a ! b * moment ?D y ?p ! b)" if "a < ?p" for a
  proof -
    have "length minv = ?p" "length (minv ! a) = ?p" using sq that by (simp_all add: square_def)
    moreover have "length (moment ?D y ?p) = ?p" by (simp add: moment_def)
    ultimately show ?thesis using that dot_sum [of "minv ! a" ?p "moment ?D y ?p"] by (simp add: coef del: sum.lessThan_Suc)
  qed
  have "(\<Sum>b<?p. gram ?D ?p ! a ! b * coef ! b) = moment ?D y ?p ! a" if "a < ?p" for a
    using iv [of "\<lambda>a. coef ! a" "\<lambda>a. moment ?D y ?p ! a"] cn that by blast
  then have "(\<Sum>i<length X. (1 # X ! i) ! a * (\<Sum>b<?p. (1 # X ! i) ! b * coef ! b)) = (\<Sum>i<length X. (1 # X ! i) ! a * y ! i)" if "a < ?p" for a
    using that assms(3) by (simp add: gram_apply moment_nth del: sum.lessThan_Suc nth_Cons_Suc)
  then have ne: "(\<Sum>i<length X. (1 # X ! i) ! a * (y ! i - (\<Sum>b<?p. (1 # X ! i) ! b * coef ! b))) = 0" if "a < ?p" for a
    using that by (simp add: right_diff_distrib sum_subtractf del: sum.lessThan_Suc)
  have "v a = 0" if "\<forall>i<length X. (\<Sum>b<?p. (1 # X ! i) ! b * v b) = 0" "a < ?p" for v a
  proof -
    have "(\<Sum>b<?p. gram ?D ?p ! a ! b * v b) = 0" if "a < ?p" for a
      using that \<open>\<forall>i<length X. _\<close> by (simp add: gram_apply del: sum.lessThan_Suc)
    then show ?thesis using iv [of v "\<lambda>_. 0"] that(2) by simp
  qed
  with ne len show ?thesis by blast
qed

lemma ss_res_sum:
  assumes "length y = length X" and "\<And>i. i < length X \<Longrightarrow> length (X ! i) = k" and "length c = Suc k"
  shows "ss_res X y c = (\<Sum>i<length X. (y ! i - (\<Sum>b<Suc k. (1 # X ! i) ! b * c ! b))\<^sup>2)"
proof -
  have "ss_res X y c = (\<Sum>i<length X. (y ! i - predict c (X ! i))\<^sup>2)"
    using assms(1) by (simp add: ss_res_def sum_list_sum_nth atLeast0LessThan power2_eq_square)
  then show ?thesis using assms predict_sum [OF assms(3)] by (simp del: sum.lessThan_Suc)
qed

lemma ols_minimal:
  assumes X: "\<And>row. row \<in> set X \<Longrightarrow> length row = k" and y: "length y = length X" and ols: "solveOLS X y = Some coef"
    and c: "length c = Suc k" "c \<noteq> coef"
  shows "ss_res X y coef < ss_res X y c"
proof -
  have ne: "X \<noteq> []" using ols by (auto simp: solveOLS_def)
  then have "length (hd X) = k" using X by simp
  note n = normal_equations [OF ne this y ols]
  have Xi: "length (X ! i) = k" if "i < length X" for i using X that by simp
  define F where "F v i = (\<Sum>b<Suc k. (1 # X ! i) ! b * v b)" for v :: "nat \<Rightarrow> real" and i
  define r where "r i = y ! i - F (nth coef) i" for i
  define d where "d b = c ! b - coef ! b" for b
  have Fd: "F (nth c) i = F (nth coef) i + F d i" for i
    by (simp add: F_def d_def right_diff_distrib sum_subtractf del: sum.lessThan_Suc)
  have "(\<Sum>i<length X. r i * F d i) = (\<Sum>b<Suc k. d b * (\<Sum>i<length X. (1 # X ! i) ! b * r i))"
    unfolding F_def sum_distrib_left by (subst sum.swap) (simp add: mult_ac)
  also have "\<dots> = 0" using n by (simp add: r_def F_def del: sum.lessThan_Suc)
  finally have cross: "(\<Sum>i<length X. r i * F d i) = 0" .
  have "y ! i - F (nth c) i = r i - F d i" for i by (simp add: Fd r_def)
  then have "ss_res X y c = (\<Sum>i<length X. (r i - F d i)\<^sup>2)"
    using ss_res_sum [OF y Xi c(1)] by (simp add: F_def [symmetric] del: sum.lessThan_Suc)
  also have "\<dots> = (\<Sum>i<length X. (r i)\<^sup>2) + (\<Sum>i<length X. (F d i)\<^sup>2) - 2 * (\<Sum>i<length X. r i * F d i)"
    by (simp add: power2_diff sum.distrib sum_subtractf sum_distrib_left mult.assoc)
  also have "(\<Sum>i<length X. (r i)\<^sup>2) = ss_res X y coef"
    using ss_res_sum [OF y Xi, of coef] n by (simp add: F_def r_def del: sum.lessThan_Suc)
  finally have eq: "ss_res X y c = ss_res X y coef + (\<Sum>i<length X. (F d i)\<^sup>2)" using cross by simp
  have "(\<Sum>i<length X. (F d i)\<^sup>2) \<noteq> 0"
  proof
    assume "(\<Sum>i<length X. (F d i)\<^sup>2) = 0"
    then have "\<forall>i<length X. F d i = 0" by (simp add: sum_nonneg_eq_0_iff)
    then have "d b = 0" if "b < Suc k" for b using n that unfolding F_def by blast
    then have "c = coef" using c(1) n by (intro nth_equalityI) (auto simp: d_def)
    with c(2) show False by simp
  qed
  moreover have "(\<Sum>i<length X. (F d i)\<^sup>2) \<ge> 0" by (intro sum_nonneg) simp
  ultimately show ?thesis using eq by linarith
qed

lemma kernel_exists:
  fixes A :: "'i \<Rightarrow> 'j \<Rightarrow> real"
  assumes "finite I" "finite J" "card I < card J"
  shows "\<exists>v. (\<exists>j\<in>J. v j \<noteq> 0) \<and> (\<forall>i\<in>I. (\<Sum>j\<in>J. A i j * v j) = 0)"
  using assms
proof (induction I arbitrary: J A rule: finite_induct)
  case empty
  then have "J \<noteq> {}" by auto
  then show ?case by (intro exI [of _ "\<lambda>_. 1"]) auto
next
  case (insert i I)
  show ?case
  proof (cases "\<forall>j\<in>J. A i j = 0")
    case True
    from insert.IH [of J A] insert.prems insert.hyps obtain v where
      "\<exists>j\<in>J. v j \<noteq> 0" "\<forall>r\<in>I. (\<Sum>j\<in>J. A r j * v j) = 0" by auto
    with True show ?thesis by (intro exI [of _ v]) auto
  next
    case False
    then obtain k where k: "k \<in> J" "A i k \<noteq> 0" by auto
    let ?J = "J - {k}"
    have J: "finite ?J" "card I < card ?J" using insert.prems insert.hyps k by simp_all
    obtain v where v: "\<exists>j\<in>?J. v j \<noteq> 0" "\<forall>r\<in>I. (\<Sum>j\<in>?J. (A r j - A r k * A i j / A i k) * v j) = 0"
      using insert.IH [OF J, of "\<lambda>r j. A r j - A r k * A i j / A i k"] by auto
    define s where "s = (\<Sum>j\<in>?J. A i j * v j)"
    define w where "w = v(k := - s / A i k)"
    have split: "(\<Sum>j\<in>J. A r j * w j) = (\<Sum>j\<in>?J. A r j * v j) - A r k * s / A i k" for r
    proof -
      have "(\<Sum>j\<in>J. A r j * w j) = A r k * w k + (\<Sum>j\<in>?J. A r j * w j)" using insert.prems k by (simp add: sum.remove)
      moreover have "(\<Sum>j\<in>?J. A r j * w j) = (\<Sum>j\<in>?J. A r j * v j)" by (intro sum.cong) (auto simp: w_def)
      ultimately show ?thesis by (simp add: w_def)
    qed
    have "(\<Sum>j\<in>J. A r j * w j) = 0" if "r \<in> I" for r
    proof -
      have "(\<Sum>j\<in>?J. (A r j - A r k * A i j / A i k) * v j) = (\<Sum>j\<in>?J. A r j * v j) - A r k / A i k * s"
        by (simp add: s_def left_diff_distrib sum_subtractf sum_distrib_left mult.assoc)
      then show ?thesis using v(2) that split [of r] by simp
    qed
    moreover have "(\<Sum>j\<in>J. A i j * w j) = 0" using split [of i] k by (simp add: s_def)
    moreover have "\<exists>j\<in>J. w j \<noteq> 0" using v(1) by (auto simp: w_def)
    ultimately show ?thesis by (intro exI [of _ w]) auto
  qed
qed

lemma ols_underdetermined:
  assumes "\<And>row. row \<in> set X \<Longrightarrow> length row = k" and "length y = length X" and "length X < Suc k"
  shows "solveOLS X y = None"
proof (rule ccontr)
  assume "solveOLS X y \<noteq> None"
  then obtain coef where ols: "solveOLS X y = Some coef" by auto
  then have ne: "X \<noteq> []" by (auto simp: solveOLS_def)
  then have "length (hd X) = k" using assms(1) by simp
  note n = normal_equations [OF ne this assms(2) ols]
  obtain v where v: "\<exists>j\<in>{..<Suc k}. v j \<noteq> 0" "\<forall>i\<in>{..<length X}. (\<Sum>j\<in>{..<Suc k}. (1 # X ! i) ! j * v j) = 0"
    using kernel_exists [of "{..<length X}" "{..<Suc k}" "\<lambda>i j. (1 # X ! i) ! j"] assms(3) by auto
  then have "\<forall>b<Suc k. v b = 0" using n by (metis lessThan_iff)
  with v(1) show False by auto
qed

section \<open>Properties of the market rates\<close>


lemma demo_ols: "solveOLS [[0], [1], [2]] [1, 3, 5] = Some [1, 2]"
  by code_simp


text \<open>With nine features and an intercept the regression needs ten comparables: for fewer usable ones
  the normal equations are singular and the market rates never come from the regression, although the code and the
  documentation use it from six comparables on. (In exact arithmetic; a floating-point pivot that
  rounding keeps away from zero is not a fit either.)\<close>

theorem regression_needs_ten_comps:
  assumes "length (ols_comps sold) < 10"
  shows "fitBpoOLS now sold = None \<and> r_method (extractMarketRates now sold n) \<noteq> ''ols_regression''"
proof -
  let ?X = "map (ols_row now (meanCloseMonths now sold)) (ols_comps sold)"
  have "solveOLS ?X (map c_close_price (ols_comps sold)) = None"
    using assms by (intro ols_underdetermined [of _ 9]) (auto simp: ols_row_def)
  then have fit: "fitBpoOLS now sold = None" by (simp add: fitBpoOLS_def Let_def)
  then show ?thesis
    by (simp add: extractMarketRates_def paired_market_rates_def sanitizeMarketRates_def fillDefaultRates_def zero_rates_def Let_def)
qed

definition demo_comp :: "real \<Rightarrow> real \<Rightarrow> comp_record" where
  "demo_comp price area = (zero_comp RawEmpty)\<lparr>c_close_price := price, c_living_area := area\<rparr>"

theorem regression_needs_ten_comps_witness:
  "length (ols_comps (map (\<lambda>i. demo_comp (100000 * real i) (1000 * real i)) [1..<9])) = 8 \<and>
   fitBpoOLS 0 (map (\<lambda>i. demo_comp (100000 * real i) (1000 * real i)) [1..<9]) = None"
proof -
  have "length (ols_comps (map (\<lambda>i. demo_comp (100000 * real i) (1000 * real i)) [1..<9])) = 8"
    by (simp add: ols_comps_def demo_comp_def zero_comp_def upt_rec)
  with regression_needs_ten_comps [of "map (\<lambda>i. demo_comp (100000 * real i) (1000 * real i)) [1..<9]" 0] show ?thesis by simp
qed

lemma clamp_bounds: "lo \<le> hi \<Longrightarrow> lo \<le> clamp v lo hi \<and> clamp v lo hi \<le> hi"
  by (simp add: clamp_def)

definition rates_in_range :: "bpo_rates \<Rightarrow> bool" where
  "rates_in_range r \<longleftrightarrow> r_gla r \<in> {40..900} \<and> r_bed r \<in> {0..25000} \<and> r_bath r \<in> {0..20000} \<and> r_age r \<in> {0..6000} \<and>
     r_lot r \<in> {0..150000} \<and> r_garage r \<in> {0..35000} \<and> r_pool r \<in> {-50000..80000} \<and> r_waterfront r \<in> {-100000..200000} \<and>
     r_time r \<in> {0..2 / 100}"

lemma sanitize_in_range: "rates_in_range (sanitizeMarketRates r)"
  by (simp add: rates_in_range_def sanitizeMarketRates_def clamp_def Let_def)

lemma rates_in_range_update [simp]:
  "rates_in_range (r\<lparr>r_count := n\<rparr>) = rates_in_range r" "rates_in_range (r\<lparr>r_median_gla := x\<rparr>) = rates_in_range r"
  "rates_in_range (r\<lparr>r_warnings := w\<rparr>) = rates_in_range r"
  by (simp_all add: rates_in_range_def)

lemma fit_method: "fitBpoOLS now sold = Some r \<Longrightarrow> r_method r = ''ols_regression''"
  unfolding fitBpoOLS_def Let_def by (simp split: if_split_asm option.split_asm) (drule sym, simp)

lemma keep_method: "r_method (sanitizeMarketRates r) = r_method r" "r_method (fillDefaultRates r) = r_method r"
   "r_count (sanitizeMarketRates r) = r_count r" "r_count (fillDefaultRates r) = r_count r"
  by (simp_all add: sanitizeMarketRates_def fillDefaultRates_def)

lemma paired_method: "r_method (paired_market_rates sold r) = ''paired_sales''" "r_count (paired_market_rates sold r) = r_count r"
  by (simp_all add: paired_market_rates_def keep_method Let_def)

text \<open>Market rates stay in their ranges: whatever the comparables say, as long as there is one, every rate lies in
  the range the code allows for it, and the method is one of the three documented sources.\<close>

theorem market_rates_in_range:
  assumes "sold \<noteq> []"
  shows "rates_in_range (extractMarketRates now sold n) \<and> r_count (extractMarketRates now sold n) = length sold \<and>
     r_method (extractMarketRates now sold n) \<in> {''ols_regression'', ''paired_sales'', ''median_fallback''}"
proof -
  have "rates_in_range (extractMarketRates now sold n)"
    using assms by (simp add: extractMarketRates_def paired_market_rates_def sanitize_in_range Let_def split: option.split)
  moreover have "r_count (extractMarketRates now sold n) = length sold"
    using assms by (simp add: extractMarketRates_def Let_def keep_method paired_method zero_rates_def split: option.split)
  moreover have "r_method (extractMarketRates now sold n) \<in> {''ols_regression'', ''paired_sales'', ''median_fallback''}"
    using assms by (simp add: extractMarketRates_def Let_def keep_method paired_method fit_method zero_rates_def split: option.split)
  ultimately show ?thesis by blast
qed

theorem market_rates_in_range_witness: "r_gla (extractMarketRates 0 [demo_comp 900000 100] 6) \<le> 900"
  using market_rates_in_range [of "[demo_comp 900000 100]" 0 6] by (simp add: rates_in_range_def)

text \<open>\<^verbatim>\<open>medianOf\<close> is the median: at most half of the values lie below it and at most half above, it is
  between the two middle values in order, and it depends only on the multiset of values.\<close>

theorem medianOf_is_median:
  "2 * length (filter (\<lambda>v. v < medianOf vals) vals) \<le> length vals \<and>
   2 * length (filter (\<lambda>v. v > medianOf vals) vals) \<le> length vals \<and> medianOf (sort vals) = medianOf vals"
  using median_halves [of vals] medianOf_perm [of "sort vals" vals] by simp

lemma sum_list_square_ge:
  fixes f :: "'a \<Rightarrow> real"
  assumes "\<And>x. x \<in> set xs \<Longrightarrow> b < f x" and "xs \<noteq> []"
  shows "real (length xs) * b < sum_list (map f xs)"
  using assms
proof (induction xs)
  case (Cons a xs)
  then show ?case by (cases "xs = []") (auto simp: algebra_simps intro: add_strict_mono)
qed simp

lemma some_within_std:
  assumes "vals \<noteq> []" and "meanStd vals = (m, std)" and "std > 0"
  shows "\<exists>v \<in> set vals. \<bar>(v - m) / std\<bar> \<le> 1"
proof (rule ccontr)
  assume "\<not> ?thesis"
  then have far: "std < \<bar>v - m\<bar>" if "v \<in> set vals" for v using that assms(3) by (auto simp: field_simps abs_divide)
  have "std * std < (v - m) * (v - m)" if "v \<in> set vals" for v
  proof -
    have "std * std < \<bar>v - m\<bar> * \<bar>v - m\<bar>" using far [OF that] assms(3) by (intro mult_strict_mono) auto
    then show ?thesis by simp
  qed
  from sum_list_square_ge [of vals "std * std" "\<lambda>v. (v - m) * (v - m)", OF this assms(1)]
  have "std * std < sum_list (map (\<lambda>v. (v - m) * (v - m)) vals) / real (length vals)"
    using assms(1) by (simp add: pos_less_divide_eq mult.commute)
  moreover have "std = sqrt (sum_list (map (\<lambda>v. (v - m) * (v - m)) vals) / real (length vals))"
    using assms(2) by (auto simp: meanStd_def Let_def)
  moreover have "0 \<le> sum_list (map (\<lambda>v. (v - m) * (v - m)) vals) / real (length vals)"
    by (intro divide_nonneg_nonneg sum_list_nonneg) auto
  ultimately show False by (metis less_irrefl power2_eq_square real_sqrt_pow2)
qed

text \<open>Removing outliers is safe: the result keeps the order of the comparables, is empty only if there were none,
  and with a threshold of at least one, whenever the prices vary, it is exactly the comparables
  whose price is within the threshold of the mean, so the fallback to the unfiltered list is not used.\<close>

theorem outlier_filter_sound:
  "subseq (filterOutlierZScore sold t) sold \<and> (filterOutlierZScore sold t = [] \<longleftrightarrow> sold = []) \<and>
   (let prices = filter (\<lambda>p. p > 0) (map compPrice sold) in
    1 \<le> t \<and> 3 \<le> length prices \<and> snd (meanStd prices) \<ge> 1 / 10 ^ 9 \<longrightarrow>
      filterOutlierZScore sold t = filter (\<lambda>c. compPrice c > 0 \<and> \<bar>compPrice c - mean prices\<bar> \<le> t * snd (meanStd prices)) sold)"
proof -
  let ?prices = "filter (\<lambda>p. p > 0) (map compPrice sold)"
  let ?m = "mean ?prices"
  obtain std where ms: "meanStd ?prices = (?m, std)" by (simp add: meanStd_def Let_def)
  have "filterOutlierZScore sold t = filter (\<lambda>c. compPrice c > 0 \<and> \<bar>compPrice c - ?m\<bar> \<le> t * std) sold"
    if t: "1 \<le> t" and n: "3 \<le> length ?prices" and s: "std \<ge> 1 / 10 ^ 9"
  proof -
    have pos: "std > 0" using s by (meson less_le_trans zero_less_divide_1_iff zero_less_power zero_less_numeral)
    have z: "\<bar>(p - ?m) / std\<bar> \<le> t \<longleftrightarrow> \<bar>p - ?m\<bar> \<le> t * std" for p using pos by (simp add: abs_divide pos_divide_le_eq)
    have "?prices \<noteq> []" using n by (metis list.size(3) not_numeral_le_zero)
    from some_within_std [OF this ms pos] obtain c where c: "c \<in> set sold" "compPrice c > 0" "\<bar>(compPrice c - ?m) / std\<bar> \<le> t"
      using t by fastforce
    have "3 \<le> length sold" using n length_filter_le [of "\<lambda>p. p > 0" "map compPrice sold"] by (metis length_map order_trans)
    moreover have "filter (\<lambda>c. compPrice c > 0 \<and> \<bar>(compPrice c - ?m) / std\<bar> \<le> t) sold \<noteq> []"
      using c by (auto simp: filter_empty_conv)
    ultimately show ?thesis using t n s ms z by (simp add: filterOutlierZScore_def Let_def del: abs_divide)
  qed
  moreover have "filterOutlierZScore sold t = sold \<or> (filterOutlierZScore sold t \<noteq> [] \<and> (\<exists>P. filterOutlierZScore sold t = filter P sold))"
    by (auto simp: filterOutlierZScore_def Let_def split: prod.splits)
  then have "subseq (filterOutlierZScore sold t) sold \<and> (filterOutlierZScore sold t = [] \<longleftrightarrow> sold = [])"
    by (metis filter.simps(1) subseq_filter_left subseq_order.order_refl)
  ultimately show ?thesis by (simp add: Let_def ms)
qed

theorem outlier_filter_sound_witness:
  "filterOutlierZScore [demo_comp 10 1, demo_comp 30 1, demo_comp 20 1] 1 = [demo_comp 20 1]"
proof -
  let ?sold = "[demo_comp 10 1, demo_comp 30 1, demo_comp 20 1]"
  have p: "filter (\<lambda>p. p > 0) (map compPrice ?sold) = [10, 30, 20]" by (simp add: compPrice_def demo_comp_def zero_comp_def)
  have ms: "mean [10, 30, 20] = 20" "snd (meanStd [10, 30, 20]) = sqrt (200 / 3)" by (simp_all add: mean_def meanStd_def Let_def)
  have b: "1 / 10 ^ 9 \<le> sqrt (200 / 3)" by (rule real_le_rsqrt) (simp add: power2_eq_square)
  have l: "sqrt (200 / 3) < 10" by (rule real_less_lsqrt) simp_all
  have "filterOutlierZScore ?sold 1 = filter (\<lambda>c. compPrice c > 0 \<and> \<bar>compPrice c - 20\<bar> \<le> 1 * sqrt (200 / 3)) ?sold"
    using outlier_filter_sound [of ?sold 1] unfolding p Let_def ms using b by simp
  then show ?thesis using l by (simp add: compPrice_def demo_comp_def zero_comp_def)
qed

end
