(* ===== verification/Comps_Value.thy ===== *)
theory Comps_Value
  imports Comps_Rates
begin

text \<open>
  Valuation (\<^verbatim>\<open>internal/service/comps\<close>: \<^verbatim>\<open>adjustments.go\<close>, \<^verbatim>\<open>bpo_grid.go\<close>, \<^verbatim>\<open>bpo_reconcile.go\<close>, \<^verbatim>\<open>bpo_renovation.go\<close>): the fixed
  adjustments of the sales modes, the URAR grid with market rates, the reconciliation of adjusted prices to one
  value, and renovation credits.

  A line of the grid keeps its feature, rate source, rate and amount; the values, unit and reasoning
  that are only printed are left out. \<^verbatim>\<open>sort.Slice\<close> does not say how it orders comparables at equal
  distance; the model keeps their order.
\<close>

section \<open>Fixed adjustments\<close>

definition base_price :: "comp_record \<Rightarrow> real" where
  "base_price c = (if c_close_price c \<le> 0 then c_list_price c else c_close_price c)"

definition adjustment_lines :: "subject_profile \<Rightarrow> filters_input \<Rightarrow> comp_record \<Rightarrow> adjustment_line list" where
  "adjustment_lines subject f c =
     (let poolAdj = given (fi_adj_pool f) 15000; waterAdj = given (fi_adj_waterfront f) 50000;
          garageAdj = given (fi_adj_garage f) 5000; yearAdj = given (fi_adj_year f) 1500 in
      (if sp_living_area subject > 0 \<and> c_living_area c > 0
       then [(''living_area_sqft'', round2 ((sp_living_area subject - c_living_area c) * (base_price c / c_living_area c)))] else []) @
      (if sp_bedrooms subject \<noteq> c_bedrooms c then [(''bedrooms'', round2 ((sp_bedrooms subject - c_bedrooms c) * 8000))] else []) @
      (if sp_bathrooms subject \<noteq> c_bathrooms c then [(''bathrooms'', round2 ((sp_bathrooms subject - c_bathrooms c) * 5000))] else []) @
      (if sp_pool subject \<noteq> c_pool c then [(''pool'', round2 (if sp_pool subject then poolAdj else - poolAdj))] else []) @
      (if sp_waterfront subject \<noteq> c_waterfront c
       then [(''waterfront'', round2 (if sp_waterfront subject then waterAdj else - waterAdj))] else []) @
      (if sp_garage subject \<noteq> c_garage c then [(''garage'', round2 ((sp_garage subject - c_garage c) * garageAdj))] else []) @
      (if sp_year_built subject > 0 \<and> c_year_built c > 0
       then [(''year_built'', round2 (real_of_int (sp_year_built subject - c_year_built c) * yearAdj))] else []))"

definition adjust_comp :: "subject_profile \<Rightarrow> filters_input \<Rightarrow> comp_record \<Rightarrow> comp_record" where
  "adjust_comp subject f c = (let lines = adjustment_lines subject f c in
     c\<lparr>c_adjusted := round2 (base_price c + sum_list (map snd lines)), c_adjustments := lines\<rparr>)"

definition applyAdjustments :: "subject_profile \<Rightarrow> comp_record list \<Rightarrow> filters_input \<Rightarrow> comp_record list" where
  "applyAdjustments subject comps f = sort_key c_distance (map (adjust_comp subject f) comps)"

definition medianPrice :: "comp_record list \<Rightarrow> real" where
  "medianPrice sold = round2 (medianOf (filter (\<lambda>p. p > 0) (map c_close_price sold)))"

record market_conditions =
  mc_count :: nat
  mc_months :: int
  mc_median :: real
  mc_avg :: real
  mc_min :: real
  mc_max :: real

definition marketConditions :: "comp_record list \<Rightarrow> int \<Rightarrow> market_conditions" where
  "marketConditions sold months = (case sold of
      [] \<Rightarrow> \<lparr>mc_count = 0, mc_months = months, mc_median = 0, mc_avg = 0, mc_min = 0, mc_max = 0\<rparr>
    | c # _ \<Rightarrow> (let ps = map compPrice sold in
        \<lparr>mc_count = length sold, mc_months = months, mc_median = medianPrice sold, mc_avg = round2 (mean ps),
         mc_min = foldl (\<lambda>m p. if p < m then p else m) (c_close_price c) ps,
         mc_max = foldl (\<lambda>m p. if p > m then p else m) 0 ps\<rparr>))"

record overpriced =
  ov_key :: string
  ov_price :: real
  ov_threshold :: real
  ov_premium :: real

definition overpricedSignals :: "comp_record list \<Rightarrow> comp_record list \<Rightarrow> overpriced list" where
  "overpricedSignals competition sold = (let med = medianPrice sold in
     if med \<le> 0 then []
     else map (\<lambda>c. \<lparr>ov_key = c_key c, ov_price = c_list_price c, ov_threshold = round2 (med * (11 / 10)),
              ov_premium = round2 ((c_list_price c / med - 1) * 100)\<rparr>)
            (filter (\<lambda>c. c_list_price c > med * (11 / 10)) competition))"

section \<open>The URAR grid\<close>

record grid_line =
  gl_feature :: string
  gl_source :: string
  gl_rate :: real
  gl_adjustment :: real

definition urarGridFeatures :: "string list" where
  "urarGridFeatures = [''time_of_sale'', ''location'', ''site_lot'', ''design_style'', ''quality'', ''age_condition'', ''gla'',
     ''bedrooms'', ''bathrooms'', ''garage'', ''pool'', ''waterfront'', ''porch_patio'', ''hvac'']"

definition compSubdivision :: "comp_record \<Rightarrow> string" where
  "compSubdivision c = stringField (c_property c) ''SubdivisionName''"

definition compMLSArea :: "comp_record \<Rightarrow> string" where
  "compMLSArea c = stringField (c_property c) ''MLSAreaMajor''"

definition effectiveYearBuilt :: "subject_profile \<Rightarrow> real" where
  "effectiveYearBuilt subject = (let yb = real_of_int (sp_year_built subject); c = to_lower (trim_space (sp_condition subject)) in
     if yb \<le> 0 then yb
     else if c = ''excellent'' then yb + 10
     else if c = ''fair'' then yb - 5
     else if c = ''poor'' then yb - 15
     else yb)"

definition locationAdjustment :: "subject_profile \<Rightarrow> comp_record \<Rightarrow> real" where
  "locationAdjustment subject c =
     (let subDiv = trim_space (to_lower (sp_subdivision subject)); compDiv = trim_space (to_lower (compSubdivision c)) in
      if subDiv = [] \<or> compDiv = [] then 0
      else if subDiv = compDiv then 0
      else if sp_mls_area subject \<noteq> [] \<and> equal_fold (sp_mls_area subject) (compMLSArea c) then 0
      else - c_close_price c * (2 / 100))"

definition qualityPPSFAdjustment :: "subject_profile \<Rightarrow> comp_record \<Rightarrow> bpo_rates \<Rightarrow> real" where
  "qualityPPSFAdjustment subject c rates =
     (if r_gla rates \<le> 0 \<or> sp_living_area subject \<le> 0 \<or> c_living_area c \<le> 0 then 0
      else let p = sp_list_price subject / sp_living_area subject; subPPSF = (if p \<le> 0 then r_gla rates else p);
               compPPSF = c_close_price c / c_living_area c in
        if compPPSF \<le> 0 then 0 else (subPPSF - compPPSF) * c_living_area c * (1 / 4))"

definition time_rate :: "bpo_rates \<Rightarrow> real" where
  "time_rate rates = (let monthly = (if r_time rates = 0 then 25 / 10000 else r_time rates) in if monthly < 0 then - monthly else monthly)"

definition grid_amount :: "int \<Rightarrow> subject_profile \<Rightarrow> comp_record \<Rightarrow> bpo_rates \<Rightarrow> string \<Rightarrow> string \<Rightarrow> string \<times> real \<times> real" where
  "grid_amount now subject c rates src feat =
     (if feat = ''time_of_sale'' then (src, time_rate rates, c_close_price c * time_rate rates * monthsSinceClose now (c_close_date c))
      else if feat = ''location'' then (''qualitative_match'', 0, locationAdjustment subject c)
      else if feat = ''site_lot'' then (src, r_lot rates, (sp_lot_acres subject - c_lot_acres c) * r_lot rates)
      else if feat = ''design_style'' then (''qualitative_match'', 0, 0)
      else if feat = ''quality'' then (src, r_gla rates, qualityPPSFAdjustment subject c rates)
      else if feat = ''age_condition'' then (src, r_age rates, (effectiveYearBuilt subject - real_of_int (c_year_built c)) * r_age rates)
      else if feat = ''gla'' then (src, r_gla rates, (sp_living_area subject - c_living_area c) * r_gla rates)
      else if feat = ''bedrooms'' then (src, r_bed rates, (sp_bedrooms subject - c_bedrooms c) * r_bed rates)
      else if feat = ''bathrooms'' then (src, r_bath rates, (sp_bathrooms subject - c_bathrooms c) * r_bath rates)
      else if feat = ''garage'' then (src, r_garage rates, (sp_garage subject - c_garage c) * r_garage rates)
      else if feat = ''pool'' then (src, r_pool rates, (bool01 (sp_pool subject) - bool01 (c_pool c)) * r_pool rates)
      else if feat = ''waterfront'' then (src, r_waterfront rates, (bool01 (sp_waterfront subject) - bool01 (c_waterfront c)) * r_waterfront rates)
      else if feat = ''porch_patio'' \<or> feat = ''hvac'' then (''indeterminate'', 0, 0)
      else (src, 0, 0))"

definition bpoGridLine :: "int \<Rightarrow> subject_profile \<Rightarrow> comp_record \<Rightarrow> bpo_rates \<Rightarrow> string \<Rightarrow> string \<Rightarrow> grid_line" where
  "bpoGridLine now subject c rates src feat = (case grid_amount now subject c rates src feat of
     (source, rate, amount) \<Rightarrow> \<lparr>gl_feature = feat, gl_source = source, gl_rate = rate, gl_adjustment = round2 amount\<rparr>)"

definition buildURARGrid :: "int \<Rightarrow> subject_profile \<Rightarrow> comp_record \<Rightarrow> bpo_rates \<Rightarrow> grid_line list" where
  "buildURARGrid now subject c rates =
     (let src = (if r_method rates = [] then ''median_fallback'' else r_method rates) in
      map (bpoGridLine now subject c rates src) urarGridFeatures)"

definition sumGridAdjustments :: "grid_line list \<Rightarrow> real \<times> real" where
  "sumGridAdjustments lines = (sum_list (map gl_adjustment lines), sum_list (map (\<lambda>l. \<bar>gl_adjustment l\<bar>) lines))"

definition urarToLegacyLines :: "grid_line list \<Rightarrow> adjustment_line list" where
  "urarToLegacyLines lines = map (\<lambda>l. (gl_feature l, gl_adjustment l)) (filter (\<lambda>l. gl_adjustment l \<noteq> 0) lines)"

record comp_grid =
  cg_index :: nat
  cg_key :: string
  cg_sale_price :: real
  cg_sale_date :: string
  cg_lines :: "grid_line list"
  cg_net :: real
  cg_gross :: real
  cg_gross_pct :: real
  cg_adjusted :: real
  cg_weight :: real

definition cap_net :: "real \<Rightarrow> real \<Rightarrow> real" where
  "cap_net base net = (let cap = base * (35 / 100) in
     if cap > 0 then (if net > cap then cap else if net < - cap then - cap else net) else net)"

definition urar_comp :: "int \<Rightarrow> subject_profile \<Rightarrow> bpo_rates \<Rightarrow> nat \<Rightarrow> comp_record \<Rightarrow> comp_record \<times> comp_grid" where
  "urar_comp now subject rates i c =
     (let base = base_price c; lines = buildURARGrid now subject c rates in
      case sumGridAdjustments lines of (net0, gross) \<Rightarrow>
        let net = cap_net base net0; adjusted = round2 (base + net) in
        (c\<lparr>c_adjusted := adjusted, c_adjustments := urarToLegacyLines lines\<rparr>,
         \<lparr>cg_index = i, cg_key = c_key c, cg_sale_price = base, cg_sale_date = c_close_date c, cg_lines = lines,
          cg_net = round2 net, cg_gross = round2 gross, cg_gross_pct = (if base > 0 then round2 (gross / base * 100) else 0),
          cg_adjusted = adjusted, cg_weight = 0\<rparr>))"

definition applyURARGrid ::
  "int \<Rightarrow> subject_profile \<Rightarrow> comp_record list \<Rightarrow> bpo_rates \<Rightarrow> comp_record list \<times> comp_grid list" where
  "applyURARGrid now subject sold rates =
     (let out = map2 (urar_comp now subject rates) [0..<length sold] sold in (map fst out, map snd out))"

section \<open>Reconciliation\<close>

definition proximityScore :: "real \<Rightarrow> real" where
  "proximityScore miles = (if miles \<le> 1 / 4 then 1 else if miles \<ge> 3 then 1 / 10 else max (1 / 10) (1 - miles / 3))"

definition glaSimilarity :: "real \<Rightarrow> real \<Rightarrow> real" where
  "glaSimilarity subGLA compGLA = (if subGLA \<le> 0 \<or> compGLA \<le> 0 then 1 / 2 else max 0 (1 - \<bar>subGLA - compGLA\<bar> / subGLA))"

definition recencyScore :: "int \<Rightarrow> string \<Rightarrow> real" where
  "recencyScore now closeDate = (let mo = monthsSinceClose now closeDate in
     if mo \<le> 3 then 1 else if mo \<ge> 18 then 2 / 10 else max (2 / 10) (1 - mo / 18))"

definition featureMatchScore :: "subject_profile \<Rightarrow> comp_record \<Rightarrow> real" where
  "featureMatchScore subject c =
     (let n1 = (if sp_subdivision subject \<noteq> [] then 1 else 0);
          s1 = (if sp_subdivision subject \<noteq> [] \<and> equal_fold (sp_subdivision subject) (compSubdivision c) then 1 else 0);
          h2 = (if sp_pool subject = c_pool c then 1 / 2 else 0);
          h3 = (if sp_waterfront subject = c_waterfront c then 1 / 2 else 0); n = n1 + h2 + h3 in
      if n = 0 then 7 / 10 else (s1 + h2 + h3) / n)"

definition compReconcileWeight :: "int \<Rightarrow> subject_profile \<Rightarrow> comp_record \<Rightarrow> comp_grid \<Rightarrow> real" where
  "compReconcileWeight now subject c g =
     25 / 100 * proximityScore (c_distance c) + 25 / 100 * glaSimilarity (sp_living_area subject) (c_living_area c) +
     20 / 100 * recencyScore now (c_close_date c) + 20 / 100 * (1 - min (cg_gross_pct g / 25) 1) + 10 / 100 * featureMatchScore subject c"

record bpo_result =
  br_point :: real
  br_low :: real
  br_high :: real
  br_confidence :: real
  br_band :: string

definition reconcileConfidence :: "comp_grid list \<Rightarrow> bpo_rates \<Rightarrow> real" where
  "reconcileConfidence grids rates =
     (let n = length grids; base = (if 6 \<le> n then 70 else if 3 \<le> n then 55 else 40);
          base = base + r_rsquared rates * 20; base = (if r_method rates = ''ols_regression'' then base + 5 else base);
          avgGross = (if n > 0 then mean (map cg_gross_pct grids) else 0);
          base = (if avgGross > 20 then base - 10 else base) in
      min 95 (max 20 (round2 base)))"

definition spreadPct :: "real \<Rightarrow> real" where
  "spreadPct confidence = (if confidence \<ge> 80 then 3 / 100 else if confidence \<ge> 60 then 5 / 100 else 8 / 100)"

definition confidenceBand :: "real \<Rightarrow> string" where
  "confidenceBand conf = (if conf \<ge> 75 then ''high'' else if conf \<ge> 50 then ''moderate'' else ''low'')"

definition weighted_mean :: "real list \<Rightarrow> real list \<Rightarrow> real" where
  "weighted_mean ws xs = sum_list (map2 (\<lambda>w x. w / sum_list ws * x) ws xs)"

definition reconcileBPO ::
  "int \<Rightarrow> subject_profile \<Rightarrow> comp_record list \<Rightarrow> comp_grid list \<Rightarrow> bpo_rates \<Rightarrow> bpo_result" where
  "reconcileBPO now subject sold grids rates =
     (if grids = [] then \<lparr>br_point = 0, br_low = 0, br_high = 0, br_confidence = 0, br_band = []\<rparr>
      else let ws = map2 (compReconcileWeight now subject) sold grids;
             weights = (if sum_list ws \<le> 0 then map (\<lambda>_. 1) ws else ws);
             indicated = round2 (weighted_mean weights (map cg_adjusted grids));
             conf = reconcileConfidence grids rates; spread = spreadPct conf in
        \<lparr>br_point = indicated, br_low = round2 (indicated * (1 - spread)), br_high = round2 (indicated * (1 + spread)),
         br_confidence = conf, br_band = confidenceBand conf\<rparr>)"

section \<open>Renovation credits\<close>

definition typicalHomeValue :: "bpo_rates \<Rightarrow> real" where
  "typicalHomeValue rates = (if r_median_gla rates > 0 \<and> r_gla rates > 0 then r_median_gla rates * r_gla rates
     else if r_intercept rates > 0 then r_intercept rates else 350000)"

definition marketRenovationAmount :: "real \<Rightarrow> real \<Rightarrow> real \<Rightarrow> real" where
  "marketRenovationAmount typicalValue pct floorDefault =
     (let derived = typicalValue * pct; floor = floorDefault * (1 / 2) in if derived < floor then floor else derived)"

definition go_year :: "int \<Rightarrow> int" where
  "go_year now = int (year_of_day (day_of now))"

definition depreciatedCredit :: "int \<Rightarrow> int \<Rightarrow> real \<Rightarrow> real option" where
  "depreciatedCredit now renovationYear fullCredit = (let age = go_year now - renovationYear in
     if age < 0 then None else if age \<le> 5 then Some (round2 fullCredit)
     else if age \<le> 10 then Some (round2 (fullCredit * (1 / 2))) else None)"

definition renovationSourceFor :: "real \<Rightarrow> real \<Rightarrow> string" where
  "renovationSourceFor amt base = (if amt \<ge> base * (45 / 100) then ''market_derived'' else ''default_floor'')"

record renovation_credit =
  rc_feature :: string
  rc_year :: int
  rc_amount :: real
  rc_source :: string

definition credit_for :: "int \<Rightarrow> string \<Rightarrow> int \<Rightarrow> real \<Rightarrow> renovation_credit list" where
  "credit_for now feature y base = (if y > 0 then (case depreciatedCredit now y base of
       Some amt \<Rightarrow> [\<lparr>rc_feature = feature, rc_year = y, rc_amount = amt, rc_source = renovationSourceFor amt base\<rparr>] | None \<Rightarrow> [])
     else [])"

definition renovationCredits :: "int \<Rightarrow> subject_profile \<Rightarrow> bpo_rates \<Rightarrow> renovation_credit list" where
  "renovationCredits now subject rates =
     (let typical = typicalHomeValue rates;
          kitchenBase = marketRenovationAmount typical (2 / 100) 8000;
          bathBase = marketRenovationAmount typical (15 / 1000) 6000;
          hvacBase = (if r_age rates > 500 then marketRenovationAmount typical (r_age rates / 75000) 4000
                      else marketRenovationAmount typical (1 / 100) 4000) in
      credit_for now ''renovated_kitchen'' (sp_kitchen_year subject) kitchenBase @
      credit_for now ''renovated_bathrooms'' (sp_bathrooms_year subject) bathBase @
      credit_for now ''renovated_hvac'' (sp_hvac_year subject) hvacBase)"

definition sumRenovationCredits :: "renovation_credit list \<Rightarrow> real" where
  "sumRenovationCredits credits = sum_list (map rc_amount credits)"

section \<open>Rounding to cents\<close>

lemma go_round_mono: "x \<le> y \<Longrightarrow> go_round x \<le> go_round y"
proof -
  assume le: "x \<le> y"
  consider "y < 0" | "x < 0" "0 \<le> y" | "0 \<le> x" by linarith
  then show ?thesis
  proof cases
    case 1
    then show ?thesis using le floor_mono [of "- y + 1 / 2" "- x + 1 / 2"] by (simp add: go_round_def)
  next
    case 2
    then have "0 \<le> \<lfloor>- x + 1 / 2\<rfloor>" "0 \<le> \<lfloor>y + 1 / 2\<rfloor>" by (simp_all add: le_floor_iff)
    with 2 show ?thesis unfolding go_round_def by (simp only: if_True if_False not_less [symmetric])
  next
    case 3
    then show ?thesis using le floor_mono [of "x + 1 / 2" "y + 1 / 2"] by (simp add: go_round_def)
  qed
qed

lemma go_round_error: "\<bar>of_int (go_round x) - x\<bar> \<le> 1 / 2"
proof (cases "x < 0")
  case True
  then have e: "go_round x = - \<lfloor>- x + 1 / 2\<rfloor>" by (simp only: go_round_def if_True)
  show ?thesis unfolding e using floor_correct [of "- x + 1 / 2"] by linarith
next
  case False
  then have e: "go_round x = \<lfloor>x + 1 / 2\<rfloor>" by (simp only: go_round_def if_False)
  show ?thesis unfolding e using floor_correct [of "x + 1 / 2"] by linarith
qed

lemma go_round_of_int [simp]: "go_round (of_int n) = n"
proof (cases "n < 0")
  case True
  have "\<lfloor>1 / 2 - real_of_int n\<rfloor> = - n" by linarith
  then show ?thesis using True by (simp add: go_round_def)
next
  case False
  have "\<lfloor>real_of_int n + 1 / 2\<rfloor> = n" by linarith
  then show ?thesis using False by (simp add: go_round_def)
qed

lemma round2_mono: "x \<le> y \<Longrightarrow> round2 x \<le> round2 y"
  by (simp add: round2_def go_round_mono divide_right_mono)

lemma round2_error: "\<bar>round2 x - x\<bar> \<le> 1 / 200"
proof -
  have "round2 x * 100 = of_int (go_round (x * 100))" by (simp add: round2_def)
  moreover have "of_int (go_round (x * 100)) - x * 100 \<le> 1 / 2" "- (1 / 2) \<le> of_int (go_round (x * 100)) - x * 100"
    using go_round_error [of "x * 100"] unfolding abs_le_iff by linarith+
  ultimately show ?thesis by (intro abs_leI) linarith+
qed

lemma round2_idem [simp]: "round2 (round2 x) = round2 x"
  by (simp add: round2_def)

lemma round2_0 [simp]: "round2 0 = 0"
  using go_round_of_int [of 0] by (simp add: round2_def)

lemma round2_nonneg: "0 \<le> x \<Longrightarrow> 0 \<le> round2 x"
  using round2_mono [of 0 x] by simp

section \<open>Weighted means\<close>

lemma weighted_mean_bounds:
  assumes "length ws = length xs" and "0 < sum_list ws" and "\<And>w. w \<in> set ws \<Longrightarrow> 0 \<le> w"
    and "\<And>x. x \<in> set xs \<Longrightarrow> lo \<le> x \<and> x \<le> hi"
  shows "lo \<le> weighted_mean ws xs \<and> weighted_mean ws xs \<le> hi"
proof -
  let ?s = "sum_list ws"
  have bounds: "sum_list (map2 (\<lambda>w x. w / ?s * lo) us ys) \<le> sum_list (map2 (\<lambda>w x. w / ?s * x) us ys) \<and>
      sum_list (map2 (\<lambda>w x. w / ?s * x) us ys) \<le> sum_list (map2 (\<lambda>w x. w / ?s * hi) us ys)"
    if "set us \<subseteq> set ws" "set ys \<subseteq> set xs" "length us = length ys" for us ys
    using that(3,1,2)
  proof (induction us ys rule: list_induct2)
    case (Cons u us y ys)
    have "0 \<le> u / ?s" using Cons.prems assms(2,3) by simp
    moreover have "lo \<le> y" "y \<le> hi" using Cons.prems assms(4) [of y] by simp_all
    ultimately have "u / ?s * lo \<le> u / ?s * y" "u / ?s * y \<le> u / ?s * hi" by (blast intro: mult_left_mono)+
    with Cons show ?case by simp
  qed simp
  have const: "sum_list (map2 (\<lambda>w x. w / ?s * c) ws xs) = c" for c
  proof -
    have "sum_list (map2 (\<lambda>w x. w / ?s * c) us ys) = sum_list us / ?s * c" if "length us = length ys" for us ys :: "real list"
      using that by (induction us ys rule: list_induct2) (simp_all add: algebra_simps add_divide_distrib)
    from this [OF assms(1)] assms(2) show ?thesis by simp
  qed
  from bounds [of ws xs] assms(1) const show ?thesis by (simp add: weighted_mean_def)
qed

section \<open>Weights\<close>

lemma score_bounds:
  "1 / 10 \<le> proximityScore d" "0 \<le> glaSimilarity a b" "2 / 10 \<le> recencyScore now s" "0 \<le> featureMatchScore subject c"
  by (auto simp: proximityScore_def glaSimilarity_def recencyScore_def featureMatchScore_def Let_def max_def)

lemma weight_pos: "0 < compReconcileWeight now subject c g"
proof -
  have "0 \<le> 1 - min (cg_gross_pct g / 25) 1" by simp
  then have "0 \<le> 20 / 100 * (1 - min (cg_gross_pct g / 25) 1)" by (intro mult_nonneg_nonneg) simp_all
  with score_bounds(1) [of "c_distance c"] score_bounds(2) [of "sp_living_area subject" "c_living_area c"]
    score_bounds(3) [of now "c_close_date c"] score_bounds(4) [of subject c]
  show ?thesis unfolding compReconcileWeight_def by linarith
qed

section \<open>The grid\<close>

lemma cap_net_bounds: "0 < base \<Longrightarrow> \<bar>cap_net base net\<bar> \<le> 35 / 100 * base"
  by (auto simp: cap_net_def Let_def abs_le_iff)

lemma applyURARGrid_nth:
  assumes "applyURARGrid now subject sold rates = (out, grids)"
  shows "length out = length sold" "length grids = length sold"
    "\<And>i. i < length sold \<Longrightarrow> out ! i = fst (urar_comp now subject rates i (sold ! i))"
    "\<And>i. i < length sold \<Longrightarrow> grids ! i = snd (urar_comp now subject rates i (sold ! i))"
  using assms by (auto simp: applyURARGrid_def Let_def)

lemma urar_comp_adjusted:
  "c_adjusted (fst (urar_comp now subject rates i c)) = cg_adjusted (snd (urar_comp now subject rates i c))"
  "0 < base_price c \<Longrightarrow> \<bar>cg_adjusted (snd (urar_comp now subject rates i c)) - base_price c\<bar> \<le> 35 / 100 * base_price c + 1 / 200"
  "round2 (cg_adjusted (snd (urar_comp now subject rates i c))) = cg_adjusted (snd (urar_comp now subject rates i c))"
proof -
  let ?net = "cap_net (base_price c) (fst (sumGridAdjustments (buildURARGrid now subject c rates)))"
  have adj: "cg_adjusted (snd (urar_comp now subject rates i c)) = round2 (base_price c + ?net)"
    "c_adjusted (fst (urar_comp now subject rates i c)) = round2 (base_price c + ?net)"
    by (simp_all add: urar_comp_def Let_def case_prod_beta)
  then show "c_adjusted (fst (urar_comp now subject rates i c)) = cg_adjusted (snd (urar_comp now subject rates i c))"
    "round2 (cg_adjusted (snd (urar_comp now subject rates i c))) = cg_adjusted (snd (urar_comp now subject rates i c))" by simp_all
  assume "0 < base_price c"
  from cap_net_bounds [OF this, of "fst (sumGridAdjustments (buildURARGrid now subject c rates))"] round2_error [of "base_price c + ?net"]
  show "\<bar>cg_adjusted (snd (urar_comp now subject rates i c)) - base_price c\<bar> \<le> 35 / 100 * base_price c + 1 / 200"
    unfolding adj by linarith
qed

section \<open>Properties of the valuation\<close>

lemma urar_comp_nonneg: "0 < base_price c \<Longrightarrow> 0 \<le> cg_adjusted (snd (urar_comp now subject rates i c))"
proof -
  assume b: "0 < base_price c"
  let ?net = "cap_net (base_price c) (fst (sumGridAdjustments (buildURARGrid now subject c rates)))"
  have "0 \<le> base_price c + ?net" using cap_net_bounds [OF b, of "fst (sumGridAdjustments (buildURARGrid now subject c rates))"] b by (simp add: abs_le_iff)
  then have "0 \<le> round2 (base_price c + ?net)" by (rule round2_nonneg)
  then show ?thesis by (simp add: urar_comp_def Let_def case_prod_beta)
qed

lemma reconcile_weights:
  assumes "length sold = length grids" and "grids \<noteq> []"
  shows "0 < sum_list (map2 (compReconcileWeight now subject) sold grids)"
proof -
  have "\<forall>w \<in> set (map2 (compReconcileWeight now subject) sold grids). 0 < w" by (auto simp: weight_pos)
  moreover have "map2 (compReconcileWeight now subject) sold grids \<noteq> []" using assms by (cases sold; cases grids) auto
  moreover have "0 < sum_list ws" if "\<forall>w \<in> set ws. 0 < w" "ws \<noteq> []" for ws :: "real list"
    using that by (cases ws) (auto intro!: add_pos_nonneg sum_list_nonneg simp: less_imp_le)
  ultimately show ?thesis by blast
qed

lemma reconcile_point:
  assumes "length sold = length grids" and "grids \<noteq> []" and "\<And>g. g \<in> set grids \<Longrightarrow> lo \<le> cg_adjusted g \<and> cg_adjusted g \<le> hi"
    and "round2 lo = lo" and "round2 hi = hi"
  shows "lo \<le> br_point (reconcileBPO now subject sold grids rates) \<and> br_point (reconcileBPO now subject sold grids rates) \<le> hi"
proof -
  let ?ws = "map2 (compReconcileWeight now subject) sold grids"
  let ?x = "weighted_mean ?ws (map cg_adjusted grids)"
  have pos: "0 < sum_list ?ws" using assms by (intro reconcile_weights) simp_all
  have "lo \<le> ?x \<and> ?x \<le> hi"
    using pos assms(1,3) by (intro weighted_mean_bounds) (auto simp: weight_pos less_imp_le)
  then have "round2 lo \<le> round2 ?x \<and> round2 ?x \<le> round2 hi" by (simp add: round2_mono)
  moreover have "br_point (reconcileBPO now subject sold grids rates) = round2 ?x"
    using assms(2) pos by (simp add: reconcileBPO_def Let_def)
  ultimately show ?thesis using assms(4,5) by simp
qed

lemma spread_range: "0 \<le> p \<Longrightarrow> round2 p = p \<Longrightarrow> 0 \<le> s \<Longrightarrow> round2 (p * (1 - s)) \<le> p \<and> p \<le> round2 (p * (1 + s))"
proof -
  assume p: "0 \<le> p" "round2 p = p" "0 \<le> s"
  then have "p * (1 - s) \<le> p" "p \<le> p * (1 + s)" by (simp_all add: algebra_simps)
  from round2_mono [OF this(1)] round2_mono [OF this(2)] p(2) show ?thesis by simp
qed

lemma reconcile_range:
  assumes "grids \<noteq> []" and "r = reconcileBPO now subject sold grids rates" and "0 \<le> br_point r"
  shows "br_low r \<le> br_point r \<and> br_point r \<le> br_high r \<and> br_confidence r \<in> {20..95}"
proof -
  have c: "br_low r = round2 (br_point r * (1 - spreadPct (br_confidence r)))" "br_high r = round2 (br_point r * (1 + spreadPct (br_confidence r)))"
    "br_confidence r = reconcileConfidence grids rates" "round2 (br_point r) = br_point r"
    using assms(1) unfolding assms(2) reconcileBPO_def Let_def by simp_all
  have "0 \<le> spreadPct (br_confidence r)" by (simp add: spreadPct_def)
  from spread_range [OF assms(3) c(4) this] have "br_low r \<le> br_point r \<and> br_point r \<le> br_high r" unfolding c(1,2) .
  moreover have "reconcileConfidence grids rates \<in> {20..95}" unfolding reconcileConfidence_def Let_def by simp
  ultimately show ?thesis using c(3) by simp
qed

text \<open>(C30) The reconciled value of a BPO is an honest average: for comparables with a price it lies between the
  lowest and the highest adjusted price, to the cent; the range given encloses it, and the confidence is
  between 20 and 95.\<close>

theorem bpo_value_between_comps:
  assumes "applyURARGrid now subject sold rates = (out, grids)" and "sold \<noteq> []" and "\<And>c. c \<in> set sold \<Longrightarrow> 0 < base_price c"
  shows "let r = reconcileBPO now subject out grids rates in
     Min (set (map cg_adjusted grids)) \<le> br_point r \<and> br_point r \<le> Max (set (map cg_adjusted grids)) \<and>
     0 \<le> br_point r \<and> br_low r \<le> br_point r \<and> br_point r \<le> br_high r \<and> br_confidence r \<in> {20..95}"
proof -
  note g = applyURARGrid_nth [OF assms(1)]
  have ne: "grids \<noteq> []" using g(2) assms(2) by auto
  let ?S = "set (map cg_adjusted grids)"
  have S: "finite ?S" "?S \<noteq> {}" using ne by simp_all
  have r2: "round2 x = x" "0 \<le> x" if "x \<in> ?S" for x
  proof -
    from that obtain i where i: "i < length sold" "x = cg_adjusted (grids ! i)" using g(2) by (auto simp: in_set_conv_nth)
    then show "round2 x = x" "0 \<le> x"
      using g(4) urar_comp_adjusted(3) urar_comp_nonneg [OF assms(3) [OF nth_mem [OF i(1)]]] by simp_all
  qed
  have pt: "Min ?S \<le> br_point (reconcileBPO now subject out grids rates) \<and> br_point (reconcileBPO now subject out grids rates) \<le> Max ?S"
    using g(1,2) ne r2 Min_in [OF S] Max_in [OF S] by (intro reconcile_point) (auto intro: Min_le Max_ge)
  moreover have "0 \<le> br_point (reconcileBPO now subject out grids rates)" using pt r2(2) [OF Min_in [OF S]] by linarith
  ultimately show ?thesis using reconcile_range [OF ne refl, of now subject out rates] by (simp add: Let_def)
qed

definition demo_subject :: subject_profile where
  "demo_subject = zero_subject\<lparr>sp_lat := 28, sp_lng := -82, sp_living_area := 1500, sp_bedrooms := 3\<rparr>"

theorem bpo_value_between_comps_witness:
  "\<exists>out grids. applyURARGrid 0 demo_subject [demo_comp 300000 1500, demo_comp 320000 1600] zero_rates = (out, grids) \<and>
     br_low (reconcileBPO 0 demo_subject out grids zero_rates) \<le> br_high (reconcileBPO 0 demo_subject out grids zero_rates)"
proof -
  let ?sold = "[demo_comp 300000 1500, demo_comp 320000 1600]"
  obtain out grids where g: "applyURARGrid 0 demo_subject ?sold zero_rates = (out, grids)" by fastforce
  have "0 < base_price c" if "c \<in> set ?sold" for c using that by (auto simp: base_price_def demo_comp_def zero_comp_def)
  from bpo_value_between_comps [OF g _ this] g show ?thesis by (auto simp: Let_def intro: order_trans)
qed

text \<open>The URAR grid is bounded and complete: every comparable gets the fourteen lines in their fixed order,
  keeps its place, and its adjusted price differs from its sale price by at most 35 percent (and half a
  cent of rounding).\<close>

theorem urar_adjustment_capped:
  assumes "applyURARGrid now subject sold rates = (out, grids)" and "i < length sold" and "0 < base_price (sold ! i)"
  shows "length out = length sold \<and> length grids = length sold \<and> map gl_feature (cg_lines (grids ! i)) = urarGridFeatures \<and>
     cg_index (grids ! i) = i \<and> c_key (out ! i) = c_key (sold ! i) \<and> c_adjusted (out ! i) = cg_adjusted (grids ! i) \<and>
     \<bar>c_adjusted (out ! i) - base_price (sold ! i)\<bar> \<le> 35 / 100 * base_price (sold ! i) + 1 / 200"
proof -
  note g = applyURARGrid_nth [OF assms(1)]
  let ?u = "urar_comp now subject rates i (sold ! i)"
  have "map gl_feature (cg_lines (snd ?u)) = urarGridFeatures" "cg_index (snd ?u) = i" "c_key (fst ?u) = c_key (sold ! i)"
    by (simp_all add: urar_comp_def buildURARGrid_def bpoGridLine_def Let_def case_prod_beta comp_def)
  with g(1,2) g(3,4) [OF assms(2)] urar_comp_adjusted(1) [of now subject rates i "sold ! i"] urar_comp_adjusted(2) [OF assms(3), of now subject rates i]
  show ?thesis by simp
qed

theorem urar_adjustment_capped_witness:
  "\<exists>out grids. applyURARGrid 0 demo_subject [demo_comp 300000 100] zero_rates = (out, grids) \<and> c_adjusted (out ! 0) \<le> 405001"
proof -
  obtain out grids where g: "applyURARGrid 0 demo_subject [demo_comp 300000 100] zero_rates = (out, grids)" by fastforce
  have b: "base_price (demo_comp 300000 100) = 300000" by (simp add: base_price_def demo_comp_def zero_comp_def)
  have "0 < base_price ([demo_comp 300000 100] ! 0)" using b by simp
  from urar_adjustment_capped [OF g _ this] have "\<bar>c_adjusted (out ! 0) - base_price ([demo_comp 300000 100] ! 0)\<bar>
      \<le> 35 / 100 * base_price ([demo_comp 300000 100] ! 0) + 1 / 200" by blast
  then have "\<bar>c_adjusted (out ! 0) - 300000\<bar> \<le> 35 / 100 * 300000 + 1 / 200" unfolding nth_Cons_0 b .
  then have "c_adjusted (out ! 0) \<le> 405001" by linarith
  with g show ?thesis by blast
qed

text \<open>The reported minimum price need not be a price of the comparison: it starts from the unadjusted close price of the
  first comparable, so when every adjusted price is higher, it is that raw price.\<close>

theorem reported_minimum_unadjusted:
  assumes "sold = c # cs" and "\<And>d. d \<in> set sold \<Longrightarrow> c_close_price c < compPrice d"
  shows "mc_min (marketConditions sold months) = c_close_price c \<and> mc_min (marketConditions sold months) \<notin> set (map compPrice sold)"
proof -
  have "foldl (\<lambda>m p. if p < m then p else m) x ps = x" if "\<forall>p \<in> set ps. x < p" for x :: real and ps
    using that by (induction ps) auto
  then have "mc_min (marketConditions sold months) = c_close_price c"
    using assms by (simp add: marketConditions_def Let_def del: foldl.simps list.map)
  moreover have "c_close_price c \<notin> set (map compPrice sold)" using assms(2) by (force simp del: set_map simp: image_iff set_map)
  ultimately show ?thesis by simp
qed

theorem reported_minimum_unadjusted_witness:
  "mc_min (marketConditions [(demo_comp 100 1)\<lparr>c_adjusted := 120\<rparr>] 12) = 100"
  using reported_minimum_unadjusted [of _ "(demo_comp 100 1)\<lparr>c_adjusted := 120\<rparr>" "[]" 12]
  by (simp add: demo_comp_def zero_comp_def compPrice_def)

lemma adjust_same:
  "sp_bedrooms s = c_bedrooms c \<Longrightarrow> sp_bathrooms s = c_bathrooms c \<Longrightarrow> sp_pool s = c_pool c \<Longrightarrow> sp_waterfront s = c_waterfront c \<Longrightarrow>
   sp_garage s = c_garage c \<Longrightarrow> sp_year_built s = c_year_built c \<Longrightarrow> sp_living_area s = c_living_area c \<Longrightarrow>
   c_adjusted (adjust_comp s f c) = round2 (base_price c)"
  by (simp add: adjust_comp_def adjustment_lines_def Let_def)

end
