(* ===== verification/Access_Control.thy ===== *)
theory Access_Control
  imports Sync_Fetch
begin

text \<open>
  Who may read which feed: the catalogue of MLS feeds and its resolution (\<^verbatim>\<open>internal/service/mls/feed.go\<close>, \<^verbatim>\<open>internal/domain\<close>), the
  token and domain lookups (\<^verbatim>\<open>internal/repository/token.go\<close>, \<^verbatim>\<open>domain.go\<close>), the two middlewares (\<^verbatim>\<open>internal/api/middleware\<close>) and the
  live endpoints of a feed (\<^verbatim>\<open>internal/mlspoxy\<close>).

  A request is the part of it the middlewares read. \<open>sha256\<close> stands for \<^verbatim>\<open>HashToken\<close> and \<open>hostname\<close> for \<^verbatim>\<open>url.Parse\<close> followed by
  \<^verbatim>\<open>Hostname\<close>; the theorems hold for every such function. What a handler puts in the request's locals is the result
  \<open>grant\<close>. Errors carry their HTTP status.
\<close>

section \<open>State\<close>

record domain_row =
  dm_id :: int
  dm_user :: "int option"
  dm_slug :: string
  dm_active :: bool
  dm_mls_dataset :: "string option"
  dm_allowed :: raw_message
  dm_verification :: string
  dm_parent :: "int option"
  dm_staging :: bool
  dm_txt_name :: "string option"
  dm_txt_value :: "string option"

record api_token =
  tk_id :: int
  tk_user :: int
  tk_domain :: "int option"
  tk_name :: string
  tk_hash :: string
  tk_abilities :: "string option"
  tk_last_used :: "int option"
  tk_expires :: "int option"

record user_row =
  us_id :: int
  us_email :: string
  us_admin :: bool
  us_name :: string
  us_password :: string

record adb = fdb +
  domains :: "domain_row list"
  api_tokens :: "api_token list"
  next_token_id :: int
  users :: "user_row list"
  token_gen :: "nat \<Rightarrow> string"
  token_count :: nat

record api_request =
  rq_path :: string
  rq_authorization :: string
  rq_domain_header :: string
  rq_domain_query :: string
  rq_dataset_query :: string
  rq_referer :: string

text \<open>The answer of a handler: an HTTP error, or what it hands on.\<close>

type_synonym 'a http = "(int \<times> string) + 'a"

section \<open>Feeds\<close>

record feed_definition =
  fd_code :: string
  fd_provider :: string
  fd_dataset :: string

record feed_config =
  fc_sync :: sync_config
  fc_default_dataset :: string
  fc_spark_api_host :: string
  fc_spark_api_version :: string
  fc_spark_live_root :: string

definition bridge_feed :: "string \<Rightarrow> feed_definition" where
  "bridge_feed ds = \<lparr>fd_code = ''bridge_'' @ ds, fd_provider = ''bridge'', fd_dataset = ds\<rparr>"

definition spark_feed :: "string \<Rightarrow> feed_definition" where
  "spark_feed ds = \<lparr>fd_code = ''spark_'' @ ds, fd_provider = ''spark'', fd_dataset = ds\<rparr>"

definition Catalog :: "feed_config \<Rightarrow> feed_definition list" where
  "Catalog fc = map bridge_feed (b_datasets (cfg_bridge (fc_sync fc))) @ map spark_feed (s_datasets (cfg_spark (fc_sync fc)))"

definition codes :: "feed_definition list \<Rightarrow> string list" where
  "codes defs = map fd_code defs"

definition normalizeFeedCode :: "string \<Rightarrow> string" where
  "normalizeFeedCode ds0 = (let ds = trim_space (to_lower ds0) in
     if has_prefix ds ''bridge_'' \<or> has_prefix ds ''spark_'' then ds else ''bridge_'' @ ds)"

text \<open>\<^verbatim>\<open>json.Unmarshal\<close> into a \<^verbatim>\<open>[]string\<close> with its error ignored: an element that is not a string is left empty, anything but an
  array leaves the slice empty.\<close>

definition allowed_list :: "raw_message \<Rightarrow> string list" where
  "allowed_list raw = (case raw of RawJson (JArr items) \<Rightarrow> map (\<lambda>i. case i of JStr s \<Rightarrow> s | _ \<Rightarrow> []) items | _ \<Rightarrow> [])"

definition enabledForDomain :: "feed_config \<Rightarrow> domain_row option \<Rightarrow> string list" where
  "enabledForDomain fc d = (let enabled = codes (Catalog fc) in case d of
      None \<Rightarrow> enabled
    | Some d \<Rightarrow> (let allowed = allowed_list (dm_allowed d) in
        if allowed = [] then enabled else filter (\<lambda>a. a \<in> set enabled) (map normalizeFeedCode allowed)))"

definition BypassGIS :: "string \<Rightarrow> bool" where
  "BypassGIS path0 = (let path = trim_prefix path0 ''/'' in
     path = ''api/v1/gis'' \<or> has_prefix path ''api/v1/mls/'' \<and> has_suffix path ''/gis'')"

definition ResolveFeedCode :: "feed_config \<Rightarrow> api_request \<Rightarrow> domain_row option \<Rightarrow> string http" where
  "ResolveFeedCode fc rq d =
     (if BypassGIS (rq_path rq) then Inr []
      else let allowed = enabledForDomain fc d; ds = trim_space (rq_dataset_query rq) in
        if allowed = [] then Inl (503, ''No MLS feeds enabled for this site.'')
        else if ds \<noteq> [] then
          (let code = normalizeFeedCode ds in
           if code \<in> set allowed then Inr code else Inl (403, ''MLS feed not enabled for this domain.''))
        else case Option.bind d dm_mls_dataset of
            Some m \<Rightarrow> (if m \<noteq> [] \<and> normalizeFeedCode m \<in> set allowed then Inr (normalizeFeedCode m) else Inr (hd allowed))
          | None \<Rightarrow> Inr (hd allowed))"

definition FeedDefinitionFromCode :: "feed_config \<Rightarrow> string \<Rightarrow> feed_definition" where
  "FeedDefinitionFromCode fc feedCode =
     (let code = to_lower (trim_space feedCode); bs = map to_lower (b_datasets (cfg_bridge (fc_sync fc)));
          ss = map to_lower (s_datasets (cfg_spark (fc_sync fc))) in
      case find (\<lambda>slug. code = ''bridge_'' @ slug \<or> code = slug) bs of
        Some slug \<Rightarrow> bridge_feed slug
      | None \<Rightarrow> (case find (\<lambda>slug. code = ''spark_'' @ slug \<or> code = slug) ss of
          Some slug \<Rightarrow> spark_feed slug
        | None \<Rightarrow>
            (if has_prefix code ''spark_'' then \<lparr>fd_code = code, fd_provider = ''spark'', fd_dataset = trim_prefix code ''spark_''\<rparr>
             else if has_prefix code ''bridge_'' then \<lparr>fd_code = code, fd_provider = ''bridge'', fd_dataset = trim_prefix code ''bridge_''\<rparr>
             else bridge_feed (to_lower (fc_default_dataset fc)))))"

definition DatasetSlugFromFeedCode :: "string \<Rightarrow> string" where
  "DatasetSlugFromFeedCode feedCode = trim_prefix (trim_prefix (to_lower (trim_space feedCode)) ''bridge_'') ''spark_''"

section \<open>Live endpoints\<close>

definition DatasetSlug :: "feed_definition \<Rightarrow> string \<Rightarrow> string" where
  "DatasetSlug feed fallback = (if fd_dataset feed \<noteq> [] then fd_dataset feed else fallback)"

definition ResoURL :: "bridge_config \<Rightarrow> string \<Rightarrow> string \<Rightarrow> string" where
  "ResoURL b path dataset =
     (let p = trim_both is_slash (b_path_prefix b); r = trim_both is_slash (b_reso_root b) in
      join_with ''/'' ([trim_right is_slash (b_host b)] @ (if p \<noteq> [] then [p] else []) @ (if r \<noteq> [] then [r] else []) @ [dataset] @
        (if path \<noteq> [] then [trim_left is_slash path] else [])))"

definition LiveResoURL :: "feed_config \<Rightarrow> string \<Rightarrow> string" where
  "LiveResoURL fc path = trim_right is_slash (fc_spark_api_host fc) @ ''/'' @ trim_both is_slash (fc_spark_api_version fc) @ ''/'' @
     trim_both is_slash (fc_spark_live_root fc) @ ''/'' @ trim_left is_slash path"

text \<open>The URL and the bearer, or no credentials.\<close>

definition LiveResoPropertyEndpoint :: "feed_config \<Rightarrow> feed_definition \<Rightarrow> (string \<times> string) option" where
  "LiveResoPropertyEndpoint fc feed = (let b = cfg_bridge (fc_sync fc); s = cfg_spark (fc_sync fc) in
     if fd_provider feed = ''spark'' then
       (if trim_space (s_access_token s) = [] then None else Some (LiveResoURL fc ''Property'', s_access_token s))
     else if trim_space (b_api_key b) = [] then None
     else Some (ResoURL b ''Property'' (DatasetSlug feed (fc_default_dataset fc)), b_api_key b))"

section \<open>Domains and tokens\<close>

definition IsVerified :: "domain_row \<Rightarrow> bool" where
  "IsVerified d \<longleftrightarrow> dm_verification d = ''verified'' \<or> dm_verification d = ''verified_ghl''"

definition find_domain :: "(domain_row \<Rightarrow> bool) \<Rightarrow> ('z adb_scheme, domain_row option) go" where
  "find_domain P = sql (\<lambda>s. Some (find P (domains s), s))"

definition FindActiveBySlug :: "string \<Rightarrow> ('z adb_scheme, domain_row option) go" where
  "FindActiveBySlug slug = find_domain (\<lambda>d. dm_active d \<and> to_lower (dm_slug d) = to_lower slug)"

definition FindActiveByIDForUser :: "int \<Rightarrow> int \<Rightarrow> ('z adb_scheme, domain_row option) go" where
  "FindActiveByIDForUser userID domainID = find_domain (\<lambda>d. dm_active d \<and> dm_user d = Some userID \<and> dm_id d = domainID)"

definition FindActiveForUser :: "int \<Rightarrow> string \<Rightarrow> ('z adb_scheme, domain_row option) go" where
  "FindActiveForUser userID slug = find_domain (\<lambda>d. dm_active d \<and> dm_user d = Some userID \<and> to_lower (dm_slug d) = to_lower slug)"

definition HasAbility :: "api_token \<Rightarrow> string \<Rightarrow> bool" where
  "HasAbility tok ability = (case tk_abilities tok of None \<Rightarrow> False | Some s \<Rightarrow> contains_sub s ability)"

definition touch_token :: "int \<Rightarrow> ('z adb_scheme, unit) go" where
  "touch_token i = go_bind go_now (\<lambda>now. sql (\<lambda>s. Some ((), s\<lparr>api_tokens :=
     map (\<lambda>t. if tk_id t = i then t\<lparr>tk_last_used := Some now\<rparr> else t) (api_tokens s)\<rparr>)))"

text \<open>\<^verbatim>\<open>tok.ExpiresAt != nil && tok.ExpiresAt.Before(time.Now())\<close>.\<close>

definition expired_check :: "int option \<Rightarrow> ('z adb_scheme, bool) go" where
  "expired_check x = (case x of None \<Rightarrow> go_ret False | Some e \<Rightarrow> go_bind go_now (\<lambda>now. go_ret (e < now)))"

definition FindByPlaintext :: "(string \<Rightarrow> string) \<Rightarrow> string \<Rightarrow> ('z adb_scheme, (api_token \<times> user_row) option) go" where
  "FindByPlaintext sha256 plain =
     go_bind (sql (\<lambda>s. Some (find (\<lambda>t. tk_hash t = sha256 plain) (api_tokens s), s))) (\<lambda>found.
     case found of None \<Rightarrow> go_ret None
     | Some tok \<Rightarrow>
       go_bind (expired_check (tk_expires tok)) (\<lambda>expired.
       if expired then go_ret None
       else go_bind (sql (\<lambda>s. Some (find (\<lambda>u. us_id u = tk_user tok) (users s), s))) (\<lambda>user.
         case user of None \<Rightarrow> go_ret None
         | Some u \<Rightarrow> go_bind (go_ignore (touch_token (tk_id tok))) (\<lambda>_. go_ret (Some (tok, u))))))"

definition abilities_json :: "string list \<Rightarrow> string" where
  "abilities_json abilities = CHR ''['' # CHR 0x22 # join_with [CHR 0x22, CHR '','', CHR 0x22] abilities @ [CHR 0x22, CHR '']'']"

text \<open>The column \<^verbatim>\<open>token\<close> is unique; a domain that is named exists and has at most one token.\<close>

definition insert_token :: "int \<Rightarrow> int \<Rightarrow> string \<Rightarrow> string \<Rightarrow> string \<Rightarrow> ('z adb_scheme, unit) go" where
  "insert_token userID domainID name hash abil = sql (\<lambda>s.
     if (\<exists>t \<in> set (api_tokens s). tk_hash t = hash) \<or> domainID > 0 \<and>
        ((\<exists>t \<in> set (api_tokens s). tk_domain t = Some domainID) \<or> domainID \<notin> dm_id ` set (domains s)) then None
     else Some ((), s\<lparr>api_tokens := api_tokens s @ [\<lparr>tk_id = next_token_id s, tk_user = userID,
         tk_domain = (if domainID > 0 then Some domainID else None), tk_name = name, tk_hash = hash,
         tk_abilities = Some abil, tk_last_used = None, tk_expires = None\<rparr>],
         next_token_id := next_token_id s + 1\<rparr>))"

text \<open>\<^verbatim>\<open>crypto/rand\<close> is the stream \<open>token_gen\<close>.\<close>

definition createToken :: "(string \<Rightarrow> string) \<Rightarrow> int \<Rightarrow> int \<Rightarrow> string \<Rightarrow> string list \<Rightarrow> ('z adb_scheme, string) go" where
  "createToken sha256 userID domainID name abilities = (\<lambda>s.
     let plain = ''idx_'' @ token_gen s (token_count s) in
     go_bind (insert_token userID domainID name (sha256 plain) (abilities_json abilities)) (\<lambda>_. go_ret plain)
       (s\<lparr>token_count := Suc (token_count s)\<rparr>))"

definition CreateForDomain :: "(string \<Rightarrow> string) \<Rightarrow> int \<Rightarrow> int \<Rightarrow> string \<Rightarrow> string list \<Rightarrow> ('z adb_scheme, string) go" where
  "CreateForDomain = createToken"

definition RegenerateForDomain :: "(string \<Rightarrow> string) \<Rightarrow> int \<Rightarrow> int \<Rightarrow> string \<Rightarrow> string list \<Rightarrow> ('z adb_scheme, string) go" where
  "RegenerateForDomain sha256 userID domainID name abilities = with_tx (
     go_bind (sql (\<lambda>s. Some (find (\<lambda>d. dm_id d = domainID) (domains s), s))) (\<lambda>d.
     case d of None \<Rightarrow> go_fail (Err ''domain not found'')
     | Some d \<Rightarrow> (case dm_user d of None \<Rightarrow> go_fail DbErr | Some owner \<Rightarrow>
       if owner \<noteq> userID then go_fail (Err ''domain not found'')
       else go_bind (sql (\<lambda>s. Some ((), s\<lparr>api_tokens := filter (\<lambda>t. \<not> (tk_user t = userID \<and> tk_domain t = Some domainID)) (api_tokens s)\<rparr>))) (\<lambda>_.
         go_bind (createToken sha256 userID domainID name abilities) (\<lambda>plain. go_ret (True, plain))))))"

definition Revoke :: "int \<Rightarrow> int \<Rightarrow> ('z adb_scheme, unit) go" where
  "Revoke userID tokenID =
     go_bind (sql (\<lambda>s. Some (\<exists>t \<in> set (api_tokens s). tk_id t = tokenID \<and> tk_user t = userID,
       s\<lparr>api_tokens := filter (\<lambda>t. \<not> (tk_id t = tokenID \<and> tk_user t = userID)) (api_tokens s)\<rparr>))) (\<lambda>removed.
     if removed then go_ret () else go_fail (Err ''token not found''))"

section \<open>Middlewares\<close>

record grant =
  gr_auth :: string
  gr_domain :: domain_row
  gr_token_name :: "string option"
  gr_user :: "int option"
  gr_full :: bool

definition resolveSlugForToken :: "api_request \<Rightarrow> string" where
  "resolveSlugForToken rq = (let h = trim_space (rq_domain_header rq) in if h \<noteq> [] then h else trim_space (rq_domain_query rq))"

definition resolveSlug :: "(string \<Rightarrow> string option) \<Rightarrow> api_request \<Rightarrow> string" where
  "resolveSlug hostname rq = (let s = resolveSlugForToken rq in
     if s \<noteq> [] then s
     else if rq_referer rq = [] then []
     else case hostname (rq_referer rq) of None \<Rightarrow> [] | Some h \<Rightarrow> to_lower h)"

text \<open>An error of the database becomes status 500.\<close>

definition or_500 :: "('s, 'a) go \<Rightarrow> ('a \<Rightarrow> ('s, 'b http) go) \<Rightarrow> ('s, 'b http) go" where
  "or_500 m k = go_bind (go_try m) (\<lambda>r. case r of Inl e \<Rightarrow> go_ret (Inl (500, ''error'')) | Inr x \<Rightarrow> k x)"

definition deny :: "int \<Rightarrow> string \<Rightarrow> ('s, 'a http) go" where
  "deny status msg = go_ret (Inl (status, msg))"

definition grant_token :: "api_token \<Rightarrow> user_row \<Rightarrow> domain_row \<Rightarrow> ('s, grant http) go" where
  "grant_token tok user d =
     (if \<not> IsVerified d then deny 403 ''Domain must be TXT-verified before API token access is allowed.''
      else go_ret (Inr \<lparr>gr_auth = ''token'', gr_domain = d, gr_token_name = Some (tk_name tok), gr_user = Some (us_id user),
             gr_full = HasAbility tok ''idx:full''\<rparr>))"

definition handleToken :: "(string \<Rightarrow> string) \<Rightarrow> api_request \<Rightarrow> string \<Rightarrow> ('z adb_scheme, grant http) go" where
  "handleToken sha256 rq plain = or_500 (FindByPlaintext sha256 plain) (\<lambda>found.
     case found of None \<Rightarrow> deny 403 ''Invalid API token.''
     | Some (tok, user) \<Rightarrow>
       if \<not> HasAbility tok ''idx:access'' \<and> \<not> HasAbility tok ''idx:full'' then deny 403 ''Token is missing required IDX abilities.''
       else let slug = resolveSlugForToken rq in
         if slug = [] then deny 400 ''Missing domain identification.''
         else case tk_domain tok of
           Some domainID \<Rightarrow> or_500 (FindActiveByIDForUser (us_id user) domainID) (\<lambda>d.
             case d of None \<Rightarrow> deny 403 ''API token is not valid for this domain.''
             | Some d \<Rightarrow> (if \<not> equal_fold (dm_slug d) slug then deny 403 ''API token is not valid for this domain.'' else grant_token tok user d))
         | None \<Rightarrow> or_500 (FindActiveForUser (us_id user) slug) (\<lambda>d.
             case d of None \<Rightarrow> deny 403 ''Domain is not registered, inactive, or not owned by this token.''
             | Some d \<Rightarrow> grant_token tok user d))"

definition handleDomain :: "(string \<Rightarrow> string option) \<Rightarrow> api_request \<Rightarrow> ('z adb_scheme, grant http) go" where
  "handleDomain hostname rq = (let slug = resolveSlug hostname rq in
     if slug = [] then deny 401 ''Missing domain identification.''
     else or_500 (FindActiveBySlug slug) (\<lambda>d.
       case d of None \<Rightarrow> deny 403 ''Domain is not registered or inactive.''
       | Some d \<Rightarrow> go_ret (Inr \<lparr>gr_auth = ''domain'', gr_domain = d, gr_token_name = None, gr_user = None, gr_full = True\<rparr>)))"

definition DomainToken ::
  "(string \<Rightarrow> string) \<Rightarrow> (string \<Rightarrow> string option) \<Rightarrow> api_request \<Rightarrow> ('z adb_scheme, grant http) go" where
  "DomainToken sha256 hostname rq =
     (if has_prefix (rq_authorization rq) ''Bearer ''
      then handleToken sha256 rq (trim_space (trim_prefix (rq_authorization rq) ''Bearer ''))
      else handleDomain hostname rq)"

text \<open>The feed of a request; GIS paths have none.\<close>

definition MLSAccess :: "feed_config \<Rightarrow> api_request \<Rightarrow> domain_row option \<Rightarrow> feed_definition option http" where
  "MLSAccess fc rq d =
     (if BypassGIS (rq_path rq) then Inr None
      else case ResolveFeedCode fc rq d of Inl e \<Rightarrow> Inl e | Inr code \<Rightarrow> Inr (Some (FeedDefinitionFromCode fc code)))"

definition api_access ::
  "(string \<Rightarrow> string) \<Rightarrow> (string \<Rightarrow> string option) \<Rightarrow> feed_config \<Rightarrow> api_request \<Rightarrow> ('z adb_scheme, (grant \<times> feed_definition option) http) go" where
  "api_access sha256 hostname fc rq = go_bind (DomainToken sha256 hostname rq) (\<lambda>r. case r of
      Inl e \<Rightarrow> go_ret (Inl e)
    | Inr g \<Rightarrow> (case MLSAccess fc rq (Some (gr_domain g)) of Inl e \<Rightarrow> go_ret (Inl e) | Inr f \<Rightarrow> go_ret (Inr (g, f))))"

section \<open>Lookups\<close>

lemma find_domain_run: "find_domain P s = (Inr (Some d), s') \<Longrightarrow> d \<in> set (domains s) \<and> P d"
  by (auto simp: find_domain_def dest!: sql_Inr simp: find_Some_iff)

lemma go_bind_Inr: "go_bind m f s = (Inr x, s') \<Longrightarrow> \<exists>a s1. m s = (Inr a, s1) \<and> f a s1 = (Inr x, s')"
  by (auto simp: go_simps split: prod.splits sum.splits)

lemma go_now_run: "go_now s = (Inr t, s') \<Longrightarrow> clock s \<le> t \<and> (\<exists>ds. s' = s\<lparr>clock := t, delays := ds\<rparr>)"
  by (cases "delays s") (auto simp: go_now_def intro: exI [of _ "[]"])

lemma keeps_domains_touch: "keeps (\<lambda>s. domains s = ds) (touch_token i)"
  unfolding touch_token_def by (intro keeps_bind keeps_now keeps_sql) auto

lemma find_set: "find P xs = Some x \<Longrightarrow> x \<in> set xs \<and> P x"
  by (auto simp: find_Some_iff)

lemma touch_domains: "domains (snd (go_ignore (touch_token i) s)) = domains s"
  using keepsD [OF keeps_ignore [OF keeps_domains_touch [of "domains s" i]], of s] by simp

lemma expired_check_run:
  "expired_check x s = (Inr False, s') \<Longrightarrow> (case x of None \<Rightarrow> True | Some e \<Rightarrow> clock s \<le> e) \<and> users s' = users s \<and> domains s' = domains s"
  by (auto simp: expired_check_def go_simps dest!: go_now_run split: option.splits prod.splits sum.splits)

lemma FindByPlaintext_run:
  assumes "FindByPlaintext sha256 plain s = (Inr (Some (tok, u)), s')"
  shows "tok \<in> set (api_tokens s) \<and> tk_hash tok = sha256 plain \<and> u \<in> set (users s) \<and> us_id u = tk_user tok \<and>
     (case tk_expires tok of None \<Rightarrow> True | Some e \<Rightarrow> clock s \<le> e) \<and> domains s' = domains s"
proof -
  let ?q = "\<lambda>s. Some (find (\<lambda>t. tk_hash t = sha256 plain) (api_tokens s), s)"
  from go_bind_Inr [OF assms [unfolded FindByPlaintext_def]] obtain found s1 where f: "sql ?q s = (Inr found, s1)"
    and r1: "(case found of None \<Rightarrow> go_ret None
     | Some tok \<Rightarrow> go_bind (expired_check (tk_expires tok)) (\<lambda>expired.
       if expired then go_ret None
       else go_bind (sql (\<lambda>s. Some (find (\<lambda>u. us_id u = tk_user tok) (users s), s))) (\<lambda>user.
         case user of None \<Rightarrow> go_ret None
         | Some u \<Rightarrow> go_bind (go_ignore (touch_token (tk_id tok))) (\<lambda>_. go_ret (Some (tok, u)))))) s1 = (Inr (Some (tok, u)), s')" by blast
  obtain t where t: "found = Some t" using r1 by (cases found) (auto simp: go_ret_def)
  from go_bind_Inr [OF r1 [unfolded t option.case]] obtain x s2 where e: "expired_check (tk_expires t) s1 = (Inr x, s2)"
    and r2: "(if x then go_ret None
       else go_bind (sql (\<lambda>s. Some (find (\<lambda>u. us_id u = tk_user t) (users s), s))) (\<lambda>user.
         case user of None \<Rightarrow> go_ret None
         | Some u \<Rightarrow> go_bind (go_ignore (touch_token (tk_id t))) (\<lambda>_. go_ret (Some (t, u))))) s2 = (Inr (Some (tok, u)), s')" by blast
  have x: "x = False" using r2 by (cases x) (auto simp: go_ret_def)
  from go_bind_Inr [OF r2 [unfolded x if_False]] obtain v s3 where u1: "sql (\<lambda>s. Some (find (\<lambda>u. us_id u = tk_user t) (users s), s)) s2 = (Inr v, s3)"
    and r3: "(case v of None \<Rightarrow> go_ret None
         | Some u \<Rightarrow> go_bind (go_ignore (touch_token (tk_id t))) (\<lambda>_. go_ret (Some (t, u)))) s3 = (Inr (Some (tok, u)), s')" by blast
  obtain w where w: "v = Some w" using r3 by (cases v) (auto simp: go_ret_def)
  from go_bind_Inr [OF r3 [unfolded w option.case]] obtain a s4 where i: "go_ignore (touch_token (tk_id t)) s3 = (Inr a, s4)"
    and r4: "go_ret (Some (t, w)) s4 = (Inr (Some (tok, u)), s')" by blast
  have u: "v = Some u" "t = tok" "s' = snd (go_ignore (touch_token (tk_id t)) s3)"
    using w i r4 by (simp_all add: go_ret_def)
  from e x have e: "expired_check (tk_expires t) s1 = (Inr False, s2)" by simp
  from sql_Inr [OF f] have f': "found = find (\<lambda>t. tk_hash t = sha256 plain) (api_tokens s)" "s1 = s\<lparr>faults := tl (faults s)\<rparr>" by simp_all
  from sql_Inr [OF u1] u(1) have u': "find (\<lambda>u. us_id u = tk_user t) (users s2) = Some u" "s3 = s2\<lparr>faults := tl (faults s2)\<rparr>" by simp_all
  have "t \<in> set (api_tokens s) \<and> tk_hash t = sha256 plain" by (rule find_set) (use f' t in simp)
  moreover from u'(1) have "u \<in> set (users s2) \<and> us_id u = tk_user t" by (rule find_set)
  moreover have "case tk_expires t of None \<Rightarrow> True | Some e \<Rightarrow> clock s \<le> e" "users s2 = users s1" "domains s2 = domains s1"
    using expired_check_run [OF e] f'(2) by (simp_all split: option.splits)
  moreover have "users s1 = users s" "domains s1 = domains s" "domains s3 = domains s2" using f'(2) u'(2) by simp_all
  moreover have "domains s' = domains s3" unfolding u(3) by (rule touch_domains)
  ultimately show ?thesis unfolding u(2) [symmetric] by simp
qed

lemma or_500_Inr:
  "or_500 m k s = (Inr (Inr x), s') \<Longrightarrow> \<exists>a s1. m s = (Inr a, s1) \<and> k a s1 = (Inr (Inr x), s')"
  by (auto simp: or_500_def go_simps split: prod.splits sum.splits) (metis prod.collapse)

lemma grant_token_Inr:
  "grant_token tok u d s = (Inr (Inr g), s') \<Longrightarrow> IsVerified d \<and> gr_auth g = ''token'' \<and> gr_domain g = d \<and> gr_user g = Some (us_id u) \<and>
     gr_full g = HasAbility tok ''idx:full''"
  by (auto simp: grant_token_def deny_def go_ret_def split: if_splits)

lemma token_grant_facts:
  assumes "has_prefix (rq_authorization rq) ''Bearer ''"
    and "DomainToken sha256 hostname rq s = (Inr (Inr g), s')"
  shows "\<exists>tok u. tok \<in> set (api_tokens s) \<and> tk_hash tok = sha256 (trim_space (trim_prefix (rq_authorization rq) ''Bearer '')) \<and>
     (case tk_expires tok of None \<Rightarrow> True | Some e \<Rightarrow> clock s \<le> e) \<and> (HasAbility tok ''idx:access'' \<or> HasAbility tok ''idx:full'') \<and>
     u \<in> set (users s) \<and> us_id u = tk_user tok \<and> gr_domain g \<in> set (domains s) \<and> dm_active (gr_domain g) \<and> IsVerified (gr_domain g) \<and>
     dm_user (gr_domain g) = Some (tk_user tok) \<and> (\<forall>i. tk_domain tok = Some i \<longrightarrow> dm_id (gr_domain g) = i) \<and>
     to_lower (dm_slug (gr_domain g)) = to_lower (resolveSlugForToken rq) \<and> gr_full g = HasAbility tok ''idx:full''"
proof -
  let ?plain = "trim_space (trim_prefix (rq_authorization rq) ''Bearer '')"
  have h: "handleToken sha256 rq ?plain s = (Inr (Inr g), s')" using assms by (simp add: DomainToken_def)
  obtain found s1 where f: "FindByPlaintext sha256 ?plain s = (Inr found, s1)" and ne: "found \<noteq> None"
    using or_500_Inr [OF h [unfolded handleToken_def]] by (auto simp: deny_def go_ret_def split: option.splits)
  then obtain tok u where tu: "found = Some (tok, u)" by auto
  note p = FindByPlaintext_run [OF f [unfolded tu]]
  have ab: "HasAbility tok ''idx:access'' \<or> HasAbility tok ''idx:full''" and
    d: "(case tk_domain tok of
           Some domainID \<Rightarrow> or_500 (FindActiveByIDForUser (us_id u) domainID) (\<lambda>d.
             case d of None \<Rightarrow> deny 403 ''API token is not valid for this domain.''
             | Some d \<Rightarrow> (if \<not> equal_fold (dm_slug d) (resolveSlugForToken rq) then deny 403 ''API token is not valid for this domain.'' else grant_token tok u d))
         | None \<Rightarrow> or_500 (FindActiveForUser (us_id u) (resolveSlugForToken rq)) (\<lambda>d.
             case d of None \<Rightarrow> deny 403 ''Domain is not registered, inactive, or not owned by this token.''
             | Some d \<Rightarrow> grant_token tok u d)) s1 = (Inr (Inr g), s')"
    using or_500_Inr [OF h [unfolded handleToken_def]] f tu by (auto simp: deny_def go_ret_def Let_def split: if_splits)
  have "\<exists>dm s2. dm \<in> set (domains s1) \<and> dm_active dm \<and> dm_user dm = Some (us_id u) \<and> (\<forall>i. tk_domain tok = Some i \<longrightarrow> dm_id dm = i) \<and>
      to_lower (dm_slug dm) = to_lower (resolveSlugForToken rq) \<and> grant_token tok u dm s2 = (Inr (Inr g), s')"
  proof (cases "tk_domain tok")
    case None
    from or_500_Inr [OF d [unfolded None option.case]] obtain dm s2 where
      "FindActiveForUser (us_id u) (resolveSlugForToken rq) s1 = (Inr (Some dm), s2)" "grant_token tok u dm s2 = (Inr (Inr g), s')"
      by (auto simp: deny_def go_ret_def split: option.splits)
    then show ?thesis using find_domain_run [of _ s1 dm s2] None unfolding FindActiveForUser_def by fastforce
  next
    case (Some i)
    from or_500_Inr [OF d [unfolded Some option.case]] obtain dm s2 where
      "FindActiveByIDForUser (us_id u) i s1 = (Inr (Some dm), s2)" "grant_token tok u dm s2 = (Inr (Inr g), s')"
      "equal_fold (dm_slug dm) (resolveSlugForToken rq)"
      by (auto simp: deny_def go_ret_def split: option.splits if_splits)
    then show ?thesis using find_domain_run [of _ s1 dm s2] Some unfolding FindActiveByIDForUser_def equal_fold_def by fastforce
  qed
  then show ?thesis using p ab grant_token_Inr by metis
qed

text \<open>(C8) A token opens only its owner's verified domain: when a request with a bearer token is let in, the
  token is stored under the hash of what was sent, has not expired and carries an IDX ability, its user exists, and the domain granted is
  active, verified and belongs to that user; a token bound to a domain opens no other, and the domain
  is the one the request names. Full access is given exactly with \<^verbatim>\<open>idx:full\<close>.\<close>

theorem token_opens_own_verified_domain:
  assumes "has_prefix (rq_authorization rq) ''Bearer ''"
    and "DomainToken sha256 hostname rq s = (Inr (Inr g), s')"
  shows "\<exists>tok u. tok \<in> set (api_tokens s) \<and> tk_hash tok = sha256 (trim_space (trim_prefix (rq_authorization rq) ''Bearer '')) \<and>
     (case tk_expires tok of None \<Rightarrow> True | Some e \<Rightarrow> clock s \<le> e) \<and> (HasAbility tok ''idx:access'' \<or> HasAbility tok ''idx:full'') \<and>
     u \<in> set (users s) \<and> us_id u = tk_user tok \<and> gr_domain g \<in> set (domains s) \<and> dm_active (gr_domain g) \<and> IsVerified (gr_domain g) \<and>
     dm_user (gr_domain g) = Some (tk_user tok) \<and> (\<forall>i. tk_domain tok = Some i \<longrightarrow> dm_id (gr_domain g) = i) \<and>
     to_lower (dm_slug (gr_domain g)) = to_lower (resolveSlugForToken rq) \<and> gr_full g = HasAbility tok ''idx:full''"
  using assms by (rule token_grant_facts)

definition demo_domain :: domain_row where
  "demo_domain = \<lparr>dm_id = 7, dm_user = Some 3, dm_slug = ''example.com'', dm_active = True, dm_mls_dataset = None,
     dm_allowed = RawEmpty, dm_verification = ''verified'', dm_parent = None, dm_staging = False, dm_txt_name = None, dm_txt_value = None\<rparr>"

definition demo_token :: api_token where
  "demo_token = \<lparr>tk_id = 1, tk_user = 3, tk_domain = Some 7, tk_name = ''site'', tk_hash = ''idx_a'', tk_abilities = Some ''idx:full'',
     tk_last_used = None, tk_expires = None\<rparr>"

definition demo_access :: "domain_row \<Rightarrow> adb" where
  "demo_access d = fdb.extend demo_fetch (adb.fields [d] [demo_token] 2 [\<lparr>us_id = 3, us_email = ''a@b'', us_admin = False, us_name = ''A'', us_password = []\<rparr>] (\<lambda>_. ''b'') 0)"

definition demo_request :: "string \<Rightarrow> string \<Rightarrow> api_request" where
  "demo_request auth slug = \<lparr>rq_path = ''/api/v1/search'', rq_authorization = auth, rq_domain_header = slug, rq_domain_query = [],
     rq_dataset_query = [], rq_referer = []\<rparr>"

lemma demo_access_eval:
  "\<exists>s'. DomainToken id (\<lambda>_. None) (demo_request ''Bearer idx_a'' ''example.com'') (demo_access demo_domain) = (Inr (Inr
     \<lparr>gr_auth = ''token'', gr_domain = demo_domain, gr_token_name = Some ''site'', gr_user = Some 3, gr_full = True\<rparr>), s')"
  by (simp add: DomainToken_def demo_request_def has_prefix_def trim_prefix_def trim_space_def trim_both_def trim_left_def trim_right_def is_space_def
      handleToken_def or_500_def go_simps FindByPlaintext_def demo_access_def demo_fetch_def demo_sync_def sdb.defs fdb.defs adb.defs
      sql_def demo_token_def expired_check_def touch_token_def go_now_def HasAbility_def resolveSlugForToken_def
      FindActiveByIDForUser_def find_domain_def demo_domain_def equal_fold_def to_lower_def lower_char_def grant_token_def IsVerified_def Let_def)

theorem token_opens_own_verified_domain_witness:
  "\<exists>g s'. DomainToken id (\<lambda>_. None) (demo_request ''Bearer idx_a'' ''example.com'') (demo_access demo_domain) = (Inr (Inr g), s') \<and> IsVerified (gr_domain g)"
proof -
  obtain g s' where g: "DomainToken id (\<lambda>_. None) (demo_request ''Bearer idx_a'' ''example.com'') (demo_access demo_domain) = (Inr (Inr g), s')"
    using demo_access_eval by blast
  have "has_prefix (rq_authorization (demo_request ''Bearer idx_a'' ''example.com'')) ''Bearer ''"
    by (simp add: demo_request_def has_prefix_def)
  from token_opens_own_verified_domain [OF this g] g show ?thesis by blast
qed

text \<open>Naming a domain is enough to read it: a request without a token that sends the name of an active domain in a
  header gets full access, whether or not the domain was verified. (The documentation of the dashboard requires DNS verification before API
  access.)\<close>

theorem domain_name_gives_full_access:
  assumes "\<not> has_prefix (rq_authorization rq) ''Bearer ''" and "trim_space (rq_domain_header rq) \<noteq> []"
    and "find (\<lambda>d. dm_active d \<and> to_lower (dm_slug d) = to_lower (trim_space (rq_domain_header rq))) (domains s) = Some d"
    and "faults s = [] \<or> \<not> hd (faults s)"
  shows "\<exists>s'. DomainToken sha256 hostname rq s =
     (Inr (Inr \<lparr>gr_auth = ''domain'', gr_domain = d, gr_token_name = None, gr_user = None, gr_full = True\<rparr>), s')"
proof -
  have "sql (\<lambda>s. Some (find P (domains s), s)) s = (Inr (find P (domains s)), s\<lparr>faults := tl (faults s)\<rparr>)" for P
    using assms(4) by (cases "faults s") (auto simp: sql_def)
  then show ?thesis
    using assms(1-3)
    by (simp add: DomainToken_def handleDomain_def resolveSlug_def resolveSlugForToken_def or_500_def go_simps FindActiveBySlug_def find_domain_def Let_def)
qed

theorem domain_name_gives_full_access_witness:
  "\<exists>s'. DomainToken id (\<lambda>_. None) (demo_request [] ''example.com'') (demo_access (demo_domain\<lparr>dm_verification := ''pending''\<rparr>)) =
     (Inr (Inr \<lparr>gr_auth = ''domain'', gr_domain = demo_domain\<lparr>dm_verification := ''pending''\<rparr>, gr_token_name = None, gr_user = None, gr_full = True\<rparr>), s')"
  by (rule domain_name_gives_full_access)
    (simp_all add: demo_request_def has_prefix_def trim_space_def trim_both_def trim_left_def trim_right_def is_space_def
      demo_access_def demo_fetch_def demo_sync_def demo_domain_def sdb.defs fdb.defs adb.defs)

section \<open>Feeds\<close>

lemma enabled_in_catalog: "c \<in> set (enabledForDomain fc d) \<Longrightarrow> c \<in> set (codes (Catalog fc))"
  by (auto simp: enabledForDomain_def Let_def split: option.splits if_splits)


definition demo_feeds :: feed_config where
  "demo_feeds = \<lparr>fc_sync = demo_sync_config, fc_default_dataset = ''stellar'', fc_spark_api_host = ''https://s'', fc_spark_api_version = ''v1'',
     fc_spark_live_root = ''Reso/OData''\<rparr>"


lemma find_member: "x \<in> set xs \<Longrightarrow> find (\<lambda>y. y = x) xs = Some x"
  by (induction xs) auto

text \<open>The short name of a Spark dataset is refused: \<^verbatim>\<open>?dataset=beaches\<close> is read as the Bridge feed of that name and answered with
  403 when there is none, although the same short name denotes the Spark feed everywhere else and the documentation has it normalised to
  \<^verbatim>\<open>spark_beaches\<close>.\<close>

theorem spark_short_name_refused:
  assumes "trim_space (rq_dataset_query rq) = ds" and "ds \<noteq> []" and "to_lower ds = ds" and "trim_space ds = ds"
    and "\<not> has_prefix ds ''bridge_''" and "\<not> has_prefix ds ''spark_''" and "ds \<in> set (s_datasets (cfg_spark (fc_sync fc)))"
    and "''bridge_'' @ ds \<notin> set (codes (Catalog fc))" and "ds \<notin> set (map to_lower (b_datasets (cfg_bridge (fc_sync fc))))"
    and "enabledForDomain fc d \<noteq> []" and "\<not> BypassGIS (rq_path rq)"
  shows "ResolveFeedCode fc rq d = Inl (403, ''MLS feed not enabled for this domain.'') \<and> FeedDefinitionFromCode fc ds = spark_feed ds"
proof -
  have "normalizeFeedCode ds = ''bridge_'' @ ds" using assms(3-6) by (simp add: normalizeFeedCode_def)
  moreover have "''bridge_'' @ ds \<notin> set (enabledForDomain fc d)" using assms(8) enabled_in_catalog by blast
  ultimately have r: "ResolveFeedCode fc rq d = Inl (403, ''MLS feed not enabled for this domain.'')"
    using assms(1,2,10,11) by (simp add: ResolveFeedCode_def)
  let ?bs = "map to_lower (b_datasets (cfg_bridge (fc_sync fc)))" and ?ss = "map to_lower (s_datasets (cfg_spark (fc_sync fc)))"
  have "find (\<lambda>slug. ds = ''bridge_'' @ slug \<or> ds = slug) ?bs = None"
    using assms(5,9) by (auto simp: find_None_iff has_prefix_def)
  moreover have "find (\<lambda>slug. ds = ''spark_'' @ slug \<or> ds = slug) ?ss = Some ds"
  proof -
    have "(\<lambda>slug. ds = ''spark_'' @ slug \<or> ds = slug) = (\<lambda>slug. slug = ds)" using assms(6) by (auto simp: fun_eq_iff has_prefix_def)
    moreover have "ds \<in> set ?ss" using assms(3,7) by (metis image_eqI list.set_map)
    ultimately show ?thesis by (simp only: find_member)
  qed
  ultimately show ?thesis using r assms(3,4) by (simp add: FeedDefinitionFromCode_def Let_def)
qed

theorem spark_short_name_refused_witness:
  "ResolveFeedCode demo_feeds ((demo_request [] [])\<lparr>rq_dataset_query := ''beaches''\<rparr>) None = Inl (403, ''MLS feed not enabled for this domain.'')"
proof -
  let ?rq = "(demo_request [] [])\<lparr>rq_dataset_query := ''beaches''\<rparr>"
  have "to_lower ''beaches'' = ''beaches''" by (simp add: to_lower_def lower_char_def)
  then show ?thesis
    using spark_short_name_refused [of ?rq "''beaches''" demo_feeds None]
    by (simp add: demo_request_def demo_feeds_def demo_sync_config_def Catalog_def codes_def bridge_feed_def spark_feed_def has_prefix_def has_suffix_def
        trim_space_def trim_both_def trim_left_def trim_right_def is_space_def BypassGIS_def trim_prefix_def enabledForDomain_def to_lower_def lower_char_def Let_def)
qed

section \<open>Tokens\<close>

lemma find_appended: "\<forall>x \<in> set xs. \<not> P x \<Longrightarrow> P y \<Longrightarrow> find P (xs @ [y]) = Some y"
  by (induction xs) auto

lemma sql_ok: "faults s = [] \<Longrightarrow> sql f s = (case f s of None \<Rightarrow> (Inl DbErr, s) | Some (x, s') \<Rightarrow> (Inr x, s'))"
  by (simp add: sql_def split: option.split)

text \<open>A new token works and dies with its revocation: without failing statements, the plaintext that creation returns is found
  again with its user, its domain and its abilities, and after the owner revokes it, it is not found.\<close>

theorem created_token_round_trip:
  assumes "faults s = []" and "createToken sha256 userID domainID name abilities s = (Inr plain, s1)" and "u \<in> set (users s)" and "us_id u = userID"
  shows "\<exists>tok u' s2. FindByPlaintext sha256 plain s1 = (Inr (Some (tok, u')), s2) \<and> us_id u' = userID \<and>
     tk_domain tok = (if domainID > 0 then Some domainID else None) \<and> tk_abilities tok = Some (abilities_json abilities) \<and>
     (\<exists>s3 s4. Revoke userID (tk_id tok) s1 = (Inr (), s3) \<and> FindByPlaintext sha256 plain s3 = (Inr None, s4))"
proof -
  let ?t = "\<lparr>tk_id = next_token_id s, tk_user = userID, tk_domain = (if domainID > 0 then Some domainID else None), tk_name = name,
     tk_hash = sha256 plain, tk_abilities = Some (abilities_json abilities), tk_last_used = None, tk_expires = None\<rparr>"
  have fresh: "\<forall>t \<in> set (api_tokens s). tk_hash t \<noteq> sha256 plain"
    and s1: "s1 = s\<lparr>token_count := Suc (token_count s), api_tokens := api_tokens s @ [?t], next_token_id := next_token_id s + 1\<rparr>"
    using assms(1,2) by (auto simp: createToken_def insert_token_def sql_ok go_simps Let_def split: if_splits)
  obtain u' where u': "find (\<lambda>u. us_id u = userID) (users s) = Some u'" "us_id u' = userID"
    using assms(3,4) by (metis (mono_tags, lifting) find_None_iff find_set not_Some_eq)
  have f: "find (\<lambda>t. tk_hash t = sha256 plain) (api_tokens s @ [?t]) = Some ?t" using fresh by (intro find_appended) simp_all
  have "FindByPlaintext sha256 plain s1 = (Inr (Some (?t, u')), snd (go_ignore (touch_token (next_token_id s)) s1))"
    using assms(1) f u' by (simp add: FindByPlaintext_def sql_ok go_simps s1 expired_check_def)
  moreover have "Revoke userID (next_token_id s) s1 = (Inr (), s1\<lparr>api_tokens := filter (\<lambda>t. \<not> (tk_id t = next_token_id s \<and> tk_user t = userID)) (api_tokens s)\<rparr>)"
    using assms(1) by (simp add: Revoke_def sql_ok go_simps s1)
  moreover have "find (\<lambda>t. tk_hash t = sha256 plain) (filter (\<lambda>t. \<not> (tk_id t = next_token_id s \<and> tk_user t = userID)) (api_tokens s)) = None"
    using fresh by (auto simp: find_None_iff)
  ultimately show ?thesis
    using u'(2) assms(1)
    by (intro exI [of _ ?t] exI [of _ u']) (auto simp: FindByPlaintext_def sql_ok go_simps s1)
qed

lemma demo_create: "createToken id 3 0 ''n'' [''idx:access''] (demo_access demo_domain) =
   (Inr ''idx_b'', snd (createToken id 3 0 ''n'' [''idx:access''] (demo_access demo_domain)))"
  by (simp add: createToken_def insert_token_def sql_def go_simps demo_access_def demo_fetch_def demo_sync_def demo_token_def sdb.defs fdb.defs adb.defs Let_def)

theorem created_token_round_trip_witness:
  "\<exists>tok u s2. FindByPlaintext id ''idx_b'' (snd (createToken id 3 0 ''n'' [''idx:access''] (demo_access demo_domain))) = (Inr (Some (tok, u)), s2) \<and>
     tk_domain tok = None"
proof -
  have "faults (demo_access demo_domain) = []" "users (demo_access demo_domain) = [\<lparr>us_id = 3, us_email = ''a@b'', us_admin = False, us_name = ''A'', us_password = []\<rparr>]"
    by (simp_all add: demo_access_def demo_fetch_def demo_sync_def sdb.defs fdb.defs adb.defs)
  with created_token_round_trip [OF _ demo_create, of "\<lparr>us_id = 3, us_email = ''a@b'', us_admin = False, us_name = ''A'', us_password = []\<rparr>"] show ?thesis by auto
qed

end
