(* ===== verification/Comps_Engine.thy ===== *)
theory Comps_Engine
  imports Comps_Value Access_Control
begin

text \<open>
  The comparables engine (\<^verbatim>\<open>internal/service/comps\<close>: \<^verbatim>\<open>engine.go\<close>, \<^verbatim>\<open>subject.go\<close>, \<^verbatim>\<open>home_value_subject.go\<close>, \<^verbatim>\<open>cache.go\<close>, \<^verbatim>\<open>upstream.go\<close>,
  \<^verbatim>\<open>mirror.go\<close>, \<^verbatim>\<open>rental.go\<close>, \<^verbatim>\<open>bpo.go\<close>, \<^verbatim>\<open>home_value.go\<close>, \<^verbatim>\<open>service.go\<close>; \<^verbatim>\<open>internal/repository/comps_cache\<close>; \<^verbatim>\<open>internal/service/geocode\<close>): where
  comparables come from (the closed-sale cache, the provider, the mirror) and what each mode makes of them.

  The gzip layer of a cached payload stands for the document it carries. \<open>dwithin\<close> is PostGIS'
  \<^verbatim>\<open>ST_DWithin\<close>, \<open>raw_text\<close> gives the bytes of a JSON message; the theorems hold for every choice. The clock is read in
  UTC. \<^verbatim>\<open>ORDER BY\<close> does not say how ties are ordered; the model keeps the order of the table.
\<close>

section \<open>State\<close>

record closed_row =
  cr_domain :: string
  cr_feed :: string
  cr_key :: string
  cr_status :: string
  cr_close_day :: "nat option"
  cr_lat :: "real option"
  cr_lng :: "real option"
  cr_price :: "real option"
  cr_payload :: raw_message
  cr_first_cached :: int
  cr_refreshed :: int

record cdb = adb +
  closed_cache :: "closed_row list"

record comps_config =
  cc_feeds :: feed_config
  cc_cache_days :: int
  cc_min_hits :: int
  cc_maps_key :: string

section \<open>The closed-sale cache\<close>

record closed_upsert =
  cu_key :: string
  cu_status :: string
  cu_close_day :: "nat option"
  cu_lat :: "real option"
  cu_lng :: "real option"
  cu_price :: "real option"
  cu_payload :: raw_message

definition pg_trim :: "string \<Rightarrow> string" where
  "pg_trim = trim_both (\<lambda>c. c = CHR '' '')"

definition scope_radius :: "real option \<Rightarrow> real" where
  "scope_radius radius = (case radius of Some r \<Rightarrow> (if r > 0 then r else 5) | None \<Rightarrow> 5)"

definition within_box :: "real \<Rightarrow> real \<Rightarrow> real \<Rightarrow> real \<Rightarrow> real \<Rightarrow> bool" where
  "within_box lat lng deg la lo \<longleftrightarrow> lat - deg \<le> la \<and> la \<le> lat + deg \<and> lng - deg \<le> lo \<and> lo \<le> lng + deg"

text \<open>The WHERE clause of \<^verbatim>\<open>FindClosedInScope\<close>; a comparison with NULL is not true.\<close>

definition closed_in_scope ::
  "string \<Rightarrow> string \<Rightarrow> real \<Rightarrow> real \<Rightarrow> real option \<Rightarrow> int \<Rightarrow> int \<Rightarrow> int \<Rightarrow> closed_row \<Rightarrow> bool" where
  "closed_in_scope domainSlug feedCode lat lng radius cutoff maxAge now r \<longleftrightarrow>
     cr_domain r = domainSlug \<and> cr_feed r = feedCode \<and> to_lower (pg_trim (cr_status r)) = ''closed'' \<and>
     (case cr_close_day r of Some d \<Rightarrow> day_of cutoff \<le> d | None \<Rightarrow> False) \<and> now - maxAge \<le> cr_refreshed r \<and>
     (case cr_price r of Some p \<Rightarrow> p > 0 | None \<Rightarrow> False) \<and>
     (case (cr_lat r, cr_lng r) of (Some la, Some lo) \<Rightarrow> within_box lat lng (scope_radius radius / 69) la lo | _ \<Rightarrow> False)"

definition close_order :: "closed_row \<Rightarrow> int" where
  "close_order r = (case cr_close_day r of Some d \<Rightarrow> - int d | None \<Rightarrow> 1)"

definition FindClosedInScope ::
  "string \<Rightarrow> string \<Rightarrow> real \<Rightarrow> real \<Rightarrow> scope_input \<Rightarrow> int \<Rightarrow> int \<Rightarrow> int \<Rightarrow> ('z cdb_scheme, closed_row list) go" where
  "FindClosedInScope domainSlug feedCode lat lng scope cutoff maxAge limit =
     (if domainSlug = [] \<or> feedCode = [] \<or> limit \<le> 0 then go_ret []
      else if equal_fold (sc_type scope) ''zip'' then go_ret []
      else go_bind go_now (\<lambda>now. sql (\<lambda>s. Some (take (nat limit) (sort_key close_order
        (filter (closed_in_scope domainSlug feedCode lat lng (sc_radius scope) cutoff maxAge now) (closed_cache s))), s))))"

text \<open>The columns: text of limited length, \<^verbatim>\<open>close_price\<close> NUMERIC(14,2).\<close>

definition closed_row_of :: "string \<Rightarrow> string \<Rightarrow> int \<Rightarrow> closed_upsert \<Rightarrow> closed_row" where
  "closed_row_of domainSlug feedCode now u =
     (let status = to_lower (trim_space (cu_status u)) in
      \<lparr>cr_domain = domainSlug, cr_feed = feedCode, cr_key = cu_key u, cr_status = (if status = [] then ''closed'' else status),
       cr_close_day = cu_close_day u, cr_lat = cu_lat u, cr_lng = cu_lng u, cr_price = map_option round2 (cu_price u),
       cr_payload = cu_payload u, cr_first_cached = now, cr_refreshed = now\<rparr>)"

definition closed_fits :: "closed_row \<Rightarrow> bool" where
  "closed_fits r \<longleftrightarrow> length (cr_domain r) \<le> 255 \<and> length (cr_feed r) \<le> 64 \<and> length (cr_key r) \<le> 191 \<and>
     length (cr_status r) \<le> 64 \<and> (case cr_price r of Some p \<Rightarrow> \<bar>p\<bar> < 10 ^ 12 | None \<Rightarrow> True)"

definition closed_id :: "closed_row \<Rightarrow> string \<times> string \<times> string" where
  "closed_id r = (cr_domain r, cr_feed r, cr_key r)"

definition upsert_closed :: "closed_row \<Rightarrow> closed_row list \<Rightarrow> closed_row list" where
  "upsert_closed r rows = (if \<exists>b \<in> set rows. closed_id b = closed_id r
     then map (\<lambda>b. if closed_id b = closed_id r then r\<lparr>cr_first_cached := cr_first_cached b\<rparr> else b) rows
     else rows @ [r])"

definition store_closed :: "string \<Rightarrow> string \<Rightarrow> int \<Rightarrow> closed_upsert \<Rightarrow> ('z cdb_scheme, unit) go" where
  "store_closed domainSlug feedCode now u = sql (\<lambda>s. let r = closed_row_of domainSlug feedCode now u in
     if closed_fits r then Some ((), s\<lparr>closed_cache := upsert_closed r (closed_cache s)\<rparr>) else None)"

definition UpsertClosedBatch :: "string \<Rightarrow> string \<Rightarrow> closed_upsert list \<Rightarrow> ('z cdb_scheme, unit) go" where
  "UpsertClosedBatch domainSlug feedCode rows =
     (if rows = [] then go_ret () else go_bind go_now (\<lambda>now. go_each (store_closed domainSlug feedCode now) rows))"

text \<open>\<^verbatim>\<open>AddDate(0, 0, -days)\<close> in UTC; the result is the number of rows removed.\<close>

definition PurgeExpired :: "int \<Rightarrow> ('z cdb_scheme, nat) go" where
  "PurgeExpired retentionDays = (let days = (if retentionDays \<le> 0 then 30 else retentionDays) in
     go_bind go_now (\<lambda>now. sql (\<lambda>s. let old = (\<lambda>r. cr_refreshed r < now - days * 86400 * second) in
       Some (length (filter old (closed_cache s)), s\<lparr>closed_cache := filter (\<lambda>r. \<not> old r) (closed_cache s)\<rparr>))))"

definition PurgeClosedListingsCache :: "int \<Rightarrow> ('z cdb_scheme, nat) go" where
  "PurgeClosedListingsCache days = PurgeExpired (if days \<le> 0 then 30 else days)"

section \<open>Sold comparables\<close>

definition in_radius :: "scope_input \<Rightarrow> comp_record \<Rightarrow> bool" where
  "in_radius scope c \<longleftrightarrow> \<not> (sc_type scope \<noteq> ''zip'' \<and> (case sc_radius scope of Some r \<Rightarrow> c_distance c > r * (115 / 100) | None \<Rightarrow> False))"

definition with_distance :: "subject_profile \<Rightarrow> comp_record \<Rightarrow> comp_record" where
  "with_distance subject c = c\<lparr>c_distance := haversineMiles (sp_lat subject) (sp_lng subject) (c_lat c) (c_lng c)\<rparr>"

definition cached_comp :: "(json \<Rightarrow> string) \<Rightarrow> closed_row \<Rightarrow> comp_record" where
  "cached_comp marshal row =
     (let c = parseProperty marshal (cr_payload row);
          c = (if c_key c = [] then c\<lparr>c_key := cr_key row\<rparr> else c)
      in if c_lat c = 0 \<and> c_lng c = 0 then c\<lparr>c_lat := given (cr_lat row) 0, c_lng := given (cr_lng row) 0\<rparr> else c)"

definition usable_comp :: "subject_profile \<Rightarrow> scope_input \<Rightarrow> comp_record \<Rightarrow> bool" where
  "usable_comp subject scope c \<longleftrightarrow> c_key c \<noteq> sp_listing_key subject \<and> c_close_price c > 0 \<and> in_radius scope c"

definition compsFromCached :: "(json \<Rightarrow> string) \<Rightarrow> closed_row list \<Rightarrow> subject_profile \<Rightarrow> scope_input \<Rightarrow> comp_record list" where
  "compsFromCached marshal rows subject scope =
     filter (usable_comp subject scope) (map (\<lambda>r. with_distance subject (cached_comp marshal r)) rows)"

definition parse_layouts :: "string \<Rightarrow> int option" where
  "parse_layouts s = (case parse_rfc3339 s of Some t \<Rightarrow> Some t
     | None \<Rightarrow> (case parse_date s of
         Some (D, c # rest) \<Rightarrow> (if c = CHR ''T'' then (case parse_clock rest of
             Some (sec, r) \<Rightarrow> (case parse_fraction r of Some (nanos, []) \<Rightarrow> Some (instant D sec nanos 0) | _ \<Rightarrow> None) | _ \<Rightarrow> None)
           else None)
       | Some (D, []) \<Rightarrow> Some (instant D 0 0 0)
       | None \<Rightarrow> None))"

definition parseCloseDate :: "string \<Rightarrow> int option" where
  "parseCloseDate s0 = (let s = trim_space s0 in if s = [] then None else parse_layouts s)"

definition closed_upsert_of :: "(json \<Rightarrow> string) \<Rightarrow> raw_message \<Rightarrow> closed_upsert option" where
  "closed_upsert_of marshal raw = (let c = parseProperty marshal raw; status = to_lower (trim_space (c_status c)) in
     if c_key c = [] \<or> c_close_price c \<le> 0 then None
     else Some \<lparr>cu_key = c_key c, cu_status = (if status = [] then ''closed'' else status),
       cu_close_day = map_option day_of (parseCloseDate (c_close_date c)),
       cu_lat = (if c_lat c \<noteq> 0 \<or> c_lng c \<noteq> 0 then Some (c_lat c) else None),
       cu_lng = (if c_lat c \<noteq> 0 \<or> c_lng c \<noteq> 0 then Some (c_lng c) else None),
       cu_price = Some (c_close_price c), cu_payload = raw\<rparr>)"

definition writeThroughClosedCache :: "(json \<Rightarrow> string) \<Rightarrow> string \<Rightarrow> string \<Rightarrow> raw_message list \<Rightarrow> ('z cdb_scheme, unit) go" where
  "writeThroughClosedCache marshal domainSlug feedCode rawRows =
     UpsertClosedBatch domainSlug feedCode (List.map_filter (closed_upsert_of marshal) rawRows)"

definition geoFilterParts :: "subject_profile \<Rightarrow> scope_input \<Rightarrow> string list" where
  "geoFilterParts subject scope =
     (if sc_type scope = ''zip'' \<and> sc_postal_codes scope \<noteq> []
      then [''PostalCode in ('' @ join_with '','' (map (\<lambda>z. [CHR 0x27] @ replace_char CHR 0x27 [CHR 0x27, CHR 0x27] z @ [CHR 0x27]) (sc_postal_codes scope)) @ '')'']
      else let deg = scope_radius (sc_radius scope) / 69 in
        [''Latitude ge '' @ fmt_f (sp_lat subject - deg), ''Latitude le '' @ fmt_f (sp_lat subject + deg),
         ''Longitude ge '' @ fmt_f (sp_lng subject - deg), ''Longitude le '' @ fmt_f (sp_lng subject + deg)])"

definition months_or :: "int option \<Rightarrow> int" where
  "months_or m = (case m of Some k \<Rightarrow> (if k > 0 then k else 12) | None \<Rightarrow> 12)"

text \<open>The request for closed sales; the property URL of an endpoint has no query of its own.\<close>

definition closed_query :: "string list \<Rightarrow> int \<Rightarrow> url_values" where
  "closed_query parts limit = query_set ''$top'' (show_int limit) (query_set ''$orderby'' ''CloseDate desc''
     (query_set ''$filter'' (join_with '' and '' parts) []))"

definition getReso :: "string \<Rightarrow> ('z fdb_scheme, http_response) go" where
  "getReso rawURL = http_get rawURL"

definition parseSoldCompRecords :: "(json \<Rightarrow> string) \<Rightarrow> raw_message list \<Rightarrow> subject_profile \<Rightarrow> scope_input \<Rightarrow> comp_record list" where
  "parseSoldCompRecords marshal rows subject scope =
     filter (usable_comp subject scope) (map (\<lambda>r. with_distance subject (parseProperty marshal r)) rows)"

definition fetchSoldCompsLive ::
  "(json \<Rightarrow> string) \<Rightarrow> comps_config \<Rightarrow> feed_definition \<Rightarrow> subject_profile \<Rightarrow> scope_input \<Rightarrow> filters_input \<Rightarrow> int \<Rightarrow>
   ('z cdb_scheme, comp_record list \<times> raw_message list) go" where
  "fetchSoldCompsLive marshal cfg feed subject scope filters limit0 =
     (let limit = (if limit0 \<le> 0 then 25 else limit0) in
      case LiveResoPropertyEndpoint (cc_feeds cfg) feed of
        None \<Rightarrow> go_fail (Err ''MLS credentials are not configured'')
      | Some (url, bearer) \<Rightarrow>
         go_bind go_now (\<lambda>now.
         let cutoff = fmt_utc (minus_months now (nat (months_or (fi_sold_months filters))));
             parts = [''StandardStatus eq '' @ [CHR 0x27] @ ''Closed'' @ [CHR 0x27], ''CloseDate ge '' @ cutoff] @ geoFilterParts subject scope in
         go_bind (getReso (request_url url (closed_query parts limit))) (\<lambda>resp.
         if http_status resp \<ge> 400
         then go_fail (Err (''live MLS sold comps status '' @ show_int (http_status resp) @ '' for feed '' @ fd_code feed))
         else case parse_value (http_body resp) of
           None \<Rightarrow> go_fail (Err ''invalid JSON'')
         | Some rows \<Rightarrow> go_ret (parseSoldCompRecords marshal rows subject scope, rows))))"

definition cache_max_age :: "comps_config \<Rightarrow> int" where
  "cache_max_age cfg = (if cc_cache_days cfg \<le> 0 then 30 else cc_cache_days cfg) * 86400 * second"

definition cache_min_hits :: "comps_config \<Rightarrow> int \<Rightarrow> int" where
  "cache_min_hits cfg limit = max 3 (if cc_min_hits cfg > 0 then cc_min_hits cfg else limit)"

text \<open>The first part of \<^verbatim>\<open>fetchSoldComps\<close>: the comparables of a cache hit, or none. A failed read is logged and
  treated as a miss.\<close>

definition cache_hit ::
  "(json \<Rightarrow> string) \<Rightarrow> comps_config \<Rightarrow> string \<Rightarrow> feed_definition \<Rightarrow> subject_profile \<Rightarrow> scope_input \<Rightarrow> int \<Rightarrow> int \<Rightarrow>
   ('z cdb_scheme, comp_record list option) go" where
  "cache_hit marshal cfg domainSlug feed subject scope cutoff limit =
     (if domainSlug = [] then go_ret None
      else go_bind (go_try (FindClosedInScope domainSlug (fd_code feed) (sp_lat subject) (sp_lng subject) scope cutoff
          (cache_max_age cfg) (limit * 2))) (\<lambda>r. case r of
        Inl e \<Rightarrow> go_ret None
      | Inr cached \<Rightarrow> (let minHits = cache_min_hits cfg limit; out = compsFromCached marshal cached subject scope in
          go_ret (if minHits \<le> int (length cached) \<and> minHits \<le> int (length out)
                  then Some (take (nat limit) out) else None))))"

definition fetchSoldComps ::
  "(json \<Rightarrow> string) \<Rightarrow> comps_config \<Rightarrow> string \<Rightarrow> feed_definition \<Rightarrow> subject_profile \<Rightarrow> scope_input \<Rightarrow> filters_input \<Rightarrow> int \<Rightarrow>
   ('z cdb_scheme, comp_record list) go" where
  "fetchSoldComps marshal cfg domainSlug feed subject scope filters limit0 =
     (let limit = (if limit0 \<le> 0 then 25 else limit0) in
      go_bind go_now (\<lambda>now.
      go_bind (cache_hit marshal cfg domainSlug feed subject scope (minus_months now (nat (months_or (fi_sold_months filters)))) limit) (\<lambda>hit.
      case hit of
        Some out \<Rightarrow> go_ret out
      | None \<Rightarrow>
         go_bind (fetchSoldCompsLive marshal cfg feed subject scope filters limit) (\<lambda>live.
         go_bind (if domainSlug \<noteq> [] \<and> snd live \<noteq> []
                  then go_ignore (writeThroughClosedCache marshal domainSlug (fd_code feed) (snd live)) else go_ret ()) (\<lambda>_.
         go_ret (fst live))))))"

section \<open>Mirror comparables\<close>

definition text_column :: "listing_record \<Rightarrow> string \<Rightarrow> string option" where
  "text_column r k = (case map_of (lr_texts r) k of Some v \<Rightarrow> v | None \<Rightarrow> None)"

definition like_lease :: "string option \<Rightarrow> bool" where
  "like_lease v = (case v of Some t \<Rightarrow> contains_sub (to_lower t) ''lease'' | None \<Rightarrow> False)"

definition between :: "int \<Rightarrow> int \<Rightarrow> real option \<Rightarrow> bool" where
  "between lo hi v = (case v of Some x \<Rightarrow> of_int lo \<le> x \<and> x \<le> of_int hi | None \<Rightarrow> False)"

definition applyFilterSQL :: "subject_profile \<Rightarrow> filters_input \<Rightarrow> listing_record \<Rightarrow> bool" where
  "applyFilterSQL subject f r \<longleftrightarrow>
     (case fi_living_area_pct f of
        Some p \<Rightarrow> sp_living_area subject > 0 \<longrightarrow>
          between (go_int (sp_living_area subject * (1 - p / 100))) (go_int (sp_living_area subject * (1 + p / 100))) (lr_living_area r)
      | None \<Rightarrow> True) \<and>
     (case fi_beds_tolerance f of
        Some t \<Rightarrow> between (max 0 (go_int (sp_bedrooms subject - t))) (go_int (sp_bedrooms subject + t)) (map_option of_int (lr_bedrooms r))
      | None \<Rightarrow> True)"

definition mirror_match ::
  "(real \<times> real \<Rightarrow> real \<times> real \<Rightarrow> real \<Rightarrow> bool) \<Rightarrow> string \<Rightarrow> subject_profile \<Rightarrow> string list \<Rightarrow> scope_input \<Rightarrow> filters_input \<Rightarrow> bool \<Rightarrow> mirror_row \<Rightarrow> bool" where
  "mirror_match dwithin dataset subject statuses scope filters rentalOnly row = (let r = mr_rec row in
     lr_dataset r = dataset \<and>
     (statuses \<noteq> [] \<longrightarrow> to_lower (pg_trim (given (lr_status r) [])) \<in> set (map (\<lambda>s. to_lower (trim_space s)) statuses)) \<and>
     (if sc_type scope = ''zip'' \<and> sc_postal_codes scope \<noteq> []
      then (case text_column r ''PostalCode'' of Some z \<Rightarrow> z \<in> set (sc_postal_codes scope) | None \<Rightarrow> False)
      else case sc_radius scope of
          Some miles \<Rightarrow> miles > 0 \<longrightarrow> (case mr_coordinates row of
              Some p \<Rightarrow> dwithin p (sp_lat subject, sp_lng subject) (miles * (160934 / 100)) | None \<Rightarrow> False)
        | None \<Rightarrow> True) \<and>
     (sp_listing_key subject \<noteq> [] \<longrightarrow> lr_key r \<noteq> sp_listing_key subject) \<and>
     (if rentalOnly then like_lease (text_column r ''PropertyType'') \<or> like_lease (text_column r ''PropertySubType'')
      else \<not> like_lease (text_column r ''PropertyType'')) \<and>
     applyFilterSQL subject filters r)"

text \<open>\<^verbatim>\<open>ORDER BY modification_timestamp DESC NULLS LAST\<close>.\<close>

definition newest_first :: "mirror_row list \<Rightarrow> mirror_row list" where
  "newest_first rows = (let stamp = (\<lambda>row. lr_modified (mr_rec row)) in
     sort_key (\<lambda>row. - the (stamp row)) (filter (\<lambda>row. stamp row \<noteq> None) rows) @ filter (\<lambda>row. stamp row = None) rows)"

text \<open>Only the media are attached: the other \<^verbatim>\<open>Has\<close> flags are not set.\<close>

definition mirror_comp :: "(json \<Rightarrow> string) \<Rightarrow> subject_profile \<Rightarrow> mirror_row \<Rightarrow> comp_record" where
  "mirror_comp marshal subject row =
     (let r = mr_rec row;
          c = parseProperty marshal (MergeMirrorListing (lr_raw r) (no_payload\<lparr>ep_media := ep_media (lr_payloads r)\<rparr>) (lr_custom r));
          c = c\<lparr>c_key := lr_key r, c_status := given (lr_status r) [], c_list_price := lr_list_price r\<rparr>;
          c = (case (lr_lat r, lr_lng r) of (Some la, Some lo) \<Rightarrow> c\<lparr>c_lat := la, c_lng := lo\<rparr> | _ \<Rightarrow> c)
      in with_distance subject c)"

text \<open>A NULL status cannot be scanned into a string.\<close>

definition findMirrorComps ::
  "(json \<Rightarrow> string) \<Rightarrow> (real \<times> real \<Rightarrow> real \<times> real \<Rightarrow> real \<Rightarrow> bool) \<Rightarrow> string \<Rightarrow> subject_profile \<Rightarrow> string list \<Rightarrow> scope_input \<Rightarrow>
   filters_input \<Rightarrow> int \<Rightarrow> bool \<Rightarrow> ('z sdb_scheme, comp_record list) go" where
  "findMirrorComps marshal dwithin dataset subject statuses scope filters limit0 rentalOnly =
     (let limit = (if limit0 \<le> 0 then 25 else limit0) in
      go_bind (sql (\<lambda>s. Some (take (nat limit) (newest_first
        (filter (mirror_match dwithin dataset subject statuses scope filters rentalOnly) (listings s))), s))) (\<lambda>rows.
      if \<exists>row \<in> set rows. lr_status (mr_rec row) = None then go_fail (Err ''cannot scan NULL into *string'')
      else go_ret (map (mirror_comp marshal subject) rows)))"

section \<open>Subjects\<close>

definition mirror_subject :: "(json \<Rightarrow> string) \<Rightarrow> string \<Rightarrow> subject_input \<Rightarrow> listing_record \<Rightarrow> subject_profile" where
  "mirror_subject marshal key inp r =
     (let merged = MergeMirrorListing (lr_raw r) (lr_payloads r) (lr_custom r); c = parseProperty marshal merged;
          sub = zero_subject\<lparr>sp_type := ''mls'', sp_listing_key := key, sp_listing_id := si_listing_id inp, sp_lat := c_lat c,
            sp_lng := c_lng c, sp_bedrooms := c_bedrooms c, sp_bathrooms := c_bathrooms c, sp_living_area := c_living_area c,
            sp_lot_acres := c_lot_acres c, sp_year_built := c_year_built c, sp_garage := c_garage c, sp_pool := c_pool c,
            sp_waterfront := c_waterfront c, sp_monthly_fees := c_monthly_fees c, sp_flood_zone := c_flood_zone c, sp_raw := merged,
            sp_list_price := lr_list_price r\<rparr>
      in applySubjectOverrides (sub\<lparr>sp_lat := given (si_lat inp) (sp_lat sub), sp_lng := given (si_lng inp) (sp_lng sub)\<rparr>) inp)"

definition subjectFromMLS :: "(json \<Rightarrow> string) \<Rightarrow> string \<Rightarrow> subject_input \<Rightarrow> ('z sdb_scheme, subject_profile) go" where
  "subjectFromMLS marshal dataset inp = (case parseListingRef (si_listing_id inp) dataset of (ds, key) \<Rightarrow>
     if key = [] then go_fail (Err ''subject.listing_id is required for mls subject'')
     else go_bind (go_try (sql (\<lambda>s. Some (find (\<lambda>row. lr_dataset (mr_rec row) = ds \<and> lr_key (mr_rec row) = key) (listings s), s)))) (\<lambda>found.
       case found of
         Inr (Some row) \<Rightarrow> (let sub = mirror_subject marshal key inp (mr_rec row) in
           if sp_lat sub = 0 \<or> sp_lng sub = 0 then go_fail (Err ''subject listing has no coordinates'') else go_ret sub)
       | _ \<Rightarrow> go_fail (Err (''subject listing not found in mirror: '' @ key))))"

definition go_result :: "go_error + 'a \<Rightarrow> ('s, 'a) go" where
  "go_result r = (\<lambda>s. (r, s))"

definition resolveSubject :: "(json \<Rightarrow> string) \<Rightarrow> string \<Rightarrow> subject_input \<Rightarrow> ('z sdb_scheme, subject_profile) go" where
  "resolveSubject marshal dataset inp0 =
     (let inp = mergeSubjectAliases inp0; t = to_lower (trim_space (si_type inp)) in
      if t = [] \<or> t = ''mls'' then subjectFromMLS marshal dataset inp
      else if t = ''off_market'' then go_result (subjectFromOffMarket inp)
      else go_fail (Err ''subject.type must be mls or off_market''))"

text \<open>The geocoder: the payload of the service is decoded as the nested struct of the source.\<close>

definition dec_num :: "real \<Rightarrow> json \<Rightarrow> real option" where
  "dec_num acc v = (case v of JNum x \<Rightarrow> Some x | JNull \<Rightarrow> Some acc | _ \<Rightarrow> None)"

definition dec_location :: "real \<times> real \<Rightarrow> json \<Rightarrow> (real \<times> real) option" where
  "dec_location acc v = (case struct_fields (RawJson v) of None \<Rightarrow> None
     | Some kvs \<Rightarrow> (case (decode_field dec_num (fst acc) ''lat'' kvs, decode_field dec_num (snd acc) ''lng'' kvs) of
         (Some la, Some lo) \<Rightarrow> Some (la, lo) | _ \<Rightarrow> None))"

definition dec_nested :: "('a \<Rightarrow> json \<Rightarrow> 'a option) \<Rightarrow> string \<Rightarrow> 'a \<Rightarrow> json \<Rightarrow> 'a option" where
  "dec_nested d name acc v = (case struct_fields (RawJson v) of None \<Rightarrow> None | Some kvs \<Rightarrow> decode_field d acc name kvs)"

definition dec_results :: "(real \<times> real) list \<Rightarrow> json \<Rightarrow> (real \<times> real) list option" where
  "dec_results acc v = (case v of JNull \<Rightarrow> Some []
     | JArr js \<Rightarrow> those (map (dec_nested (dec_nested dec_location ''location'') ''geometry'' (0, 0)) js) | _ \<Rightarrow> None)"

definition Geocode :: "string \<Rightarrow> string \<Rightarrow> ('z fdb_scheme, real \<times> real) go" where
  "Geocode apiKey0 address0 = (let apiKey = trim_space apiKey0; address = trim_space address0 in
     if apiKey = [] then go_fail (Err ''GOOGLE_MAPS_GEOCODING_API_KEY is not configured'')
     else if address = [] then go_fail (Err ''address is required'')
     else go_bind (http_get (request_url ''https://maps.googleapis.com/maps/api/geocode/json''
         (query_set ''key'' apiKey (query_set ''address'' address [])))) (\<lambda>resp.
       if http_status resp \<ge> 400 then go_fail (Err (''geocoding upstream status '' @ show_int (http_status resp)))
       else case struct_fields (http_body resp) of
         None \<Rightarrow> go_fail (Err ''invalid JSON'')
       | Some kvs \<Rightarrow> (case (decode_field dec_string [] ''status'' kvs, decode_field dec_results [] ''results'' kvs) of
           (Some status, Some results) \<Rightarrow>
             (if status \<noteq> ''OK'' \<or> results = [] then go_fail (Err (''geocoding failed: '' @ status)) else go_ret (hd results))
         | _ \<Rightarrow> go_fail (Err ''invalid JSON''))))"

definition resolveHomeValueSubject :: "(json \<Rightarrow> string) \<Rightarrow> comps_config \<Rightarrow> string \<Rightarrow> subject_input \<Rightarrow> ('z fdb_scheme, subject_profile) go" where
  "resolveHomeValueSubject marshal cfg dataset inp =
     (if trim_space (si_listing_id inp) \<noteq> [] then
        (let inp = inp\<lparr>si_type := ''mls''\<rparr> in
         go_bind (subjectFromMLS marshal dataset inp) (\<lambda>sub. go_ret (applyDerivedCondition marshal sub inp)))
      else if (case si_address inp of Some a \<Rightarrow> trim_space a \<noteq> [] | None \<Rightarrow> False) then
        go_bind (Geocode (cc_maps_key cfg) (given (si_address inp) [])) (\<lambda>(lat, lng).
          go_result (subjectFromOffMarket (inp\<lparr>si_type := ''off_market'', si_lat := Some lat, si_lng := Some lng\<rparr>)))
      else if si_lat inp \<noteq> None \<and> si_lng inp \<noteq> None then go_result (subjectFromOffMarket (inp\<lparr>si_type := ''off_market''\<rparr>))
      else go_fail (Err ''home_value requires listing_id or address with geocodable details''))"

section \<open>Rentals\<close>

definition rental_price :: "comp_record \<Rightarrow> real" where
  "rental_price c = (if c_close_price c = 0 then c_list_price c else c_close_price c)"

definition rental_comp :: "(json \<Rightarrow> string) \<Rightarrow> raw_message \<Rightarrow> comp_record" where
  "rental_comp marshal raw =
     (let c = parseProperty marshal raw; p = rental_price c;
          p = (if equal_fold (strFromRaw marshal raw ''LeaseAmountFrequency'') ''Annually'' \<and> p > 0 then p / 12 else p)
      in c\<lparr>c_close_price := p, c_list_price := p\<rparr>)"

definition parseRentalCompRecords :: "(json \<Rightarrow> string) \<Rightarrow> raw_message list \<Rightarrow> subject_profile \<Rightarrow> scope_input \<Rightarrow> comp_record list" where
  "parseRentalCompRecords marshal rows subject scope =
     filter (in_radius scope) (map (\<lambda>r. with_distance subject (rental_comp marshal r))
       (filter (\<lambda>r. let c = parseProperty marshal r in c_key c \<noteq> sp_listing_key subject \<and> rental_price c > 0) rows))"

text \<open>The comparables that were found, and the error if the search of the mirror failed.\<close>

definition fetchRentalComps ::
  "(json \<Rightarrow> string) \<Rightarrow> (real \<times> real \<Rightarrow> real \<times> real \<Rightarrow> real \<Rightarrow> bool) \<Rightarrow> comps_config \<Rightarrow> feed_definition \<Rightarrow> subject_profile \<Rightarrow> scope_input \<Rightarrow> int \<Rightarrow>
   ('z fdb_scheme, comp_record list \<times> go_error option) go" where
  "fetchRentalComps marshal dwithin cfg feed subject scope limit0 =
     (let limit = (if limit0 \<le> 0 then 20 else limit0); failed = (\<lambda>e. go_ret ([], Some e)) in
      case LiveResoPropertyEndpoint (cc_feeds cfg) feed of
        None \<Rightarrow> failed (Err ''MLS credentials are not configured'')
      | Some (url, bearer) \<Rightarrow>
         (let parts = [''PropertyType eq '' @ [CHR 0x27] @ ''Residential Lease'' @ [CHR 0x27],
                       ''StandardStatus eq '' @ [CHR 0x27] @ ''Closed'' @ [CHR 0x27]] @ geoFilterParts subject scope in
         go_bind (go_try (getReso (request_url url (closed_query parts limit)))) (\<lambda>r. case r of
           Inl e \<Rightarrow> failed e
         | Inr resp \<Rightarrow>
            (if http_status resp \<ge> 400
             then failed (Err (''live MLS rental comps status '' @ show_int (http_status resp) @ '' for feed '' @ fd_code feed))
             else case parse_value (http_body resp) of
               None \<Rightarrow> failed (Err ''invalid JSON'')
             | Some rows \<Rightarrow> (let closed = parseRentalCompRecords marshal rows subject scope in
                 go_bind (go_try (findMirrorComps marshal dwithin (fd_dataset feed) subject [''active'', ''pending''] scope no_filters limit True)) (\<lambda>m.
                 case m of Inl e \<Rightarrow> go_ret (closed, Some e) | Inr active \<Rightarrow> go_ret (closed @ active, None)))))))"

definition medianRent :: "comp_record list \<Rightarrow> real" where
  "medianRent rentals = (let vals = filter (\<lambda>p. p > 0) (map c_close_price rentals) in if vals = [] then 0 else mean vals)"

definition ParseRentalParams :: "raw_message \<Rightarrow> string \<Rightarrow> real" where
  "ParseRentalParams raw k = (case unmarshal_map raw of None \<Rightarrow> 0 | Some m \<Rightarrow> num (lookup_any m k))"

definition monthly_payment :: "real \<Rightarrow> real \<Rightarrow> real \<Rightarrow> real" where
  "monthly_payment loan monthlyRate payments =
     (if monthlyRate > 0 \<and> payments > 0
      then (let factor = (1 + monthlyRate) powr payments in loan * (monthlyRate * factor) / (factor - 1)) else 0)"

section \<open>Responses\<close>

record rental_result =
  rr_rent :: real
  rr_mortgage :: real
  rr_cashflow :: real
  rr_purchase :: real

record flip_result =
  fr_profit :: real
  fr_arv :: real
  fr_hold :: real
  fr_recommendation :: string

record simulation_result =
  sr_indicated :: real
  sr_low :: real
  sr_high :: real
  sr_risk :: real
  sr_band :: string
  sr_count :: nat

record bpo_report =
  bo_recon :: bpo_result
  bo_rates :: bpo_rates
  bo_grids :: "comp_grid list"
  bo_credits :: "renovation_credit list"
  bo_credit_total :: real
  bo_count :: nat

record home_value_result =
  hr_estimate :: real
  hr_low :: real
  hr_high :: real
  hr_confidence :: real
  hr_count :: nat
  hr_condition :: string
  hr_rates :: bpo_rates
  hr_credits :: "renovation_credit list"
  hr_credit_total :: real

record run_response =
  rs_subject :: subject_profile
  rs_sold :: "comp_record list"
  rs_competition :: "comp_record list"
  rs_rentals :: "comp_record list"
  rs_market :: "market_conditions option"
  rs_overpriced :: "overpriced list"
  rs_rental :: "rental_result option"
  rs_flip :: "flip_result option"
  rs_simulation :: "simulation_result option"
  rs_bpo :: "bpo_report option"
  rs_home_value :: "home_value_result option"
  rs_mode :: string
  rs_feed :: feed_definition
  rs_warnings :: "string list"

definition empty_response :: "string \<Rightarrow> feed_definition \<Rightarrow> subject_profile \<Rightarrow> run_response" where
  "empty_response mode feed subject = \<lparr>rs_subject = subject, rs_sold = [], rs_competition = [], rs_rentals = [], rs_market = None,
     rs_overpriced = [], rs_rental = None, rs_flip = None, rs_simulation = None, rs_bpo = None, rs_home_value = None,
     rs_mode = mode, rs_feed = feed, rs_warnings = []\<rparr>"

text \<open>\<^verbatim>\<open>err.Error()\<close>; the text of a database error comes from the driver.\<close>

definition err_text :: "go_error \<Rightarrow> string" where
  "err_text e = (case e of DbErr \<Rightarrow> ''database error'' | Err m \<Rightarrow> m)"

definition warn :: "string \<Rightarrow> run_response \<Rightarrow> run_response" where
  "warn msg r = r\<lparr>rs_warnings := rs_warnings r @ [msg]\<rparr>"

section \<open>Modes\<close>

definition scoreKeywords :: "(raw_message \<Rightarrow> string) \<Rightarrow> comp_record list \<Rightarrow> string list \<Rightarrow> comp_record list" where
  "scoreKeywords raw_text comps keywords = (if keywords = [] then comps
     else map (\<lambda>c. let text = to_lower (raw_text (c_property c)) in
       c\<lparr>c_keyword_score := real (length (filter (\<lambda>kw. kw \<noteq> [] \<and> contains_sub text kw) (map (\<lambda>k. to_lower (trim_space k)) keywords)))\<rparr>) comps)"

definition runSalesModes ::
  "(json \<Rightarrow> string) \<Rightarrow> (raw_message \<Rightarrow> string) \<Rightarrow> (real \<times> real \<Rightarrow> real \<times> real \<Rightarrow> real \<Rightarrow> bool) \<Rightarrow> comps_config \<Rightarrow> string \<Rightarrow> feed_definition \<Rightarrow>
   run_request \<Rightarrow> subject_profile \<Rightarrow> run_response \<Rightarrow> ('z cdb_scheme, run_response) go" where
  "runSalesModes marshal raw_text dwithin cfg domainSlug feed req subject resp0 =
     (let f = rq_filters req; scope = rq_scope req in
      go_bind (go_try (fetchSoldComps marshal cfg domainSlug feed subject scope f (given (fi_max_sold f) 12))) (\<lambda>r.
      let resp1 = (case r of Inl e \<Rightarrow> warn (''sold comps partial: '' @ err_text e) resp0 | Inr _ \<Rightarrow> resp0);
          sold = applyAdjustments subject (case r of Inl e \<Rightarrow> [] | Inr cs \<Rightarrow> cs) f in
      go_bind (if equal_fold (rq_mode req) ''C'' \<or> given (fi_include_active f) False
               then go_bind (go_try (findMirrorComps marshal dwithin (fd_dataset feed) subject [''active'', ''pending''] scope f
                      (given (fi_max_competition f) 20) False)) (\<lambda>m.
                    go_ret (case m of Inl e \<Rightarrow> warn (err_text e) resp1 | Inr found \<Rightarrow> resp1\<lparr>rs_competition := found\<rparr>))
               else go_ret resp1) (\<lambda>resp.
      go_ret (resp\<lparr>rs_sold := (if equal_fold (rq_mode req) ''D'' \<or> equal_fold (rq_mode req) ''E''
                     then scoreKeywords raw_text sold (rq_keywords req) else sold),
                   rs_market := Some (marketConditions sold (given (fi_sold_months f) 12)),
                   rs_overpriced := (if given (fi_include_overpriced f) False then overpricedSignals (rs_competition resp) sold else [])\<rparr>))))"

definition param_or :: "(string \<Rightarrow> real) \<Rightarrow> string \<Rightarrow> real \<Rightarrow> real" where
  "param_or params k d = (if params k = 0 then d else params k)"

definition rental_figures :: "(string \<Rightarrow> real) \<Rightarrow> subject_profile \<Rightarrow> comp_record list \<Rightarrow> rental_result" where
  "rental_figures params subject rentals =
     (let purchase = param_or params ''purchase_price'' (sp_list_price subject);
          downPct = param_or params ''down_payment_percent'' 20;
          rate = param_or params ''interest_rate'' 7;
          term = param_or params ''loan_term_years'' 30;
          loan = purchase * (1 - downPct / 100);
          mortgage = monthly_payment loan (rate / 100 / 12) (term * 12);
          rent = medianRent rentals;
          hoa = param_or params ''monthly_hoa'' (sp_monthly_fees subject);
          cashflow = rent - mortgage - params ''annual_tax'' / 12 - params ''annual_insurance'' / 12 - hoa
      in \<lparr>rr_rent = round2 rent, rr_mortgage = round2 mortgage, rr_cashflow = round2 cashflow, rr_purchase = purchase\<rparr>)"

definition runRentHold ::
  "(json \<Rightarrow> string) \<Rightarrow> (real \<times> real \<Rightarrow> real \<times> real \<Rightarrow> real \<Rightarrow> bool) \<Rightarrow> comps_config \<Rightarrow> feed_definition \<Rightarrow>
   run_request \<Rightarrow> subject_profile \<Rightarrow> run_response \<Rightarrow> ('z fdb_scheme, run_response) go" where
  "runRentHold marshal dwithin cfg feed req subject resp =
     go_bind (fetchRentalComps marshal dwithin cfg feed subject (rq_scope req) 25) (\<lambda>(rentals, err).
     go_ret ((case err of Some e \<Rightarrow> warn (err_text e) resp | None \<Rightarrow> resp\<lparr>rs_rentals := rentals\<rparr>)
       \<lparr>rs_rental := Some (rental_figures (ParseRentalParams (rq_rental req)) subject rentals)\<rparr>))"

definition flip_figures :: "(string \<Rightarrow> real) \<Rightarrow> subject_profile \<Rightarrow> real \<Rightarrow> rental_result option \<Rightarrow> flip_result" where
  "flip_figures flip subject arv rental =
     (let purchase = param_or flip ''purchase_price'' (sp_list_price subject);
          sellCosts = arv * (param_or flip ''closing_costs_sell_pct'' 7 / 100);
          flipProfit = arv - purchase - flip ''rehab_budget'' - sellCosts;
          holdCash = (case rental of Some r \<Rightarrow> rr_cashflow r * 12 | None \<Rightarrow> 0)
      in \<lparr>fr_profit = round2 flipProfit, fr_arv = arv, fr_hold = round2 holdCash,
          fr_recommendation = (if flipProfit > holdCash then ''flip'' else ''hold'')\<rparr>)"

definition runFlipVsHold ::
  "(json \<Rightarrow> string) \<Rightarrow> (real \<times> real \<Rightarrow> real \<times> real \<Rightarrow> real \<Rightarrow> bool) \<Rightarrow> comps_config \<Rightarrow> string \<Rightarrow> feed_definition \<Rightarrow>
   run_request \<Rightarrow> subject_profile \<Rightarrow> run_response \<Rightarrow> ('z cdb_scheme, run_response) go" where
  "runFlipVsHold marshal dwithin cfg domainSlug feed req subject resp =
     go_bind (runRentHold marshal dwithin cfg feed req subject resp) (\<lambda>rentResp.
     go_bind (go_try (fetchSoldComps marshal cfg domainSlug feed subject (rq_scope req) (rq_filters req) 12)) (\<lambda>r.
     let sold = applyAdjustments subject (case r of Inl e \<Rightarrow> [] | Inr cs \<Rightarrow> cs) (rq_filters req) in
     go_ret (rentResp\<lparr>rs_flip := Some (flip_figures (ParseRentalParams (rq_flip req)) subject (medianPrice sold) (rs_rental rentResp)),
       rs_sold := sold\<rparr>)))"

definition monthsBackFilters :: "filters_input \<Rightarrow> int option \<Rightarrow> int" where
  "monthsBackFilters f bpoMonths = (case bpoMonths of Some m \<Rightarrow> (if m > 0 then m else given (fi_sold_months f) 12)
     | None \<Rightarrow> given (fi_sold_months f) 12)"

definition add_credits :: "real \<Rightarrow> bpo_result \<Rightarrow> bpo_result" where
  "add_credits renoTotal recon = (if renoTotal > 0
     then recon\<lparr>br_point := round2 (br_point recon + renoTotal), br_low := round2 (br_low recon + renoTotal * (9 / 10)),
       br_high := round2 (br_high recon + renoTotal * (11 / 10))\<rparr> else recon)"

text \<open>The part of \<^verbatim>\<open>runBPOMode\<close> after the comparables have been fetched.\<close>

definition bpo_of :: "int \<Rightarrow> bpo_params \<Rightarrow> subject_profile \<Rightarrow> comp_record list \<Rightarrow> comp_record list \<times> bpo_report" where
  "bpo_of now bp subject sold0 =
     (let sold1 = (case bp_zscore bp of Some z \<Rightarrow> (if z > 0 then filterOutlierZScore sold0 z else sold0) | None \<Rightarrow> sold0);
          rates = extractMarketRates now sold1 (given (bp_min_regression bp) 6) in
      case applyURARGrid now subject sold1 rates of (sold, grids0) \<Rightarrow>
        let grids = map2 (\<lambda>c g. g\<lparr>cg_weight := round2 (compReconcileWeight now subject c g)\<rparr>) sold grids0;
            reno = renovationCredits now subject rates; renoTotal = sumRenovationCredits reno;
            recon = add_credits renoTotal (reconcileBPO now subject sold grids rates) in
        (sold, \<lparr>bo_recon = recon, bo_rates = rates, bo_grids = grids, bo_credits = reno, bo_credit_total = renoTotal,
           bo_count = length sold\<rparr>))"

definition runBPOMode ::
  "(json \<Rightarrow> string) \<Rightarrow> comps_config \<Rightarrow> string \<Rightarrow> feed_definition \<Rightarrow> run_request \<Rightarrow> subject_profile \<Rightarrow> run_response \<Rightarrow> ('z cdb_scheme, run_response) go" where
  "runBPOMode marshal cfg domainSlug feed req subject resp =
     (let f = rq_filters req; bp = rq_bpo req; mx = (case fi_max_sold f of Some m \<Rightarrow> m | None \<Rightarrow> given (bp_max_comps bp) 8) in
      go_bind (fetchSoldComps marshal cfg domainSlug feed subject (rq_scope req) f mx) (\<lambda>fetched.
      go_bind go_now (\<lambda>now.
      case bpo_of now bp subject fetched of (sold, bo) \<Rightarrow>
        let w1 = (if length fetched < 3 then [''insufficient sold comps for BPO; using median PPSF fallback''] else []);
            w3 = (case bp_confidence bp of Some t \<Rightarrow> (if br_confidence (bo_recon bo) < t then [''BPO confidence below requested threshold''] else []) | None \<Rightarrow> []) in
        go_ret (resp\<lparr>rs_sold := sold, rs_bpo := Some bo, rs_market := Some (marketConditions sold (monthsBackFilters f (bp_sold_months bp))),
          rs_warnings := rs_warnings resp @ w1 @ r_warnings (bo_rates bo) @ w3\<rparr>))))"

definition homeValueConfidence :: "nat \<Rightarrow> real" where
  "homeValueConfidence n = (if 8 \<le> n then 80 else if 5 \<le> n then 65 else if 3 \<le> n then 50 else 30)"

text \<open>The part of \<^verbatim>\<open>runHomeValueMode\<close> after the comparables have been fetched.\<close>

definition home_value_of :: "int \<Rightarrow> subject_profile \<Rightarrow> comp_record list \<Rightarrow> comp_record list \<times> home_value_result" where
  "home_value_of now subject sold0 =
     (let rates = extractMarketRates now sold0 6 in
      case applyURARGrid now subject sold0 rates of (sold, grids) \<Rightarrow>
        let recon = reconcileBPO now subject sold grids rates;
            reno = renovationCredits now subject rates; renoTotal = sumRenovationCredits reno;
            estimate0 = br_point recon + renoTotal;
            estimate = (if estimate0 \<le> 0 then medianPrice sold else estimate0);
            low = (if estimate0 \<le> 0 then round2 (estimate * (95 / 100)) else br_low recon + renoTotal * (9 / 10));
            high = (if estimate0 \<le> 0 then round2 (estimate * (105 / 100)) else br_high recon + renoTotal * (11 / 10)) in
        (sold, \<lparr>hr_estimate = round2 estimate, hr_low = round2 low, hr_high = round2 high,
           hr_confidence = max (homeValueConfidence (length sold)) (br_confidence recon), hr_count = length sold,
           hr_condition = sp_condition subject, hr_rates = rates, hr_credits = reno, hr_credit_total = renoTotal\<rparr>))"

definition runHomeValueMode ::
  "(json \<Rightarrow> string) \<Rightarrow> comps_config \<Rightarrow> string \<Rightarrow> feed_definition \<Rightarrow> run_request \<Rightarrow> subject_profile \<Rightarrow> run_response \<Rightarrow> ('z cdb_scheme, run_response) go" where
  "runHomeValueMode marshal cfg domainSlug feed req subject resp =
     (let hv = rq_home_value req; f = (case hv_sold_months hv of Some m \<Rightarrow> (rq_filters req)\<lparr>fi_sold_months := Some m\<rparr> | None \<Rightarrow> rq_filters req) in
      go_bind (fetchSoldComps marshal cfg domainSlug feed subject (rq_scope req) f (given (hv_max_comps hv) 25)) (\<lambda>fetched.
      go_bind go_now (\<lambda>now.
      case home_value_of now subject fetched of (sold, hr) \<Rightarrow>
        go_ret (resp\<lparr>rs_sold := sold, rs_home_value := Some hr,
          rs_market := Some (marketConditions sold (monthsBackFilters f (hv_sold_months hv)))\<rparr>))))"

definition appraiserRisk :: "nat \<Rightarrow> real" where
  "appraiserRisk n = (if 6 \<le> n then 25 else if 3 \<le> n then 45 else 70)"

definition riskBand :: "nat \<Rightarrow> string" where
  "riskBand n = (if 6 \<le> n then ''low'' else if 3 \<le> n then ''moderate'' else ''high'')"

definition simulation_of :: "comp_record list \<Rightarrow> simulation_result" where
  "simulation_of sold =
     (let indicated = (if sold = [] then medianPrice sold
            else round2 (mean (map (\<lambda>c. if c_adjusted c = 0 then c_close_price c else c_adjusted c) sold))) in
      \<lparr>sr_indicated = indicated, sr_low = round2 (indicated * (97 / 100)), sr_high = round2 (indicated * (103 / 100)),
       sr_risk = appraiserRisk (length sold), sr_band = riskBand (length sold), sr_count = length sold\<rparr>)"

definition runAppraiserSim ::
  "(json \<Rightarrow> string) \<Rightarrow> comps_config \<Rightarrow> string \<Rightarrow> feed_definition \<Rightarrow> run_request \<Rightarrow> subject_profile \<Rightarrow> run_response \<Rightarrow> ('z cdb_scheme, run_response) go" where
  "runAppraiserSim marshal cfg domainSlug feed req subject resp =
     go_bind (fetchSoldComps marshal cfg domainSlug feed subject (rq_scope req) (rq_filters req) 12) (\<lambda>fetched.
     let sold = applyAdjustments subject fetched (rq_filters req) in
     go_ret (resp\<lparr>rs_sold := sold, rs_simulation := Some (simulation_of sold)\<rparr>))"

section \<open>Running a request\<close>

definition validateRequest :: "run_request \<Rightarrow> go_error option" where
  "validateRequest req = (let scope = rq_scope req in
     if trim_space (rq_mode req) = [] then Some (Err ''mode is required'')
     else if trim_space (sc_type scope) = [] then Some (Err ''scope.type is required'')
     else if sc_type scope = ''radius'' \<and> (case sc_radius scope of None \<Rightarrow> True | Some r \<Rightarrow> r \<le> 0)
       then Some (Err ''scope.radius_miles is required for radius scope'')
     else if sc_type scope = ''zip'' \<and> sc_postal_codes scope = [] then Some (Err ''scope.postal_codes is required for zip scope'')
     else None)"

definition comps_run ::
  "(json \<Rightarrow> string) \<Rightarrow> (raw_message \<Rightarrow> string) \<Rightarrow> (real \<times> real \<Rightarrow> real \<times> real \<Rightarrow> real \<Rightarrow> bool) \<Rightarrow> comps_config \<Rightarrow> string \<Rightarrow> string \<Rightarrow> run_request \<Rightarrow>
   ('z cdb_scheme, run_response) go" where
  "comps_run marshal raw_text dwithin cfg domainSlug feedCode req = (case validateRequest req of
      Some e \<Rightarrow> go_fail e
    | None \<Rightarrow>
       (let feed = FeedDefinitionFromCode (cc_feeds cfg) feedCode; mode = to_lower (trim_space (rq_mode req)) in
        go_bind (if mode = ''home_value'' then resolveHomeValueSubject marshal cfg (fd_dataset feed) (rq_subject req)
                 else resolveSubject marshal (fd_dataset feed) (rq_subject req)) (\<lambda>subject.
        let resp = empty_response (rq_mode req) feed subject in
        if mode \<in> set [''a'', ''b'', ''c'', ''d'', ''e''] then runSalesModes marshal raw_text dwithin cfg domainSlug feed req subject resp
        else if mode = ''rent_hold_cashflow'' then runRentHold marshal dwithin cfg feed req subject resp
        else if mode = ''flip_vs_hold'' then runFlipVsHold marshal dwithin cfg domainSlug feed req subject resp
        else if mode = ''appraiser_simulation'' then runAppraiserSim marshal cfg domainSlug feed req subject resp
        else if mode = ''bpo'' then runBPOMode marshal cfg domainSlug feed req subject resp
        else if mode = ''home_value'' then runHomeValueMode marshal cfg domainSlug feed req subject resp
        else go_fail (Err (''unsupported mode '' @ rq_mode req)))))"

definition isValidationErr :: "go_error \<Rightarrow> bool" where
  "isValidationErr e = (let msg = err_text e in
     contains_sub msg ''required'' \<or> contains_sub msg ''must be'' \<or> contains_sub msg ''unsupported'')"

text \<open>The HTTP answer of \<^verbatim>\<open>Service.Run\<close> for a request that could be decoded.\<close>

definition comps_answer ::
  "(json \<Rightarrow> string) \<Rightarrow> (raw_message \<Rightarrow> string) \<Rightarrow> (real \<times> real \<Rightarrow> real \<times> real \<Rightarrow> real \<Rightarrow> bool) \<Rightarrow> comps_config \<Rightarrow> string \<Rightarrow> string \<Rightarrow> run_request \<Rightarrow>
   ('z cdb_scheme, run_response http) go" where
  "comps_answer marshal raw_text dwithin cfg domainSlug feedCode req =
     go_bind (go_try (comps_run marshal raw_text dwithin cfg domainSlug feedCode req)) (\<lambda>r. go_ret (case r of
       Inl e \<Rightarrow> Inl (if isValidationErr e then 422 else 502, err_text e) | Inr resp \<Rightarrow> Inr resp))"

section \<open>The cache as an interface\<close>

text \<open>A property of the cache's rows that survives writes for one domain and feed survives every request of that
  domain and feed, whatever statements or requests fail.\<close>

locale cache_law =
  fixes Q :: "closed_row list \<Rightarrow> bool" and dom_slug :: string and code :: string
  assumes upsert: "Q rows \<Longrightarrow> cr_domain r = dom_slug \<Longrightarrow> cr_feed r = code \<Longrightarrow> Q (upsert_closed r rows)"
begin

lemma keeps_now_cache [intro!]: "keeps (\<lambda>s. Q (closed_cache s)) go_now"
  by (rule keeps_now) simp

lemma keeps_read_cache [intro!]: "keeps (\<lambda>s. Q (closed_cache s)) (sql (\<lambda>s. Some (g s, s)))"
  by (rule keeps_sql) auto

lemma keeps_http_cache [intro!]: "keeps (\<lambda>s. Q (closed_cache s)) (http_get u)"
  unfolding http_get_def by (intro keeps_bind keeps_now_cache keepsI) (auto simp: Let_def split: list.splits http_reply.splits)

lemma keeps_write_cache [intro!]: "keeps (\<lambda>s. Q (closed_cache s)) (UpsertClosedBatch dom_slug code rows)"
  unfolding UpsertClosedBatch_def store_closed_def
  by (intro keeps_if keeps_ret keeps_bind keeps_now_cache keeps_each keeps_sql)
     (auto simp: Let_def closed_row_of_def intro: upsert split: if_splits)

lemma keeps_result_cache [intro!]: "keeps (\<lambda>s. Q (closed_cache s)) (go_result r)"
  by (simp add: keeps_def go_result_def)

lemmas cache_rules = keeps_bind keeps_ret keeps_fail keeps_try keeps_ignore keeps_if keeps_case_option keeps_case_sum
  keeps_now_cache keeps_read_cache keeps_http_cache keeps_write_cache keeps_result_cache

lemma keeps_live_cache [intro!]: "keeps (\<lambda>s. Q (closed_cache s)) (fetchSoldCompsLive marshal cfg feed subject scope filters limit)"
  unfolding fetchSoldCompsLive_def getReso_def Let_def by (intro cache_rules | simp only: prod.case_eq_if)+

lemma keeps_hit_cache [intro!]: "keeps (\<lambda>s. Q (closed_cache s)) (cache_hit marshal cfg d feed subject scope cutoff limit)"
  unfolding cache_hit_def FindClosedInScope_def Let_def by (intro cache_rules)

lemma keeps_sold_cache:
  assumes "fd_code feed = code"
  shows "keeps (\<lambda>s. Q (closed_cache s)) (fetchSoldComps marshal cfg dom_slug feed subject scope filters limit)"
  unfolding fetchSoldComps_def writeThroughClosedCache_def Let_def assms
  by (intro cache_rules keeps_hit_cache keeps_live_cache)

lemma keeps_mirror_cache [intro!]: "keeps (\<lambda>s. Q (closed_cache s)) (findMirrorComps marshal dw ds subject sts scope filters limit b)"
  unfolding findMirrorComps_def Let_def by (intro cache_rules)

lemma keeps_rental_cache [intro!]: "keeps (\<lambda>s. Q (closed_cache s)) (fetchRentalComps marshal dw cfg feed subject scope limit)"
  unfolding fetchRentalComps_def getReso_def Let_def by (intro cache_rules keeps_mirror_cache | simp only: prod.case_eq_if)+

lemma keeps_subject_cache [intro!]:
  "keeps (\<lambda>s. Q (closed_cache s)) (resolveSubject marshal ds inp)"
  "keeps (\<lambda>s. Q (closed_cache s)) (resolveHomeValueSubject marshal cfg ds inp)"
  unfolding resolveSubject_def resolveHomeValueSubject_def subjectFromMLS_def Geocode_def Let_def
  by (intro cache_rules | simp only: prod.case_eq_if)+

lemma keeps_run_cache:
  assumes "fd_code (FeedDefinitionFromCode (cc_feeds cfg) feedCode) = code"
  shows "keeps (\<lambda>s. Q (closed_cache s)) (comps_run marshal raw_text dw cfg dom_slug feedCode req)"
proof -
  note sold = keeps_sold_cache [OF assms]
  show ?thesis
    unfolding comps_run_def runSalesModes_def runRentHold_def runFlipVsHold_def runAppraiserSim_def runBPOMode_def
      runHomeValueMode_def Let_def
    by (intro cache_rules keeps_subject_cache sold keeps_mirror_cache keeps_rental_cache | simp only: prod.case_eq_if)+
qed

lemma answer_keeps_cache:
  assumes "fd_code (FeedDefinitionFromCode (cc_feeds cfg) feedCode) = code"
  shows "keeps (\<lambda>s. Q (closed_cache s)) (comps_answer marshal raw_text dw cfg dom_slug feedCode req)"
  unfolding comps_answer_def by (intro keeps_bind keeps_try keeps_run_cache assms keeps_ret)

end

lemma upsert_other:
  assumes "P r" "\<And>b. closed_id b = closed_id r \<Longrightarrow> P b" "\<And>b b'. closed_id b = closed_id b' \<Longrightarrow> P b = P b'"
  shows "filter (\<lambda>b. \<not> P b) (upsert_closed r rows) = filter (\<lambda>b. \<not> P b) rows"
proof -
  have "filter (\<lambda>b. \<not> P b) (map (\<lambda>b. if closed_id b = closed_id r then r\<lparr>cr_first_cached := cr_first_cached b\<rparr> else b) rows) = filter (\<lambda>b. \<not> P b) rows"
    using assms(1,2) assms(3) [of "r\<lparr>cr_first_cached := _\<rparr>" r] by (induction rows) (auto simp: closed_id_def)
  then show ?thesis using assms(1) by (simp add: upsert_closed_def)
qed

interpretation other_rows: cache_law "\<lambda>rows. filter (\<lambda>r. \<not> (cr_domain r = d \<and> cr_feed r = c)) rows = rest" d c for d c rest
  by unfold_locales (subst upsert_other [where P = "\<lambda>r. cr_domain r = d \<and> cr_feed r = c"], auto simp: closed_id_def)

lemma upsert_ids: "map closed_id (upsert_closed r rows) =
   (if closed_id r \<in> closed_id ` set rows then map closed_id rows else map closed_id rows @ [closed_id r])"
proof -
  have [simp]: "closed_id (r\<lparr>cr_first_cached := t\<rparr>) = closed_id r" for t by (simp add: closed_id_def)
  have "(closed_id r \<in> closed_id ` set rows) = (\<exists>b \<in> set rows. closed_id b = closed_id r)"
    unfolding image_iff by (rule bex_cong [OF refl]) (rule eq_commute)
  then show ?thesis by (auto simp: upsert_closed_def)
qed

interpretation unique_ids: cache_law "\<lambda>rows. distinct (map closed_id rows)" d c for d c
  by unfold_locales (simp add: upsert_ids)

text \<open>(C21) A request of a domain, whatever its mode and whatever statements or requests fail on the way, changes no row
  that another domain or another feed has in the closed-sale cache, and keeps the key of the cache unique.\<close>

theorem comps_cache_isolated:
  assumes "distinct (map closed_id (closed_cache s))"
  shows "let s' = snd (comps_answer marshal raw_text dwithin cfg domainSlug feedCode req s);
             mine = (\<lambda>r. cr_domain r = domainSlug \<and> cr_feed r = fd_code (FeedDefinitionFromCode (cc_feeds cfg) feedCode)) in
         filter (\<lambda>r. \<not> mine r) (closed_cache s') = filter (\<lambda>r. \<not> mine r) (closed_cache s) \<and>
         distinct (map closed_id (closed_cache s'))"
proof -
  let ?code = "fd_code (FeedDefinitionFromCode (cc_feeds cfg) feedCode)"
  have "filter (\<lambda>r. \<not> (cr_domain r = domainSlug \<and> cr_feed r = ?code))
      (closed_cache (snd (comps_answer marshal raw_text dwithin cfg domainSlug feedCode req s))) =
    filter (\<lambda>r. \<not> (cr_domain r = domainSlug \<and> cr_feed r = ?code)) (closed_cache s)"
    by (rule keepsD [OF other_rows.answer_keeps_cache [OF refl]]) (rule refl)
  moreover have "distinct (map closed_id (closed_cache (snd (comps_answer marshal raw_text dwithin cfg domainSlug feedCode req s))))"
    by (rule keepsD [OF unique_ids.answer_keeps_cache [OF refl]]) (rule assms)
  ultimately show ?thesis by (simp add: Let_def)
qed
definition demo_cached :: "string \<Rightarrow> closed_row" where
  "demo_cached d = \<lparr>cr_domain = d, cr_feed = ''bridge_stellar'', cr_key = ''A1'', cr_status = ''closed'', cr_close_day = Some 738000,
     cr_lat = Some 1, cr_lng = Some 1, cr_price = Some 100, cr_payload = RawEmpty, cr_first_cached = 0, cr_refreshed = 0\<rparr>"

definition demo_comps :: cdb where
  "demo_comps = adb.extend (demo_access demo_domain) (cdb.fields [demo_cached ''a.com'', demo_cached ''b.com''])"

definition demo_comps_config :: comps_config where
  "demo_comps_config = \<lparr>cc_feeds = demo_feeds, cc_cache_days = 30, cc_min_hits = 3, cc_maps_key = []\<rparr>"

definition demo_run :: "string \<Rightarrow> run_request" where
  "demo_run mode = \<lparr>rq_subject = \<lparr>si_type = ''off_market'', si_listing_id = [], si_lat = Some 1, si_lng = Some 1, si_bedrooms = None,
       si_bathrooms = None, si_living_area = None, si_lot_sqft = None, si_garage = None, si_monthly_fees = None, si_flood_zone = None,
       si_stellar_flood_zone = None, si_stellar_fees = None, si_subdivision = None, si_mls_area = None, si_address = None,
       si_property_type = None, si_year_built = None, si_condition = None, si_kitchen_year = None, si_bathrooms_year = None, si_hvac_year = None\<rparr>,
     rq_mode = mode, rq_scope = \<lparr>sc_type = ''radius'', sc_radius = Some 2, sc_postal_codes = []\<rparr>, rq_filters = no_filters, rq_keywords = [],
     rq_rental = RawEmpty, rq_flip = RawEmpty, rq_bpo = \<lparr>bp_max_comps = None, bp_sold_months = None, bp_min_regression = None,
     bp_confidence = None, bp_zscore = None\<rparr>, rq_home_value = \<lparr>hv_sold_months = None, hv_max_comps = None\<rparr>\<rparr>"

theorem comps_cache_isolated_witness:
  "let s' = snd (comps_answer (\<lambda>_. []) (\<lambda>_. []) (\<lambda>_ _ _. True) demo_comps_config ''a.com'' ''bridge_stellar'' (demo_run ''bpo'') demo_comps);
       mine = (\<lambda>r. cr_domain r = ''a.com'' \<and> cr_feed r = fd_code (FeedDefinitionFromCode (cc_feeds demo_comps_config) ''bridge_stellar'')) in
   filter (\<lambda>r. \<not> mine r) (closed_cache s') = filter (\<lambda>r. \<not> mine r) (closed_cache demo_comps) \<and> distinct (map closed_id (closed_cache s'))"
proof (rule comps_cache_isolated)
  show "distinct (map closed_id (closed_cache demo_comps))"
    by (simp add: demo_comps_def adb.defs cdb.defs closed_id_def demo_cached_def)
qed

section \<open>Where sold comparables come from\<close>

lemma cache_hit_rows:
  assumes "cache_hit marshal cfg d feed subject scope cutoff limit s = (Inr (Some out), s')"
  obtains now where "clock s \<le> now" "set out \<subseteq> (\<lambda>r. with_distance subject (cached_comp marshal r)) `
      {r \<in> set (closed_cache s). closed_in_scope d (fd_code feed) (sp_lat subject) (sp_lng subject) (sc_radius scope) cutoff (cache_max_age cfg) now r}"
    "\<forall>c \<in> set out. usable_comp subject scope c" "length out \<le> nat limit"
proof -
  obtain r s1 where e: "FindClosedInScope d (fd_code feed) (sp_lat subject) (sp_lng subject) scope cutoff (cache_max_age cfg) (limit * 2) s = (r, s1)"
    by fastforce
  with assms obtain cached where q: "r = Inr cached" and out: "out = take (nat limit) (compsFromCached marshal cached subject scope)"
    by (auto simp: cache_hit_def go_simps Let_def split: if_splits sum.splits prod.splits)
  obtain t s2 where t: "go_now s = (Inr t, s2)" "clock s \<le> t" "closed_cache s2 = closed_cache s"
    by (cases "delays s") (auto simp: go_now_def)
  have "set cached \<subseteq> {r \<in> set (closed_cache s). closed_in_scope d (fd_code feed) (sp_lat subject) (sp_lng subject) (sc_radius scope) cutoff (cache_max_age cfg) t r}"
    using e q t by (auto simp: FindClosedInScope_def go_simps split: if_splits dest!: sql_Inr in_set_takeD)
  then have "(\<lambda>r. with_distance subject (cached_comp marshal r)) ` set cached \<subseteq> (\<lambda>r. with_distance subject (cached_comp marshal r)) `
      {r \<in> set (closed_cache s). closed_in_scope d (fd_code feed) (sp_lat subject) (sp_lng subject) (sc_radius scope) cutoff (cache_max_age cfg) t r}"
    by (rule image_mono)
  moreover have "set out \<subseteq> {c \<in> (\<lambda>r. with_distance subject (cached_comp marshal r)) ` set cached. usable_comp subject scope c}" "length out \<le> nat limit"
    unfolding out compsFromCached_def by (auto dest!: in_set_takeD)
  ultimately show thesis using t(2) by (intro that [of t]) auto
qed

lemma live_rows:
  assumes "fetchSoldCompsLive marshal cfg feed subject scope filters limit s = (Inr (out, rows), s')"
  shows "out = parseSoldCompRecords marshal rows subject scope" "\<exists>t u. http_log s' = http_log s @ [(t, u)]"
proof -
  obtain t s2 where t: "go_now s = (Inr t, s2)" "http_log s2 = http_log s" by (cases "delays s") (auto simp: go_now_def)
  have get: "http_get u s2 = (Inr resp, s3) \<Longrightarrow> \<exists>t u. http_log s3 = http_log s2 @ [(t, u)]" for u resp s3
    by (cases "delays s2") (auto simp: http_get_def go_simps go_now_def Let_def split: list.splits http_reply.splits)
  from assms t obtain resp u where "http_get u s2 = (Inr resp, s')" "out = parseSoldCompRecords marshal rows subject scope"
    by (auto simp: fetchSoldCompsLive_def getReso_def go_simps Let_def split: option.splits prod.splits sum.splits if_splits)
  then show "out = parseSoldCompRecords marshal rows subject scope" "\<exists>t u. http_log s' = http_log s @ [(t, u)]"
    using get t(2) by auto
qed

lemma keeps_log_write: "keeps (\<lambda>s. http_log s = l) (writeThroughClosedCache marshal d c rows)"
  unfolding writeThroughClosedCache_def UpsertClosedBatch_def store_closed_def
  by (intro keeps_if keeps_ret keeps_bind keeps_each keeps_now keeps_sql) (auto simp: Let_def split: if_splits)

lemma log_cache_hit: "http_log (snd (cache_hit marshal cfg d feed subject scope cutoff limit s)) = http_log s"
proof -
  have "keeps (\<lambda>s. http_log s = l) (cache_hit marshal cfg d feed subject scope cutoff limit)" for l
    unfolding cache_hit_def FindClosedInScope_def Let_def
    by (intro keeps_if keeps_ret keeps_bind keeps_try keeps_now keeps_case_sum keeps_sql) auto
  then show ?thesis by (auto simp: keeps_def)
qed


definition demo_sold :: http_reply where
  "demo_sold = HttpReply \<lparr>http_status = 200, http_link = [], http_body = RawJson (JObj [(''value'', JArr [JObj
     [(''ListingKey'', JStr ''B2''), (''ClosePrice'', JNum 300000), (''Latitude'', JNum 1), (''Longitude'', JNum 1)]])])\<rparr>"

definition demo_sold_row :: raw_message where
  "demo_sold_row = RawJson (JObj [(''ListingKey'', JStr ''B2''), (''ClosePrice'', JNum 300000), (''Latitude'', JNum 1), (''Longitude'', JNum 1)])"

definition demo_scope :: scope_input where
  "demo_scope = \<lparr>sc_type = ''radius'', sc_radius = Some 2, sc_postal_codes = []\<rparr>"

lemma demo_sold_live:
  "\<exists>s'. fetchSoldCompsLive marshal demo_comps_config (bridge_feed ''stellar'') subject scope filters limit (demo_comps\<lparr>http_replies := [demo_sold]\<rparr>) =
     (Inr (parseSoldCompRecords marshal [demo_sold_row] subject scope,
        [demo_sold_row]), s')"
  by (simp add: fetchSoldCompsLive_def demo_comps_config_def demo_feeds_def demo_sync_config_def bridge_feed_def LiveResoPropertyEndpoint_def Let_def
      trim_space_def trim_both_def trim_left_def trim_right_def is_space_def go_simps go_now_def demo_comps_def demo_access_def demo_fetch_def demo_sync_def
      sdb.defs fdb.defs adb.defs cdb.defs getReso_def http_get_def demo_sold_def demo_sold_row_def parse_value_def struct_fields_def dec_rows_def equal_fold_def to_lower_def lower_char_def)

lemma demo_parse: "parseProperty marshal demo_sold_row = (zero_comp demo_sold_row)\<lparr>c_key := ''B2'', c_close_price := 300000, c_lat := 1, c_lng := 1\<rparr>"
  by (simp add: parseProperty_def demo_sold_row_def unmarshal_map_def gomap_of_def lookup_any_def str_def num_def nonzero_or_def go_int_def boolVal_def
      coordsFromMap_def float_or_def trim_space_def trim_both_def trim_left_def trim_right_def is_space_def zero_comp_def Let_def)


section \<open>Reading back what was cached\<close>

lemma store_closed_step:
  assumes "go_each (store_closed d c now) (u # us) s = (Inr (), s')"
  shows "\<exists>s1. closed_cache s1 = upsert_closed (closed_row_of d c now u) (closed_cache s) \<and> go_each (store_closed d c now) us s1 = (Inr (), s')"
proof -
  from assms obtain s1 where s1: "store_closed d c now u s = (Inr (), s1)" "go_each (store_closed d c now) us s1 = (Inr (), s')"
    by (auto dest!: go_bind_Inr)
  from s1(1) have "closed_cache s1 = upsert_closed (closed_row_of d c now u) (closed_cache s)"
    unfolding store_closed_def by (auto simp: Let_def split: if_splits dest!: sql_Inr)
  with s1(2) show ?thesis by blast
qed

lemma upsert_batch_mem:
  assumes "go_each (store_closed d c now) rows s = (Inr (), s')"
    and "distinct (map cu_key rows)"
  shows "\<forall>u \<in> set rows. \<exists>r \<in> set (closed_cache s'). \<exists>t. r = (closed_row_of d c now u)\<lparr>cr_first_cached := t\<rparr>"
    and "\<forall>r \<in> set (closed_cache s). (\<forall>u \<in> set rows. closed_id r \<noteq> (d, c, cu_key u)) \<longrightarrow> r \<in> set (closed_cache s')"
  using assms
proof (induction rows arbitrary: s)
  case (Cons u rows)
  let ?r = "closed_row_of d c now u"
  have id: "closed_id (?r\<lparr>cr_first_cached := t\<rparr>) = (d, c, cu_key u)" "closed_id ?r = (d, c, cu_key u)" for t
    by (simp_all add: closed_row_of_def closed_id_def Let_def)
  {
    case 1
    from this(1) obtain s1 where s1: "closed_cache s1 = upsert_closed ?r (closed_cache s)"
      and run: "go_each (store_closed d c now) rows s1 = (Inr (), s')"
      using store_closed_step by blast
    have "\<exists>r \<in> set (closed_cache s1). \<exists>t. r = ?r\<lparr>cr_first_cached := t\<rparr>"
      unfolding s1 upsert_closed_def by (auto simp: closed_row_of_def Let_def)
    then obtain r t where r: "r \<in> set (closed_cache s1)" "r = ?r\<lparr>cr_first_cached := t\<rparr>" by blast
    have "\<forall>v \<in> set rows. closed_id r \<noteq> (d, c, cu_key v)" using 1(2) unfolding r(2) id by auto
    then have "r \<in> set (closed_cache s')" using Cons.IH(2) [OF run] 1(2) r(1) by auto
    then show ?case using Cons.IH(1) [OF run] 1(2) r(2) by auto
  next
    case 2
    from this(1) obtain s1 where s1: "closed_cache s1 = upsert_closed ?r (closed_cache s)"
      and run: "go_each (store_closed d c now) rows s1 = (Inr (), s')"
      using store_closed_step by blast
    have "r \<in> set (closed_cache s) \<Longrightarrow> closed_id r \<noteq> (d, c, cu_key u) \<Longrightarrow> r \<in> set (closed_cache s1)" for r
      unfolding s1 upsert_closed_def id by auto
    then show ?case using Cons.IH(2) [OF run] 2(2) by auto
  }
qed (auto simp: go_simps)

lemma cached_comp_of_upsert:
  assumes "closed_upsert_of marshal raw = Some u"
  shows "cached_comp marshal ((closed_row_of d c now u)\<lparr>cr_first_cached := t\<rparr>) = parseProperty marshal raw"
    and "cu_key u = c_key (parseProperty marshal raw)"
proof -
  from assms have u: "cu_payload u = raw" "cu_key u = c_key (parseProperty marshal raw)" "c_key (parseProperty marshal raw) \<noteq> []"
    and coords: "c_lat (parseProperty marshal raw) = 0 \<and> c_lng (parseProperty marshal raw) = 0 \<longrightarrow> cu_lat u = None \<and> cu_lng u = None"
    by (auto simp: closed_upsert_of_def Let_def split: if_splits)
  from u coords show "cached_comp marshal ((closed_row_of d c now u)\<lparr>cr_first_cached := t\<rparr>) = parseProperty marshal raw"
    by (simp add: cached_comp_def closed_row_of_def Let_def given_def)
  show "cu_key u = c_key (parseProperty marshal raw)" by (rule u(2))
qed

text \<open>(C33) What a live fetch wrote through is read back: once the rows of an answer, of pairwise different keys, have been stored, the cache holds
  for each of them that has a key and a positive price a row of this domain and feed from which the same comparable is read that the live
  answer gave.\<close>

theorem cached_comps_round_trip:
  assumes "writeThroughClosedCache marshal domainSlug feedCode rows s = (Inr (), s')"
    and "distinct (map cu_key (List.map_filter (closed_upsert_of marshal) rows))"
    and "raw \<in> set rows" "c_key (parseProperty marshal raw) \<noteq> []" "c_close_price (parseProperty marshal raw) > 0"
  shows "\<exists>r \<in> set (closed_cache s'). closed_id r = (domainSlug, feedCode, c_key (parseProperty marshal raw)) \<and>
           cached_comp marshal r = parseProperty marshal raw"
proof -
  let ?us = "List.map_filter (closed_upsert_of marshal) rows"
  obtain u where u: "closed_upsert_of marshal raw = Some u" using assms(4,5) by (auto simp: closed_upsert_of_def Let_def)
  with assms(3) have mem: "u \<in> set ?us" by (force simp: List.map_filter_def)
  then have "?us \<noteq> []" by auto
  with assms(1) obtain now s1 where "go_each (store_closed domainSlug feedCode now) ?us s1 = (Inr (), s')"
    by (auto simp: writeThroughClosedCache_def UpsertClosedBatch_def go_bind_run split: prod.splits sum.splits)
  from upsert_batch_mem(1) [OF this assms(2)] mem
  obtain r t where r: "r \<in> set (closed_cache s')" "r = (closed_row_of domainSlug feedCode now u)\<lparr>cr_first_cached := t\<rparr>" by blast
  have "closed_id r = (domainSlug, feedCode, cu_key u)" unfolding r(2) by (simp add: closed_row_of_def closed_id_def Let_def)
  with r cached_comp_of_upsert [OF u] show ?thesis by auto
qed

theorem cached_comps_round_trip_witness:
  "\<exists>s'. writeThroughClosedCache (\<lambda>_. []) ''a.com'' ''bridge_stellar'' [demo_sold_row] demo_comps = (Inr (), s') \<and>
     (\<exists>r \<in> set (closed_cache s'). cached_comp (\<lambda>_. []) r = parseProperty (\<lambda>_. []) demo_sold_row)"
proof -
  have up: "List.map_filter (closed_upsert_of (\<lambda>_. [])) [demo_sold_row] = [\<lparr>cu_key = ''B2'', cu_status = ''closed'', cu_close_day = None,
      cu_lat = Some 1, cu_lng = Some 1, cu_price = Some 300000, cu_payload = demo_sold_row\<rparr>]"
    by (simp add: List.map_filter_def closed_upsert_of_def demo_parse zero_comp_def parseCloseDate_def trim_space_def trim_both_def trim_left_def trim_right_def to_lower_def Let_def)
  obtain s' where run: "writeThroughClosedCache (\<lambda>_. []) ''a.com'' ''bridge_stellar'' [demo_sold_row] demo_comps = (Inr (), s')"
    unfolding writeThroughClosedCache_def up
    by (simp add: UpsertClosedBatch_def store_closed_def go_simps go_now_def sql_def closed_row_of_def closed_fits_def trim_space_def trim_both_def
        trim_left_def trim_right_def is_space_def to_lower_def lower_char_def round2_def go_round_def
        demo_comps_def demo_access_def demo_fetch_def demo_sync_def sdb.defs fdb.defs adb.defs cdb.defs)
  have "distinct (map cu_key (List.map_filter (closed_upsert_of (\<lambda>_. [])) [demo_sold_row]))" unfolding up by simp
  from cached_comps_round_trip [OF run this, of demo_sold_row] run show ?thesis by (auto simp: demo_parse zero_comp_def)
qed

section \<open>Loans\<close>

lemma geometric_sum: "(q - 1) * (\<Sum>k<n. q ^ k) = q ^ n - (1 :: real)"
  by (induction n) (simp_all add: algebra_simps)

text \<open>The monthly payment pays off the loan: after all payments, the loan grown by interest equals the payments grown by interest from the
  month each was made.\<close>

theorem mortgage_pays_off_loan:
  assumes "monthlyRate > 0" and "payments > 0"
  shows "loan * (1 + monthlyRate) ^ payments = (\<Sum>k<payments. monthly_payment loan monthlyRate (real payments) * (1 + monthlyRate) ^ k)"
proof -
  let ?q = "1 + monthlyRate"
  have gt: "?q ^ payments > 1" using assms by (simp add: one_less_power)
  have "monthly_payment loan monthlyRate (real payments) = loan * (monthlyRate * ?q ^ payments) / (?q ^ payments - 1)"
    using assms by (simp add: monthly_payment_def powr_realpow Let_def)
  then have "monthly_payment loan monthlyRate (real payments) * (\<Sum>k<payments. ?q ^ k) =
      loan * ?q ^ payments * (monthlyRate * (\<Sum>k<payments. ?q ^ k)) / (?q ^ payments - 1)"
    by simp
  also have "monthlyRate * (\<Sum>k<payments. ?q ^ k) = ?q ^ payments - 1" using geometric_sum [of ?q payments] by simp
  finally show ?thesis using gt by (simp add: sum_distrib_left)
qed

theorem mortgage_pays_off_loan_witness:
  "(300000 :: real) * (1 + 1 / 100) ^ 2 = (\<Sum>k<2. monthly_payment 300000 (1 / 100) (real 2) * (1 + 1 / 100) ^ k)"
  by (rule mortgage_pays_off_loan) simp_all

section \<open>Answers that mislead\<close>

text \<open>A subject that lacks its bedrooms or living area is a mistake of the client that is answered as a failure of the upstream: the
  message says ``requires'', the test looks for ``required'', and the status is 502 instead of 422.\<close>

theorem incomplete_subject_is_bad_gateway:
  assumes "validateRequest req = None" and "to_lower (trim_space (rq_mode req)) \<noteq> ''home_value''"
    and "to_lower (trim_space (si_type (rq_subject req))) = ''off_market''"
    and "si_lat (rq_subject req) \<noteq> None" "si_lng (rq_subject req) \<noteq> None" "si_bedrooms (rq_subject req) = None"
  shows "comps_answer marshal raw_text dwithin cfg domainSlug feedCode req s =
     (Inr (Inl (502, ''off_market subject requires bedrooms and living_area_sqft'')), s)"
proof -
  have "\<not> isValidationErr (Err ''off_market subject requires bedrooms and living_area_sqft'')" by code_simp
  moreover have "resolveSubject marshal ds (rq_subject req) s = (Inl (Err ''off_market subject requires bedrooms and living_area_sqft''), s)" for ds
    using assms(3-6)
    by (auto simp: resolveSubject_def mergeSubjectAliases_def go_result_def subjectFromOffMarket_def applySubjectOverrides_def zero_subject_def given_def Let_def
        split: option.splits)
  ultimately show ?thesis
    using assms(1,2) by (simp add: comps_answer_def comps_run_def go_simps Let_def err_text_def)
qed

theorem incomplete_subject_is_bad_gateway_witness:
  "comps_answer (\<lambda>_. []) (\<lambda>_. []) (\<lambda>_ _ _. True) demo_comps_config ''a.com'' ''bridge_stellar'' (demo_run ''bpo'') demo_comps =
     (Inr (Inl (502, ''off_market subject requires bedrooms and living_area_sqft'')), demo_comps)"
  by (rule incomplete_subject_is_bad_gateway)
    (simp_all add: demo_run_def validateRequest_def trim_space_def trim_both_def trim_left_def trim_right_def is_space_def to_lower_def lower_char_def Let_def)

text \<open>Without any comparable the home value of a house with a recently renovated kitchen is the renovation credit alone: 7000 dollars, and
  7000 is also the point estimate of a broker price opinion.\<close>

theorem no_comps_value_is_credit:
  assumes "sp_kitchen_year subject > 0" "0 \<le> go_year now - sp_kitchen_year subject" "go_year now - sp_kitchen_year subject \<le> 5"
    and "sp_bathrooms_year subject = 0" "sp_hvac_year subject = 0"
  shows "hr_estimate (snd (home_value_of now subject [])) = 7000 \<and> br_point (bo_recon (snd (bpo_of now bp subject []))) = 7000"
proof -
  have r2: "round2 7000 = 7000" by (simp add: round2_def go_round_def)
  have rates: "extractMarketRates now [] k = zero_rates\<lparr>r_method := ''median_fallback'', r_warnings := [''no sold comps'']\<rparr>" for k
    by (simp add: extractMarketRates_def zero_rates_def Let_def)
  have credit: "renovationCredits now subject (extractMarketRates now [] k) = [\<lparr>rc_feature = ''renovated_kitchen'', rc_year = sp_kitchen_year subject,
      rc_amount = 7000, rc_source = ''market_derived''\<rparr>]" for k
    using assms by (simp add: rates renovationCredits_def credit_for_def typicalHomeValue_def marketRenovationAmount_def depreciatedCredit_def
        renovationSourceFor_def zero_rates_def r2 Let_def)
  have z: "filterOutlierZScore [] z = []" for z by (simp add: filterOutlierZScore_def)
  show ?thesis
    by (simp add: home_value_of_def bpo_of_def z applyURARGrid_def credit sumRenovationCredits_def reconcileBPO_def add_credits_def r2 Let_def split: option.split)
qed

theorem no_comps_value_is_credit_witness:
  "hr_estimate (snd (home_value_of 0 (zero_subject\<lparr>sp_kitchen_year := 1968\<rparr>) [])) = 7000 \<and>
   br_point (bo_recon (snd (bpo_of 0 (rq_bpo (demo_run ''bpo'')) (zero_subject\<lparr>sp_kitchen_year := 1968\<rparr>) []))) = 7000"
proof (rule no_comps_value_is_credit)
  have "go_year 0 = 1970"
    by (simp add: go_year_def day_of_def unix_def epoch_day_def year_of_day_def year_from.simps days_before_year.simps)
  then show "0 \<le> go_year 0 - sp_kitchen_year (zero_subject\<lparr>sp_kitchen_year := 1968\<rparr>)" "go_year 0 - sp_kitchen_year (zero_subject\<lparr>sp_kitchen_year := 1968\<rparr>) \<le> 5"
    by simp_all
qed (simp_all add: zero_subject_def)

end
