(* ===== verification/Live_Proxy.thy ===== *)
theory Live_Proxy
  imports Comps_Engine
begin

text \<open>
  The live MLS endpoints (\<^verbatim>\<open>internal/handler/bridge/handler.go\<close>, \<^verbatim>\<open>internal/mlspoxy\<close>) with what they use: the response cache
  (\<^verbatim>\<open>internal/service/cache\<close>), the rewriting of image URLs (\<^verbatim>\<open>internal/mlspoxy/images\<close>), price snapshots
  (\<^verbatim>\<open>internal/service/crypto\<close>) and the audit log (\<^verbatim>\<open>internal/service/audit\<close>). A request is answered from the
  cache when a row of its partition and fingerprint is young enough; otherwise it is passed to the provider, a successful answer
  is rewritten, stored and returned.

  The gzip layer of a cached body stands for the body it carries. \<open>sha256\<close> is a parameter. Of an outgoing request the time and the URL
  are recorded; the URLs the handlers build carry no query of their own, so that merging the client's query appends it.
  Timestamps without time zone are UTC.
\<close>

section \<open>State\<close>

record cache_row =
  ch_partition :: string
  ch_fingerprint :: string
  ch_data :: raw_message
  ch_updated :: int

record price_row =
  px_asset :: string
  px_currency :: string
  px_price :: real
  px_captured :: int

record audit_row =
  au_domain :: "string option"
  au_token :: "string option"
  au_type :: string
  au_count :: "nat option"
  au_ip :: string
  au_user :: "int option"
  au_cache :: "string option"

record pdb = cdb +
  search_cache :: "cache_row list"
  price_rows :: "price_row list"
  audit_rows :: "audit_row list"

record proxy_config =
  pc_feeds :: feed_config
  pc_listings_ttl :: int
  pc_lookup_ttl :: int
  pc_retention_days :: int
  pc_closed_days :: int
  pc_image_hosts :: "string list"
  pc_images_public :: string
  pc_coingecko_url :: string

text \<open>An incoming request with the values the middlewares left in its context.\<close>

record proxy_request =
  hr_method :: string
  hr_queries :: "(string \<times> string) list"
  hr_body :: string
  hr_ip :: string
  hr_domain :: string
  hr_feed_code :: string
  hr_feed :: feed_definition
  hr_token :: "string option"
  hr_user :: "int option"

section \<open>The cache\<close>

definition FingerprintRequest :: "(string \<Rightarrow> string) \<Rightarrow> proxy_request \<Rightarrow> string \<Rightarrow> string" where
  "FingerprintRequest sha256 rq upstreamPath =
     sha256 (hr_method rq @ [CHR 0x0A] @ upstreamPath @ [CHR 0x0A] @
       concat (map (\<lambda>(k, v). k @ ''='' @ v @ [CHR 0x0A])
         (sort_key fst (filter (\<lambda>(k, v). \<not> equal_fold k ''domain'') (hr_queries rq)))) @ hr_body rq)"

definition WebPartition :: "string \<Rightarrow> string \<Rightarrow> string \<Rightarrow> string" where
  "WebPartition domainSlug feedCode auditType = domainSlug @ '':'' @ feedCode @ '':web:'' @ auditType"

definition ResoPartition :: "string \<Rightarrow> string \<Rightarrow> string \<Rightarrow> string" where
  "ResoPartition domainSlug feedCode entity = domainSlug @ '':'' @ feedCode @ '':reso:'' @ entity"

definition SearchPartition :: "string \<Rightarrow> string \<Rightarrow> string" where
  "SearchPartition domainSlug feedCode = domainSlug @ '':'' @ feedCode @ '':search''"

definition LookupPartition :: "string \<Rightarrow> string \<Rightarrow> string" where
  "LookupPartition domainSlug feedCode = domainSlug @ '':'' @ feedCode @ '':lookup''"

definition TTLForPartition :: "proxy_config \<Rightarrow> string \<Rightarrow> int" where
  "TTLForPartition cfg part = (if has_suffix part '':lookup'' then pc_lookup_ttl cfg else pc_listings_ttl cfg)"

definition find_cached :: "string \<Rightarrow> string \<Rightarrow> cache_row list \<Rightarrow> cache_row option" where
  "find_cached part fp rows = find (\<lambda>r. ch_partition r = part \<and> ch_fingerprint r = fp) rows"

text \<open>A failed read is a miss.\<close>

definition ProxyCache_Get :: "proxy_config \<Rightarrow> string \<Rightarrow> string \<Rightarrow> ('z pdb_scheme, raw_message option) go" where
  "ProxyCache_Get cfg part fingerprint =
     go_bind (go_try (sql (\<lambda>s. Some (find_cached part fingerprint (search_cache s), s)))) (\<lambda>r. case r of
       Inl _ \<Rightarrow> go_ret None
     | Inr None \<Rightarrow> go_ret None
     | Inr (Some row) \<Rightarrow> go_bind go_now (\<lambda>now.
         if now - ch_updated row > TTLForPartition cfg part then go_ret None else go_ret (Some (ch_data row))))"

definition upsert_cached :: "cache_row \<Rightarrow> cache_row list \<Rightarrow> cache_row list" where
  "upsert_cached r rows =
     (if find_cached (ch_partition r) (ch_fingerprint r) rows \<noteq> None
      then map (\<lambda>x. if ch_partition x = ch_partition r \<and> ch_fingerprint x = ch_fingerprint r then r else x) rows
      else rows @ [r])"

text \<open>The key columns are VARCHAR(255) and VARCHAR(64).\<close>

definition ProxyCache_Put :: "string \<Rightarrow> string \<Rightarrow> raw_message \<Rightarrow> ('z pdb_scheme, unit) go" where
  "ProxyCache_Put part fingerprint body = go_bind go_now (\<lambda>now. sql (\<lambda>s.
     if length part \<le> 255 \<and> length fingerprint \<le> 64
     then Some ((), s\<lparr>search_cache := upsert_cached \<lparr>ch_partition = part, ch_fingerprint = fingerprint, ch_data = body, ch_updated = now\<rparr>
            (search_cache s)\<rparr>)
     else None))"

definition ProxyCache_PurgeExpired :: "proxy_config \<Rightarrow> ('z pdb_scheme, nat) go" where
  "ProxyCache_PurgeExpired cfg = go_bind go_now (\<lambda>now.
     let days = (if pc_retention_days cfg \<le> 0 then 30 else pc_retention_days cfg); cutoff = now - days * 86400 * second in
     sql (\<lambda>s. Some (length (filter (\<lambda>r. ch_updated r < cutoff) (search_cache s)),
       s\<lparr>search_cache := filter (\<lambda>r. \<not> ch_updated r < cutoff) (search_cache s)\<rparr>)))"

definition RefreshJob_Run :: "proxy_config \<Rightarrow> ('z pdb_scheme, unit) go" where
  "RefreshJob_Run cfg = go_bind (ProxyCache_PurgeExpired cfg) (\<lambda>_.
     go_bind (PurgeClosedListingsCache (if pc_closed_days cfg \<le> 0 then 30 else pc_closed_days cfg)) (\<lambda>_. go_ret ()))"

section \<open>Image URLs\<close>

definition rewrite_hosts :: "proxy_config \<Rightarrow> string list" where
  "rewrite_hosts cfg = [''api.bridgedataoutput.com'', ''bridgedataoutput.com''] @ map (\<lambda>h. to_lower (trim_space h)) (pc_image_hosts cfg)"

definition shouldRewrite :: "proxy_config \<Rightarrow> string \<Rightarrow> bool" where
  "shouldRewrite cfg s = (let lower = to_lower s in
     has_prefix lower ''http'' \<and>
     ((\<exists>h \<in> set (rewrite_hosts cfg). contains_sub lower h) \<or> contains_sub lower ''bridgedataoutput'' \<or> contains_sub lower ''sparkplatform''))"

definition extractPhotoID :: "string \<Rightarrow> string" where
  "extractPhotoID u = last (split_char CHR ''/'' (trim_right is_slash u))"

definition publicURL :: "proxy_config \<Rightarrow> string \<Rightarrow> string \<Rightarrow> string" where
  "publicURL cfg listingKey photoID = trim_right is_slash (pc_images_public cfg) @ ''/images/'' @ listingKey @ ''/'' @ photoID"

definition rewrite_url :: "proxy_config \<Rightarrow> string \<Rightarrow> string \<Rightarrow> string" where
  "rewrite_url cfg listingKey s =
     (if shouldRewrite cfg s \<and> extractPhotoID s \<noteq> [] \<and> listingKey \<noteq> [] then publicURL cfg listingKey (extractPhotoID s) else s)"

text \<open>\<^verbatim>\<open>walk\<close> on a document read into \<^verbatim>\<open>any\<close>: a text is rewritten where it is a field of an object, never as an element of an
  array; of equal keys the last one counts.\<close>

fun rewrite_walk :: "proxy_config \<Rightarrow> string \<Rightarrow> json \<Rightarrow> json" where
  "rewrite_walk cfg key (JObj kvs) = JObj (gomap_of (map (\<lambda>(k, v).
     (k, case v of JStr s \<Rightarrow> JStr (rewrite_url cfg key s) | _ \<Rightarrow> rewrite_walk cfg key v)) kvs))"
| "rewrite_walk cfg key (JArr vs) = JArr (map (rewrite_walk cfg key) vs)"
| "rewrite_walk cfg key v = v"

definition RewriteBytes :: "proxy_config \<Rightarrow> raw_message \<Rightarrow> string \<Rightarrow> raw_message" where
  "RewriteBytes cfg body listingKey = (case body of
      RawJson (JObj kvs) \<Rightarrow> RawJson (rewrite_walk cfg listingKey (JObj kvs))
    | RawJson (JArr vs) \<Rightarrow> RawJson (rewrite_walk cfg listingKey (JArr vs))
    | _ \<Rightarrow> body)"

section \<open>Prices\<close>

definition coingeckoTrackedAssets :: "(string \<times> string) list" where
  "coingeckoTrackedAssets = [(''bitcoin'', ''btc''), (''ethereum'', ''eth''), (''solana'', ''sol''), (''ripple'', ''xrp'')]"

definition coingeckoIDs :: "string list" where
  "coingeckoIDs = map fst coingeckoTrackedAssets"

definition assetKeyForCoingeckoID :: "string \<Rightarrow> string option" where
  "assetKeyForCoingeckoID i = map_of coingeckoTrackedAssets i"

text \<open>\<^verbatim>\<open>map[string]map[string]float64\<close>; a null entry is the zero value.\<close>

fun dec_quotes :: "(string \<times> json) list \<Rightarrow> (string \<times> real) list option" where
  "dec_quotes [] = Some []"
| "dec_quotes ((k, v) # kvs) = (case (v, dec_quotes kvs) of
      (JNum x, Some qs) \<Rightarrow> Some ((k, x) # qs)
    | (JNull, Some qs) \<Rightarrow> Some ((k, 0) # qs)
    | _ \<Rightarrow> None)"

fun dec_prices :: "(string \<times> json) list \<Rightarrow> (string \<times> (string \<times> real) list) list option" where
  "dec_prices [] = Some []"
| "dec_prices ((k, v) # kvs) = (case (struct_fields (RawJson v), dec_prices kvs) of
      (Some qs, Some ps) \<Rightarrow> map_option (\<lambda>q. (k, q) # ps) (dec_quotes (gomap_of qs))
    | _ \<Rightarrow> None)"

definition upsert_price :: "price_row \<Rightarrow> price_row list \<Rightarrow> price_row list" where
  "upsert_price p rows =
     (if \<exists>r \<in> set rows. px_asset r = px_asset p \<and> px_currency r = px_currency p
      then map (\<lambda>r. if px_asset r = px_asset p \<and> px_currency r = px_currency p then p else r) rows
      else rows @ [p])"

text \<open>\<^verbatim>\<open>vs_currency\<close> is VARCHAR(8), \<^verbatim>\<open>price\<close> NUMERIC(24, 12); its rounding is left out. The error of a statement is dropped.\<close>

definition store_price :: "string \<Rightarrow> int \<Rightarrow> string \<times> real \<Rightarrow> ('z pdb_scheme, unit) go" where
  "store_price key now q = go_ignore (sql (\<lambda>s.
     if length (fst q) \<le> 8 \<and> \<bar>snd q\<bar> < 10 ^ 12
     then Some ((), s\<lparr>price_rows := upsert_price \<lparr>px_asset = key, px_currency = fst q, px_price = snd q, px_captured = now\<rparr> (price_rows s)\<rparr>)
     else None))"

definition coingecko_request :: "proxy_config \<Rightarrow> string" where
  "coingecko_request cfg = trim_right is_slash (pc_coingecko_url cfg) @ ''/simple/price?ids='' @ join_with '','' coingeckoIDs @ ''&vs_currencies=usd''"

definition PricingService_Refresh :: "proxy_config \<Rightarrow> ('z pdb_scheme, unit) go" where
  "PricingService_Refresh cfg = go_bind (http_get (coingecko_request cfg)) (\<lambda>resp.
     case Option.bind (struct_fields (http_body resp)) (\<lambda>kvs. dec_prices (gomap_of kvs)) of
       None \<Rightarrow> go_fail (Err ''invalid JSON'')
     | Some prices \<Rightarrow> go_bind go_now (\<lambda>now.
         go_each (\<lambda>(asset, vs). case assetKeyForCoingeckoID asset of
             None \<Rightarrow> go_ret ()
           | Some key \<Rightarrow> go_each (store_price key now) vs) prices))"

definition LatestSnapshot :: "('z pdb_scheme, (string \<times> real) list) go" where
  "LatestSnapshot = sql (\<lambda>s. Some (map (\<lambda>r. (px_asset r, px_price r)) (filter (\<lambda>r. px_currency r = ''usd'') (price_rows s)), s))"

text \<open>A body that is \<^verbatim>\<open>null\<close> decodes to a nil map, and storing into it panics.\<close>

definition InjectIntoJSON :: "raw_message \<Rightarrow> ('z pdb_scheme, raw_message) go" where
  "InjectIntoJSON body = go_bind (go_try LatestSnapshot) (\<lambda>r. case r of
      Inl _ \<Rightarrow> go_ret body
    | Inr snap \<Rightarrow>
        if snap = [] then go_ret body
        else case body of
            RawJson (JObj kvs) \<Rightarrow> (let prices = JObj (map (\<lambda>(k, p). (k, JNum p)) snap) in
              go_ret (RawJson (JObj (AList.update ''pricing_converted'' prices (AList.update ''pricing'' prices (gomap_of kvs))))))
          | RawJson JNull \<Rightarrow> go_fail (Err ''assignment to entry in nil map'')
          | _ \<Rightarrow> go_ret body)"

section \<open>Passing a request on\<close>

definition query_value :: "proxy_request \<Rightarrow> string \<Rightarrow> string" where
  "query_value rq k = (case map_of (hr_queries rq) k of None \<Rightarrow> [] | Some v \<Rightarrow> v)"

definition proxy_call :: "proxy_request \<Rightarrow> string \<Rightarrow> bool \<Rightarrow> ('z pdb_scheme, http_response) go" where
  "proxy_call rq upstream mergeQuery = http_get (if mergeQuery then request_url upstream (hr_queries rq) else upstream)"

definition audit_log :: "proxy_request \<Rightarrow> string \<Rightarrow> nat option \<Rightarrow> string option \<Rightarrow> ('z pdb_scheme, unit) go" where
  "audit_log rq requestType listingCount cacheHit = go_ignore (sql (\<lambda>s. Some ((), s\<lparr>audit_rows := audit_rows s @
     [\<lparr>au_domain = (if hr_domain rq = [] then None else Some (hr_domain rq)), au_token = hr_token rq, au_type = requestType,
       au_count = listingCount, au_ip = hr_ip rq, au_user = hr_user rq, au_cache = cacheHit\<rparr>]\<rparr>)))"

record proxy_reply =
  py_status :: int
  py_body :: raw_message
  py_cache :: "string option"

definition with_pricing :: "proxy_request \<Rightarrow> raw_message \<Rightarrow> ('z pdb_scheme, raw_message) go" where
  "with_pricing rq body = (if query_value rq ''include_pricing'' = ''1'' then InjectIntoJSON body else go_ret body)"

text \<open>\<^verbatim>\<open>finishProxy\<close>: the answer from the cache, and the answer of the provider.\<close>

definition serve_hit :: "proxy_request \<Rightarrow> string \<Rightarrow> raw_message \<Rightarrow> ('z pdb_scheme, proxy_reply) go" where
  "serve_hit rq auditType body =
     go_bind (audit_log rq auditType None (Some ''HIT'')) (\<lambda>_.
     go_bind (with_pricing rq body) (\<lambda>out. go_ret \<lparr>py_status = 200, py_body = out, py_cache = Some ''HIT''\<rparr>))"

text \<open>A successful answer is rewritten and stored; the error of the store is dropped.\<close>

definition store_answer ::
  "proxy_config \<Rightarrow> proxy_request \<Rightarrow> string \<Rightarrow> string \<Rightarrow> string \<Rightarrow> http_response \<Rightarrow> ('z pdb_scheme, raw_message \<times> string option) go" where
  "store_answer cfg rq listingKey part fp resp =
     (if 200 \<le> http_status resp \<and> http_status resp < 300
      then go_bind (with_pricing rq (RewriteBytes cfg (http_body resp) listingKey)) (\<lambda>body.
           if part \<noteq> [] then go_bind (go_ignore (ProxyCache_Put part fp body)) (\<lambda>_. go_ret (body, Some ''MISS''))
           else go_ret (body, None))
      else go_ret (http_body resp, None))"

definition pass_through ::
  "proxy_config \<Rightarrow> proxy_request \<Rightarrow> string \<Rightarrow> string \<Rightarrow> string \<Rightarrow> string \<Rightarrow> string \<Rightarrow> ('z pdb_scheme, proxy_reply) go" where
  "pass_through cfg rq auditType upstream listingKey part fp =
     go_bind (go_try (proxy_call rq upstream True)) (\<lambda>r. case r of
       Inl _ \<Rightarrow> go_ret \<lparr>py_status = 502, py_body = RawEmpty, py_cache = None\<rparr>
     | Inr resp \<Rightarrow>
         go_bind (store_answer cfg rq listingKey part fp resp) (\<lambda>a.
         go_bind (audit_log rq auditType None (snd a)) (\<lambda>_.
         go_ret \<lparr>py_status = http_status resp, py_body = fst a, py_cache = snd a\<rparr>)))"

definition finishProxy ::
  "(string \<Rightarrow> string) \<Rightarrow> proxy_config \<Rightarrow> proxy_request \<Rightarrow> string \<Rightarrow> string \<Rightarrow> string \<Rightarrow> string \<Rightarrow> ('z pdb_scheme, proxy_reply) go" where
  "finishProxy sha256 cfg rq auditType upstream listingKey part =
     (let fp = FingerprintRequest sha256 rq upstream in
      go_bind (if part \<noteq> [] then ProxyCache_Get cfg part fp else go_ret None) (\<lambda>hit. case hit of
        Some body \<Rightarrow> serve_hit rq auditType body
      | None \<Rightarrow> pass_through cfg rq auditType upstream listingKey part fp))"

section \<open>Handlers\<close>

definition WebURL :: "bridge_config \<Rightarrow> string \<Rightarrow> string \<Rightarrow> string" where
  "WebURL b path dataset =
     (let prefix = trim_both is_slash (b_path_prefix b) in
      trim_right is_slash (b_host b) @ (if prefix \<noteq> [] then ''/'' @ prefix else []) @ ''/'' @ dataset @ ''/'' @ trim_left is_slash path)"

definition request_feed_code :: "proxy_config \<Rightarrow> proxy_request \<Rightarrow> string" where
  "request_feed_code cfg rq = (if hr_feed_code rq = [] then ''bridge_'' @ fc_default_dataset (pc_feeds cfg) else hr_feed_code rq)"

definition proxyWebWithKey ::
  "(string \<Rightarrow> string) \<Rightarrow> proxy_config \<Rightarrow> proxy_request \<Rightarrow> string \<Rightarrow> string \<Rightarrow> string \<Rightarrow> ('z pdb_scheme, proxy_reply) go" where
  "proxyWebWithKey sha256 cfg rq auditType path listingKey =
     (let fc = pc_feeds cfg; ds = DatasetSlug (hr_feed rq) (fc_default_dataset fc);
          upstream = (if fd_provider (hr_feed rq) = ''spark'' then fc_spark_api_host fc @ ''/'' @ fc_spark_api_version fc @ ''/'' @ path
            else WebURL (cfg_bridge (fc_sync fc)) path ds) in
      finishProxy sha256 cfg rq auditType upstream listingKey (WebPartition (hr_domain rq) (request_feed_code cfg rq) auditType))"

definition proxyWeb ::
  "(string \<Rightarrow> string) \<Rightarrow> proxy_config \<Rightarrow> proxy_request \<Rightarrow> string \<Rightarrow> string \<Rightarrow> ('z pdb_scheme, proxy_reply) go" where
  "proxyWeb sha256 cfg rq auditType path = proxyWebWithKey sha256 cfg rq auditType path []"

definition reso_upstream :: "proxy_config \<Rightarrow> feed_definition \<Rightarrow> string \<Rightarrow> string" where
  "reso_upstream cfg feed entity = (let fc = pc_feeds cfg in
     if fd_provider feed = ''spark'' then fc_spark_api_host fc @ ''/'' @ fc_spark_api_version fc @ ''/'' @ fc_spark_live_root fc @ ''/'' @ entity
     else ResoURL (cfg_bridge (fc_sync fc)) entity (DatasetSlug feed (fc_default_dataset fc)))"

definition proxyResoWithKey ::
  "(string \<Rightarrow> string) \<Rightarrow> proxy_config \<Rightarrow> proxy_request \<Rightarrow> string \<Rightarrow> string \<Rightarrow> string \<Rightarrow> ('z pdb_scheme, proxy_reply) go" where
  "proxyResoWithKey sha256 cfg rq auditType entity listingKey =
     finishProxy sha256 cfg rq auditType (reso_upstream cfg (hr_feed rq) entity) listingKey
       (ResoPartition (hr_domain rq) (request_feed_code cfg rq) entity)"

definition proxyReso ::
  "(string \<Rightarrow> string) \<Rightarrow> proxy_config \<Rightarrow> proxy_request \<Rightarrow> string \<Rightarrow> string \<Rightarrow> ('z pdb_scheme, proxy_reply) go" where
  "proxyReso sha256 cfg rq auditType entity = proxyResoWithKey sha256 cfg rq auditType entity []"

definition proxyResoLookup ::
  "(string \<Rightarrow> string) \<Rightarrow> proxy_config \<Rightarrow> proxy_request \<Rightarrow> string \<Rightarrow> string \<Rightarrow> ('z pdb_scheme, proxy_reply) go" where
  "proxyResoLookup sha256 cfg rq auditType entity =
     finishProxy sha256 cfg rq auditType (reso_upstream cfg (hr_feed rq) entity) []
       (LookupPartition (hr_domain rq) (request_feed_code cfg rq))"

definition proxyPub ::
  "(string \<Rightarrow> string) \<Rightarrow> proxy_config \<Rightarrow> proxy_request \<Rightarrow> string \<Rightarrow> string \<Rightarrow> ('z pdb_scheme, proxy_reply) go" where
  "proxyPub sha256 cfg rq auditType path =
     finishProxy sha256 cfg rq auditType
       (WebURL (cfg_bridge (fc_sync (pc_feeds cfg))) path (DatasetSlug (hr_feed rq) (fc_default_dataset (pc_feeds cfg)))) []
       (WebPartition (hr_domain rq) (request_feed_code cfg rq) auditType)"

definition quoted_key :: "string \<Rightarrow> string \<Rightarrow> string" where
  "quoted_key entity key = entity @ ''('' @ [CHR 0x27] @ key @ [CHR 0x27] @ '')''"

text \<open>The routes of the handler; \<open>k\<close> is the parameter of a route.\<close>

datatype mls_route = RListings | RListing string | RAgents | RAgent string | ROffices | ROffice string | ROpenHouses | ROpenHouse string
  | RProperties | RProperty string | RMembers | RMember string | RResoOffices | RResoOffice string
  | RResoOpenHouses | RResoOpenHouse string | RLookup | RPubParcels | RPubParcel string | RPubParcelAssessments string
  | RPubParcelTransactions string | RPubAssessments | RPubTransactions

definition mls_handler :: "(string \<Rightarrow> string) \<Rightarrow> proxy_config \<Rightarrow> proxy_request \<Rightarrow> mls_route \<Rightarrow> ('z pdb_scheme, proxy_reply) go" where
  "mls_handler sha256 cfg rq route =
     (let web = proxyWeb sha256 cfg rq; reso = proxyReso sha256 cfg rq; pub = proxyPub sha256 cfg rq in
      case route of
        RListings \<Rightarrow> web ''listings.collection'' ''listings''
      | RListing k \<Rightarrow> proxyWebWithKey sha256 cfg rq ''listings.detail'' (''listings/'' @ k) k
      | RAgents \<Rightarrow> web ''agents.collection'' ''agents''
      | RAgent k \<Rightarrow> web ''agents.detail'' (''agents/'' @ k)
      | ROffices \<Rightarrow> web ''offices.collection'' ''offices''
      | ROffice k \<Rightarrow> web ''offices.detail'' (''offices/'' @ k)
      | ROpenHouses \<Rightarrow> web ''openhouses.collection'' ''openhouses''
      | ROpenHouse k \<Rightarrow> web ''openhouses.detail'' (''openhouses/'' @ k)
      | RProperties \<Rightarrow> reso ''properties.collection'' ''Property''
      | RProperty k \<Rightarrow> proxyResoWithKey sha256 cfg rq ''properties.detail'' (quoted_key ''Property'' k) k
      | RMembers \<Rightarrow> reso ''members.collection'' ''Member''
      | RMember k \<Rightarrow> reso ''members.detail'' (quoted_key ''Member'' k)
      | RResoOffices \<Rightarrow> reso ''reso-offices.collection'' ''Office''
      | RResoOffice k \<Rightarrow> reso ''reso-offices.detail'' (quoted_key ''Office'' k)
      | RResoOpenHouses \<Rightarrow> reso ''reso-openhouses.collection'' ''OpenHouse''
      | RResoOpenHouse k \<Rightarrow> reso ''reso-openhouses.detail'' (quoted_key ''OpenHouse'' k)
      | RLookup \<Rightarrow> proxyResoLookup sha256 cfg rq ''lookup'' ''Lookup''
      | RPubParcels \<Rightarrow> pub ''pub.parcels'' ''pub/parcels''
      | RPubParcel k \<Rightarrow> pub ''pub.parcel'' (''pub/parcels/'' @ k)
      | RPubParcelAssessments k \<Rightarrow> pub ''pub.parcel.assessments'' (''pub/parcels/'' @ k @ ''/assessments'')
      | RPubParcelTransactions k \<Rightarrow> pub ''pub.parcel.transactions'' (''pub/parcels/'' @ k @ ''/transactions'')
      | RPubAssessments \<Rightarrow> pub ''pub.assessments'' ''pub/assessments''
      | RPubTransactions \<Rightarrow> pub ''pub.transactions'' ''pub/transactions'')"

section \<open>Lemmas: partitions\<close>

text \<open>The rows of one domain and feed.\<close>

definition of_domain :: "string \<Rightarrow> string \<Rightarrow> cache_row \<Rightarrow> bool" where
  "of_domain d f r \<longleftrightarrow> has_prefix (ch_partition r) (d @ '':'' @ f @ '':'')"

lemma colon_free_split:
  "d @ CHR '':'' # r = d' @ CHR '':'' # r' \<Longrightarrow> CHR '':'' \<notin> set d \<Longrightarrow> CHR '':'' \<notin> set d' \<Longrightarrow> d = d' \<and> r = r'"
  by (induction d arbitrary: d') (auto simp: Cons_eq_append_conv append_eq_Cons_conv split: list.splits)

lemma has_prefix_obtain: "has_prefix s p \<Longrightarrow> \<exists>r. s = p @ r"
  by (auto simp: has_prefix_def prefix_def)

lemma of_domain_unique:
  assumes "of_domain d f r" "of_domain d' f' r"
    and "CHR '':'' \<notin> set d" "CHR '':'' \<notin> set f" "CHR '':'' \<notin> set d'" "CHR '':'' \<notin> set f'"
  shows "d = d' \<and> f = f'"
proof -
  obtain x where x: "ch_partition r = d @ CHR '':'' # f @ CHR '':'' # x"
    using has_prefix_obtain [OF assms(1) [unfolded of_domain_def]] by auto
  obtain y where y: "ch_partition r = d' @ CHR '':'' # f' @ CHR '':'' # y"
    using has_prefix_obtain [OF assms(2) [unfolded of_domain_def]] by auto
  from x y colon_free_split [of d "f @ CHR '':'' # x" d' "f' @ CHR '':'' # y"] assms(3,5)
  have "d = d'" "f @ CHR '':'' # x = f' @ CHR '':'' # y" by auto
  with colon_free_split [of f x f' y] assms(4,6) show ?thesis by simp
qed

lemma partition_of_domain:
  "has_prefix (WebPartition d f a) (d @ '':'' @ f @ '':'')" "has_prefix (ResoPartition d f a) (d @ '':'' @ f @ '':'')"
  "has_prefix (SearchPartition d f) (d @ '':'' @ f @ '':'')" "has_prefix (LookupPartition d f) (d @ '':'' @ f @ '':'')"
  by (simp_all add: WebPartition_def ResoPartition_def SearchPartition_def LookupPartition_def has_prefix_def)

section \<open>Lemmas: what a request changes in the cache\<close>

definition cache_key :: "cache_row \<Rightarrow> string \<times> string" where
  "cache_key r = (ch_partition r, ch_fingerprint r)"

lemma find_cached_None: "find_cached p f rows = None \<longleftrightarrow> (p, f) \<notin> cache_key ` set rows"
  by (auto simp: find_cached_def find_None_iff cache_key_def)

lemma upsert_cached_other:
  assumes "\<not> P r" "\<And>x y. cache_key x = cache_key y \<Longrightarrow> P x = P y"
  shows "filter P (upsert_cached r rows) = filter P rows"
proof -
  have same: "\<not> P x" if "ch_partition x = ch_partition r \<and> ch_fingerprint x = ch_fingerprint r" for x
    using assms(1) assms(2) [of x r] that by (simp add: cache_key_def)
  have "filter P (map (\<lambda>x. if ch_partition x = ch_partition r \<and> ch_fingerprint x = ch_fingerprint r then r else x) rows) = filter P rows"
    using same assms(1) by (induction rows) auto
  then show ?thesis using assms(1) by (simp add: upsert_cached_def)
qed

lemma upsert_cached_keys:
  "map cache_key (upsert_cached r rows) =
     (if cache_key r \<in> cache_key ` set rows then map cache_key rows else map cache_key rows @ [cache_key r])"
proof -
  have hit: "(find_cached (ch_partition r) (ch_fingerprint r) rows \<noteq> None) = (cache_key r \<in> cache_key ` set rows)"
    unfolding find_cached_None by (simp add: cache_key_def)
  have "map cache_key (map (\<lambda>x. if ch_partition x = ch_partition r \<and> ch_fingerprint x = ch_fingerprint r then r else x) rows) =
      map cache_key rows"
    by (simp add: cache_key_def)
  then show ?thesis unfolding upsert_cached_def hit by simp
qed

text \<open>A law of the cache table that is kept by storing a row of one partition is kept by a whole request for that partition, on
  every path.\<close>

locale partition_law =
  fixes Q :: "cache_row list \<Rightarrow> bool" and part :: string
  assumes upsert: "Q rows \<Longrightarrow> ch_partition r = part \<Longrightarrow> Q (upsert_cached r rows)"
begin

abbreviation keeps_rows :: "('z pdb_scheme, 'a) go \<Rightarrow> bool" where
  "keeps_rows m \<equiv> keeps (\<lambda>s. Q (search_cache s)) m"

lemma rows_now: "keeps_rows go_now"
  by (rule keeps_now) simp

lemma rows_read: "keeps_rows (sql (\<lambda>s. Some (g s, s)))"
  by (rule keeps_sql) auto

lemma rows_http: "keeps_rows (http_get u)"
  unfolding http_get_def by (intro keeps_bind rows_now keepsI) (auto simp: Let_def split: list.splits http_reply.splits)

lemma rows_put: "keeps_rows (ProxyCache_Put part fp body)"
  unfolding ProxyCache_Put_def by (intro keeps_bind rows_now keeps_sql) (auto intro!: upsert split: if_splits)

lemma rows_get: "keeps_rows (ProxyCache_Get cfg p fp)"
  unfolding ProxyCache_Get_def
  by (intro keeps_bind keeps_try keeps_ret keeps_case_sum keeps_case_option keeps_if rows_read rows_now)

lemma rows_audit: "keeps_rows (audit_log rq ty n h)"
  unfolding audit_log_def by (intro keeps_ignore keeps_sql) auto

lemma rows_inject: "keeps_rows (InjectIntoJSON body)"
  unfolding InjectIntoJSON_def LatestSnapshot_def Let_def
  by (intro keeps_bind keeps_try rows_read) (auto split: sum.split raw_message.split json.split)

lemma rows_pricing: "keeps_rows (with_pricing rq body)"
  unfolding with_pricing_def by (intro keeps_if keeps_ret rows_inject)

lemma rows_store: "keeps_rows (store_answer cfg rq key part fp resp)"
  unfolding store_answer_def by (intro keeps_if keeps_bind keeps_ret keeps_ignore rows_pricing rows_put)

lemma rows_pass: "keeps_rows (pass_through cfg rq ty up key part fp)"
  unfolding pass_through_def proxy_call_def
  by (intro keeps_bind keeps_try keeps_ret keeps_case_sum rows_http rows_store rows_audit)

lemma rows_finish: "keeps_rows (finishProxy sha256 cfg rq ty up key part)"
  unfolding finishProxy_def Let_def serve_hit_def
  by (intro keeps_bind keeps_ret keeps_case_option keeps_if rows_get rows_audit rows_pricing rows_pass)

end

interpretation other_partitions: partition_law "\<lambda>rows. filter (\<lambda>r. ch_partition r \<noteq> p) rows = rest" p for p rest
  by unfold_locales (subst upsert_cached_other [where P = "\<lambda>r. ch_partition r \<noteq> p" for p], auto simp: cache_key_def)

interpretation unique_entries: partition_law "\<lambda>rows. distinct (map cache_key rows)" p for p
  by unfold_locales (simp add: upsert_cached_keys)

text \<open>Every route ends in \<^verbatim>\<open>finishProxy\<close> with a partition of the request's own domain and feed.\<close>

definition own_finish :: "(string \<Rightarrow> string) \<Rightarrow> proxy_config \<Rightarrow> proxy_request \<Rightarrow> ('z pdb_scheme, proxy_reply) go \<Rightarrow> bool" where
  "own_finish sha256 cfg rq m \<longleftrightarrow> (\<exists>ty up key p. m = finishProxy sha256 cfg rq ty up key p \<and>
     has_prefix p (hr_domain rq @ '':'' @ request_feed_code cfg rq @ '':''))"

lemma own_finishI:
  "has_prefix p (hr_domain rq @ '':'' @ request_feed_code cfg rq @ '':'') \<Longrightarrow> own_finish sha256 cfg rq (finishProxy sha256 cfg rq ty up key p)"
  unfolding own_finish_def by blast

lemma own_finish_helpers:
  "own_finish sha256 cfg rq (proxyWebWithKey sha256 cfg rq ty path key)" "own_finish sha256 cfg rq (proxyResoWithKey sha256 cfg rq ty ent key)"
  "own_finish sha256 cfg rq (proxyResoLookup sha256 cfg rq ty ent)" "own_finish sha256 cfg rq (proxyPub sha256 cfg rq ty path)"
  "own_finish sha256 cfg rq (proxyWeb sha256 cfg rq ty path)" "own_finish sha256 cfg rq (proxyReso sha256 cfg rq ty ent)"
  unfolding proxyWeb_def proxyReso_def proxyWebWithKey_def proxyResoWithKey_def proxyResoLookup_def proxyPub_def Let_def
  by (intro own_finishI partition_of_domain)+

lemma mls_handler_finish: "own_finish sha256 cfg rq (mls_handler sha256 cfg rq route)"
  unfolding mls_handler_def Let_def by (cases route) (simp_all only: mls_route.case own_finish_helpers)

lemma ProxyCache_Get_hit:
  assumes "ProxyCache_Get cfg p fp s = (Inr (Some body), s')"
  shows "\<exists>r t. find_cached p fp (search_cache s) = Some r \<and> body = ch_data r \<and> clock s \<le> t \<and> t - ch_updated r \<le> TTLForPartition cfg p"
proof -
  let ?q = "sql (\<lambda>s. Some (find_cached p fp (search_cache s), s)) :: ('a pdb_scheme, _) go"
  obtain x s1 where q: "?q s = (x, s1)" by fastforce
  with assms obtain r where r: "x = Inr (Some r)"
    by (cases x) (auto simp: ProxyCache_Get_def go_simps split: option.splits)
  with q have s1: "find_cached p fp (search_cache s) = Some r" "clock s1 = clock s" by (auto dest!: sql_Inr)
  obtain t where t: "go_now s1 = (Inr t, snd (go_now s1))" "clock s1 \<le> t" using go_now_Inr by blast
  with assms q r s1 show ?thesis
    by (auto simp: ProxyCache_Get_def go_simps split: if_splits prod.splits)
qed

lemma audit_log_run: "\<exists>s'. audit_log rq ty n h s = (Inr (), s') \<and> search_cache s' = search_cache s \<and> http_log s' = http_log s"
  by (auto simp: audit_log_def go_simps sql_def Let_def split: list.splits bool.splits)

lemma pass_through_no_hit:
  assumes "pass_through cfg rq ty up key p fp s = (Inr rep, s')"
  shows "py_cache rep \<noteq> Some ''HIT''"
proof -
  obtain x s1 where c: "proxy_call rq up True s = (x, s1)" by fastforce
  show ?thesis
  proof (cases x)
    case (Inl e)
    with assms c show ?thesis by (auto simp: pass_through_def go_simps)
  next
    case (Inr resp)
    obtain y s2 where st: "store_answer cfg rq key p fp resp s1 = (y, s2)" by fastforce
    show ?thesis
    proof (cases y)
      case (Inl e)
      with assms c Inr st show ?thesis by (auto simp: pass_through_def go_simps)
    next
      case y: (Inr a)
      obtain s3 where "audit_log rq ty None (snd a) s2 = (Inr (), s3)" using audit_log_run by blast
      with assms c Inr st y have "py_cache rep = snd a" by (auto simp: pass_through_def go_simps)
      moreover have "snd a \<noteq> Some ''HIT''"
        using st y by (auto simp: store_answer_def go_simps split: if_splits prod.splits sum.splits)
      ultimately show ?thesis by simp
    qed
  qed
qed

lemma serve_hit_plain:
  assumes "query_value rq ''include_pricing'' \<noteq> ''1''"
  shows "\<exists>s'. serve_hit rq ty body s = (Inr \<lparr>py_status = 200, py_body = body, py_cache = Some ''HIT''\<rparr>, s') \<and>
    search_cache s' = search_cache s \<and> http_log s' = http_log s"
  using audit_log_run [of rq ty None "Some ''HIT''" s] assms by (auto simp: serve_hit_def with_pricing_def go_simps)

lemma finishProxy_hit:
  assumes "finishProxy sha256 cfg rq ty up key p s = (Inr rep, s')" "py_cache rep = Some ''HIT''"
    and "query_value rq ''include_pricing'' \<noteq> ''1''"
  shows "\<exists>s1. ProxyCache_Get cfg p (FingerprintRequest sha256 rq up) s = (Inr (Some (py_body rep)), s1)"
proof (cases "p = []")
  case True
  with assms(1) have "pass_through cfg rq ty up key p (FingerprintRequest sha256 rq up) s = (Inr rep, s')"
    by (simp add: finishProxy_def Let_def go_simps)
  from pass_through_no_hit [OF this] assms(2) show ?thesis by simp
next
  case False
  obtain x s1 where g: "ProxyCache_Get cfg p (FingerprintRequest sha256 rq up) s = (x, s1)" by fastforce
  consider e where "x = Inl e" | "x = Inr None" | b where "x = Inr (Some b)" by (cases x) auto
  then show ?thesis
  proof cases
    case 1
    with assms(1) False g show ?thesis by (simp add: finishProxy_def Let_def go_simps)
  next
    case 2
    with assms(1) False g have "pass_through cfg rq ty up key p (FingerprintRequest sha256 rq up) s1 = (Inr rep, s')"
      by (simp add: finishProxy_def Let_def go_simps)
    from pass_through_no_hit [OF this] assms(2) show ?thesis by simp
  next
    case 3
    with assms(1) False g serve_hit_plain [OF assms(3), of ty b s1] show ?thesis
      by (auto simp: finishProxy_def Let_def go_simps)
  qed
qed

lemma filter_within: "(\<And>x. x \<in> set xs \<union> set ys \<Longrightarrow> P x \<Longrightarrow> R x) \<Longrightarrow> filter R xs = filter R ys \<Longrightarrow> filter P xs = filter P ys"
proof -
  assume w: "\<And>x. x \<in> set xs \<union> set ys \<Longrightarrow> P x \<Longrightarrow> R x" and eq: "filter R xs = filter R ys"
  have "filter P zs = filter P (filter R zs)" if "set zs \<subseteq> set xs \<union> set ys" for zs
    using that w by (auto intro!: filter_cong)
  then show ?thesis using eq by (metis Un_upper1 Un_upper2)
qed

text \<open>(C22) The response cache keeps the sites apart: a request of one domain and feed, on every route and on every path, leaves
  the cached responses of every other domain and feed as they were and the key of the table unique; and a response from the cache
  is the body of a row of the same domain and feed that is no older than its time to live. Slugs and feed codes carry no colon.\<close>

theorem proxy_cache_keeps_sites_apart:
  fixes s :: "'z pdb_scheme"
  assumes "distinct (map cache_key (search_cache s))"
    and "CHR '':'' \<notin> set (hr_domain rq)" "CHR '':'' \<notin> set (request_feed_code cfg rq)"
    and run: "mls_handler sha256 cfg rq route s = (r, s')"
  shows "distinct (map cache_key (search_cache s')) \<and>
    (\<forall>d f. CHR '':'' \<notin> set d \<and> CHR '':'' \<notin> set f \<and> (d, f) \<noteq> (hr_domain rq, request_feed_code cfg rq) \<longrightarrow>
       filter (of_domain d f) (search_cache s') = filter (of_domain d f) (search_cache s)) \<and>
    (\<forall>rep. r = Inr rep \<and> py_cache rep = Some ''HIT'' \<and> query_value rq ''include_pricing'' \<noteq> ''1'' \<longrightarrow>
       (\<exists>row t. row \<in> set (search_cache s) \<and> of_domain (hr_domain rq) (request_feed_code cfg rq) row \<and> py_body rep = ch_data row \<and>
          clock s \<le> t \<and> t - ch_updated row \<le> TTLForPartition cfg (ch_partition row)))"
proof -
  obtain ty up key p where fin: "(mls_handler sha256 cfg rq route :: ('z pdb_scheme, proxy_reply) go) = finishProxy sha256 cfg rq ty up key p"
    and p: "has_prefix p (hr_domain rq @ '':'' @ request_feed_code cfg rq @ '':'')"
    using mls_handler_finish [of sha256 cfg rq route] unfolding own_finish_def by blast
  have s': "s' = snd (finishProxy sha256 cfg rq ty up key p s)" using run fin by simp
  have u: "distinct (map cache_key (search_cache s'))"
    unfolding s' by (rule keepsD [OF unique_entries.rows_finish assms(1)])
  have rest: "filter (\<lambda>r. ch_partition r \<noteq> p) (search_cache s') = filter (\<lambda>r. ch_partition r \<noteq> p) (search_cache s)"
    unfolding s' by (rule keepsD [OF other_partitions.rows_finish refl])
  have apart: "filter (of_domain d f) (search_cache s') = filter (of_domain d f) (search_cache s)"
    if "CHR '':'' \<notin> set d" "CHR '':'' \<notin> set f" "(d, f) \<noteq> (hr_domain rq, request_feed_code cfg rq)" for d f
  proof (rule filter_within [OF _ rest])
    fix x assume "of_domain d f x"
    then show "ch_partition x \<noteq> p"
      using of_domain_unique [of d f x] p that assms(2,3) unfolding of_domain_def by blast
  qed
  have hit: "\<exists>row t. row \<in> set (search_cache s) \<and> of_domain (hr_domain rq) (request_feed_code cfg rq) row \<and> py_body rep = ch_data row \<and>
          clock s \<le> t \<and> t - ch_updated row \<le> TTLForPartition cfg (ch_partition row)"
    if "r = Inr rep" "py_cache rep = Some ''HIT''" "query_value rq ''include_pricing'' \<noteq> ''1''" for rep
  proof -
    from finishProxy_hit [of sha256 cfg rq ty up key p s rep s'] run fin that
    obtain s1 where "ProxyCache_Get cfg p (FingerprintRequest sha256 rq up) s = (Inr (Some (py_body rep)), s1)" by auto
    from ProxyCache_Get_hit [OF this] obtain row t where "find_cached p (FingerprintRequest sha256 rq up) (search_cache s) = Some row"
      "py_body rep = ch_data row" "clock s \<le> t" "t - ch_updated row \<le> TTLForPartition cfg p" by blast
    then show ?thesis using p by (auto simp: find_cached_def find_Some_iff of_domain_def intro!: exI [of _ row] exI [of _ t])
  qed
  from u apart hit show ?thesis by blast
qed

section \<open>The round trip of the cache\<close>

definition calm_since :: "int \<Rightarrow> 'z pdb_scheme \<Rightarrow> bool" where
  "calm_since t s \<longleftrightarrow> no_faults s \<and> t \<le> clock s"

lemma calm_now: "keeps (calm_since t) go_now"
  by (rule keepsI) (auto simp: calm_since_def no_faults_def go_now_def split: list.splits)

lemma calm_sql:
  fixes f :: "'z pdb_scheme \<Rightarrow> ('a \<times> 'z pdb_scheme) option"
  assumes f: "\<And>s a s'. f s = Some (a, s') \<Longrightarrow> faults s' = faults s \<and> clock s' = clock s"
  shows "keeps (calm_since t) (sql f)"
proof (rule keepsI)
  fix s :: "'z pdb_scheme" assume c: "calm_since t s"
  have tl: "True \<notin> set (tl (faults s))" using c by (cases "faults s") (auto simp: calm_since_def no_faults_def)
  show "calm_since t (snd (sql f s))"
  proof (cases rule: sql_cases [of s f])
    case (fault bs)
    then show ?thesis using c by (auto simp: calm_since_def no_faults_def)
  next
    case rejected
    then show ?thesis using c tl by (auto simp: calm_since_def no_faults_def)
  next
    case (ran a s')
    then show ?thesis using c tl f [OF ran(1)] by (auto simp: calm_since_def no_faults_def)
  qed
qed

lemma calm_http: "keeps (calm_since t) (http_get u)"
  unfolding http_get_def
  by (intro keeps_bind calm_now keepsI) (auto simp: Let_def calm_since_def no_faults_def split: list.splits http_reply.splits)

lemma calm_get: "keeps (calm_since t) (ProxyCache_Get cfg p fp)"
  unfolding ProxyCache_Get_def
  by (intro keeps_bind keeps_try keeps_ret keeps_case_sum keeps_case_option keeps_if calm_now calm_sql) auto

lemma find_cached_upsert: "find_cached (ch_partition r) (ch_fingerprint r) (upsert_cached r rows) = Some r"
proof (cases "find_cached (ch_partition r) (ch_fingerprint r) rows")
  case None
  then show ?thesis
    unfolding upsert_cached_def find_cached_def by (auto simp: find_None_iff intro!: find_appended)
next
  case (Some x)
  then have "\<exists>x \<in> set rows. ch_partition x = ch_partition r \<and> ch_fingerprint x = ch_fingerprint r"
    by (auto simp: find_cached_def find_Some_iff)
  then have "find (\<lambda>x. ch_partition x = ch_partition r \<and> ch_fingerprint x = ch_fingerprint r)
    (map (\<lambda>x. if ch_partition x = ch_partition r \<and> ch_fingerprint x = ch_fingerprint r then r else x) rows) = Some r"
    by (induction rows) auto
  with Some show ?thesis by (simp add: upsert_cached_def find_cached_def)
qed

lemma ProxyCache_Put_calm:
  assumes "calm_since t s" "length p \<le> 255" "length fp \<le> 64"
  shows "\<exists>s' row. ProxyCache_Put p fp body s = (Inr (), s') \<and> find_cached p fp (search_cache s') = Some row \<and>
    ch_data row = body \<and> t \<le> ch_updated row"
proof -
  obtain now s1 where n: "go_now s = (Inr now, s1)" "clock s1 = now" "clock s \<le> now" using go_now_Inr by metis
  have "calm_since t s1" using keepsD [OF calm_now assms(1)] n by simp
  then have "no_faults s1" by (simp add: calm_since_def)
  then show ?thesis
    using n assms find_cached_upsert [of "\<lparr>ch_partition = p, ch_fingerprint = fp, ch_data = body, ch_updated = now\<rparr>"]
    by (auto simp: ProxyCache_Put_def go_simps sql_no_faults calm_since_def)
qed

lemma store_answer_miss:
  assumes "store_answer cfg rq key p fp resp s = (Inr (body, Some h), s')" "calm_since t s" "length p \<le> 255" "length fp \<le> 64"
    and "query_value rq ''include_pricing'' \<noteq> ''1''"
  shows "\<exists>row. find_cached p fp (search_cache s') = Some row \<and> ch_data row = body \<and> t \<le> ch_updated row"
  using assms(1,5) ProxyCache_Put_calm [OF assms(2-4), of "RewriteBytes cfg (http_body resp) key"]
  by (auto simp: store_answer_def with_pricing_def go_simps split: if_splits)

lemma pass_through_miss:
  assumes "pass_through cfg rq ty up key p fp s = (Inr rep, s')" "py_cache rep = Some h" "calm_since t s"
    and "length p \<le> 255" "length fp \<le> 64" "query_value rq ''include_pricing'' \<noteq> ''1''"
  shows "\<exists>row. find_cached p fp (search_cache s') = Some row \<and> ch_data row = py_body rep \<and> t \<le> ch_updated row"
proof -
  obtain x s1 where c: "proxy_call rq up True s = (x, s1)" by fastforce
  have s1: "calm_since t s1" using keepsD [OF calm_http assms(3)] c by (simp add: proxy_call_def) (metis snd_conv)
  show ?thesis
  proof (cases x)
    case (Inl e)
    with assms(1,2) c show ?thesis by (auto simp: pass_through_def go_simps)
  next
    case (Inr resp)
    obtain y s2 where st: "store_answer cfg rq key p fp resp s1 = (y, s2)" by fastforce
    show ?thesis
    proof (cases y)
      case (Inl e)
      with assms(1) c Inr st show ?thesis by (auto simp: pass_through_def go_simps)
    next
      case y: (Inr a)
      obtain s3 where "audit_log rq ty None (snd a) s2 = (Inr (), s3)" "search_cache s3 = search_cache s2"
        using audit_log_run by blast
      with assms(1,2) c Inr st y have "a = (py_body rep, Some h)" "search_cache s' = search_cache s2"
        by (auto simp: pass_through_def go_simps prod_eq_iff)
      with store_answer_miss [OF _ s1 assms(4-6)] st y show ?thesis by simp
    qed
  qed
qed

lemma ProxyCache_Get_calm:
  assumes "no_faults s" "delays s = []" "find_cached p fp (search_cache s) = Some row"
    and "clock s - ch_updated row \<le> TTLForPartition cfg p"
  shows "\<exists>s'. ProxyCache_Get cfg p fp s = (Inr (Some (ch_data row)), s') \<and> http_log s' = http_log s"
  using assms by (simp add: ProxyCache_Get_def go_simps sql_no_faults go_now_def)

text \<open>What was fetched is served again: after a request that was passed on to the provider and stored, the same request within the
  time to live is answered from the cache with the same body and without asking the provider.\<close>

theorem stored_answer_is_served_again:
  assumes run: "finishProxy sha256 cfg rq ty up key part s = (Inr rep, s')" and miss: "py_cache rep = Some ''MISS''"
    and s: "no_faults s" "length part \<le> 255" "length (FingerprintRequest sha256 rq up) \<le> 64"
    and plain: "query_value rq ''include_pricing'' \<noteq> ''1''"
    and later: "search_cache s2 = search_cache s'" "no_faults s2" "delays s2 = []" "clock s2 \<le> clock s + TTLForPartition cfg part"
  shows "\<exists>s3. finishProxy sha256 cfg rq ty up key part s2 = (Inr \<lparr>py_status = 200, py_body = py_body rep, py_cache = Some ''HIT''\<rparr>, s3) \<and>
    http_log s3 = http_log s2"
proof -
  let ?fp = "FingerprintRequest sha256 rq up"
  have calm: "calm_since (clock s) s" using s by (simp add: calm_since_def)
  have "part \<noteq> []"
  proof
    assume e: "part = []"
    with run have "pass_through cfg rq ty up key part ?fp s = (Inr rep, s')" by (simp add: finishProxy_def Let_def go_simps)
    then show False using e miss
      by (auto simp: pass_through_def store_answer_def go_simps split: sum.splits prod.splits if_splits)
  qed
  obtain x s1 where g: "ProxyCache_Get cfg part ?fp s = (x, s1)" by fastforce
  have c1: "calm_since (clock s) s1" using keepsD [OF calm_get calm] g by (metis snd_conv)
  have "x = Inr None"
  proof (rule ccontr)
    assume "x \<noteq> Inr None"
    then consider e where "x = Inl e" | b where "x = Inr (Some b)" by (cases x) auto
    then show False
    proof cases
      case 1
      with run g \<open>part \<noteq> []\<close> show False by (simp add: finishProxy_def Let_def go_simps)
    next
      case 2
      with run g \<open>part \<noteq> []\<close> serve_hit_plain [OF plain, of ty b s1] miss show False
        by (auto simp: finishProxy_def Let_def go_simps)
    qed
  qed
  with run g \<open>part \<noteq> []\<close> have "pass_through cfg rq ty up key part ?fp s1 = (Inr rep, s')"
    by (simp add: finishProxy_def Let_def go_simps)
  from pass_through_miss [OF this miss c1 s(2,3) plain] later obtain row where
    row: "find_cached part ?fp (search_cache s2) = Some row" "ch_data row = py_body rep" "clock s \<le> ch_updated row" by auto
  from ProxyCache_Get_calm [OF later(2,3) row(1), of cfg] row(3) later(4) obtain s4 where
    g2: "ProxyCache_Get cfg part ?fp s2 = (Inr (Some (py_body rep)), s4)" "http_log s4 = http_log s2"
    using row(2) by auto
  from serve_hit_plain [OF plain, of ty "py_body rep" s4] g2 \<open>part \<noteq> []\<close> show ?thesis
    by (auto simp: finishProxy_def Let_def go_simps)
qed

text \<open>The fingerprint does not determine the request: keys and values are joined by \<^verbatim>\<open>=\<close> and line feeds without escaping, so a value that
  contains a line feed stands for two parameters, and two different requests of a site share one cached response.\<close>

theorem fingerprint_confuses_parameters:
  assumes "k < k'" "\<not> equal_fold k ''domain''" "\<not> equal_fold k' ''domain''"
  shows "FingerprintRequest sha256 (rq\<lparr>hr_queries := [(k, v @ [CHR 0x0A] @ k' @ ''='' @ v')]\<rparr>) up =
    FingerprintRequest sha256 (rq\<lparr>hr_queries := [(k, v), (k', v')]\<rparr>) up"
  using assms order.strict_implies_order [OF assms(1)] by (simp add: FingerprintRequest_def)

section \<open>Rewriting without a listing key\<close>

fun keys_distinct :: "json \<Rightarrow> bool" where
  "keys_distinct (JObj kvs) = (distinct (map fst kvs) \<and> (\<forall>kv \<in> set kvs. keys_distinct (snd kv)))"
| "keys_distinct (JArr vs) = (\<forall>v \<in> set vs. keys_distinct v)"
| "keys_distinct _ = True"

lemma rewrite_walk_no_key: "keys_distinct doc \<Longrightarrow> rewrite_walk cfg [] doc = doc"
proof (induction cfg "[] :: string" doc rule: rewrite_walk.induct)
  case (1 cfg kvs)
  have "map (\<lambda>(k, v). (k, case v of JStr s \<Rightarrow> JStr (rewrite_url cfg [] s) | _ \<Rightarrow> rewrite_walk cfg [] v)) kvs = kvs"
  proof (rule map_idI)
    fix kv assume kv: "kv \<in> set kvs"
    obtain k v where [simp]: "kv = (k, v)" by fastforce
    have d: "keys_distinct v" using 1(6) kv by fastforce
    show "(\<lambda>(k, v). (k, case v of JStr s \<Rightarrow> JStr (rewrite_url cfg [] s) | _ \<Rightarrow> rewrite_walk cfg [] v)) kv = kv"
      using 1(1-5) kv d by (cases v) (auto simp: rewrite_url_def)
  qed
  then show ?case using 1(6) by (simp add: gomap_of_distinct)
next
  case (2 cfg vs)
  then show ?case by (auto intro: map_idI)
qed auto

text \<open>Image URLs of collections and search results are not rewritten: without the key of a listing a document with
  unique keys comes out of the rewriting as it went in, so responses keep the addresses of the provider's image hosts.\<close>

theorem no_key_no_rewriting:
  assumes "keys_distinct doc"
  shows "RewriteBytes cfg (RawJson doc) [] = RawJson doc"
  using rewrite_walk_no_key [OF assms, of cfg] by (cases doc) (simp_all add: RewriteBytes_def)

section \<open>Witnesses\<close>

definition demo_proxy_config :: proxy_config where
  "demo_proxy_config = \<lparr>pc_feeds = demo_feeds, pc_listings_ttl = 300 * second, pc_lookup_ttl = 3600 * second, pc_retention_days = 30,
     pc_closed_days = 30, pc_image_hosts = [], pc_images_public = ''https://i'', pc_coingecko_url = ''https://c''\<rparr>"

definition demo_proxy_request :: proxy_request where
  "demo_proxy_request = \<lparr>hr_method = ''GET'', hr_queries = [(''limit'', ''1'')], hr_body = [], hr_ip = ''::1'', hr_domain = ''a.com'',
     hr_feed_code = ''bridge_stellar'', hr_feed = bridge_feed ''stellar'', hr_token = None, hr_user = None\<rparr>"

definition demo_cache_row :: cache_row where
  "demo_cache_row = \<lparr>ch_partition = ''b.com:bridge_stellar:web:listings.collection'', ch_fingerprint = ''f'', ch_data = RawJson JNull, ch_updated = 0\<rparr>"

definition demo_proxy :: pdb where
  "demo_proxy = (cdb.extend demo_comps (pdb.fields [demo_cache_row] [] []))
     \<lparr>http_replies := [HttpReply \<lparr>http_status = 200, http_link = [], http_body = RawJson (JObj [(''bundle'', JArr [])])\<rparr>]\<rparr>"

lemmas demo_proxy_defs = demo_proxy_def demo_comps_def demo_access_def demo_fetch_def demo_sync_def sdb.defs fdb.defs adb.defs cdb.defs pdb.defs

lemma demo_proxy_fields: "search_cache demo_proxy = [demo_cache_row]" "faults demo_proxy = []" "delays demo_proxy = []"
  "http_replies demo_proxy = [HttpReply \<lparr>http_status = 200, http_link = [], http_body = RawJson (JObj [(''bundle'', JArr [])])\<rparr>]"
  by (simp_all add: demo_proxy_defs)

theorem proxy_cache_keeps_sites_apart_witness:
  "\<exists>s'. s' = snd (mls_handler (\<lambda>_. ''f'') demo_proxy_config demo_proxy_request RListings demo_proxy) \<and>
     filter (of_domain ''b.com'' ''bridge_stellar'') (search_cache s') = [demo_cache_row]"
proof -
  have "distinct (map cache_key (search_cache demo_proxy))" by (simp add: demo_proxy_fields)
  moreover have "CHR '':'' \<notin> set (hr_domain demo_proxy_request)"
    "CHR '':'' \<notin> set (request_feed_code demo_proxy_config demo_proxy_request)"
    by (simp_all add: demo_proxy_request_def request_feed_code_def)
  ultimately have "filter (of_domain ''b.com'' ''bridge_stellar'')
      (search_cache (snd (mls_handler (\<lambda>_. ''f'') demo_proxy_config demo_proxy_request RListings demo_proxy))) =
    filter (of_domain ''b.com'' ''bridge_stellar'') (search_cache demo_proxy)"
    using proxy_cache_keeps_sites_apart [OF _ _ _ prod.collapse [symmetric], of demo_proxy demo_proxy_request demo_proxy_config
        "\<lambda>_. ''f''" RListings]
    by (simp add: demo_proxy_request_def)
  also have "\<dots> = [demo_cache_row]" by (simp add: demo_proxy_fields of_domain_def demo_cache_row_def has_prefix_def)
  finally show ?thesis by blast
qed

lemma demo_finish:
  "\<exists>s'. finishProxy (\<lambda>_. ''f'') demo_proxy_config demo_proxy_request ''listings.collection'' ''https://h/x'' [] ''a.com:f:web'' demo_proxy =
     (Inr \<lparr>py_status = 200, py_body = RawJson (JObj [(''bundle'', JArr [])]), py_cache = Some ''MISS''\<rparr>, s')"
proof -
  have get: "ProxyCache_Get demo_proxy_config ''a.com:f:web'' ''f'' demo_proxy = (Inr None, demo_proxy)"
    by (simp add: ProxyCache_Get_def go_simps sql_nil demo_proxy_fields find_cached_def demo_cache_row_def)
  obtain s1 where call: "proxy_call demo_proxy_request ''https://h/x'' True demo_proxy =
      (Inr \<lparr>http_status = 200, http_link = [], http_body = RawJson (JObj [(''bundle'', JArr [])])\<rparr>, s1)" "faults s1 = []" "delays s1 = []"
    by (simp add: proxy_call_def http_get_def go_simps go_now_nil demo_proxy_fields Let_def)
  obtain s2 where store: "store_answer demo_proxy_config demo_proxy_request [] ''a.com:f:web'' ''f''
      \<lparr>http_status = 200, http_link = [], http_body = RawJson (JObj [(''bundle'', JArr [])])\<rparr> s1 =
      (Inr (RawJson (JObj [(''bundle'', JArr [])]), Some ''MISS''), s2)"
    using call(2,3) by (simp add: store_answer_def with_pricing_def query_value_def demo_proxy_request_def RewriteBytes_def gomap_of_def
        go_simps ProxyCache_Put_def go_now_nil sql_nil)
  obtain s3 where "audit_log demo_proxy_request ''listings.collection'' None (Some ''MISS'') s2 = (Inr (), s3)" using audit_log_run by blast
  with get call store show ?thesis
    by (simp add: finishProxy_def FingerprintRequest_def go_simps pass_through_def Let_def)
qed

theorem stored_answer_is_served_again_witness:
  "\<exists>(s' :: pdb) s3. finishProxy (\<lambda>_. ''f'') demo_proxy_config demo_proxy_request ''listings.collection'' ''https://h/x'' [] ''a.com:f:web''
       (demo_proxy\<lparr>search_cache := search_cache s'\<rparr>) =
     (Inr \<lparr>py_status = 200, py_body = RawJson (JObj [(''bundle'', JArr [])]), py_cache = Some ''HIT''\<rparr>, s3) \<and> http_log s3 = http_log demo_proxy"
proof -
  obtain s' where run: "finishProxy (\<lambda>_. ''f'') demo_proxy_config demo_proxy_request ''listings.collection'' ''https://h/x'' [] ''a.com:f:web''
      demo_proxy = (Inr \<lparr>py_status = 200, py_body = RawJson (JObj [(''bundle'', JArr [])]), py_cache = Some ''MISS''\<rparr>, s')"
    using demo_finish by blast
  have "\<exists>s3. finishProxy (\<lambda>_. ''f'') demo_proxy_config demo_proxy_request ''listings.collection'' ''https://h/x'' [] ''a.com:f:web''
       (demo_proxy\<lparr>search_cache := search_cache s'\<rparr>) = (Inr \<lparr>py_status = 200, py_body =
         py_body \<lparr>py_status = 200, py_body = RawJson (JObj [(''bundle'', JArr [])]), py_cache = Some ''MISS''\<rparr>, py_cache = Some ''HIT''\<rparr>, s3) \<and>
       http_log s3 = http_log (demo_proxy\<lparr>search_cache := search_cache s'\<rparr>)"
    by (rule stored_answer_is_served_again [OF run])
      (simp_all add: no_faults_def demo_proxy_fields FingerprintRequest_def query_value_def demo_proxy_request_def TTLForPartition_def
        demo_proxy_config_def second_def)
  then show ?thesis by auto
qed

theorem fingerprint_confuses_parameters_witness:
  "FingerprintRequest (\<lambda>x. x) (demo_proxy_request\<lparr>hr_queries := [(''a'', ''1'' @ [CHR 0x0A] @ ''b=2'')]\<rparr>) [] =
   FingerprintRequest (\<lambda>x. x) (demo_proxy_request\<lparr>hr_queries := [(''a'', ''1''), (''b'', ''2'')]\<rparr>) []"
  using fingerprint_confuses_parameters [where k = "''a''" and k' = "''b''" and v = "''1''" and v' = "''2''" and rq = demo_proxy_request]
  by (simp add: equal_fold_def to_lower_def lower_char_def)

theorem no_key_no_rewriting_witness:
  "RewriteBytes demo_proxy_config (RawJson (JObj [(''MediaURL'', JStr ''https://api.bridgedataoutput.com/photos/1'')])) [] =
     RawJson (JObj [(''MediaURL'', JStr ''https://api.bridgedataoutput.com/photos/1'')]) \<and>
   shouldRewrite demo_proxy_config ''https://api.bridgedataoutput.com/photos/1''"
proof -
  have "keys_distinct (JObj [(''MediaURL'', JStr ''https://api.bridgedataoutput.com/photos/1'')])" by simp
  from no_key_no_rewriting [OF this, of demo_proxy_config] show ?thesis
    by (simp add: shouldRewrite_def rewrite_hosts_def demo_proxy_config_def has_prefix_def to_lower_def lower_char_def)
qed

end
