(* ===== verification/Listing_Search.thy ===== *)
theory Listing_Search
  imports Live_Proxy
begin

text \<open>
  Listing search (\<^verbatim>\<open>internal/service/search\<close>: \<^verbatim>\<open>route.go\<close>, \<^verbatim>\<open>postgis.go\<close>, \<^verbatim>\<open>live_search.go\<close>, \<^verbatim>\<open>service.go\<close>). A request is routed to the mirror, to the
  provider or to both. The mirror is asked with a WHERE clause that is built from the request: conditions with numbered
  placeholders and the list of their arguments. The conditions are the constructors of \<open>search_cond\<close>, their meaning is
  \<open>cond_holds\<close>, and \<open>well_bound\<close> says that the server and its driver accept the arguments: a placeholder has an argument, of
  a type the driver encodes for the type of its column, in the range of that type.

  Parameters: \<open>dwithin\<close> (PostGIS), \<open>fmt_g\<close> (the text of a float by \<^verbatim>\<open>%g\<close>), \<open>req_text\<close> (the JSON text of a request), \<open>raw_text\<close> (the text of
  a document) and \<open>sha256\<close>.
\<close>

section \<open>Requests and routing\<close>

record search_request =
  sq_statuses :: "string list"
  sq_active_only :: "bool option"
  sq_min_price :: "real option"
  sq_max_price :: "real option"
  sq_beds_min :: "int option"
  sq_baths_min :: "real option"
  sq_living_min :: "int option"
  sq_living_max :: "int option"
  sq_lot_min :: "real option"
  sq_year_min :: "int option"
  sq_property_type :: "string option"
  sq_sub_type :: "string option"
  sq_city :: "string option"
  sq_postal :: "string option"
  sq_pool :: "bool option"
  sq_waterfront :: "bool option"
  sq_lat :: "real option"
  sq_lng :: "real option"
  sq_radius :: "real option"
  sq_reduced_days :: "int option"
  sq_low_risk :: "bool option"
  sq_min_fees :: "real option"
  sq_max_fees :: "real option"
  sq_skip :: int
  sq_limit :: int

record search_result =
  sx_results :: "raw_message list"
  sx_has_more :: bool
  sx_next_skip :: int

definition empty_search :: search_result where
  "empty_search = \<lparr>sx_results = [], sx_has_more = False, sx_next_skip = 0\<rparr>"

datatype search_route = RoutePostgresOnly | RouteUpstreamOnly | RouteSplit

definition reduced_asked :: "search_request \<Rightarrow> bool" where
  "reduced_asked req \<longleftrightarrow> (case sq_reduced_days req of Some d \<Rightarrow> d > 0 | None \<Rightarrow> False)"

definition DecideRoute :: "search_request \<Rightarrow> search_route" where
  "DecideRoute req =
     (let hasAP = (\<exists>st \<in> set (sq_statuses req). st = ''Active'' \<or> st = ''Pending''); hasClosed = (''Closed'' \<in> set (sq_statuses req)) in
      if reduced_asked req then RouteUpstreamOnly
      else if sq_statuses req = [] then (if sq_active_only req = Some False then RouteUpstreamOnly else RoutePostgresOnly)
      else if hasAP \<and> hasClosed then RouteSplit
      else if hasClosed \<and> \<not> hasAP then RouteUpstreamOnly
      else if hasAP \<and> \<not> hasClosed then RoutePostgresOnly
      else RouteUpstreamOnly)"

definition MergeResults :: "(raw_message \<Rightarrow> string) \<Rightarrow> search_result \<Rightarrow> search_result \<Rightarrow> search_result" where
  "MergeResults raw_text a b =
     \<lparr>sx_results = sx_results a @ filter (\<lambda>r. raw_text r \<notin> raw_text ` set (sx_results a)) (sx_results b),
      sx_has_more = (sx_has_more a \<or> sx_has_more b), sx_next_skip = sx_next_skip a\<rparr>"

section \<open>The query of the mirror\<close>

datatype sql_arg = AText string | AReal real | AInt int | ATime int | ATexts "string list"

datatype num_column = ColListPrice | ColBathrooms | ColLivingArea | ColLotSize | ColMonthlyFees

datatype int_column = ColBedrooms | ColYearBuilt

datatype search_cond =
    DatasetIs nat
  | StatusActivePending
  | NumGe num_column nat
  | NumLe num_column nat
  | Int2Ge int_column nat
  | TextEqFold string nat
  | TextEq string nat
  | FlagTrue string
  | StatusAny nat
  | PriceChangedWithin nat
  | LowRiskTrue
  | ModifiedSince nat
  | WithinRadius nat nat nat

record query_builder =
  qb_conds :: "search_cond list"
  qb_args :: "sql_arg list"
  qb_n :: nat

definition add_cond :: "search_cond \<Rightarrow> query_builder \<Rightarrow> query_builder" where
  "add_cond c b = b\<lparr>qb_conds := qb_conds b @ [c]\<rparr>"

definition add_arg :: "(nat \<Rightarrow> search_cond) \<Rightarrow> sql_arg \<Rightarrow> query_builder \<Rightarrow> query_builder" where
  "add_arg mk v b = b\<lparr>qb_conds := qb_conds b @ [mk (qb_n b)], qb_args := qb_args b @ [v], qb_n := qb_n b + 1\<rparr>"

definition when_given :: "'a option \<Rightarrow> ('a \<Rightarrow> query_builder \<Rightarrow> query_builder) \<Rightarrow> query_builder \<Rightarrow> query_builder" where
  "when_given x f b = (case x of None \<Rightarrow> b | Some v \<Rightarrow> f v b)"

definition when_text :: "string option \<Rightarrow> (nat \<Rightarrow> search_cond) \<Rightarrow> query_builder \<Rightarrow> query_builder" where
  "when_text x mk b = (case x of None \<Rightarrow> b | Some v \<Rightarrow> if trim_space v \<noteq> [] then add_arg mk (AText (trim_space v)) b else b)"

definition when_true :: "bool option \<Rightarrow> search_cond \<Rightarrow> query_builder \<Rightarrow> query_builder" where
  "when_true x c b = (if x = Some True then add_cond c b else b)"

definition add_radius :: "search_request \<Rightarrow> query_builder \<Rightarrow> query_builder" where
  "add_radius req b = (case (sq_lat req, sq_lng req, sq_radius req) of
      (Some lat, Some lng, Some miles) \<Rightarrow>
        b\<lparr>qb_conds := qb_conds b @ [WithinRadius (qb_n b) (qb_n b + 1) (qb_n b + 2)],
          qb_args := qb_args b @ [AReal lng, AReal lat, AReal (miles * (160934 / 100))], qb_n := qb_n b + 3\<rparr>
    | _ \<Rightarrow> b)"

text \<open>The steps of \<^verbatim>\<open>Search\<close> in their order; \<open>cutoff\<close> is the start of the rolling window, if there is one.\<close>

definition build_steps :: "search_request \<Rightarrow> int option \<Rightarrow> (query_builder \<Rightarrow> query_builder) list" where
  "build_steps req cutoff =
     [when_given (sq_min_price req) (\<lambda>v. add_arg (NumGe ColListPrice) (AReal v)),
      when_given (sq_max_price req) (\<lambda>v. add_arg (NumLe ColListPrice) (AReal v)),
      when_given (sq_beds_min req) (\<lambda>v. add_arg (Int2Ge ColBedrooms) (AInt v)),
      when_given (sq_baths_min req) (\<lambda>v. add_arg (NumGe ColBathrooms) (AReal v)),
      when_given (sq_living_min req) (\<lambda>v. add_arg (NumGe ColLivingArea) (AInt v)),
      when_given (sq_living_max req) (\<lambda>v. add_arg (NumLe ColLivingArea) (AInt v)),
      when_given (sq_lot_min req) (\<lambda>v. add_arg (NumGe ColLotSize) (AReal v)),
      when_given (sq_year_min req) (\<lambda>v. add_arg (Int2Ge ColYearBuilt) (AInt v)),
      when_text (sq_property_type req) (TextEqFold ''PropertyType''),
      when_text (sq_sub_type req) (TextEqFold ''PropertySubType''),
      when_text (sq_city req) (TextEqFold ''City''),
      when_text (sq_postal req) (TextEq ''PostalCode''),
      when_true (sq_pool req) (FlagTrue ''PoolPrivateYN''),
      when_true (sq_waterfront req) (FlagTrue ''WaterfrontYN''),
      (\<lambda>b. if sq_statuses req \<noteq> [] then add_arg StatusAny (ATexts (map (\<lambda>st. to_lower (trim_space st)) (sq_statuses req))) b else b),
      (\<lambda>b. case sq_reduced_days req of Some d \<Rightarrow> if d > 0 then add_arg PriceChangedWithin (AInt d) b else b | None \<Rightarrow> b),
      when_true (sq_low_risk req) LowRiskTrue,
      when_given cutoff (\<lambda>t. add_arg ModifiedSince (ATime t)),
      when_given (sq_min_fees req) (\<lambda>v. add_arg (NumGe ColMonthlyFees) (AReal v)),
      when_given (sq_max_fees req) (\<lambda>v. add_arg (NumLe ColMonthlyFees) (AReal v)),
      add_radius req]"

definition start_query :: "string \<Rightarrow> search_request \<Rightarrow> query_builder" where
  "start_query dataset req = \<lparr>qb_conds = [DatasetIs 1] @ (if sq_statuses req = [] then [StatusActivePending] else []),
     qb_args = [AText dataset], qb_n = 2\<rparr>"

definition build_query :: "string \<Rightarrow> search_request \<Rightarrow> int option \<Rightarrow> query_builder" where
  "build_query dataset req cutoff = foldl (\<lambda>b f. f b) (start_query dataset req) (build_steps req cutoff)"

section \<open>Meaning of a query\<close>

definition arg_at :: "sql_arg list \<Rightarrow> nat \<Rightarrow> sql_arg option" where
  "arg_at args n = (if 1 \<le> n \<and> n \<le> length args then Some (args ! (n - 1)) else None)"

definition arg_number :: "sql_arg option \<Rightarrow> real option" where
  "arg_number a = (case a of Some (AReal x) \<Rightarrow> Some x | Some (AInt i) \<Rightarrow> Some (of_int i) | _ \<Rightarrow> None)"

definition arg_text :: "sql_arg option \<Rightarrow> string option" where
  "arg_text a = (case a of Some (AText t) \<Rightarrow> Some t | _ \<Rightarrow> None)"

text \<open>NUMERIC takes integers and floats, SMALLINT integers of its range, \<^verbatim>\<open>$n || ' days'\<close> a text.\<close>

fun well_bound :: "sql_arg list \<Rightarrow> search_cond \<Rightarrow> bool" where
  "well_bound args (DatasetIs n) = (arg_text (arg_at args n) \<noteq> None)"
| "well_bound args StatusActivePending = True"
| "well_bound args (NumGe c n) = (arg_number (arg_at args n) \<noteq> None)"
| "well_bound args (NumLe c n) = (arg_number (arg_at args n) \<noteq> None)"
| "well_bound args (Int2Ge c n) = (case arg_at args n of Some (AInt i) \<Rightarrow> int2_ok i | _ \<Rightarrow> False)"
| "well_bound args (TextEqFold c n) = (arg_text (arg_at args n) \<noteq> None)"
| "well_bound args (TextEq c n) = (arg_text (arg_at args n) \<noteq> None)"
| "well_bound args (FlagTrue c) = True"
| "well_bound args (StatusAny n) = (case arg_at args n of Some (ATexts _) \<Rightarrow> True | _ \<Rightarrow> False)"
| "well_bound args (PriceChangedWithin n) = (arg_text (arg_at args n) \<noteq> None)"
| "well_bound args LowRiskTrue = True"
| "well_bound args (ModifiedSince n) = (case arg_at args n of Some (ATime _) \<Rightarrow> True | _ \<Rightarrow> False)"
| "well_bound args (WithinRadius x y m) = (case (arg_at args x, arg_at args y, arg_at args m) of
     (Some (AReal _), Some (AReal _), Some (AReal _)) \<Rightarrow> True | _ \<Rightarrow> False)"

definition num_column_of :: "num_column \<Rightarrow> listing_record \<Rightarrow> real option" where
  "num_column_of c r = (case c of ColListPrice \<Rightarrow> Some (lr_list_price r) | ColBathrooms \<Rightarrow> lr_bathrooms r | ColLivingArea \<Rightarrow> lr_living_area r
     | ColLotSize \<Rightarrow> lr_lot_size r | ColMonthlyFees \<Rightarrow> lr_monthly_fees r)"

definition int_column_of :: "int_column \<Rightarrow> listing_record \<Rightarrow> int option" where
  "int_column_of c r = (case c of ColBedrooms \<Rightarrow> lr_bedrooms r | ColYearBuilt \<Rightarrow> lr_year_built r)"

definition flag_column :: "listing_record \<Rightarrow> string \<Rightarrow> bool option" where
  "flag_column r k = (case map_of (lr_flags r) k of Some v \<Rightarrow> v | None \<Rightarrow> None)"

definition row_status :: "listing_record \<Rightarrow> string" where
  "row_status r = to_lower (pg_trim (given (lr_status r) []))"

text \<open>A comparison with NULL is not true.\<close>

definition both :: "('a \<Rightarrow> 'b \<Rightarrow> bool) \<Rightarrow> 'a option \<Rightarrow> 'b option \<Rightarrow> bool" where
  "both f x y = (case (x, y) of (Some a, Some b) \<Rightarrow> f a b | _ \<Rightarrow> False)"

fun cond_holds :: "(real \<times> real \<Rightarrow> real \<times> real \<Rightarrow> real \<Rightarrow> bool) \<Rightarrow> sql_arg list \<Rightarrow> mirror_row \<Rightarrow> search_cond \<Rightarrow> bool" where
  "cond_holds dwithin args row (DatasetIs n) = (arg_at args n = Some (AText (lr_dataset (mr_rec row))))"
| "cond_holds dwithin args row StatusActivePending = (row_status (mr_rec row) \<in> {''active'', ''pending''})"
| "cond_holds dwithin args row (NumGe c n) = both (\<le>) (arg_number (arg_at args n)) (num_column_of c (mr_rec row))"
| "cond_holds dwithin args row (NumLe c n) = both (\<ge>) (arg_number (arg_at args n)) (num_column_of c (mr_rec row))"
| "cond_holds dwithin args row (Int2Ge c n) = both (\<le>) (arg_number (arg_at args n)) (map_option of_int (int_column_of c (mr_rec row)))"
| "cond_holds dwithin args row (TextEqFold c n) = both (\<lambda>a b. to_lower a = to_lower b) (arg_text (arg_at args n)) (text_column (mr_rec row) c)"
| "cond_holds dwithin args row (TextEq c n) = both (=) (arg_text (arg_at args n)) (text_column (mr_rec row) c)"
| "cond_holds dwithin args row (FlagTrue c) = (flag_column (mr_rec row) c = Some True)"
| "cond_holds dwithin args row (StatusAny n) = (case arg_at args n of Some (ATexts sts) \<Rightarrow> row_status (mr_rec row) \<in> set sts | _ \<Rightarrow> False)"
| "cond_holds dwithin args row (PriceChangedWithin n) = False"
| "cond_holds dwithin args row LowRiskTrue = lr_low_risk (mr_rec row)"
| "cond_holds dwithin args row (ModifiedSince n) =
     (case arg_at args n of Some (ATime t) \<Rightarrow> both (\<le>) (Some t) (lr_modified (mr_rec row)) | _ \<Rightarrow> False)"
| "cond_holds dwithin args row (WithinRadius x y m) =
     (case (mr_coordinates row, arg_at args x, arg_at args y, arg_at args m) of
        (Some p, Some (AReal lng), Some (AReal lat), Some (AReal meters)) \<Rightarrow> dwithin p (lat, lng) meters
      | _ \<Rightarrow> False)"

definition page_limit :: "search_request \<Rightarrow> int" where
  "page_limit req = (if sq_limit req \<le> 0 \<or> sq_limit req > 200 then 50 else sq_limit req)"

definition page_skip :: "search_request \<Rightarrow> int" where
  "page_skip req = (if sq_skip req < 0 then 0 else sq_skip req)"

definition matching_rows :: "(real \<times> real \<Rightarrow> real \<times> real \<Rightarrow> real \<Rightarrow> bool) \<Rightarrow> query_builder \<Rightarrow> mirror_row list \<Rightarrow> mirror_row list" where
  "matching_rows dwithin q rows = newest_first (filter (\<lambda>row. \<forall>c \<in> set (qb_conds q). cond_holds dwithin (qb_args q) row c) rows)"

text \<open>LIMIT and OFFSET are BIGINT.\<close>

definition run_query ::
  "(real \<times> real \<Rightarrow> real \<times> real \<Rightarrow> real \<Rightarrow> bool) \<Rightarrow> query_builder \<Rightarrow> int \<Rightarrow> int \<Rightarrow> ('z sdb_scheme, mirror_row list) go" where
  "run_query dwithin q limit skip = sql (\<lambda>s.
     if (\<forall>c \<in> set (qb_conds q). well_bound (qb_args q) c) \<and> int64_ok limit \<and> int64_ok skip
     then Some (take (nat limit) (drop (nat skip) (matching_rows dwithin q (listings s))), s) else None)"

definition row_empty :: "mirror_row \<Rightarrow> bool" where
  "row_empty row \<longleftrightarrow> lr_raw (mr_rec row) = RawEmpty \<and> lr_payloads (mr_rec row) = no_payload \<and> lr_custom (mr_rec row) = RawEmpty"

definition row_document :: "mirror_row \<Rightarrow> raw_message" where
  "row_document row = MergeMirrorListing (lr_raw (mr_rec row)) (lr_payloads (mr_rec row)) (lr_custom (mr_rec row))"

definition RollingWindowCutoff :: "int \<Rightarrow> int \<Rightarrow> int" where
  "RollingWindowCutoff now months = minus_months now (nat months)"

definition PostgisSearch ::
  "(real \<times> real \<Rightarrow> real \<times> real \<Rightarrow> real \<Rightarrow> bool) \<Rightarrow> string \<Rightarrow> search_request \<Rightarrow> int \<Rightarrow> ('z sdb_scheme, search_result) go" where
  "PostgisSearch dwithin feedCode req rollingMonths =
     (let limit = page_limit req; skip = page_skip req in
      go_bind (if rollingMonths > 0 then go_bind go_now (\<lambda>now. go_ret (Some (RollingWindowCutoff now rollingMonths))) else go_ret None) (\<lambda>cutoff.
      go_bind (run_query dwithin (build_query (DatasetSlugFromFeedCode feedCode) req cutoff) (limit + 1) skip) (\<lambda>rows.
      let results = map row_document (filter (\<lambda>row. \<not> row_empty row) rows);
          hasMore = (int (length results) > limit);
          results = (if hasMore then take (nat limit) results else results) in
      go_ret \<lparr>sx_results = results, sx_has_more = hasMore, sx_next_skip = skip + int (length results)\<rparr>)))"

section \<open>Live search\<close>

definition quoted_status :: "string \<Rightarrow> string" where
  "quoted_status st = [CHR 0x27] @ replace_char CHR 0x27 [CHR 0x27, CHR 0x27] st @ [CHR 0x27]"

definition buildODataFilter :: "(real \<Rightarrow> string) \<Rightarrow> search_request \<Rightarrow> string" where
  "buildODataFilter fmt_g req = join_with '' and '' (
     (if sq_statuses req \<noteq> [] then [''StandardStatus in ('' @ join_with '','' (map quoted_status (sq_statuses req)) @ '')''] else []) @
     (case sq_min_price req of Some p \<Rightarrow> [''ListPrice ge '' @ fmt_g p] | None \<Rightarrow> []) @
     (case sq_max_price req of Some p \<Rightarrow> [''ListPrice le '' @ fmt_g p] | None \<Rightarrow> []) @
     (case sq_beds_min req of Some n \<Rightarrow> [''BedroomsTotal ge '' @ show_int n] | None \<Rightarrow> []) @
     (case sq_reduced_days req of Some d \<Rightarrow> if d > 0 then [''DaysOnMarket le '' @ show_int d] else [] | None \<Rightarrow> []))"

definition parseSearchBody :: "raw_message \<Rightarrow> search_result" where
  "parseSearchBody body = (case parse_value body of
      None \<Rightarrow> empty_search\<lparr>sx_results := [body]\<rparr>
    | Some rows \<Rightarrow> empty_search\<lparr>sx_results := rows\<rparr>)"

definition live_query :: "(real \<Rightarrow> string) \<Rightarrow> search_request \<Rightarrow> url_values" where
  "live_query fmt_g req =
     (let filter_text = buildODataFilter fmt_g req;
          q = (if filter_text \<noteq> [] then query_set ''$filter'' filter_text [] else []);
          q = query_set ''$top'' (show_int (page_limit req)) q;
          q = (if sq_skip req > 0 then query_set ''$skip'' (show_int (sq_skip req)) q else q)
      in query_set ''$orderby'' ''ModificationTimestamp desc'' q)"

definition LiveSearch ::
  "(string \<Rightarrow> string) \<Rightarrow> (search_request \<Rightarrow> string) \<Rightarrow> (real \<Rightarrow> string) \<Rightarrow> proxy_config \<Rightarrow> proxy_request \<Rightarrow> search_request \<Rightarrow>
   ('z pdb_scheme, search_result) go" where
  "LiveSearch sha256 req_text fmt_g cfg rq req = (case LiveResoPropertyEndpoint (pc_feeds cfg) (hr_feed rq) of
      None \<Rightarrow> go_fail (Err ''MLS credentials are not configured'')
    | Some (url, _) \<Rightarrow>
        (let part = SearchPartition (hr_domain rq) (hr_feed_code rq); fp = sha256 (req_text req) in
         go_bind (ProxyCache_Get cfg part fp) (\<lambda>hit. case hit of
           Some body \<Rightarrow> go_ret (parseSearchBody body)
         | None \<Rightarrow> go_bind (proxy_call rq (request_url url (live_query fmt_g req)) False) (\<lambda>resp.
             if http_status resp \<ge> 400 then go_ret empty_search
             else go_bind (go_ignore (ProxyCache_Put part fp (http_body resp))) (\<lambda>_. go_ret (parseSearchBody (http_body resp)))))))"

section \<open>The endpoint\<close>

definition searchSplit ::
  "(real \<times> real \<Rightarrow> real \<times> real \<Rightarrow> real \<Rightarrow> bool) \<Rightarrow> (raw_message \<Rightarrow> string) \<Rightarrow> (string \<Rightarrow> string) \<Rightarrow> (search_request \<Rightarrow> string) \<Rightarrow> (real \<Rightarrow> string) \<Rightarrow>
   proxy_config \<Rightarrow> int \<Rightarrow> proxy_request \<Rightarrow> search_request \<Rightarrow> ('z pdb_scheme, search_result) go" where
  "searchSplit dwithin raw_text sha256 req_text fmt_g cfg months rq req =
     go_bind (go_try (PostgisSearch dwithin (hr_feed_code rq) req months)) (\<lambda>ap. case ap of
       Inl _ \<Rightarrow> LiveSearch sha256 req_text fmt_g cfg rq req
     | Inr a \<Rightarrow> go_bind (go_try (LiveSearch sha256 req_text fmt_g cfg rq (req\<lparr>sq_statuses := [''Closed'']\<rparr>))) (\<lambda>cl. case cl of
         Inl _ \<Rightarrow> go_ret a
       | Inr c \<Rightarrow> go_ret (MergeResults raw_text a c)))"

definition search_routed ::
  "(real \<times> real \<Rightarrow> real \<times> real \<Rightarrow> real \<Rightarrow> bool) \<Rightarrow> (raw_message \<Rightarrow> string) \<Rightarrow> (string \<Rightarrow> string) \<Rightarrow> (search_request \<Rightarrow> string) \<Rightarrow> (real \<Rightarrow> string) \<Rightarrow>
   proxy_config \<Rightarrow> int \<Rightarrow> proxy_request \<Rightarrow> search_request \<Rightarrow> ('z pdb_scheme, search_result) go" where
  "search_routed dwithin raw_text sha256 req_text fmt_g cfg months rq req = (case DecideRoute req of
      RoutePostgresOnly \<Rightarrow> PostgisSearch dwithin (hr_feed_code rq) req months
    | RouteUpstreamOnly \<Rightarrow> LiveSearch sha256 req_text fmt_g cfg rq req
    | RouteSplit \<Rightarrow> searchSplit dwithin raw_text sha256 req_text fmt_g cfg months rq req)"

text \<open>The body is \<open>None\<close> when it does not parse.\<close>

definition Search_Handle ::
  "(real \<times> real \<Rightarrow> real \<times> real \<Rightarrow> real \<Rightarrow> bool) \<Rightarrow> (raw_message \<Rightarrow> string) \<Rightarrow> (string \<Rightarrow> string) \<Rightarrow> (search_request \<Rightarrow> string) \<Rightarrow> (real \<Rightarrow> string) \<Rightarrow>
   proxy_config \<Rightarrow> int \<Rightarrow> proxy_request \<Rightarrow> search_request option \<Rightarrow> ('z pdb_scheme, search_result http) go" where
  "Search_Handle dwithin raw_text sha256 req_text fmt_g cfg months rq body = (case body of
      None \<Rightarrow> go_ret (Inl (400, ''invalid search body''))
    | Some req \<Rightarrow> go_bind (go_try (search_routed dwithin raw_text sha256 req_text fmt_g cfg months rq req)) (\<lambda>r. case r of
        Inl e \<Rightarrow> go_ret (Inl (502, ''search failed''))
      | Inr result \<Rightarrow>
          (let out = result\<lparr>sx_results := map (\<lambda>b. RewriteBytes cfg b []) (sx_results result)\<rparr> in
           go_bind (audit_log rq ''search.listings'' (Some (length (sx_results out))) None) (\<lambda>_. go_ret (Inr out)))))"

section \<open>Lemmas: building a query\<close>

fun placeholders :: "search_cond \<Rightarrow> nat set" where
  "placeholders (DatasetIs n) = {n}"
| "placeholders (NumGe c n) = {n}"
| "placeholders (NumLe c n) = {n}"
| "placeholders (Int2Ge c n) = {n}"
| "placeholders (TextEqFold c n) = {n}"
| "placeholders (TextEq c n) = {n}"
| "placeholders (StatusAny n) = {n}"
| "placeholders (PriceChangedWithin n) = {n}"
| "placeholders (ModifiedSince n) = {n}"
| "placeholders (WithinRadius x y m) = {x, y, m}"
| "placeholders _ = {}"

definition wf_query :: "query_builder \<Rightarrow> bool" where
  "wf_query b \<longleftrightarrow> qb_n b = length (qb_args b) + 1 \<and> (\<forall>c \<in> set (qb_conds b). placeholders c \<subseteq> {1..length (qb_args b)})"

definition bound_query :: "query_builder \<Rightarrow> bool" where
  "bound_query b \<longleftrightarrow> (\<forall>c \<in> set (qb_conds b). well_bound (qb_args b) c)"

definition row_satisfies :: "(real \<times> real \<Rightarrow> real \<times> real \<Rightarrow> real \<Rightarrow> bool) \<Rightarrow> mirror_row \<Rightarrow> query_builder \<Rightarrow> bool" where
  "row_satisfies dwithin row b \<longleftrightarrow> (\<forall>c \<in> set (qb_conds b). cond_holds dwithin (qb_args b) row c)"

lemma arg_at_append: "n \<le> length args \<Longrightarrow> arg_at (args @ vs) n = arg_at args n"
  by (auto simp: arg_at_def nth_append)

lemma arg_at_new: "arg_at (args @ v # vs) (Suc (length args)) = Some v"
  by (simp add: arg_at_def)

lemma well_bound_append: "placeholders c \<subseteq> {1..length args} \<Longrightarrow> well_bound (args @ vs) c = well_bound args c"
  by (cases c) (simp_all add: arg_at_append)

lemma cond_holds_append: "placeholders c \<subseteq> {1..length args} \<Longrightarrow> cond_holds dw (args @ vs) row c = cond_holds dw args row c"
  by (cases c) (simp_all add: arg_at_append)

text \<open>A step of the builder means a condition \<open>P\<close> on rows and has arguments the server takes exactly if \<open>T\<close>; what was built before keeps its
  meaning.\<close>

definition step_means ::
  "(real \<times> real \<Rightarrow> real \<times> real \<Rightarrow> real \<Rightarrow> bool) \<Rightarrow> (query_builder \<Rightarrow> query_builder) \<Rightarrow> (mirror_row \<Rightarrow> bool) \<times> bool \<Rightarrow> bool" where
  "step_means dw f PT \<longleftrightarrow> (\<forall>b. wf_query b \<longrightarrow> wf_query (f b) \<and> bound_query (f b) = (bound_query b \<and> snd PT) \<and>
     (\<forall>row. row_satisfies dw row (f b) = (row_satisfies dw row b \<and> fst PT row)))"

lemma means_skip: "step_means dw (\<lambda>b. b) (\<lambda>_. True, True)"
  by (simp add: step_means_def)

lemma extend_query:
  assumes "wf_query b" "placeholders c \<subseteq> {1..length (qb_args b) + length vs}"
  shows "wf_query (b\<lparr>qb_conds := qb_conds b @ [c], qb_args := qb_args b @ vs, qb_n := qb_n b + length vs\<rparr>) \<and>
    bound_query (b\<lparr>qb_conds := qb_conds b @ [c], qb_args := qb_args b @ vs, qb_n := qb_n b + length vs\<rparr>) =
      (bound_query b \<and> well_bound (qb_args b @ vs) c) \<and>
    row_satisfies dw row (b\<lparr>qb_conds := qb_conds b @ [c], qb_args := qb_args b @ vs, qb_n := qb_n b + length vs\<rparr>) =
      (row_satisfies dw row b \<and> cond_holds dw (qb_args b @ vs) row c)"
proof -
  have old: "placeholders c' \<subseteq> {1..length (qb_args b)}" if "c' \<in> set (qb_conds b)" for c'
    using assms(1) that by (simp add: wf_query_def)
  then have "wf_query (b\<lparr>qb_conds := qb_conds b @ [c], qb_args := qb_args b @ vs, qb_n := qb_n b + length vs\<rparr>)"
    using assms by (fastforce simp: wf_query_def)
  with old show ?thesis
    by (auto simp: bound_query_def row_satisfies_def well_bound_append cond_holds_append)
qed

lemma means_arg:
  assumes "\<And>n. placeholders (mk n) = {n}"
    and "\<And>args n. arg_at args n = Some v \<Longrightarrow> well_bound args (mk n) = T"
    and "\<And>args n row. arg_at args n = Some v \<Longrightarrow> cond_holds dw args row (mk n) = P row"
  shows "step_means dw (add_arg mk v) (P, T)"
  unfolding step_means_def
proof (intro allI impI)
  fix b assume wf: "wf_query b"
  then have n: "qb_n b = Suc (length (qb_args b))" by (simp add: wf_query_def)
  have a: "arg_at (qb_args b @ [v]) (qb_n b) = Some v" by (simp add: n arg_at_new)
  have "placeholders (mk (qb_n b)) \<subseteq> {1..length (qb_args b) + length [v]}" by (simp add: assms(1) n)
  from extend_query [OF wf this] assms(2,3) [OF a]
  show "wf_query (add_arg mk v b) \<and> bound_query (add_arg mk v b) = (bound_query b \<and> snd (P, T)) \<and>
     (\<forall>row. row_satisfies dw row (add_arg mk v b) = (row_satisfies dw row b \<and> fst (P, T) row))"
    by (simp add: add_arg_def)
qed

lemma means_cond:
  assumes "placeholders c = {}" "\<And>args. well_bound args c" "\<And>args row. cond_holds dw args row c = P row"
  shows "step_means dw (add_cond c) (P, True)"
  using extend_query [of _ c "[]" dw] assms by (simp add: step_means_def add_cond_def)

lemma means_given:
  assumes "\<And>v. x = Some v \<Longrightarrow> step_means dw (f v) (P v, T v)"
  shows "step_means dw (when_given x f) (\<lambda>row. case x of None \<Rightarrow> True | Some v \<Rightarrow> P v row, case x of None \<Rightarrow> True | Some v \<Rightarrow> T v)"
  using assms means_skip [of dw] by (cases x) (simp_all add: when_given_def [abs_def])

definition text_asked :: "string option \<Rightarrow> (string \<Rightarrow> bool) \<Rightarrow> bool" where
  "text_asked x P \<longleftrightarrow> (case x of None \<Rightarrow> True | Some v \<Rightarrow> trim_space v \<noteq> [] \<longrightarrow> P (trim_space v))"

lemma means_text:
  assumes "\<And>v. step_means dw (add_arg mk (AText v)) (P v, True)"
  shows "step_means dw (when_text x mk) (\<lambda>row. text_asked x (\<lambda>v. P v row), True)"
  using assms means_skip [of dw] by (cases x; cases "trim_space (the x) = []") (simp_all add: when_text_def [abs_def] text_asked_def)

lemma means_true:
  assumes "step_means dw (add_cond c) (P, True)"
  shows "step_means dw (when_true x c) (\<lambda>row. x = Some True \<longrightarrow> P row, True)"
  using assms means_skip [of dw] by (cases "x = Some True") (simp_all add: when_true_def [abs_def])

lemma means_all:
  assumes "list_all2 (step_means dw) fs PTs" "wf_query b"
  shows "bound_query (foldl (\<lambda>b f. f b) b fs) = (bound_query b \<and> list_all snd PTs) \<and>
    row_satisfies dw row (foldl (\<lambda>b f. f b) b fs) = (row_satisfies dw row b \<and> list_all (\<lambda>PT. fst PT row) PTs)"
  using assms
proof (induction arbitrary: b rule: list_all2_induct)
  case Nil
  then show ?case by simp
next
  case (Cons f fs PT PTs)
  then have "wf_query (f b)" "bound_query (f b) = (bound_query b \<and> snd PT)"
    "row_satisfies dw row (f b) = (row_satisfies dw row b \<and> fst PT row)" by (simp_all add: step_means_def)
  with Cons.IH [of "f b"] show ?case by auto
qed

section \<open>What a search of the mirror returns\<close>

text \<open>The filters of a request, stated on a row of the mirror.\<close>

definition at_least :: "real option \<Rightarrow> real option \<Rightarrow> bool" where
  "at_least x y \<longleftrightarrow> (case x of None \<Rightarrow> True | Some v \<Rightarrow> (case y of None \<Rightarrow> False | Some w \<Rightarrow> v \<le> w))"

definition at_most :: "real option \<Rightarrow> real option \<Rightarrow> bool" where
  "at_most x y \<longleftrightarrow> (case x of None \<Rightarrow> True | Some v \<Rightarrow> (case y of None \<Rightarrow> False | Some w \<Rightarrow> w \<le> v))"

definition status_asked :: "search_request \<Rightarrow> string list" where
  "status_asked req = (if sq_statuses req = [] then [''active'', ''pending''] else map (\<lambda>st. to_lower (trim_space st)) (sq_statuses req))"

definition inside_radius :: "(real \<times> real \<Rightarrow> real \<times> real \<Rightarrow> real \<Rightarrow> bool) \<Rightarrow> search_request \<Rightarrow> mirror_row \<Rightarrow> bool" where
  "inside_radius dwithin req row \<longleftrightarrow> (case (sq_lat req, sq_lng req, sq_radius req) of
      (Some lat, Some lng, Some miles) \<Rightarrow>
        (case mr_coordinates row of Some p \<Rightarrow> dwithin p (lat, lng) (miles * (160934 / 100)) | None \<Rightarrow> False)
    | _ \<Rightarrow> True)"

definition request_matches ::
  "(real \<times> real \<Rightarrow> real \<times> real \<Rightarrow> real \<Rightarrow> bool) \<Rightarrow> string \<Rightarrow> search_request \<Rightarrow> int option \<Rightarrow> mirror_row \<Rightarrow> bool" where
  "request_matches dwithin dataset req cutoff row \<longleftrightarrow> (let r = mr_rec row in
     lr_dataset r = dataset \<and> row_status r \<in> set (status_asked req) \<and>
     at_least (sq_min_price req) (Some (lr_list_price r)) \<and> at_most (sq_max_price req) (Some (lr_list_price r)) \<and>
     at_least (map_option of_int (sq_beds_min req)) (map_option of_int (lr_bedrooms r)) \<and> at_least (sq_baths_min req) (lr_bathrooms r) \<and>
     at_least (map_option of_int (sq_living_min req)) (lr_living_area r) \<and> at_most (map_option of_int (sq_living_max req)) (lr_living_area r) \<and>
     at_least (sq_lot_min req) (lr_lot_size r) \<and> at_least (map_option of_int (sq_year_min req)) (map_option of_int (lr_year_built r)) \<and>
     text_asked (sq_property_type req) (\<lambda>v. both (\<lambda>a b. to_lower a = to_lower b) (Some v) (text_column r ''PropertyType'')) \<and>
     text_asked (sq_sub_type req) (\<lambda>v. both (\<lambda>a b. to_lower a = to_lower b) (Some v) (text_column r ''PropertySubType'')) \<and>
     text_asked (sq_city req) (\<lambda>v. both (\<lambda>a b. to_lower a = to_lower b) (Some v) (text_column r ''City'')) \<and>
     text_asked (sq_postal req) (\<lambda>v. both (=) (Some v) (text_column r ''PostalCode'')) \<and>
     (sq_pool req = Some True \<longrightarrow> flag_column r ''PoolPrivateYN'' = Some True) \<and>
     (sq_waterfront req = Some True \<longrightarrow> flag_column r ''WaterfrontYN'' = Some True) \<and>
     (sq_low_risk req = Some True \<longrightarrow> lr_low_risk r) \<and>
     (case cutoff of None \<Rightarrow> True | Some t \<Rightarrow> both (\<le>) (Some t) (lr_modified r)) \<and>
     at_least (sq_min_fees req) (lr_monthly_fees r) \<and> at_most (sq_max_fees req) (lr_monthly_fees r) \<and>
     inside_radius dwithin req row)"

text \<open>The server takes the arguments of a request.\<close>

definition request_fits :: "search_request \<Rightarrow> bool" where
  "request_fits req \<longleftrightarrow> (case sq_beds_min req of None \<Rightarrow> True | Some n \<Rightarrow> int2_ok n) \<and>
     (case sq_year_min req of None \<Rightarrow> True | Some n \<Rightarrow> int2_ok n) \<and> \<not> reduced_asked req"

definition step_meanings ::
  "(real \<times> real \<Rightarrow> real \<times> real \<Rightarrow> real \<Rightarrow> bool) \<Rightarrow> search_request \<Rightarrow> int option \<Rightarrow> ((mirror_row \<Rightarrow> bool) \<times> bool) list" where
  "step_meanings dw req cutoff =
     [(\<lambda>row. case sq_min_price req of None \<Rightarrow> True | Some v \<Rightarrow> both (\<le>) (Some v) (num_column_of ColListPrice (mr_rec row)), case sq_min_price req of None \<Rightarrow> True | Some v \<Rightarrow> True),
      (\<lambda>row. case sq_max_price req of None \<Rightarrow> True | Some v \<Rightarrow> both (\<ge>) (Some v) (num_column_of ColListPrice (mr_rec row)), case sq_max_price req of None \<Rightarrow> True | Some v \<Rightarrow> True),
      (\<lambda>row. case sq_beds_min req of None \<Rightarrow> True | Some v \<Rightarrow> both (\<le>) (Some (of_int v :: real)) (map_option of_int (int_column_of ColBedrooms (mr_rec row))), case sq_beds_min req of None \<Rightarrow> True | Some v \<Rightarrow> int2_ok v),
      (\<lambda>row. case sq_baths_min req of None \<Rightarrow> True | Some v \<Rightarrow> both (\<le>) (Some v) (num_column_of ColBathrooms (mr_rec row)), case sq_baths_min req of None \<Rightarrow> True | Some v \<Rightarrow> True),
      (\<lambda>row. case sq_living_min req of None \<Rightarrow> True | Some v \<Rightarrow> both (\<le>) (Some (of_int v)) (num_column_of ColLivingArea (mr_rec row)), case sq_living_min req of None \<Rightarrow> True | Some v \<Rightarrow> True),
      (\<lambda>row. case sq_living_max req of None \<Rightarrow> True | Some v \<Rightarrow> both (\<ge>) (Some (of_int v)) (num_column_of ColLivingArea (mr_rec row)), case sq_living_max req of None \<Rightarrow> True | Some v \<Rightarrow> True),
      (\<lambda>row. case sq_lot_min req of None \<Rightarrow> True | Some v \<Rightarrow> both (\<le>) (Some v) (num_column_of ColLotSize (mr_rec row)), case sq_lot_min req of None \<Rightarrow> True | Some v \<Rightarrow> True),
      (\<lambda>row. case sq_year_min req of None \<Rightarrow> True | Some v \<Rightarrow> both (\<le>) (Some (of_int v :: real)) (map_option of_int (int_column_of ColYearBuilt (mr_rec row))), case sq_year_min req of None \<Rightarrow> True | Some v \<Rightarrow> int2_ok v),
      (\<lambda>row. text_asked (sq_property_type req) (\<lambda>v. both (\<lambda>a b. to_lower a = to_lower b) (Some v) (text_column (mr_rec row) ''PropertyType'')), True),
      (\<lambda>row. text_asked (sq_sub_type req) (\<lambda>v. both (\<lambda>a b. to_lower a = to_lower b) (Some v) (text_column (mr_rec row) ''PropertySubType'')), True),
      (\<lambda>row. text_asked (sq_city req) (\<lambda>v. both (\<lambda>a b. to_lower a = to_lower b) (Some v) (text_column (mr_rec row) ''City'')), True),
      (\<lambda>row. text_asked (sq_postal req) (\<lambda>v. both (=) (Some v) (text_column (mr_rec row) ''PostalCode'')), True),
      (\<lambda>row. sq_pool req = Some True \<longrightarrow> flag_column (mr_rec row) ''PoolPrivateYN'' = Some True, True),
      (\<lambda>row. sq_waterfront req = Some True \<longrightarrow> flag_column (mr_rec row) ''WaterfrontYN'' = Some True, True),
      (\<lambda>row. sq_statuses req \<noteq> [] \<longrightarrow> row_status (mr_rec row) \<in> set (map (\<lambda>st. to_lower (trim_space st)) (sq_statuses req)), True),
      (\<lambda>row. \<not> reduced_asked req, \<not> reduced_asked req),
      (\<lambda>row. sq_low_risk req = Some True \<longrightarrow> lr_low_risk (mr_rec row), True),
      (\<lambda>row. case cutoff of None \<Rightarrow> True | Some t \<Rightarrow> both (\<le>) (Some t) (lr_modified (mr_rec row)), case cutoff of None \<Rightarrow> True | Some t \<Rightarrow> True),
      (\<lambda>row. case sq_min_fees req of None \<Rightarrow> True | Some v \<Rightarrow> both (\<le>) (Some v) (num_column_of ColMonthlyFees (mr_rec row)), case sq_min_fees req of None \<Rightarrow> True | Some v \<Rightarrow> True),
      (\<lambda>row. case sq_max_fees req of None \<Rightarrow> True | Some v \<Rightarrow> both (\<ge>) (Some v) (num_column_of ColMonthlyFees (mr_rec row)), case sq_max_fees req of None \<Rightarrow> True | Some v \<Rightarrow> True),
      (inside_radius dw req, True)]"

lemma means_num:
  "step_means dw (add_arg (NumGe c) (AReal v)) (\<lambda>row. both (\<le>) (Some v) (num_column_of c (mr_rec row)), True)"
  "step_means dw (add_arg (NumLe c) (AReal v)) (\<lambda>row. both (\<ge>) (Some v) (num_column_of c (mr_rec row)), True)"
  "step_means dw (add_arg (NumGe c) (AInt i)) (\<lambda>row. both (\<le>) (Some (of_int i)) (num_column_of c (mr_rec row)), True)"
  "step_means dw (add_arg (NumLe c) (AInt i)) (\<lambda>row. both (\<ge>) (Some (of_int i)) (num_column_of c (mr_rec row)), True)"
  "step_means dw (add_arg (Int2Ge ic) (AInt i))
     (\<lambda>row. both (\<le>) (Some (of_int i :: real)) (map_option of_int (int_column_of ic (mr_rec row))), int2_ok i)"
  by (rule means_arg; simp add: arg_number_def)+

lemma means_texts:
  "step_means dw (when_text x (TextEqFold k)) (\<lambda>row. text_asked x (\<lambda>v. both (\<lambda>a b. to_lower a = to_lower b) (Some v) (text_column (mr_rec row) k)), True)"
  "step_means dw (when_text x (TextEq k)) (\<lambda>row. text_asked x (\<lambda>v. both (=) (Some v) (text_column (mr_rec row) k)), True)"
  by (rule means_text, rule means_arg; simp add: arg_text_def)+

lemma means_flags:
  "step_means dw (when_true x (FlagTrue k)) (\<lambda>row. x = Some True \<longrightarrow> flag_column (mr_rec row) k = Some True, True)"
  "step_means dw (when_true x LowRiskTrue) (\<lambda>row. x = Some True \<longrightarrow> lr_low_risk (mr_rec row), True)"
  by (rule means_true, rule means_cond; simp)+

lemma means_status:
  "step_means dw (\<lambda>b. if sts \<noteq> [] then add_arg StatusAny (ATexts (map f sts)) b else b)
     (\<lambda>row. sts \<noteq> [] \<longrightarrow> row_status (mr_rec row) \<in> set (map f sts), True)"
proof -
  have "step_means dw (add_arg StatusAny (ATexts (map f sts))) (\<lambda>row. row_status (mr_rec row) \<in> set (map f sts), True)"
    by (rule means_arg) simp_all
  with means_skip [of dw] show ?thesis by (cases "sts = []") simp_all
qed

lemma means_reduced:
  "step_means dw (\<lambda>b. case sq_reduced_days req of Some d \<Rightarrow> if d > 0 then add_arg PriceChangedWithin (AInt d) b else b | None \<Rightarrow> b)
     (\<lambda>row. \<not> reduced_asked req, \<not> reduced_asked req)"
proof -
  have "step_means dw (add_arg PriceChangedWithin (AInt d)) (\<lambda>_. False, False)" for d
    by (rule means_arg) (simp_all add: arg_text_def)
  with means_skip [of dw] show ?thesis by (cases "sq_reduced_days req"; cases "the (sq_reduced_days req) > 0") (simp_all add: reduced_asked_def)
qed

lemma means_since: "step_means dw (add_arg ModifiedSince (ATime t)) (\<lambda>row. both (\<le>) (Some t) (lr_modified (mr_rec row)), True)"
  by (rule means_arg) simp_all

lemma means_radius: "step_means dw (add_radius req) (inside_radius dw req, True)"
proof (cases "\<exists>lat lng miles. sq_lat req = Some lat \<and> sq_lng req = Some lng \<and> sq_radius req = Some miles")
  case False
  then have "add_radius req = (\<lambda>b. b)" "inside_radius dw req = (\<lambda>_. True)"
    by (auto simp: add_radius_def inside_radius_def split: option.split)
  then show ?thesis using means_skip by simp
next
  case True
  then obtain lat lng miles where g: "sq_lat req = Some lat" "sq_lng req = Some lng" "sq_radius req = Some miles" by blast
  show ?thesis unfolding step_means_def
  proof (intro allI impI)
    fix b assume wf: "wf_query b"
    let ?vs = "[AReal lng, AReal lat, AReal (miles * (160934 / 100))]"
    let ?c = "WithinRadius (qb_n b) (qb_n b + 1) (qb_n b + 2)"
    have n: "qb_n b = Suc (length (qb_args b))" using wf by (simp add: wf_query_def)
    have a: "arg_at (qb_args b @ ?vs) (qb_n b) = Some (AReal lng)" "arg_at (qb_args b @ ?vs) (qb_n b + 1) = Some (AReal lat)"
      "arg_at (qb_args b @ ?vs) (qb_n b + 2) = Some (AReal (miles * (160934 / 100)))"
      by (simp_all add: n arg_at_def nth_append)
    have "placeholders ?c \<subseteq> {1..length (qb_args b) + length ?vs}" by (simp add: n)
    from extend_query [OF wf this, of dw] a
    show "wf_query (add_radius req b) \<and> bound_query (add_radius req b) = (bound_query b \<and> snd (inside_radius dw req, True)) \<and>
        (\<forall>row. row_satisfies dw row (add_radius req b) = (row_satisfies dw row b \<and> fst (inside_radius dw req, True) row))"
      by (auto simp: add_radius_def inside_radius_def g numeral_3_eq_3 split: option.split)
  qed
qed

lemma build_steps_mean: "list_all2 (step_means dw) (build_steps req cutoff) (step_meanings dw req cutoff)"
  unfolding build_steps_def step_meanings_def
  by (simp only: list_all2_Cons list.rel_inject list_all2_Nil simp_thms)
    (intro conjI means_given means_num means_texts means_flags means_status means_reduced means_since means_radius)

lemma start_query_wf: "wf_query (start_query dataset req)"
  by (simp add: wf_query_def start_query_def)

lemma start_query_means:
  "bound_query (start_query dataset req)"
  "row_satisfies dw row (start_query dataset req) =
     (lr_dataset (mr_rec row) = dataset \<and> (sq_statuses req = [] \<longrightarrow> row_status (mr_rec row) \<in> {''active'', ''pending''}))"
  by (auto simp: bound_query_def row_satisfies_def start_query_def arg_at_def arg_text_def)

lemma both_Some: "both f (Some v) y = (case y of None \<Rightarrow> False | Some w \<Rightarrow> f v w)"
  by (simp add: both_def split: option.splits)

lemma at_bounds:
  "(case x of None \<Rightarrow> True | Some v \<Rightarrow> both (\<le>) (Some v) y) = at_least x y"
  "(case x of None \<Rightarrow> True | Some v \<Rightarrow> both (\<ge>) (Some v) y) = at_most x y"
  "(case i of None \<Rightarrow> True | Some n \<Rightarrow> both (\<le>) (Some (of_int n)) y) = at_least (map_option of_int i) y"
  "(case i of None \<Rightarrow> True | Some n \<Rightarrow> both (\<ge>) (Some (of_int n)) y) = at_most (map_option of_int i) y"
  by (auto simp: at_least_def at_most_def both_Some split: option.splits)

lemma build_query_bound: "bound_query (build_query dataset req cutoff) = request_fits req"
proof -
  have t: "(case x of None \<Rightarrow> True | Some v \<Rightarrow> True) = True" for x :: "'a option" by (simp split: option.split)
  have "bound_query (build_query dataset req cutoff) =
      (bound_query (start_query dataset req) \<and> list_all snd (step_meanings (\<lambda>_ _ _. True) req cutoff))"
    unfolding build_query_def using means_all [OF build_steps_mean start_query_wf] by blast
  then show ?thesis by (simp add: start_query_means step_meanings_def request_fits_def t)
qed

lemma build_query_rows:
  assumes "\<not> reduced_asked req"
  shows "row_satisfies dw row (build_query dataset req cutoff) = request_matches dw dataset req cutoff row"
proof -
  have "row_satisfies dw row (build_query dataset req cutoff) =
      (row_satisfies dw row (start_query dataset req) \<and> list_all (\<lambda>PT. fst PT row) (step_meanings dw req cutoff))"
    unfolding build_query_def using means_all [OF build_steps_mean start_query_wf] by blast
  also have "\<dots> = request_matches dw dataset req cutoff row"
    unfolding start_query_means step_meanings_def request_matches_def status_asked_def Let_def list.pred_inject fst_conv at_bounds
      num_column_of_def int_column_of_def num_column.case int_column.case
    using assms by (cases "sq_statuses req = []") (simp_all add: conj_ac)
  finally show ?thesis .
qed

text \<open>(C12) The query of the mirror means the request: for every request that is routed to the mirror or to both sources, the server takes the
  arguments of the built query exactly when the minimum of bedrooms and of the year fit their SMALLINT columns, and a row
  satisfies all conditions of the query exactly when it satisfies the filters of the request, so that no
  placeholder is bound to the argument of another filter.\<close>

theorem mirror_query_means_request:
  assumes "DecideRoute req \<noteq> RouteUpstreamOnly" and q: "q = build_query dataset req cutoff"
  shows "(\<forall>c \<in> set (qb_conds q). well_bound (qb_args q) c) = request_fits req \<and>
    (\<forall>row. (\<forall>c \<in> set (qb_conds q). cond_holds dwithin (qb_args q) row c) = request_matches dwithin dataset req cutoff row)"
proof -
  have "\<not> reduced_asked req" using assms(1) by (auto simp: DecideRoute_def)
  then show ?thesis
    using build_query_bound [of dataset req cutoff] build_query_rows q by (simp add: bound_query_def row_satisfies_def)
qed

lemma newest_first_set: "set (newest_first rows) = set rows"
  by (auto simp: newest_first_def Let_def)

text \<open>(C23) A page of the mirror is a window of the matching listings: with the arguments accepted and no failing statement, the search
  returns, newest first, the documents of the listings from the offset on, at most as many as the page size; it says that
  there is more exactly when listings remain behind the page, and the next offset is where the page ends, so that following
  it visits every matching listing once as long as the mirror does not change.\<close>

theorem mirror_page_is_window:
  assumes "DecideRoute req \<noteq> RouteUpstreamOnly" "request_fits req" "int64_ok (page_skip req)"
    and "no_faults s" "delays s = []" "\<forall>row \<in> set (listings s). \<not> row_empty row"
    and "found = newest_first (filter (request_matches dwithin (DatasetSlugFromFeedCode feedCode) req
      (if months > 0 then Some (RollingWindowCutoff (clock s) months) else None)) (listings s))"
  shows "\<exists>s' docs. PostgisSearch dwithin feedCode req months s = (Inr \<lparr>sx_results = docs,
      sx_has_more = (nat (page_skip req) + nat (page_limit req) < length found), sx_next_skip = page_skip req + int (length docs)\<rparr>, s') \<and>
    docs = map row_document (take (nat (page_limit req)) (drop (nat (page_skip req)) found)) \<and> listings s' = listings s"
proof -
  define cutoff where "cutoff = (if months > 0 then Some (RollingWindowCutoff (clock s) months) else None)"
  define q where "q = build_query (DatasetSlugFromFeedCode feedCode) req cutoff"
  define win where "win = take (nat (page_limit req + 1)) (drop (nat (page_skip req)) found)"
  have "\<not> reduced_asked req" using assms(1) by (auto simp: DecideRoute_def)
  then have f: "matching_rows dwithin q (listings s) = found"
    using build_query_rows [of req dwithin _ "DatasetSlugFromFeedCode feedCode" cutoff] assms(7)
    by (simp add: matching_rows_def q_def cutoff_def row_satisfies_def)
  have lim: "1 \<le> page_limit req" "page_limit req \<le> 200" by (auto simp: page_limit_def)
  have skip: "0 \<le> page_skip req" by (simp add: page_skip_def)
  have "bound_query q" using build_query_bound assms(2) by (simp add: q_def)
  then have run: "run_query dwithin q (page_limit req + 1) (page_skip req) s = (Inr win, s\<lparr>faults := tl (faults s)\<rparr>)"
    using assms(3,4) lim f by (simp add: run_query_def sql_no_faults bound_query_def win_def int64_ok_def)
  have "set win \<subseteq> set (listings s)"
    using set_take_subset [of _ "drop (nat (page_skip req)) found"] set_drop_subset [of _ found] assms(7)
    by (fastforce simp: win_def newest_first_set)
  then have full: "filter (\<lambda>row. \<not> row_empty row) win = win" using assms(6) by (auto simp: filter_id_conv)
  have more: "(int (length win) > page_limit req) = (nat (page_skip req) + nat (page_limit req) < length found)"
    using lim skip by (auto simp: win_def min_def)
  have cut: "take (nat (page_limit req)) win = take (nat (page_limit req)) (drop (nat (page_skip req)) found)"
    using lim by (simp add: win_def min_def)
  have same: "int (length win) \<le> page_limit req \<Longrightarrow> win = take (nat (page_limit req)) (drop (nat (page_skip req)) found)"
    using cut by (simp add: nat_le_iff)
  have start: "(if months > 0 then go_bind go_now (\<lambda>now. go_ret (Some (RollingWindowCutoff now months))) else go_ret None) s = (Inr cutoff, s)"
    using assms(5) by (simp add: cutoff_def go_simps go_now_nil)
  have "PostgisSearch dwithin feedCode req months s = (Inr
      \<lparr>sx_results = map row_document (take (nat (page_limit req)) (drop (nat (page_skip req)) found)),
       sx_has_more = (nat (page_skip req) + nat (page_limit req) < length found),
       sx_next_skip = page_skip req + int (length (map row_document (take (nat (page_limit req)) (drop (nat (page_skip req)) found))))\<rparr>,
      s\<lparr>faults := tl (faults s)\<rparr>)"
  proof (cases "int (length win) > page_limit req")
    case True
    then show ?thesis
      using start run full more cut
      by (simp add: PostgisSearch_def Let_def go_simps take_map flip: q_def)
  next
    case False
    then show ?thesis
      using start run full more same
      by (simp add: PostgisSearch_def Let_def go_simps flip: q_def)
  qed
  then show ?thesis by simp
qed

section \<open>Where live search falls short\<close>

text \<open>An error of the provider is reported as success: when the provider answers a search with a status of 400 or above, the
  endpoint answers with no error and an empty result.\<close>

theorem provider_error_is_empty_result:
  assumes "DecideRoute req = RouteUpstreamOnly" "LiveResoPropertyEndpoint (pc_feeds cfg) (hr_feed rq) = Some ep"
    and "find_cached (SearchPartition (hr_domain rq) (hr_feed_code rq)) (sha256 (req_text req)) (search_cache s) = None"
    and "http_replies s = HttpReply resp # others" "http_status resp \<ge> 400"
  shows "\<exists>s'. Search_Handle dwithin raw_text sha256 req_text fmt_g cfg months rq (Some req) s = (Inr (Inr empty_search), s')"
proof -
  let ?part = "SearchPartition (hr_domain rq) (hr_feed_code rq)" and ?fp = "sha256 (req_text req)"
  have miss: "\<exists>s1. ProxyCache_Get cfg ?part ?fp s = (Inr None, s1) \<and> http_replies s1 = http_replies s"
    using assms(3) by (auto simp: ProxyCache_Get_def go_simps sql_def Let_def split: list.split bool.split)
  then obtain s1 where s1: "ProxyCache_Get cfg ?part ?fp s = (Inr None, s1)" "http_replies s1 = HttpReply resp # others"
    using assms(4) by auto
  obtain url b where ep: "ep = (url, b)" by fastforce
  have "\<exists>s2. proxy_call rq u False s1 = (Inr resp, s2)" for u
    using s1(2) by (cases "delays s1") (simp_all add: proxy_call_def http_get_def go_simps go_now_def Let_def)
  then obtain s2 where s2: "proxy_call rq (request_url url (live_query fmt_g req)) False s1 = (Inr resp, s2)" by blast
  have live: "LiveSearch sha256 req_text fmt_g cfg rq req s = (Inr empty_search, s2)"
    using assms(2,5) ep s1(1) s2 by (simp add: LiveSearch_def Let_def go_simps)
  obtain s3 where "audit_log rq ''search.listings'' (Some 0) None s2 = (Inr (), s3)" using audit_log_run by blast
  with live assms(1) show ?thesis
    by (simp add: Search_Handle_def search_routed_def go_simps empty_search_def Let_def)
qed

text \<open>The live query knows five filters only: whatever a request asks about place, baths, size, year, type, pool, waterfront, flood risk or
  fees, the query to the provider is the same, so closed listings are returned that do not satisfy the request.\<close>

theorem live_search_ignores_filters:
  "live_query fmt_g (req\<lparr>sq_city := city, sq_postal := postal, sq_lat := lat, sq_lng := lng, sq_radius := radius, sq_baths_min := baths,
     sq_living_min := lmin, sq_living_max := lmax, sq_lot_min := lot, sq_year_min := year, sq_property_type := ptype, sq_sub_type := stype,
     sq_pool := pool, sq_waterfront := water, sq_low_risk := low, sq_min_fees := fmin, sq_max_fees := fmax\<rparr>) = live_query fmt_g req"
  by (cases req) (simp add: live_query_def buildODataFilter_def page_limit_def Let_def)

section \<open>Witnesses\<close>

definition demo_search :: search_request where
  "demo_search = \<lparr>sq_statuses = [], sq_active_only = None, sq_min_price = Some 100, sq_max_price = None, sq_beds_min = Some 2, sq_baths_min = None,
     sq_living_min = None, sq_living_max = None, sq_lot_min = None, sq_year_min = None, sq_property_type = None, sq_sub_type = None,
     sq_city = None, sq_postal = None, sq_pool = None, sq_waterfront = None, sq_lat = None, sq_lng = None, sq_radius = None,
     sq_reduced_days = None, sq_low_risk = None, sq_min_fees = None, sq_max_fees = None, sq_skip = 0, sq_limit = 1\<rparr>"

definition demo_listing :: "string \<Rightarrow> int \<Rightarrow> real \<Rightarrow> mirror_row" where
  "demo_listing key modified price = \<lparr>mr_rec = \<lparr>lr_dataset = ''stellar'', lr_key = key, lr_mls_id = None, lr_status = Some ''Active'', lr_list_price = price,
     lr_bedrooms = Some 3, lr_bathrooms = None, lr_living_area = None, lr_lot_size = None, lr_year_built = None, lr_stories = None,
     lr_texts = [], lr_on_market = None, lr_close_date = None, lr_modified = Some modified, lr_price_changed = None, lr_previous_price = None,
     lr_flood_zone = None, lr_low_risk = False, lr_monthly_fees = None, lr_lat = None, lr_lng = None, lr_flags = [], lr_conditions = JNull,
     lr_raw = RawJson (JObj [(''ListingKey'', JStr key)]), lr_payloads = no_payload, lr_custom = RawEmpty\<rparr>, mr_coordinates = None,
     mr_persisted_at = 0\<rparr>"

definition demo_mirror :: pdb where
  "demo_mirror = demo_proxy\<lparr>listings := [demo_listing ''A'' 1 200, demo_listing ''B'' 2 300, demo_listing ''C'' 3 50]\<rparr>"

lemma demo_search_route: "DecideRoute demo_search = RoutePostgresOnly" "request_fits demo_search" "\<not> reduced_asked demo_search"
  by (simp_all add: demo_search_def DecideRoute_def reduced_asked_def request_fits_def int2_ok_def)

lemma demo_status: "row_status (mr_rec (demo_listing k m p)) = ''active''"
proof -
  have "to_lower ''Active'' = ''active''" by code_simp
  then show ?thesis by (simp add: demo_listing_def row_status_def given_def pg_trim_def trim_both_def trim_left_def trim_right_def)
qed

lemma demo_matches: "request_matches dw ''stellar'' demo_search None (demo_listing k m p) = (100 \<le> p)"
proof -
  have "row_status (mr_rec (demo_listing k m p)) \<in> set (status_asked demo_search)"
    unfolding demo_status by (simp add: status_asked_def demo_search_def)
  then show ?thesis
    unfolding request_matches_def Let_def
    by (simp add: demo_search_def demo_listing_def at_least_def at_most_def text_asked_def inside_radius_def)
qed

theorem mirror_query_means_request_witness:
  "request_fits demo_search \<and>
   list_all (well_bound (qb_args (build_query ''stellar'' demo_search None))) (qb_conds (build_query ''stellar'' demo_search None)) \<and>
   list_all (cond_holds (\<lambda>_ _ _. False) (qb_args (build_query ''stellar'' demo_search None)) (demo_listing ''A'' 1 200))
     (qb_conds (build_query ''stellar'' demo_search None))"
  using mirror_query_means_request [OF _ refl, of demo_search "''stellar''" None "\<lambda>_ _ _. False"] demo_search_route demo_matches
  by (simp add: list_all_iff)

theorem mirror_page_is_window_witness:
  "\<exists>s'. PostgisSearch (\<lambda>_ _ _. True) ''bridge_stellar'' demo_search 0 demo_mirror =
     (Inr \<lparr>sx_results = [row_document (demo_listing ''B'' 2 300)], sx_has_more = True, sx_next_skip = 1\<rparr>, s')"
proof -
  have ds: "DatasetSlugFromFeedCode ''bridge_stellar'' = ''stellar''"
    by (simp add: DatasetSlugFromFeedCode_def trim_prefix_def has_prefix_def to_lower_def lower_char_def trim_space_def trim_both_def
        trim_left_def trim_right_def is_space_def)
  have ls: "listings demo_mirror = [demo_listing ''A'' 1 200, demo_listing ''B'' 2 300, demo_listing ''C'' 3 50]"
    by (simp add: demo_mirror_def)
  have "newest_first (filter (request_matches (\<lambda>_ _ _. True) ''stellar'' demo_search None) (listings demo_mirror)) =
      [demo_listing ''B'' 2 300, demo_listing ''A'' 1 200]"
    unfolding ls by (simp add: demo_matches newest_first_def Let_def) (simp add: demo_listing_def)
  moreover have "page_limit demo_search = 1" "page_skip demo_search = 0" by (simp_all add: demo_search_def page_limit_def page_skip_def)
  moreover have "\<exists>s' docs. PostgisSearch (\<lambda>_ _ _. True) ''bridge_stellar'' demo_search 0 demo_mirror = (Inr \<lparr>sx_results = docs,
      sx_has_more = (nat (page_skip demo_search) + nat (page_limit demo_search) < length [demo_listing ''B'' 2 300, demo_listing ''A'' 1 200]),
      sx_next_skip = page_skip demo_search + int (length docs)\<rparr>, s') \<and>
    docs = map row_document (take (nat (page_limit demo_search)) (drop (nat (page_skip demo_search))
      [demo_listing ''B'' 2 300, demo_listing ''A'' 1 200])) \<and> listings s' = listings demo_mirror"
    by (rule mirror_page_is_window)
      (use calculation demo_search_route ds in \<open>simp_all add: no_faults_def demo_mirror_def demo_proxy_fields int64_ok_def\<close>,
       simp add: row_empty_def demo_listing_def)
  ultimately show ?thesis by auto
qed

theorem provider_error_is_empty_result_witness:
  "\<exists>s'. Search_Handle (\<lambda>_ _ _. True) (\<lambda>_. []) (\<lambda>_. ''z'') (\<lambda>_. []) (\<lambda>_. []) demo_proxy_config 0 demo_proxy_request
      (Some (demo_search\<lparr>sq_statuses := [''Closed'']\<rparr>))
      (demo_proxy\<lparr>http_replies := [HttpReply \<lparr>http_status = 503, http_link = [], http_body = RawEmpty\<rparr>]\<rparr>) = (Inr (Inr empty_search), s')"
proof -
  have "\<exists>ep. LiveResoPropertyEndpoint (pc_feeds demo_proxy_config) (hr_feed demo_proxy_request) = Some ep"
    by (simp add: LiveResoPropertyEndpoint_def demo_proxy_config_def demo_proxy_request_def bridge_feed_def demo_feeds_def demo_sync_config_def
        trim_space_def trim_both_def trim_left_def trim_right_def is_space_def)
  then obtain ep where "LiveResoPropertyEndpoint (pc_feeds demo_proxy_config) (hr_feed demo_proxy_request) = Some ep" by blast
  then show ?thesis
    by (rule provider_error_is_empty_result [rotated, where resp = "\<lparr>http_status = 503, http_link = [], http_body = RawEmpty\<rparr>" and others = "[]"])
      (simp_all add: DecideRoute_def demo_search_def reduced_asked_def demo_proxy_fields find_cached_def demo_cache_row_def SearchPartition_def)
qed

end
