(* ===== verification/Gis_Extract.thy ===== *)
theory Gis_Extract
  imports Sync_Workers Comps_Property "HOL-Library.Multiset"
begin

text \<open>
  The data of the GIS component and the functions on it that need no database (\<^verbatim>\<open>internal/service/gis\<close>: \<^verbatim>\<open>query.go\<close>,
  \<^verbatim>\<open>sources.go\<close>, \<^verbatim>\<open>parcel_sources.go\<close>, \<^verbatim>\<open>county_co.go\<close>, \<^verbatim>\<open>county_slug.go\<close>, \<^verbatim>\<open>field_extract.go\<close>, the URLs and the parsing of
  \<^verbatim>\<open>arcgis_client.go\<close>; \<^verbatim>\<open>internal/repository/gis/types.go\<close>): the catalogue of parcel sources, the county tables, and how a
  feature of an ArcGIS page becomes a row.

  A geometry is the JSON document it was read from. \<open>marshal\<close> is the text of a JSON value that is neither a string nor a whole number.
  \<^verbatim>\<open>strconv.ParseFloat\<close> is modelled on decimal notation; its infinities, NaN and hexadecimal forms are errors here.
\<close>

section \<open>Numbers in text\<close>

definition is_digit :: "char \<Rightarrow> bool" where
  "is_digit c \<longleftrightarrow> digit_val c \<noteq> None"

text \<open>An optional sign: the factor and the rest.\<close>

definition read_sign :: "string \<Rightarrow> int \<times> string" where
  "read_sign s = (case s of
      CHR ''-'' # r \<Rightarrow> (- 1, r)
    | CHR ''+'' # r \<Rightarrow> (1, r)
    | _ \<Rightarrow> (1, s))"

definition read_nat :: "string \<Rightarrow> nat option" where
  "read_nat s = (if s = [] then None else read_digits 0 s)"

text \<open>\<^verbatim>\<open>strconv.ParseInt(s, 10, 64)\<close>.\<close>

definition parse_int64 :: "string \<Rightarrow> int option" where
  "parse_int64 s = (case read_sign s of (sg, r) \<Rightarrow> (case read_nat r of
      None \<Rightarrow> None
    | Some n \<Rightarrow> (if int64_ok (sg * int n) then Some (sg * int n) else None)))"

text \<open>\<^verbatim>\<open>fmt.Sscanf(s, "%d", &n)\<close>: the number the text starts with.\<close>

definition scan_int :: "string \<Rightarrow> int option" where
  "scan_int s = (case read_sign s of (sg, r) \<Rightarrow> (case read_nat (takeWhile is_digit r) of
      None \<Rightarrow> None
    | Some n \<Rightarrow> (if int64_ok (sg * int n) then Some (sg * int n) else None)))"

definition scale10 :: "real \<Rightarrow> int \<Rightarrow> real" where
  "scale10 x e = (if e \<ge> 0 then x * 10 ^ nat e else x / 10 ^ nat (- e))"

definition parse_exponent :: "string \<Rightarrow> int option" where
  "parse_exponent s = (case s of
      [] \<Rightarrow> Some 0
    | c # r \<Rightarrow> (if c = CHR ''e'' \<or> c = CHR ''E''
        then (case read_sign r of (sg, d) \<Rightarrow> map_option (\<lambda>n. sg * int n) (read_nat d))
        else None))"

text \<open>\<^verbatim>\<open>strconv.ParseFloat(s, 64)\<close> on decimal notation; a value that rounds to infinity is an error. The texts of infinities, of not-a-number and of
  hexadecimal floats, which the library reads too, denote no real or no coordinate and are refused here.\<close>

definition parse_float :: "string \<Rightarrow> real option" where
  "parse_float s = (case read_sign s of (sg, r) \<Rightarrow>
     (let ip = takeWhile is_digit r; r1 = dropWhile is_digit r;
          fp = (case r1 of CHR ''.'' # q \<Rightarrow> takeWhile is_digit q | _ \<Rightarrow> []);
          r2 = (case r1 of CHR ''.'' # q \<Rightarrow> dropWhile is_digit q | _ \<Rightarrow> r1) in
      case (read_nat (ip @ fp), parse_exponent r2) of
        (Some n, Some e) \<Rightarrow>
          (let x = of_int sg * scale10 (of_nat n) (e - int (length fp)) in
           if \<bar>x\<bar> \<ge> 2 ^ 1024 - 2 ^ 970 then None else Some x)
      | _ \<Rightarrow> None))"

section \<open>Boxes\<close>

record bbox =
  bb_west :: real
  bb_south :: real
  bb_east :: real
  bb_north :: real

definition SpanDeg :: "bbox \<Rightarrow> real" where
  "SpanDeg b = (let w = bb_east b - bb_west b; h = bb_north b - bb_south b;
       w = (if w < 0 then - w else w); h = (if h < 0 then - h else h) in if w > h then w else h)"

definition EsriEnvelope :: "bbox \<Rightarrow> string" where
  "EsriEnvelope b = fmt_f (bb_west b) @ '','' @ fmt_f (bb_south b) @ '','' @ fmt_f (bb_east b) @ '','' @ fmt_f (bb_north b)"

definition Centroid :: "bbox \<Rightarrow> real \<times> real" where
  "Centroid b = ((bb_south b + bb_north b) / 2, (bb_west b + bb_east b) / 2)"

definition intersects :: "bbox \<Rightarrow> bbox \<Rightarrow> bool" where
  "intersects a b \<longleftrightarrow> \<not> (bb_east a < bb_west b \<or> bb_west a > bb_east b \<or> bb_north a < bb_south b \<or> bb_south a > bb_north b)"

text \<open>\<open>query\<close> gives the query parameters of the request; a missing one is empty.\<close>

definition parseFloatQuery :: "(string \<Rightarrow> string) \<Rightarrow> string \<Rightarrow> real option" where
  "parseFloatQuery query k = parse_float (trim_space (query k))"

definition ParseBBox :: "(string \<Rightarrow> string) \<Rightarrow> string + bbox" where
  "ParseBBox query =
     (let raw = trim_space (query ''bbox'') in
      if raw \<noteq> [] then
        (case split_char CHR '','' raw of
           [a, b, c, d] \<Rightarrow>
             (case (parse_float (trim_space a), parse_float (trim_space b), parse_float (trim_space c), parse_float (trim_space d)) of
                (Some w, Some s, Some e, Some n) \<Rightarrow> Inr \<lparr>bb_west = w, bb_south = s, bb_east = e, bb_north = n\<rparr>
              | _ \<Rightarrow> Inl ''invalid bbox'')
         | _ \<Rightarrow> Inl ''bbox must have four comma-separated values'')
      else case (parseFloatQuery query ''north'', parseFloatQuery query ''south'', parseFloatQuery query ''east'', parseFloatQuery query ''west'') of
        (Some n, Some s, Some e, Some w) \<Rightarrow> Inr \<lparr>bb_west = w, bb_south = s, bb_east = e, bb_north = n\<rparr>
      | _ \<Rightarrow>
        (case (parseFloatQuery query ''lat'', parseFloatQuery query ''lng'', parseFloatQuery query ''radius'') of
           (Some lat, Some lng, Some radius) \<Rightarrow>
             (if radius > 0 then
                (let deg = radius / 111320 in
                 Inr \<lparr>bb_west = lng - deg, bb_south = lat - deg, bb_east = lng + deg, bb_north = lat + deg\<rparr>)
              else Inl ''bbox, north/south/east/west, or lat/lng/radius required'')
         | _ \<Rightarrow> Inl ''bbox, north/south/east/west, or lat/lng/radius required''))"

section \<open>Counties\<close>

definition countySyncBBoxes :: "(string \<times> bbox) list" where
  "countySyncBBoxes = [
    (''alachua'', \<lparr>bb_west = -82.65, bb_south = 29.35, bb_east = -81.95, bb_north = 29.95\<rparr>),
    (''charlotte'', \<lparr>bb_west = -82.35, bb_south = 26.75, bb_east = -81.75, bb_north = 27.15\<rparr>),
    (''desoto'', \<lparr>bb_west = -82.05, bb_south = 27.05, bb_east = -81.65, bb_north = 27.55\<rparr>),
    (''flagler'', \<lparr>bb_west = -81.55, bb_south = 29.25, bb_east = -81.05, bb_north = 29.65\<rparr>),
    (''hillsborough'', \<lparr>bb_west = -82.85, bb_south = 27.65, bb_east = -82.05, bb_north = 28.20\<rparr>),
    (''lake'', \<lparr>bb_west = -82.05, bb_south = 28.55, bb_east = -81.35, bb_north = 29.05\<rparr>),
    (''manatee'', \<lparr>bb_west = -82.85, bb_south = 27.25, bb_east = -82.15, bb_north = 27.65\<rparr>),
    (''marion'', \<lparr>bb_west = -82.45, bb_south = 28.85, bb_east = -81.75, bb_north = 29.45\<rparr>),
    (''okeechobee'', \<lparr>bb_west = -81.15, bb_south = 27.15, bb_east = -80.55, bb_north = 27.75\<rparr>),
    (''orange'', \<lparr>bb_west = -81.75, bb_south = 28.25, bb_east = -80.95, bb_north = 28.85\<rparr>),
    (''osceola'', \<lparr>bb_west = -81.55, bb_south = 27.85, bb_east = -80.95, bb_north = 28.35\<rparr>),
    (''pasco'', \<lparr>bb_west = -82.85, bb_south = 28.05, bb_east = -82.15, bb_north = 28.55\<rparr>),
    (''pinellas'', \<lparr>bb_west = -82.98, bb_south = 27.60, bb_east = -82.55, bb_north = 28.25\<rparr>),
    (''polk'', \<lparr>bb_west = -82.15, bb_south = 27.65, bb_east = -81.35, bb_north = 28.35\<rparr>),
    (''sarasota'', \<lparr>bb_west = -82.85, bb_south = 26.95, bb_east = -82.05, bb_north = 27.45\<rparr>),
    (''sumter'', \<lparr>bb_west = -82.35, bb_south = 28.45, bb_east = -81.85, bb_north = 28.95\<rparr>),
    (''volusia'', \<lparr>bb_west = -81.55, bb_south = 28.75, bb_east = -80.85, bb_north = 29.45\<rparr>),
    (''broward'', \<lparr>bb_west = -80.45, bb_south = 25.95, bb_east = -79.95, bb_north = 26.45\<rparr>),
    (''palm-beach'', \<lparr>bb_west = -80.35, bb_south = 26.35, bb_east = -79.85, bb_north = 26.95\<rparr>),
    (''martin'', \<lparr>bb_west = -80.65, bb_south = 26.85, bb_east = -80.05, bb_north = 27.35\<rparr>),
    (''st-lucie'', \<lparr>bb_west = -80.75, bb_south = 27.05, bb_east = -80.15, bb_north = 27.65\<rparr>),
    (''miami-dade'', \<lparr>bb_west = -80.85, bb_south = 25.35, bb_east = -80.05, bb_north = 25.95\<rparr>)]"

definition countyBBox :: "string \<Rightarrow> bbox" where
  "countyBBox slug = (case map_of countySyncBBoxes slug of Some b \<Rightarrow> b
     | None \<Rightarrow> \<lparr>bb_west = -87.6, bb_south = 24.4, bb_east = -79.8, bb_north = 31.1\<rparr>)"

text \<open>The loop runs over a Go map: \<open>order\<close> is the order of this run.\<close>

definition countyHint :: "((string \<times> bbox) list \<Rightarrow> (string \<times> bbox) list) \<Rightarrow> real \<Rightarrow> real \<Rightarrow> string" where
  "countyHint order lat lng =
     (case find (\<lambda>(slug, b). lat \<ge> bb_south b \<and> lat \<le> bb_north b \<and> lng \<ge> bb_west b \<and> lng \<le> bb_east b) (order countySyncBBoxes) of
        Some (slug, _) \<Rightarrow> slug | None \<Rightarrow> [])"

definition coNoToCountySlug :: "(int \<times> string) list" where
  "coNoToCountySlug = [(1, ''alachua''), (6, ''broward''), (8, ''charlotte''), (14, ''desoto''), (18, ''flagler''), (23, ''miami-dade''),
     (28, ''hillsborough''), (34, ''lake''), (40, ''manatee''), (41, ''marion''), (42, ''martin''), (47, ''okeechobee''), (48, ''orange''),
     (50, ''palm-beach''), (51, ''pasco''), (52, ''pinellas''), (53, ''polk''), (56, ''st-lucie''), (57, ''sarasota''), (59, ''osceola''),
     (60, ''sumter''), (64, ''volusia'')]"

definition CountySlugFromCONO :: "int \<Rightarrow> string option" where
  "CountySlugFromCONO coNo = map_of coNoToCountySlug coNo"

definition MLSStellarSlugs :: "string list" where
  "MLSStellarSlugs = [''alachua'', ''charlotte'', ''desoto'', ''flagler'', ''hillsborough'', ''lake'', ''manatee'', ''marion'', ''okeechobee'',
     ''orange'', ''osceola'', ''pasco'', ''pinellas'', ''polk'', ''sarasota'', ''sumter'', ''volusia'']"

definition MLSBeachesSlugs :: "string list" where
  "MLSBeachesSlugs = [''broward'', ''palm-beach'', ''martin'', ''st-lucie'', ''miami-dade'']"

definition IsMLSPilotCounty :: "string \<Rightarrow> bool" where
  "IsMLSPilotCounty slug \<longleftrightarrow> slug \<in> set MLSStellarSlugs \<or> slug \<in> set MLSBeachesSlugs"

definition FloridaStatewideCadastralKey :: string where
  "FloridaStatewideCadastralKey = ''florida_statewide_cadastral''"

definition IsStatewideCadastralSource :: "string \<Rightarrow> bool" where
  "IsStatewideCadastralSource sourceKey \<longleftrightarrow> sourceKey = FloridaStatewideCadastralKey"

text \<open>\<^verbatim>\<open>strings.ReplaceAll\<close> for a pattern that is not empty.\<close>

function replace_sub :: "string \<Rightarrow> string \<Rightarrow> string \<Rightarrow> string" where
  "replace_sub p r [] = []"
| "replace_sub p r (c # s) =
     (if p \<noteq> [] \<and> prefix p (c # s) then r @ replace_sub p r (drop (length p) (c # s)) else c # replace_sub p r s)"
  by pat_completeness auto
termination
  by (relation "measure (\<lambda>(p, r, s). length s)") auto

definition trim_suffix :: "string \<Rightarrow> string \<Rightarrow> string" where
  "trim_suffix s p = (if has_suffix s p then take (length s - length p) s else s)"

definition CountyNameToSlug :: "string \<Rightarrow> string" where
  "CountyNameToSlug name = replace_char CHR ''.'' [] (replace_char CHR '' '' ''-''
     (to_lower (replace_sub ''St. '' ''St '' (trim_suffix (trim_space name) '' County''))))"

section \<open>Parcel sources\<close>

record parcel_source =
  pz_key :: string
  pz_county :: string
  pz_url :: string
  pz_mode :: string
  pz_where :: string
  pz_bbox :: bbox
  pz_format :: string
  pz_feed :: string
  pz_enabled :: bool
  pz_priority :: int
  pz_timeout :: int
  pz_id_fields :: "string list"
  pz_notes :: string

definition zero_bbox :: bbox where
  "zero_bbox = \<lparr>bb_west = 0, bb_south = 0, bb_east = 0, bb_north = 0\<rparr>"

definition FloridaStatewideCadastralURL :: string where
  "FloridaStatewideCadastralURL =
     ''https://services9.arcgis.com/Gh9awoU677aKree0/arcgis/rest/services/Florida_Statewide_Cadastral/FeatureServer/0/query''"

definition PinellasParcelsQueryURL :: string where
  "PinellasParcelsQueryURL = ''https://egis.pinellascounty.org/arcgis/rest/services/PARCEL/MapServer/0/query''"

definition HillsboroughParcelsQueryURL :: string where
  "HillsboroughParcelsQueryURL =
     ''https://maps.hillsboroughcounty.org/arcgis/rest/services/InfoLayers/HC_ParcelsPublic/FeatureServer/0/query''"

definition ParcelSourceCatalog :: "parcel_source list" where
  "ParcelSourceCatalog = [
     \<lparr>pz_key = FloridaStatewideCadastralKey, pz_county = ''statewide'', pz_url = FloridaStatewideCadastralURL, pz_mode = ''paginate'',
      pz_where = [], pz_bbox = zero_bbox, pz_format = ''geojson'', pz_feed = ''stellar'', pz_enabled = True, pz_priority = 1, pz_timeout = 0,
      pz_id_fields = [''PARCEL_ID_'', ''PARCELNO'', ''ALT_KEY'', ''PARCELID'', ''PARCEL_ID'', ''STATE_PAR_''],
      pz_notes = ''FDOR Cadastral 2025; paginate where=1=1; CO_NO filter in Go''\<rparr>,
     \<lparr>pz_key = ''pinellas_enterprise_parcels'', pz_county = ''pinellas'', pz_url = PinellasParcelsQueryURL, pz_mode = ''bbox'',
      pz_where = [], pz_bbox = countyBBox ''pinellas'', pz_format = ''geojson'', pz_feed = ''stellar'', pz_enabled = True, pz_priority = 2,
      pz_timeout = 120, pz_id_fields = [''PARCEL_ID'', ''PARCELID'', ''PIN''], pz_notes = []\<rparr>,
     \<lparr>pz_key = ''hillsborough_hc_parcels'', pz_county = ''hillsborough'', pz_url = HillsboroughParcelsQueryURL, pz_mode = ''bbox'',
      pz_where = [], pz_bbox = countyBBox ''hillsborough'', pz_format = ''geojson'', pz_feed = ''stellar'', pz_enabled = True, pz_priority = 3,
      pz_timeout = 0, pz_id_fields = [''PARCEL_ID'', ''PARCELID'', ''PIN'', ''FOLIO''], pz_notes = []\<rparr>]"

text \<open>The exchange sort of \<^verbatim>\<open>sortParcelSourcesByPriority\<close>: one pass of the inner loop brings the least priority to the front.\<close>

fun exchange_pass :: "parcel_source \<Rightarrow> parcel_source list \<Rightarrow> parcel_source \<times> parcel_source list" where
  "exchange_pass x [] = (x, [])"
| "exchange_pass x (y # ys) =
     (if pz_priority y < pz_priority x
      then case exchange_pass y ys of (m, r) \<Rightarrow> (m, x # r)
      else case exchange_pass x ys of (m, r) \<Rightarrow> (m, y # r))"

lemma exchange_pass_length: "length (snd (exchange_pass x ys)) = length ys"
  by (induction x ys rule: exchange_pass.induct) (auto split: prod.splits)

function sortParcelSourcesByPriority :: "parcel_source list \<Rightarrow> parcel_source list" where
  "sortParcelSourcesByPriority [] = []"
| "sortParcelSourcesByPriority (x # xs) =
     (case exchange_pass x xs of (m, r) \<Rightarrow> m # sortParcelSourcesByPriority r)"
  by pat_completeness auto
termination
  by (relation "measure length") (auto simp: less_Suc_eq_le dest!: arg_cong [where f = "\<lambda>p. length (snd p)"] simp: exchange_pass_length)

record gis_config =
  gcf_page_size :: int
  gcf_upsert_chunk :: int
  gcf_sync_queue :: string
  gcf_sync_pinellas :: bool
  gcf_max_features :: int
  gcf_max_span :: real
  gcf_teaser_max :: int
  gcf_teaser_decimals :: int
  gcf_cache_ttl :: int
  gcf_mls_codes :: "string list"
  gcf_probe_queue :: string

definition EnabledParcelSourcesForConfig :: "bool \<Rightarrow> parcel_source list" where
  "EnabledParcelSourcesForConfig syncPinellas = sortParcelSourcesByPriority
     (filter (\<lambda>s. pz_enabled s \<and> (pz_key s = ''pinellas_enterprise_parcels'' \<longrightarrow> syncPinellas)) ParcelSourceCatalog)"

definition EnabledParcelSources :: "parcel_source list" where
  "EnabledParcelSources = EnabledParcelSourcesForConfig False"

definition ParcelSourceByCounty :: "string \<Rightarrow> parcel_source option" where
  "ParcelSourceByCounty slug = find (\<lambda>s. pz_county s = slug) EnabledParcelSources"

definition FailoverSourcesForBBox :: "bbox \<Rightarrow> parcel_source list" where
  "FailoverSourcesForBBox b = sortParcelSourcesByPriority
     (filter (\<lambda>s. \<not> (pz_county s = [] \<or> pz_county s = ''statewide'' \<or> \<not> pz_enabled s) \<and> intersects b (pz_bbox s)) ParcelSourceCatalog)"

definition SourcesForBBox :: "bbox \<Rightarrow> parcel_source list" where
  "SourcesForBBox b = FailoverSourcesForBBox b"

definition ParcelSourceSpecByKey :: "string \<Rightarrow> parcel_source option" where
  "ParcelSourceSpecByKey sourceKey = find (\<lambda>s. pz_key s = sourceKey) ParcelSourceCatalog"

section \<open>Rows\<close>

record parcel_row =
  gp_id :: string
  gp_source :: string
  gp_county :: string
  gp_geometry :: json
  gp_properties :: json
  gp_address :: "string option"
  gp_owner :: "string option"
  gp_city :: "string option"
  gp_zip :: "string option"
  gp_just_value :: "real option"
  gp_assessed :: "real option"
  gp_land_value :: "real option"
  gp_living_area :: "real option"
  gp_year_built :: "int option"
  gp_acres :: "real option"
  gp_land_use :: "string option"
  gp_sale_price :: "real option"
  gp_sale_date :: "int option"
  gp_generation :: int
  gp_fingerprint :: "string option"
  gp_synced :: int

record city_row =
  gc_name :: string
  gc_county :: "string option"
  gc_source :: string
  gc_geometry :: json
  gc_properties :: json
  gc_generation :: int
  gc_fingerprint :: "string option"
  gc_synced :: int

record county_row =
  gk_name :: string
  gk_slug :: string
  gk_fips :: "string option"
  gk_stellar :: bool
  gk_beaches :: bool
  gk_source :: string
  gk_geometry :: json
  gk_properties :: json
  gk_generation :: int
  gk_fingerprint :: "string option"
  gk_synced :: int

record zip_row =
  gz_code :: string
  gz_source :: string
  gz_geometry :: json
  gz_properties :: json
  gz_generation :: int
  gz_fingerprint :: "string option"
  gz_synced :: int

record arcgis_feature =
  af_geometry :: json
  af_properties :: gomap

record arcgis_page =
  ap_features :: "arcgis_feature list"
  ap_exceeded :: bool

section \<open>Reading a feature\<close>

definition fmtAny :: "(json \<Rightarrow> string) \<Rightarrow> json \<Rightarrow> string" where
  "fmtAny marshal v = (case v of
      JStr t \<Rightarrow> t
    | JNum x \<Rightarrow> (if x = of_int \<lfloor>x\<rfloor> then show_int \<lfloor>x\<rfloor> else marshal v)
    | _ \<Rightarrow> trim_both (\<lambda>c. c = CHR 0x22) (marshal v))"

fun firstString :: "(json \<Rightarrow> string) \<Rightarrow> gomap \<Rightarrow> string list \<Rightarrow> string" where
  "firstString marshal props [] = []"
| "firstString marshal props (k # ks) =
     (let v = lookup_any props k; s = trim_space (fmtAny marshal v) in
      if v \<noteq> JNull \<and> s \<noteq> [] then s else firstString marshal props ks)"

fun firstFloat :: "gomap \<Rightarrow> string list \<Rightarrow> real" where
  "firstFloat props [] = 0"
| "firstFloat props (k # ks) = (case lookup_any props k of
      JNum x \<Rightarrow> x
    | JStr t \<Rightarrow> (case parse_float (trim_space t) of Some f \<Rightarrow> f | None \<Rightarrow> firstFloat props ks)
    | _ \<Rightarrow> firstFloat props ks)"

declare firstString.simps [simp del] firstFloat.simps [simp del]

definition firstInt :: "gomap \<Rightarrow> string list \<Rightarrow> int" where
  "firstInt props ks = (let f = firstFloat props ks in if f = 0 then 0 else go_int f)"

definition strPtr :: "string \<Rightarrow> string option" where
  "strPtr s = (if s = [] then None else Some s)"

definition floatPtr :: "real \<Rightarrow> real option" where
  "floatPtr v = (if v = 0 then None else Some v)"

definition intPtr :: "int \<Rightarrow> int option" where
  "intPtr v = (if v = 0 then None else Some v)"

text \<open>A month or a day of one or two digits.\<close>

definition take_num :: "string \<Rightarrow> (nat \<times> string) option" where
  "take_num s = (case take_digits 2 s of Some r \<Rightarrow> Some r | None \<Rightarrow> take_digits 1 s)"

definition parse_us_date :: "string \<Rightarrow> int option" where
  "parse_us_date s =
     Option.bind (take_num s) (\<lambda>(m, s). Option.bind (expect CHR ''/'' s) (\<lambda>s.
     Option.bind (take_num s) (\<lambda>(d, s). Option.bind (expect CHR ''/'' s) (\<lambda>s.
     Option.bind (take_digits 4 s) (\<lambda>(y, s).
       if s = [] \<and> 1 \<le> m \<and> m \<le> 12 \<and> 1 \<le> d \<and> d \<le> days_in_month y m then Some (instant (day_number y m d) 0 0 0) else None)))))"

definition parse_local_time :: "string \<Rightarrow> int option" where
  "parse_local_time s =
     Option.bind (parse_date s) (\<lambda>(D, s). Option.bind (expect CHR ''T'' s) (\<lambda>s.
     Option.bind (parse_clock s) (\<lambda>(r, s). Option.bind (parse_fraction s) (\<lambda>(ns, s).
       if s = [] then Some (instant D r ns 0) else None))))"

definition parse_iso_day :: "string \<Rightarrow> int option" where
  "parse_iso_day s = Option.bind (parse_date s) (\<lambda>(D, s). if s = [] then Some (instant D 0 0 0) else None)"

definition parseArcGISDate :: "string \<Rightarrow> int option" where
  "parseArcGISDate s0 = (let s = trim_space s0 in
     case parse_int64 s of
       Some ms \<Rightarrow> Some (ms * 1000000)
     | None \<Rightarrow> (case parse_rfc3339 s of Some t \<Rightarrow> Some t
        | None \<Rightarrow> (case parse_local_time s of Some t \<Rightarrow> Some t
        | None \<Rightarrow> (case parse_iso_day s of Some t \<Rightarrow> Some t
        | None \<Rightarrow> parse_us_date s))))"

datatype extract_error = NoGeometry | NoParcelID | NoName | NoZip

definition default_id_fields :: "string list" where
  "default_id_fields = [''PARCEL_ID'', ''PARCELID'', ''PARCELNO'', ''PARCEL_NO'', ''PC_PID'', ''PIN'', ''FOLIO'', ''OBJECTID'']"

definition parcel_id_of :: "(json \<Rightarrow> string) \<Rightarrow> gomap \<Rightarrow> string list \<Rightarrow> string" where
  "parcel_id_of marshal props idFields =
     (let keys = (if idFields = [] then default_id_fields else idFields);
          p = firstString marshal props keys;
          p = (if p = [] then firstString marshal props [''GlobalID'', ''FID''] else p) in trim_space p)"

definition ExtractParcelRow ::
  "(json \<Rightarrow> string) \<Rightarrow> arcgis_feature \<Rightarrow> string \<Rightarrow> string \<Rightarrow> int \<Rightarrow> string option \<Rightarrow> string list \<Rightarrow> extract_error + parcel_row" where
  "ExtractParcelRow marshal feat sourceKey county gen fingerprint idFields =
     (if af_geometry feat = JNull then Inl NoGeometry
      else let props = af_properties feat; parcelID = parcel_id_of marshal props idFields;
               s = (\<lambda>ks. strPtr (firstString marshal props ks)); f = (\<lambda>ks. floatPtr (firstFloat props ks));
               saleDate = firstString marshal props [''SALE_DATE1'', ''SALE_DATE'', ''LAST_SALE_DATE''] in
        if parcelID = [] then Inl NoParcelID
        else Inr \<lparr>gp_id = parcelID, gp_source = sourceKey, gp_county = county, gp_geometry = af_geometry feat, gp_properties = JObj props,
          gp_address = s [''PHY_ADDR1'', ''SITE_ADDR'', ''SITUS_ADDR'', ''ADDRESS'', ''LOC_ADDR''],
          gp_owner = s [''OWN_NAME'', ''OWNER'', ''OWNER_NAME'', ''OWNERNME1''],
          gp_city = s [''PHY_CITY'', ''SITE_CITY'', ''CITY'', ''MUNICIPAL''],
          gp_zip = s [''PHY_ZIPCD'', ''ZIP'', ''ZIP_CODE'', ''POSTAL''],
          gp_just_value = f [''JV'', ''JUST'', ''JUST_VALUE'', ''TOT_VAL''],
          gp_assessed = f [''AV_SD'', ''ASSESSED'', ''ASSESSED_VALUE'', ''TAXABLE''],
          gp_land_value = f [''LV'', ''LAND'', ''LAND_VALUE''],
          gp_living_area = f [''TOT_LVG_AR'', ''LIVING_AREA'', ''BLDG_AREA'', ''HEATED_AREA''],
          gp_year_built = intPtr (firstInt props [''ACT_YR_BLT'', ''YEAR_BUILT'', ''YR_BLT'']),
          gp_acres = f [''ACRES'', ''GIS_ACRES'', ''CALC_ACRES''],
          gp_land_use = s [''DOR_UC'', ''LAND_USE'', ''LU_CODE'', ''USE_CODE''],
          gp_sale_price = f [''SALE_PRC1'', ''SALE_PRICE'', ''LAST_SALE_PRICE''],
          gp_sale_date = (if saleDate = [] then None else parseArcGISDate saleDate),
          gp_generation = gen, gp_fingerprint = fingerprint, gp_synced = 0\<rparr>)"

definition FDOTAdminBoundariesKey :: string where
  "FDOTAdminBoundariesKey = ''fdot_admin_boundaries''"

definition ExtractCityRow :: "(json \<Rightarrow> string) \<Rightarrow> arcgis_feature \<Rightarrow> int \<Rightarrow> string option \<Rightarrow> extract_error + city_row" where
  "ExtractCityRow marshal feat gen fingerprint =
     (if af_geometry feat = JNull then Inl NoGeometry
      else let name = firstString marshal (af_properties feat) [''NAME'', ''CITYNAME'', ''CITY_NAME'', ''MUNICIPAL''] in
        if name = [] then Inl NoName
        else Inr \<lparr>gc_name = name,
          gc_county = strPtr (firstString marshal (af_properties feat) [''COUNTY'', ''COUNTYNAME'', ''COUNTY_NAME'']),
          gc_source = FDOTAdminBoundariesKey, gc_geometry = af_geometry feat, gc_properties = JObj (af_properties feat),
          gc_generation = gen, gc_fingerprint = fingerprint, gc_synced = 0\<rparr>)"

definition ExtractCountyRow :: "(json \<Rightarrow> string) \<Rightarrow> arcgis_feature \<Rightarrow> int \<Rightarrow> string option \<Rightarrow> extract_error + county_row" where
  "ExtractCountyRow marshal feat gen fingerprint =
     (if af_geometry feat = JNull then Inl NoGeometry
      else let name = firstString marshal (af_properties feat) [''NAME'', ''COUNTY'', ''COUNTYNAME''];
               fips = firstString marshal (af_properties feat) [''FIPS'', ''FIPS_CODE'', ''COUNTYFIPS'', ''GEOID''] in
        if name = [] \<and> fips = [] then Inl NoName
        else let name = (if name = [] then fips else name); slug = CountyNameToSlug name in
        Inr \<lparr>gk_name = name, gk_slug = slug, gk_fips = strPtr fips, gk_stellar = (slug \<in> set MLSStellarSlugs),
          gk_beaches = (slug \<in> set MLSBeachesSlugs), gk_source = FDOTAdminBoundariesKey, gk_geometry = af_geometry feat,
          gk_properties = JObj (af_properties feat), gk_generation = gen, gk_fingerprint = fingerprint, gk_synced = 0\<rparr>)"

definition ExtractZipRow :: "(json \<Rightarrow> string) \<Rightarrow> arcgis_feature \<Rightarrow> int \<Rightarrow> string option \<Rightarrow> extract_error + zip_row" where
  "ExtractZipRow marshal feat gen fingerprint =
     (if af_geometry feat = JNull then Inl NoGeometry
      else let zip = firstString marshal (af_properties feat) [''ZIP'', ''ZIP_CODE'', ''ZCTA5CE10'', ''ZCTA5CE20'', ''GEOID10''] in
        if zip = [] then Inl NoZip
        else Inr \<lparr>gz_code = zip, gz_source = FDOTAdminBoundariesKey, gz_geometry = af_geometry feat,
          gz_properties = JObj (af_properties feat), gz_generation = gen, gz_fingerprint = fingerprint, gz_synced = 0\<rparr>)"

definition CONOFromProperties :: "gomap \<Rightarrow> int option" where
  "CONOFromProperties props = (let v = firstFloat props [''CO_NO''] in if v = 0 then None else Some (go_int v))"

section \<open>The ArcGIS client\<close>

definition baseQueryParams :: "string \<Rightarrow> url_values" where
  "baseQueryParams format = query_set ''returnGeometry'' ''true'' (query_set ''outFields'' ''*''
     (query_set ''f'' (if format = ''json'' then ''json'' else ''geojson'') []))"

definition page_query :: "int \<Rightarrow> int \<Rightarrow> url_values \<Rightarrow> url_values" where
  "page_query offset pageSize q = query_set ''resultRecordCount'' (show_int pageSize)
     (query_set ''resultOffset'' (show_int offset) (query_set ''outSR'' ''4326'' q))"

text \<open>\<^verbatim>\<open>u.RawQuery = q.Encode(); u.String()\<close>: the query of the endpoint is replaced.\<close>

definition with_query :: "string \<Rightarrow> url_values \<Rightarrow> string" where
  "with_query endpoint q = takeWhile (\<lambda>c. c \<noteq> CHR ''?'') endpoint @ ''?'' @ query_encode q"

definition client_page_size :: "gis_config \<Rightarrow> int" where
  "client_page_size cfg = (if gcf_page_size cfg \<le> 0 then 2000 else gcf_page_size cfg)"

definition parcel_page_url :: "gis_config \<Rightarrow> parcel_source \<Rightarrow> bbox \<Rightarrow> int \<Rightarrow> int \<Rightarrow> string" where
  "parcel_page_url cfg spec box offset pageSize =
     (let pageSize = (if pageSize \<le> 0 then client_page_size cfg else pageSize);
          q = baseQueryParams (pz_format spec);
          q = (if pz_mode spec = ''paginate''
               then query_set ''where'' (if pz_where spec \<noteq> [] then pz_where spec else ''1=1'') q
               else let q = query_set ''spatialRel'' ''esriSpatialRelIntersects'' (query_set ''inSR'' ''4326''
                      (query_set ''geometryType'' ''esriGeometryEnvelope'' (query_set ''geometry'' (EsriEnvelope box) q)))
                    in if pz_where spec \<noteq> [] then query_set ''where'' (pz_where spec) q else q)
      in with_query (pz_url spec) (page_query offset pageSize q))"

definition layer_page_url :: "gis_config \<Rightarrow> string \<Rightarrow> string \<Rightarrow> int \<Rightarrow> int \<Rightarrow> string" where
  "layer_page_url cfg endpoint whereClause offset pageSize =
     (let pageSize = (if pageSize \<le> 0 then client_page_size cfg else pageSize);
          q = query_set ''where'' (if whereClause \<noteq> [] then whereClause else ''1=1'') (baseQueryParams ''geojson'')
      in with_query endpoint (page_query offset pageSize q))"

definition arcGISResponseError :: "raw_message \<Rightarrow> string option" where
  "arcGISResponseError body = (case unmarshal_map body of None \<Rightarrow> None
     | Some doc \<Rightarrow> (case lookup_any doc ''error'' of
          JObj kvs \<Rightarrow>
            (let errObj = gomap_of kvs;
                 msg = (case lookup_any errObj ''message'' of JStr m \<Rightarrow> m | _ \<Rightarrow> []);
                 msg = (if msg = [] then ''arcgis query failed'' else msg);
                 msg = (case lookup_any errObj ''details'' of JArr (JStr d # _) \<Rightarrow> (if d \<noteq> [] then d else msg) | _ \<Rightarrow> msg)
             in Some (''arcgis error: '' @ msg))
        | _ \<Rightarrow> None))"

definition arcgis_get :: "string \<Rightarrow> ('z fdb_scheme, raw_message) go" where
  "arcgis_get url = go_bind (http_get url) (\<lambda>resp.
     if http_status resp \<ge> 400 then go_fail (Err (''arcgis status '' @ show_int (http_status resp)))
     else case arcGISResponseError (http_body resp) of
       Some e \<Rightarrow> go_fail (Err e)
     | None \<Rightarrow> go_ret (http_body resp))"

definition FetchParcelPage :: "gis_config \<Rightarrow> parcel_source \<Rightarrow> bbox \<Rightarrow> int \<Rightarrow> int \<Rightarrow> ('z fdb_scheme, raw_message) go" where
  "FetchParcelPage cfg spec box offset pageSize = arcgis_get (parcel_page_url cfg spec box offset pageSize)"

definition FetchLayerPage :: "gis_config \<Rightarrow> string \<Rightarrow> string \<Rightarrow> int \<Rightarrow> int \<Rightarrow> ('z fdb_scheme, raw_message) go" where
  "FetchLayerPage cfg endpoint whereClause offset pageSize = arcgis_get (layer_page_url cfg endpoint whereClause offset pageSize)"

record live_source =
  ls_key :: string
  ls_url :: string
  ls_tier :: string
  ls_where :: string
  ls_county_co :: string

definition sourcesForBBox :: "bbox \<Rightarrow> live_source list" where
  "sourcesForBBox b = map (\<lambda>spec. \<lparr>ls_key = pz_key spec, ls_url = pz_url spec, ls_tier = pz_county spec,
     ls_where = pz_where spec, ls_county_co = []\<rparr>) (FailoverSourcesForBBox b)"

definition zero_source :: parcel_source where
  "zero_source = \<lparr>pz_key = [], pz_county = [], pz_url = [], pz_mode = [], pz_where = [], pz_bbox = zero_bbox, pz_format = [],
     pz_feed = [], pz_enabled = False, pz_priority = 0, pz_timeout = 0, pz_id_fields = [], pz_notes = []\<rparr>"

definition FetchBBoxPage :: "gis_config \<Rightarrow> live_source \<Rightarrow> bbox \<Rightarrow> int \<Rightarrow> int \<Rightarrow> ('z fdb_scheme, raw_message) go" where
  "FetchBBoxPage cfg src box offset pageSize =
     FetchParcelPage cfg (zero_source\<lparr>pz_url := ls_url src, pz_mode := ''bbox'', pz_format := ''geojson'',
       pz_where := (if ls_county_co src \<noteq> [] then ''CO_NO='' @ ls_county_co src else ls_where src)\<rparr>) box offset pageSize"

definition boolField :: "gomap \<Rightarrow> string \<Rightarrow> bool" where
  "boolField doc k = (lookup_any doc k = JBool True)"

definition map_or_nil :: "json \<Rightarrow> gomap option" where
  "map_or_nil v = (case v of JObj kvs \<Rightarrow> Some (gomap_of kvs) | _ \<Rightarrow> None)"

definition feature_of :: "json \<Rightarrow> arcgis_feature option" where
  "feature_of rf = map_option (\<lambda>feat. \<lparr>af_geometry = lookup_any feat ''geometry'',
      af_properties = (case map_or_nil (lookup_any feat ''properties'') of Some p \<Rightarrow> p
        | None \<Rightarrow> (case map_or_nil (lookup_any feat ''attributes'') of Some p \<Rightarrow> p | None \<Rightarrow> []))\<rparr>) (map_or_nil rf)"

definition ParseFeatureCollection :: "raw_message \<Rightarrow> arcgis_page option" where
  "ParseFeatureCollection body = map_option (\<lambda>doc.
     \<lparr>ap_features = (case lookup_any doc ''features'' of JArr fs \<Rightarrow> List.map_filter feature_of fs | _ \<Rightarrow> []),
      ap_exceeded = boolField doc ''exceededTransferLimit''\<rparr>) (unmarshal_map body)"

section \<open>Lemmas\<close>

lemma exchange_pass_spec:
  "exchange_pass x ys = (m, r) \<Longrightarrow>
     mset (m # r) = mset (x # ys) \<and> pz_priority m \<le> pz_priority x \<and> (\<forall>z \<in> set r. pz_priority m \<le> pz_priority z)"
proof (induction x ys arbitrary: m r rule: exchange_pass.induct)
  case (2 x y ys)
  show ?case
  proof (cases "pz_priority y < pz_priority x")
    case True
    then obtain r' where r': "exchange_pass y ys = (m, r')" "r = x # r'"
      using "2.prems" by (auto split: prod.splits)
    from "2.IH" (1) [OF True r'(1)] True r'(2) show ?thesis by auto
  next
    case False
    then obtain r' where r': "exchange_pass x ys = (m, r')" "r = y # r'"
      using "2.prems" by (auto split: prod.splits)
    from "2.IH" (2) [OF False r'(1)] False r'(2) show ?thesis by auto
  qed
qed simp

lemma sort_sources_spec:
  "mset (sortParcelSourcesByPriority xs) = mset xs \<and> sorted (map pz_priority (sortParcelSourcesByPriority xs))"
proof (induction xs rule: sortParcelSourcesByPriority.induct)
  case (2 x xs)
  obtain m r where mr: "exchange_pass x xs = (m, r)" by fastforce
  note s = exchange_pass_spec [OF mr]
  from "2" mr have IH: "mset (sortParcelSourcesByPriority r) = mset r" "sorted (map pz_priority (sortParcelSourcesByPriority r))"
    by auto
  have "set (sortParcelSourcesByPriority r) = set r"
    using IH(1) by (metis set_mset_mset)
  with s IH mr show ?case by auto
qed simp

lemma set_sort_sources [simp]: "set (sortParcelSourcesByPriority xs) = set xs"
  using sort_sources_spec [of xs] by (metis set_mset_mset)

text \<open>The county tables agree: the counties of the cadastral codes, of the two MLS feeds and of the boxes are the same, and each of
  their names is a slug that \<^verbatim>\<open>gis_parcels.county\<close> takes.\<close>

definition slug_char :: "char \<Rightarrow> bool" where
  "slug_char c \<longleftrightarrow> (CHR ''a'' \<le> c \<and> c \<le> CHR ''z'') \<or> (CHR ''0'' \<le> c \<and> c \<le> CHR ''9'') \<or> c = CHR ''-''"

definition slug_ok :: "string \<Rightarrow> bool" where
  "slug_ok s \<longleftrightarrow> s \<noteq> [] \<and> list_all slug_char s"

lemma pilot_slugs_ok: "list_all slug_ok (map snd coNoToCountySlug)"
  by code_simp

lemma cono_slug_ok:
  assumes "CountySlugFromCONO n = Some slug"
  shows "slug_ok slug"
  using map_of_SomeD [OF assms [unfolded CountySlugFromCONO_def]] pilot_slugs_ok
  by (auto simp: list_all_iff)

lemma cono_pilot:
  assumes "CountySlugFromCONO n = Some slug"
  shows "IsMLSPilotCounty slug"
proof -
  have "list_all IsMLSPilotCounty (map snd coNoToCountySlug)"
    by code_simp
  with map_of_SomeD [OF assms [unfolded CountySlugFromCONO_def]] show ?thesis
    by (auto simp: list_all_iff)
qed

end
