(* ===== verification/Gis_Sync.thy ===== *)
theory Gis_Sync
  imports Gis_Extract
begin

text \<open>
  The synchronisation of parcels and boundaries into PostGIS (\<^verbatim>\<open>internal/service/gis\<close>: \<^verbatim>\<open>sync_parcels.go\<close>,
  \<^verbatim>\<open>sync_boundaries.go\<close>, \<^verbatim>\<open>sync_coordinator.go\<close>, \<^verbatim>\<open>persistent_service.go\<close>; \<^verbatim>\<open>internal/repository/gis\<close>: \<^verbatim>\<open>parcels.go\<close>,
  \<^verbatim>\<open>boundaries.go\<close>, \<^verbatim>\<open>parcel_sources.go\<close>, \<^verbatim>\<open>layer_counts.go\<close>, \<^verbatim>\<open>queue.go\<close>). A kickoff gives a source a new generation and enqueues its first
  page; every page job upserts the rows of one page under that generation and enqueues the next one; the last page
  deletes the rows of older generations. Boundaries are read in one loop per layer.

  Parameters: \<open>geom_ok\<close> says which geometries the column \<^verbatim>\<open>GEOMETRY(MultiPolygon, 4326)\<close> takes, \<open>overlap\<close> is the area of the intersection
  of two geometries, \<open>None\<close> when they do not meet (both PostGIS). The surrogate keys \<^verbatim>\<open>id\<close> have no reader and are left out:
  a row of a table is an entry of its list. The service always has a queue client, as both callers of the constructor give it one.
\<close>

section \<open>State\<close>

record source_state =
  ss_key :: string
  ss_fingerprint :: "string option"
  ss_generation :: int
  ss_checked :: "int option"
  ss_changed :: "int option"

record source_row =
  gr_key :: string
  gr_county :: string
  gr_url :: string
  gr_mode :: string
  gr_where :: "string option"
  gr_bbox :: bbox
  gr_timeout :: "int option"
  gr_feed :: string
  gr_enabled :: bool
  gr_priority :: int
  gr_notes :: "string option"
  gr_synced :: "int option"

record gisdb = fdb +
  gis_parcels :: "parcel_row list"
  gis_cities :: "city_row list"
  gis_counties :: "county_row list"
  gis_zips :: "zip_row list"
  source_states :: "source_state list"
  parcel_sources :: "source_row list"

section \<open>Upserts\<close>

text \<open>\<^verbatim>\<open>INSERT ... ON CONFLICT (key) DO UPDATE SET\<close> every other column. A key of \<open>None\<close> contains a NULL and conflicts with nothing; \<open>ok\<close>
  are the other unique constraints of the table. A statement that names the same key twice is refused.\<close>

definition upsert_one :: "('r \<Rightarrow> 'k option) \<Rightarrow> 'r \<Rightarrow> 'r list \<Rightarrow> 'r list" where
  "upsert_one key r t = (if key r \<noteq> None \<and> key r \<in> key ` set t
     then map (\<lambda>x. if key x = key r then r else x) t else t @ [r])"

fun upsert_rows :: "('r \<Rightarrow> 'k option) \<Rightarrow> ('r list \<Rightarrow> bool) \<Rightarrow> 'r list \<Rightarrow> 'r list \<Rightarrow> 'r list option" where
  "upsert_rows key ok [] t = Some t"
| "upsert_rows key ok (r # rs) t = (let t' = upsert_one key r t in if ok t' then upsert_rows key ok rs t' else None)"

definition upsert_stmt :: "('r \<Rightarrow> 'k option) \<Rightarrow> ('r list \<Rightarrow> bool) \<Rightarrow> 'r list \<Rightarrow> 'r list \<Rightarrow> 'r list option" where
  "upsert_stmt key ok rs t = (if distinct (List.map_filter key rs) then upsert_rows key ok rs t else None)"

text \<open>A statement has at most 65535 parameters.\<close>

definition params_ok :: "nat \<Rightarrow> 'r list \<Rightarrow> bool" where
  "params_ok n rows \<longleftrightarrow> n * length rows \<le> 65535"

definition numeric_ok :: "nat \<Rightarrow> nat \<Rightarrow> real option \<Rightarrow> bool" where
  "numeric_ok p d x = (case x of None \<Rightarrow> True | Some v \<Rightarrow> \<lfloor>\<bar>v\<bar> * 10 ^ d + 1 / 2\<rfloor> < 10 ^ p)"

definition timestamp_ok :: "int \<Rightarrow> bool" where
  "timestamp_ok t \<longleftrightarrow> - 210866803200 * second \<le> t \<and> t < 9224318016000 * second"

definition parcel_fits :: "(json \<Rightarrow> bool) \<Rightarrow> parcel_row \<Rightarrow> bool" where
  "parcel_fits geom_ok r \<longleftrightarrow> geom_ok (gp_geometry r) \<and> slug_ok (gp_county r) \<and>
     numeric_ok 15 2 (gp_just_value r) \<and> numeric_ok 15 2 (gp_assessed r) \<and> numeric_ok 15 2 (gp_land_value r) \<and>
     numeric_ok 12 2 (gp_living_area r) \<and> numeric_ok 12 4 (gp_acres r) \<and> numeric_ok 15 2 (gp_sale_price r) \<and>
     (case gp_year_built r of None \<Rightarrow> True | Some y \<Rightarrow> int4_ok y) \<and>
     (case gp_sale_date r of None \<Rightarrow> True | Some t \<Rightarrow> timestamp_ok t) \<and> int4_ok (gp_generation r)"

definition parcel_key :: "parcel_row \<Rightarrow> (string \<times> string) option" where
  "parcel_key r = Some (gp_id r, gp_source r)"

definition upsertParcelBatch :: "(json \<Rightarrow> bool) \<Rightarrow> parcel_row list \<Rightarrow> ('z gisdb_scheme, unit) go" where
  "upsertParcelBatch geom_ok rows = go_bind go_now (\<lambda>now. sql (\<lambda>s.
     if params_ok 20 rows \<and> list_all (parcel_fits geom_ok) rows
     then map_option (\<lambda>t. ((), s\<lparr>gis_parcels := t\<rparr>))
       (upsert_stmt parcel_key (\<lambda>_. True) (map (\<lambda>r. r\<lparr>gp_synced := now\<rparr>) rows) (gis_parcels s))
     else None))"

definition BulkUpsertParcels :: "(json \<Rightarrow> bool) \<Rightarrow> parcel_row list \<Rightarrow> int \<Rightarrow> ('z gisdb_scheme, unit) go" where
  "BulkUpsertParcels geom_ok rows chunkSize =
     go_each (upsertParcelBatch geom_ok) (chunks_of (nat (if chunkSize \<le> 0 then 500 else chunkSize)) rows)"

definition DeleteStaleParcels :: "string \<Rightarrow> string \<Rightarrow> int \<Rightarrow> ('z gisdb_scheme, nat) go" where
  "DeleteStaleParcels sourceKey county currentGen = sql (\<lambda>s.
     let stale = (\<lambda>r. gp_source r = sourceKey \<and> gp_generation r < currentGen \<and> (county = [] \<or> gp_county r = county))
     in Some (length (filter stale (gis_parcels s)), s\<lparr>gis_parcels := filter (\<lambda>r. \<not> stale r) (gis_parcels s)\<rparr>))"

definition CountParcels :: "string \<Rightarrow> ('z gisdb_scheme, nat) go" where
  "CountParcels county = sql (\<lambda>s. Some (length (filter (\<lambda>r. county = [] \<or> gp_county r = county) (gis_parcels s)), s))"

section \<open>Source states\<close>

definition EnsureSourceState :: "string \<Rightarrow> ('z gisdb_scheme, unit) go" where
  "EnsureSourceState sourceKey = sql (\<lambda>s.
     if length sourceKey > 96 then None
     else Some ((), if sourceKey \<in> ss_key ` set (source_states s) then s
       else s\<lparr>source_states := source_states s @
         [\<lparr>ss_key = sourceKey, ss_fingerprint = None, ss_generation = 0, ss_checked = None, ss_changed = None\<rparr>]\<rparr>))"

definition SourceGeneration :: "string \<Rightarrow> ('z gisdb_scheme, int) go" where
  "SourceGeneration sourceKey = sql (\<lambda>s.
     map_option (\<lambda>r. (ss_generation r, s)) (find (\<lambda>r. ss_key r = sourceKey) (source_states s)))"

definition BumpSourceGeneration :: "string \<Rightarrow> ('z gisdb_scheme, int) go" where
  "BumpSourceGeneration sourceKey = go_bind go_now (\<lambda>now. sql (\<lambda>s.
     case find (\<lambda>r. ss_key r = sourceKey) (source_states s) of
       None \<Rightarrow> None
     | Some r \<Rightarrow> (if int64_ok (ss_generation r + 1)
         then Some (ss_generation r + 1, s\<lparr>source_states := map (\<lambda>x. if ss_key x = sourceKey
                then x\<lparr>ss_generation := ss_generation x + 1, ss_changed := Some now\<rparr> else x) (source_states s)\<rparr>)
         else None)))"

section \<open>The catalogue table\<close>

definition parcelSourceRowsFromSpecs :: "parcel_source list \<Rightarrow> source_row list" where
  "parcelSourceRowsFromSpecs specs = map (\<lambda>p. \<lparr>gr_key = pz_key p, gr_county = pz_county p, gr_url = pz_url p, gr_mode = pz_mode p,
     gr_where = (if pz_where p = [] then None else Some (pz_where p)), gr_bbox = pz_bbox p,
     gr_timeout = (if pz_timeout p > 0 then Some (pz_timeout p) else None), gr_feed = pz_feed p, gr_enabled = pz_enabled p,
     gr_priority = pz_priority p, gr_notes = (if pz_notes p = [] then None else Some (pz_notes p)), gr_synced = None\<rparr>) specs"

definition source_fits :: "source_row \<Rightarrow> bool" where
  "source_fits r \<longleftrightarrow> slug_ok (gr_county r) \<and> gr_mode r \<in> {''bbox'', ''paginate'', ''where_filter'', ''shapefile''} \<and>
     int2_ok (gr_priority r) \<and> (case gr_timeout r of None \<Rightarrow> True | Some n \<Rightarrow> int4_ok n)"

text \<open>The update leaves \<^verbatim>\<open>last_synced_at\<close> as it is.\<close>

definition upsertParcelSource :: "source_row \<Rightarrow> ('z gisdb_scheme, unit) go" where
  "upsertParcelSource r = sql (\<lambda>s.
     if source_fits r
     then Some ((), s\<lparr>parcel_sources := (if gr_key r \<in> gr_key ` set (parcel_sources s)
            then map (\<lambda>x. if gr_key x = gr_key r then r\<lparr>gr_synced := gr_synced x\<rparr> else x) (parcel_sources s)
            else parcel_sources s @ [r])\<rparr>)
     else None)"

definition EnsureParcelSourceCatalog :: "source_row list \<Rightarrow> ('z gisdb_scheme, unit) go" where
  "EnsureParcelSourceCatalog specs = go_each upsertParcelSource specs"

definition TouchParcelSourceSynced :: "string \<Rightarrow> ('z gisdb_scheme, unit) go" where
  "TouchParcelSourceSynced sourceKey = go_bind go_now (\<lambda>now. sql (\<lambda>s.
     Some ((), s\<lparr>parcel_sources := map (\<lambda>x. if gr_key x = sourceKey then x\<lparr>gr_synced := Some now\<rparr> else x) (parcel_sources s)\<rparr>)))"

section \<open>Page jobs\<close>

record parcel_args =
  pg_source :: string
  pg_county :: string
  pg_url :: string
  pg_mode :: string
  pg_where :: string
  pg_format :: string
  pg_bbox :: bbox
  pg_id_fields :: "string list"
  pg_offset :: int
  pg_generation :: int

definition enc_parcel_args :: "parcel_args \<Rightarrow> json" where
  "enc_parcel_args a = JObj ([(''source_key'', JStr (pg_source a)), (''county'', JStr (pg_county a)), (''query_url'', JStr (pg_url a)),
     (''sync_mode'', JStr (pg_mode a))] @ enc_str_omit ''arcgis_where'' (pg_where a) @ enc_str_omit ''response_format'' (pg_format a) @
     [(''bbox_west'', JNum (bb_west (pg_bbox a))), (''bbox_south'', JNum (bb_south (pg_bbox a))),
      (''bbox_east'', JNum (bb_east (pg_bbox a))), (''bbox_north'', JNum (bb_north (pg_bbox a)))] @
     (if pg_id_fields a = [] then [] else [(''parcel_id_fields'', JArr (map JStr (pg_id_fields a)))]) @
     [(''offset'', JNum (of_int (pg_offset a))), (''generation'', JNum (of_int (pg_generation a)))])"

definition dec_real :: "real \<Rightarrow> json \<Rightarrow> real option" where
  "dec_real acc v = (case v of JNum x \<Rightarrow> Some x | JNull \<Rightarrow> Some acc | _ \<Rightarrow> None)"

fun dec_string_list :: "json list \<Rightarrow> string list option" where
  "dec_string_list [] = Some []"
| "dec_string_list (v # vs) = (case (dec_string [] v, dec_string_list vs) of (Some s, Some ss) \<Rightarrow> Some (s # ss) | _ \<Rightarrow> None)"

definition dec_strings :: "string list \<Rightarrow> json \<Rightarrow> string list option" where
  "dec_strings acc v = (case v of JArr vs \<Rightarrow> dec_string_list vs | JNull \<Rightarrow> Some [] | _ \<Rightarrow> None)"

text \<open>A payload without arguments is not a document: the handler gets an error.\<close>

definition UnmarshalParcelSyncPageArgs :: "json option \<Rightarrow> parcel_args option" where
  "UnmarshalParcelSyncPageArgs raw = (case raw of None \<Rightarrow> None
     | Some j \<Rightarrow> (case struct_fields (RawJson j) of None \<Rightarrow> None
        | Some kvs \<Rightarrow> (let str = (\<lambda>k. decode_field dec_string [] k kvs); num = (\<lambda>k. decode_field dec_real 0 k kvs) in
           case (str ''source_key'', str ''county'', str ''query_url'', str ''sync_mode'', str ''arcgis_where'', str ''response_format'',
              num ''bbox_west'', num ''bbox_south'', num ''bbox_east'', num ''bbox_north'',
              decode_field dec_strings [] ''parcel_id_fields'' kvs, decode_field dec_int 0 ''offset'' kvs, decode_field dec_int 0 ''generation'' kvs) of
             (Some key, Some county, Some url, Some mode, Some whr, Some fmt, Some w, Some s, Some e, Some n, Some ids, Some off, Some gen) \<Rightarrow>
               Some \<lparr>pg_source = key, pg_county = county, pg_url = url, pg_mode = mode, pg_where = whr, pg_format = fmt,
                 pg_bbox = \<lparr>bb_west = w, bb_south = s, bb_east = e, bb_north = n\<rparr>, pg_id_fields = ids, pg_offset = off, pg_generation = gen\<rparr>
           | _ \<Rightarrow> None)))"

definition argsFromSpec :: "parcel_source \<Rightarrow> int \<Rightarrow> int \<Rightarrow> parcel_args" where
  "argsFromSpec spec gen offset = \<lparr>pg_source = pz_key spec, pg_county = pz_county spec, pg_url = pz_url spec, pg_mode = pz_mode spec,
     pg_where = pz_where spec, pg_format = pz_format spec, pg_bbox = pz_bbox spec, pg_id_fields = pz_id_fields spec,
     pg_offset = offset, pg_generation = gen\<rparr>"

record gis_service =
  gs_cfg :: gis_config
  gs_queue :: client

definition gis_queue_name :: "gis_config \<Rightarrow> string" where
  "gis_queue_name cfg = (if gcf_sync_queue cfg = [] then ''default'' else gcf_sync_queue cfg)"

definition enqueuePage :: "gis_service \<Rightarrow> parcel_args \<Rightarrow> ('z gisdb_scheme, unit) go" where
  "enqueuePage svc args = go_bind (Enqueue (gs_queue svc) (gis_queue_name (gs_cfg svc)) ''gis.parcel_sync_page''
     (Some (enc_parcel_args args)) 0) (\<lambda>_. go_ret ())"

text \<open>The source of a page as its arguments describe it; the county's box stands in for an empty one.\<close>

definition page_spec :: "parcel_args \<Rightarrow> parcel_source" where
  "page_spec args = zero_source\<lparr>pz_key := pg_source args, pz_county := pg_county args, pz_url := pg_url args,
     pz_mode := (if pg_mode args = [] then ''bbox'' else pg_mode args), pz_where := pg_where args,
     pz_format := (if pg_format args = [] then ''geojson'' else pg_format args), pz_id_fields := pg_id_fields args, pz_bbox := pg_bbox args,
     pz_timeout := (case ParcelSourceSpecByKey (pg_source args) of Some c \<Rightarrow> (if pz_timeout c > 0 then pz_timeout c else 0) | None \<Rightarrow> 0)\<rparr>"

definition page_bbox :: "parcel_args \<Rightarrow> bbox" where
  "page_bbox args = (let b = pg_bbox args in
     if bb_west b = 0 \<and> bb_south b = 0 \<and> bb_east b = 0 \<and> bb_north b = 0 then countyBBox (pg_county args) else b)"

text \<open>The row of a feature, or nothing when the loop skips it.\<close>

definition feature_row :: "(json \<Rightarrow> string) \<Rightarrow> parcel_args \<Rightarrow> arcgis_feature \<Rightarrow> parcel_row option" where
  "feature_row marshal args feat =
     (let county = (if IsStatewideCadastralSource (pg_source args)
          then Option.bind (CONOFromProperties (af_properties feat)) (\<lambda>coNo. Option.bind (CountySlugFromCONO coNo)
                 (\<lambda>slug. if IsMLSPilotCounty slug then Some slug else None))
          else Some (pg_county args))
      in Option.bind county (\<lambda>county. case ExtractParcelRow marshal feat (pg_source args) county (pg_generation args) (Some []) (pg_id_fields args) of
           Inl _ \<Rightarrow> None | Inr row \<Rightarrow> Some row))"

text \<open>The loop over the features of a page, with the batch that has not been written yet.\<close>

fun batch_loop :: "('f \<Rightarrow> 'r option) \<Rightarrow> ('r list \<Rightarrow> ('s, unit) go) \<Rightarrow> nat \<Rightarrow> 'r list \<Rightarrow> 'f list \<Rightarrow> ('s, unit) go" where
  "batch_loop extract bulk chunk batch [] = (if batch \<noteq> [] then bulk batch else go_ret ())"
| "batch_loop extract bulk chunk batch (f # fs) = (case extract f of
      None \<Rightarrow> batch_loop extract bulk chunk batch fs
    | Some row \<Rightarrow> (let batch' = batch @ [row] in
        if length batch' \<ge> chunk then go_bind (bulk batch') (\<lambda>_. batch_loop extract bulk chunk [] fs)
        else batch_loop extract bulk chunk batch' fs))"

definition upsert_chunk_size :: "gis_config \<Rightarrow> int" where
  "upsert_chunk_size cfg = (if gcf_upsert_chunk cfg \<le> 0 then 500 else gcf_upsert_chunk cfg)"

definition parse_page :: "raw_message \<Rightarrow> ('s, arcgis_page) go" where
  "parse_page body = (case ParseFeatureCollection body of None \<Rightarrow> go_fail (Err ''json'') | Some page \<Rightarrow> go_ret page)"

definition page_continues :: "int \<Rightarrow> arcgis_page \<Rightarrow> bool" where
  "page_continues pageSize page \<longleftrightarrow> ap_exceeded page \<or> int (length (ap_features page)) \<ge> pageSize"

definition finalize_parcels :: "parcel_args \<Rightarrow> ('z gisdb_scheme, unit) go" where
  "finalize_parcels args =
     go_bind (DeleteStaleParcels (pg_source args) (if IsStatewideCadastralSource (pg_source args) then [] else pg_county args) (pg_generation args))
       (\<lambda>_. go_ignore (TouchParcelSourceSynced (pg_source args)))"

text \<open>\<^verbatim>\<open>SyncPage\<close> up to the enqueueing: the arguments of the next page, if there is one.\<close>

definition process_parcel_page ::
  "(json \<Rightarrow> string) \<Rightarrow> (json \<Rightarrow> bool) \<Rightarrow> gis_config \<Rightarrow> parcel_args \<Rightarrow> ('z gisdb_scheme, parcel_args option) go" where
  "process_parcel_page marshal geom_ok cfg args =
     go_bind (FetchParcelPage cfg (page_spec args) (page_bbox args) (pg_offset args) (gcf_page_size cfg)) (\<lambda>body.
     go_bind (parse_page body) (\<lambda>page.
     if ap_features page = [] \<and> pg_offset args = 0 then go_fail (Err ''gis parcel sync empty first page'')
     else go_bind (batch_loop (feature_row marshal args) (\<lambda>batch. BulkUpsertParcels geom_ok batch (upsert_chunk_size cfg))
            (nat (upsert_chunk_size cfg)) [] (ap_features page)) (\<lambda>_.
          if page_continues (client_page_size cfg) page
          then go_ret (Some (args\<lparr>pg_offset := pg_offset args + client_page_size cfg\<rparr>))
          else go_bind (finalize_parcels args) (\<lambda>_. go_ret None))))"

definition SyncPage :: "(json \<Rightarrow> string) \<Rightarrow> (json \<Rightarrow> bool) \<Rightarrow> gis_service \<Rightarrow> parcel_args \<Rightarrow> ('z gisdb_scheme, unit) go" where
  "SyncPage marshal geom_ok svc args = go_bind (process_parcel_page marshal geom_ok (gs_cfg svc) args) (\<lambda>nxt.
     case nxt of None \<Rightarrow> go_ret () | Some a \<Rightarrow> enqueuePage svc a)"

text \<open>The chain of page jobs that a kickoff starts.\<close>

partial_function (option) parcel_chain ::
  "(json \<Rightarrow> string) \<Rightarrow> (json \<Rightarrow> bool) \<Rightarrow> gis_config \<Rightarrow> parcel_args \<Rightarrow> 'z gisdb_scheme \<Rightarrow> ((go_error + unit) \<times> 'z gisdb_scheme) option" where
  "parcel_chain marshal geom_ok cfg args s =
     (case process_parcel_page marshal geom_ok cfg args s of
        (Inl e, s') \<Rightarrow> Some (Inl e, s')
      | (Inr None, s') \<Rightarrow> Some (Inr (), s')
      | (Inr (Some a), s') \<Rightarrow> parcel_chain marshal geom_ok cfg a s')"

section \<open>Kickoff\<close>

text \<open>\<^verbatim>\<open>EXTRACT(EPOCH FROM NOW())::bigint\<close> rounds. \<^verbatim>\<open>payload::jsonb\<close> fails on a payload that is not JSON; a source key is never the text
  of a JSON value other than a string.\<close>

definition epoch_bigint :: "int \<Rightarrow> int" where
  "epoch_bigint now = (now + second div 2) div second"

definition payload_source_key :: "raw_message \<Rightarrow> string option" where
  "payload_source_key raw = (case raw of
      RawJson (JObj kvs) \<Rightarrow> (case map_of (gomap_of kvs) ''args'' of
          Some (JObj a) \<Rightarrow> (case map_of (gomap_of a) ''source_key'' of Some (JStr k) \<Rightarrow> Some k | _ \<Rightarrow> None)
        | _ \<Rightarrow> None)
    | _ \<Rightarrow> None)"

definition parcel_job_active :: "int \<Rightarrow> string \<Rightarrow> string \<Rightarrow> job_row \<Rightarrow> bool" where
  "parcel_job_active now queueName sourceKey j \<longleftrightarrow> job_queue j = queueName \<and>
     payload_type_text (job_payload j) = Some (Some ''gis.parcel_sync_page'') \<and>
     payload_source_key (job_payload j) = Some sourceKey \<and>
     (case reserved_at j of None \<Rightarrow> True | Some r \<Rightarrow> r > epoch_bigint now - 7200)"

definition HasActiveParcelSyncJob :: "string \<Rightarrow> string \<Rightarrow> ('z gisdb_scheme, bool) go" where
  "HasActiveParcelSyncJob queueName sourceKey =
     (if queueName = [] \<or> sourceKey = [] then go_ret False
      else go_bind go_now (\<lambda>now. sql (\<lambda>s.
        if \<exists>j \<in> set (jobs s). job_queue j = queueName \<and> payload_type_text (job_payload j) = None then None
        else Some (\<exists>j \<in> set (jobs s). parcel_job_active now queueName sourceKey j, s))))"

definition parcelSyncTargets :: "gis_config \<Rightarrow> string \<Rightarrow> parcel_source list" where
  "parcelSyncTargets cfg countyFilter =
     filter (\<lambda>spec. countyFilter = [] \<or> pz_county spec = countyFilter) (EnabledParcelSourcesForConfig (gcf_sync_pinellas cfg))"

fun kickoff_targets :: "gis_service \<Rightarrow> (string \<rightharpoonup> int) \<Rightarrow> parcel_source list \<Rightarrow> ('z gisdb_scheme, unit) go" where
  "kickoff_targets svc seen [] = go_ret ()"
| "kickoff_targets svc seen (spec # rest) =
     go_bind (HasActiveParcelSyncJob (gis_queue_name (gs_cfg svc)) (pz_key spec)) (\<lambda>active.
     if active then kickoff_targets svc seen rest
     else go_bind (EnsureSourceState (pz_key spec)) (\<lambda>_.
          go_bind (case seen (pz_key spec) of Some gen \<Rightarrow> go_ret gen | None \<Rightarrow> BumpSourceGeneration (pz_key spec)) (\<lambda>gen.
          go_bind (enqueuePage svc (argsFromSpec spec gen 0)) (\<lambda>_.
          kickoff_targets svc (seen(pz_key spec \<mapsto> gen)) rest))))"

definition parcel_kickoff :: "gis_service \<Rightarrow> string \<Rightarrow> ('z gisdb_scheme, unit) go" where
  "parcel_kickoff svc countyFilter =
     (let targets = parcelSyncTargets (gs_cfg svc) countyFilter in
      if targets = [] then go_fail (Err ''no parcel sync targets'')
      else go_bind (EnsureParcelSourceCatalog (parcelSourceRowsFromSpecs ParcelSourceCatalog)) (\<lambda>_.
           kickoff_targets svc Map.empty targets))"

definition RunMonthlyRefresh :: "gis_service \<Rightarrow> ('z gisdb_scheme, unit) go" where
  "RunMonthlyRefresh svc = parcel_kickoff svc []"

definition KickoffCounty :: "gis_service \<Rightarrow> string \<Rightarrow> ('z gisdb_scheme, unit) go" where
  "KickoffCounty svc countySlug =
     (if countySlug = [] then go_fail (Err ''county slug required'')
      else if parcelSyncTargets (gs_cfg svc) countySlug = [] then go_fail (Err (''unknown or disabled county: '' @ countySlug))
      else parcel_kickoff svc countySlug)"

definition CountBoundaries :: "('z gisdb_scheme, nat \<times> nat \<times> nat) go" where
  "CountBoundaries = go_bind (sql (\<lambda>s. Some (length (gis_cities s), s))) (\<lambda>cities.
     go_bind (sql (\<lambda>s. Some (length (gis_counties s), s))) (\<lambda>counties.
     go_bind (sql (\<lambda>s. Some (length (gis_zips s), s))) (\<lambda>zips. go_ret (cities, counties, zips))))"

definition IsPersistentEmpty :: "('z gisdb_scheme, bool) go" where
  "IsPersistentEmpty = go_bind (CountParcels []) (\<lambda>parcels. go_bind CountBoundaries (\<lambda>(cities, counties, zips).
     go_ret (parcels = 0 \<and> cities = 0 \<and> counties = 0 \<and> zips = 0)))"

definition Parcels_RunInitialSync :: "gis_service \<Rightarrow> ('z gisdb_scheme, unit) go" where
  "Parcels_RunInitialSync svc = go_bind IsPersistentEmpty (\<lambda>empty.
     if \<not> empty then go_bind (CountParcels []) (\<lambda>parcels. if parcels > 0 then go_ret () else parcel_kickoff svc [])
     else parcel_kickoff svc [])"

section \<open>Boundary tables\<close>

definition city_key :: "city_row \<Rightarrow> (string \<times> string) option" where
  "city_key r = map_option (\<lambda>c. (gc_name r, c)) (gc_county r)"

definition county_key :: "county_row \<Rightarrow> string option" where
  "county_key r = Some (gk_slug r)"

definition zip_key :: "zip_row \<Rightarrow> string option" where
  "zip_key r = Some (gz_code r)"

definition unique_fips :: "county_row list \<Rightarrow> bool" where
  "unique_fips t \<longleftrightarrow> distinct (List.map_filter gk_fips t)"

definition upsertCityBatch :: "(json \<Rightarrow> bool) \<Rightarrow> city_row list \<Rightarrow> ('z gisdb_scheme, unit) go" where
  "upsertCityBatch geom_ok rows = go_bind go_now (\<lambda>now. sql (\<lambda>s.
     if params_ok 7 rows \<and> list_all (\<lambda>r. geom_ok (gc_geometry r) \<and> int4_ok (gc_generation r)) rows
     then map_option (\<lambda>t. ((), s\<lparr>gis_cities := t\<rparr>)) (upsert_stmt city_key (\<lambda>_. True)
       (map (\<lambda>r. r\<lparr>gc_source := (if gc_source r = [] then FDOTAdminBoundariesKey else gc_source r), gc_synced := now\<rparr>) rows) (gis_cities s))
     else None))"

definition BulkUpsertCities :: "(json \<Rightarrow> bool) \<Rightarrow> city_row list \<Rightarrow> ('z gisdb_scheme, unit) go" where
  "BulkUpsertCities geom_ok rows = go_each (upsertCityBatch geom_ok) (chunks_of 100 rows)"

definition upsertCountyBatch :: "(json \<Rightarrow> bool) \<Rightarrow> county_row list \<Rightarrow> ('z gisdb_scheme, unit) go" where
  "upsertCountyBatch geom_ok rows = go_bind go_now (\<lambda>now. sql (\<lambda>s.
     if params_ok 10 rows \<and> list_all (\<lambda>r. geom_ok (gk_geometry r) \<and> int4_ok (gk_generation r)) rows
     then map_option (\<lambda>t. ((), s\<lparr>gis_counties := t\<rparr>)) (upsert_stmt county_key unique_fips
       (map (\<lambda>r. r\<lparr>gk_source := (if gk_source r = [] then FDOTAdminBoundariesKey else gk_source r),
          gk_slug := (if gk_slug r = [] then gk_name r else gk_slug r), gk_synced := now\<rparr>) rows) (gis_counties s))
     else None))"

definition BulkUpsertCounties :: "(json \<Rightarrow> bool) \<Rightarrow> county_row list \<Rightarrow> ('z gisdb_scheme, unit) go" where
  "BulkUpsertCounties geom_ok rows = go_each (upsertCountyBatch geom_ok) (chunks_of 100 rows)"

definition upsertZipBatch :: "(json \<Rightarrow> bool) \<Rightarrow> zip_row list \<Rightarrow> ('z gisdb_scheme, unit) go" where
  "upsertZipBatch geom_ok rows = go_bind go_now (\<lambda>now. sql (\<lambda>s.
     if params_ok 6 rows \<and> list_all (\<lambda>r. geom_ok (gz_geometry r) \<and> int4_ok (gz_generation r)) rows
     then map_option (\<lambda>t. ((), s\<lparr>gis_zips := t\<rparr>)) (upsert_stmt zip_key (\<lambda>_. True)
       (map (\<lambda>r. r\<lparr>gz_source := (if gz_source r = [] then FDOTAdminBoundariesKey else gz_source r), gz_synced := now\<rparr>) rows) (gis_zips s))
     else None))"

definition BulkUpsertZips :: "(json \<Rightarrow> bool) \<Rightarrow> zip_row list \<Rightarrow> ('z gisdb_scheme, unit) go" where
  "BulkUpsertZips geom_ok rows = go_each (upsertZipBatch geom_ok) (chunks_of 100 rows)"

definition DeleteStaleCities :: "string \<Rightarrow> int \<Rightarrow> ('z gisdb_scheme, unit) go" where
  "DeleteStaleCities sourceKey currentGen = sql (\<lambda>s.
     Some ((), s\<lparr>gis_cities := filter (\<lambda>r. \<not> (gc_source r = sourceKey \<and> gc_generation r < currentGen)) (gis_cities s)\<rparr>))"

definition DeleteStaleCounties :: "string \<Rightarrow> int \<Rightarrow> ('z gisdb_scheme, unit) go" where
  "DeleteStaleCounties sourceKey currentGen = sql (\<lambda>s.
     Some ((), s\<lparr>gis_counties := filter (\<lambda>r. \<not> (gk_source r = sourceKey \<and> gk_generation r < currentGen)) (gis_counties s)\<rparr>))"

definition DeleteStaleZips :: "string \<Rightarrow> int \<Rightarrow> ('z gisdb_scheme, unit) go" where
  "DeleteStaleZips sourceKey currentGen = sql (\<lambda>s.
     Some ((), s\<lparr>gis_zips := filter (\<lambda>r. \<not> (gz_source r = sourceKey \<and> gz_generation r < currentGen)) (gis_zips s)\<rparr>))"

text \<open>The backfill of a city's county: the county of the largest common area, the first of them in the table when there are several. The rows
  are updated one after another, and each update is checked against \<^verbatim>\<open>UNIQUE (city_name, county)\<close>.\<close>

fun best_county :: "(json \<Rightarrow> json \<Rightarrow> real option) \<Rightarrow> json \<Rightarrow> county_row list \<Rightarrow> (real \<times> string) option" where
  "best_county overlap g [] = None"
| "best_county overlap g (co # cs) = (case (overlap g (gk_geometry co), best_county overlap g cs) of
      (None, b) \<Rightarrow> b
    | (Some a, Some (a', slug)) \<Rightarrow> (if a' > a then Some (a', slug) else Some (a, gk_slug co))
    | (Some a, None) \<Rightarrow> Some (a, gk_slug co))"

definition unique_cities :: "city_row list \<Rightarrow> bool" where
  "unique_cities t \<longleftrightarrow> distinct (List.map_filter city_key t)"

fun update_cities :: "(city_row \<Rightarrow> string option) \<Rightarrow> city_row list \<Rightarrow> city_row list \<Rightarrow> city_row list option" where
  "update_cities f before [] = Some before"
| "update_cities f before (c # cs) = (case f c of
      None \<Rightarrow> update_cities f (before @ [c]) cs
    | Some slug \<Rightarrow> (let c' = c\<lparr>gc_county := Some slug\<rparr> in
        if unique_cities (before @ c' # cs) then update_cities f (before @ [c']) cs else None))"

definition backfill :: "(city_row \<Rightarrow> string option) \<Rightarrow> ('z gisdb_scheme, nat) go" where
  "backfill f = sql (\<lambda>s. map_option (\<lambda>t. (length (filter (\<lambda>c. f c \<noteq> None) (gis_cities s)), s\<lparr>gis_cities := t\<rparr>))
     (update_cities f [] (gis_cities s)))"

definition backfill_slug :: "(json \<Rightarrow> json \<Rightarrow> real option) \<Rightarrow> int \<Rightarrow> county_row list \<Rightarrow> city_row \<Rightarrow> string option" where
  "backfill_slug overlap generation counties c = (if gc_generation c = generation
     then map_option snd (best_county overlap (gc_geometry c) (filter (\<lambda>co. gk_generation co = generation) counties)) else None)"

definition BackfillCityCounties :: "(json \<Rightarrow> json \<Rightarrow> real option) \<Rightarrow> int \<Rightarrow> ('z gisdb_scheme, nat) go" where
  "BackfillCityCounties overlap generation = go_bind (go_get gis_counties) (\<lambda>counties. backfill (backfill_slug overlap generation counties))"

definition BackfillMissingCityCounties :: "(json \<Rightarrow> json \<Rightarrow> real option) \<Rightarrow> ('z gisdb_scheme, nat) go" where
  "BackfillMissingCityCounties overlap = go_bind (go_get gis_counties) (\<lambda>counties. backfill (\<lambda>c.
     if gc_county c = None then backfill_slug overlap (gc_generation c) counties c else None))"

definition CountCitiesMissingCounty :: "('z gisdb_scheme, nat) go" where
  "CountCitiesMissingCounty = sql (\<lambda>s. Some (length (filter (\<lambda>c. gc_county c = None) (gis_cities s)), s))"

section \<open>Boundary synchronisation\<close>

definition ok_of :: "'e + 'a \<Rightarrow> 'a option" where
  "ok_of r = (case r of Inl _ \<Rightarrow> None | Inr x \<Rightarrow> Some x)"

definition syncCounties ::
  "(json \<Rightarrow> string) \<Rightarrow> (json \<Rightarrow> bool) \<Rightarrow> gis_config \<Rightarrow> int \<Rightarrow> string \<Rightarrow> arcgis_feature list \<Rightarrow> ('z gisdb_scheme, unit) go" where
  "syncCounties marshal geom_ok cfg gen fp feats =
     batch_loop (\<lambda>f. ok_of (ExtractCountyRow marshal f gen (Some fp))) (BulkUpsertCounties geom_ok) (nat (upsert_chunk_size cfg)) [] feats"

definition syncCities ::
  "(json \<Rightarrow> string) \<Rightarrow> (json \<Rightarrow> bool) \<Rightarrow> gis_config \<Rightarrow> int \<Rightarrow> string \<Rightarrow> arcgis_feature list \<Rightarrow> ('z gisdb_scheme, unit) go" where
  "syncCities marshal geom_ok cfg gen fp feats =
     batch_loop (\<lambda>f. ok_of (ExtractCityRow marshal f gen (Some fp))) (BulkUpsertCities geom_ok) (nat (upsert_chunk_size cfg)) [] feats"

definition syncZips ::
  "(json \<Rightarrow> string) \<Rightarrow> (json \<Rightarrow> bool) \<Rightarrow> gis_config \<Rightarrow> int \<Rightarrow> string \<Rightarrow> arcgis_feature list \<Rightarrow> ('z gisdb_scheme, unit) go" where
  "syncZips marshal geom_ok cfg gen fp feats =
     batch_loop (\<lambda>f. ok_of (ExtractZipRow marshal f gen (Some fp))) (BulkUpsertZips geom_ok) (nat (upsert_chunk_size cfg)) [] feats"

definition zipSyncPageSize :: "gis_config \<Rightarrow> int" where
  "zipSyncPageSize cfg = (if gcf_page_size cfg > 0 \<and> gcf_page_size cfg < 500 then gcf_page_size cfg else 500)"

text \<open>The loop of \<^verbatim>\<open>syncLayer\<close> ends with the server's last page or with an error. It makes one request per turn, so a run
  that sees the replies of the state needs at most one turn more than there are replies: the last request of such a run fails.\<close>

fun layer_loop ::
  "nat \<Rightarrow> gis_config \<Rightarrow> string \<Rightarrow> (arcgis_feature list \<Rightarrow> ('z gisdb_scheme, unit) go) \<Rightarrow> int \<Rightarrow> int \<Rightarrow> ('z gisdb_scheme, unit) go" where
  "layer_loop 0 cfg endpoint upsert pageSize offset = go_fail (Err ''http request failed'')"
| "layer_loop (Suc n) cfg endpoint upsert pageSize offset =
     go_bind (FetchLayerPage cfg endpoint ''1=1'' offset pageSize) (\<lambda>body.
     go_bind (parse_page body) (\<lambda>page.
     go_bind (upsert (ap_features page)) (\<lambda>_.
     if page_continues pageSize page then layer_loop n cfg endpoint upsert pageSize (offset + pageSize) else go_ret ())))"

definition syncLayer ::
  "gis_config \<Rightarrow> string \<Rightarrow> (arcgis_feature list \<Rightarrow> ('z gisdb_scheme, unit) go) \<Rightarrow> int \<Rightarrow> ('z gisdb_scheme, unit) go" where
  "syncLayer cfg endpoint upsert pageSize = (\<lambda>s.
     layer_loop (Suc (length (http_replies s))) cfg endpoint upsert (if pageSize \<le> 0 then client_page_size cfg else pageSize) 0 s)"

definition FDOTCountiesURL :: string where
  "FDOTCountiesURL = ''https://gis.fdot.gov/arcgis/rest/services/Admin_Boundaries/FeatureServer/6/query''"

definition FDOTCitiesURL :: string where
  "FDOTCitiesURL = ''https://gis.fdot.gov/arcgis/rest/services/Admin_Boundaries/FeatureServer/7/query''"

definition FDOTZipsURL :: string where
  "FDOTZipsURL = ''https://gis.fdot.gov/arcgis/rest/services/Admin_Boundaries/FeatureServer/8/query''"

record postgis =
  pgis_marshal :: "json \<Rightarrow> string"
  pgis_geom_ok :: "json \<Rightarrow> bool"
  pgis_overlap :: "json \<Rightarrow> json \<Rightarrow> real option"

abbreviation run_counties where
  "run_counties g cfg gen fp \<equiv> syncLayer cfg FDOTCountiesURL (syncCounties (pgis_marshal g) (pgis_geom_ok g) cfg gen fp) 0"

abbreviation run_cities where
  "run_cities g cfg gen fp \<equiv> syncLayer cfg FDOTCitiesURL (syncCities (pgis_marshal g) (pgis_geom_ok g) cfg gen fp) 0"

abbreviation run_zips where
  "run_zips g cfg gen fp \<equiv> syncLayer cfg FDOTZipsURL (syncZips (pgis_marshal g) (pgis_geom_ok g) cfg gen fp) (zipSyncPageSize cfg)"

definition runFullBoundarySync :: "postgis \<Rightarrow> gis_config \<Rightarrow> string \<Rightarrow> ('z gisdb_scheme, unit) go" where
  "runFullBoundarySync g cfg fp = go_bind (BumpSourceGeneration FDOTAdminBoundariesKey) (\<lambda>gen.
     go_bind (run_counties g cfg gen fp) (\<lambda>_.
     go_bind (run_cities g cfg gen fp) (\<lambda>_.
     go_bind (BackfillCityCounties (pgis_overlap g) gen) (\<lambda>_.
     go_bind (run_zips g cfg gen fp) (\<lambda>_.
     go_bind (DeleteStaleCities FDOTAdminBoundariesKey gen) (\<lambda>_.
     go_bind (DeleteStaleCounties FDOTAdminBoundariesKey gen) (\<lambda>_.
     DeleteStaleZips FDOTAdminBoundariesKey gen)))))))"

definition RunAnnualRefresh :: "postgis \<Rightarrow> gis_config \<Rightarrow> ('z gisdb_scheme, unit) go" where
  "RunAnnualRefresh g cfg = runFullBoundarySync g cfg ''fdot_annual_sync''"

definition ensureCityCountiesBackfilled :: "postgis \<Rightarrow> ('z gisdb_scheme, unit) go" where
  "ensureCityCountiesBackfilled g = go_bind CountCitiesMissingCounty (\<lambda>missing.
     if missing = 0 then go_ret () else go_bind (BackfillMissingCityCounties (pgis_overlap g)) (\<lambda>_. go_ret ()))"

definition Boundaries_RunGapFill :: "postgis \<Rightarrow> gis_config \<Rightarrow> ('z gisdb_scheme, unit) go" where
  "Boundaries_RunGapFill g cfg = go_bind CountBoundaries (\<lambda>(cities, counties, zips).
     if cities > 0 \<and> counties > 0 \<and> zips > 0 then ensureCityCountiesBackfilled g
     else go_bind (BumpSourceGeneration FDOTAdminBoundariesKey) (\<lambda>gen.
       go_bind (if counties = 0
         then go_bind (run_counties g cfg gen ''fdot_gap_fill'') (\<lambda>_. DeleteStaleCounties FDOTAdminBoundariesKey gen)
         else go_ret ()) (\<lambda>_.
       go_bind (if cities = 0
         then go_bind (run_cities g cfg gen ''fdot_gap_fill'') (\<lambda>_.
              go_bind (BackfillCityCounties (pgis_overlap g) gen) (\<lambda>_. DeleteStaleCities FDOTAdminBoundariesKey gen))
         else go_ret ()) (\<lambda>_.
       go_bind (if zips = 0
         then go_bind (run_zips g cfg gen ''fdot_gap_fill'') (\<lambda>_. DeleteStaleZips FDOTAdminBoundariesKey gen)
         else go_ret ()) (\<lambda>_.
       ensureCityCountiesBackfilled g)))))"

definition BoundariesAllEmpty :: "nat \<Rightarrow> nat \<Rightarrow> nat \<Rightarrow> bool" where
  "BoundariesAllEmpty cities counties zips \<longleftrightarrow> cities = 0 \<and> counties = 0 \<and> zips = 0"

definition RunBootstrapBoundaries :: "postgis \<Rightarrow> gis_config \<Rightarrow> ('z gisdb_scheme, unit) go" where
  "RunBootstrapBoundaries g cfg = go_bind CountBoundaries (\<lambda>(cities, counties, zips).
     if BoundariesAllEmpty cities counties zips then runFullBoundarySync g cfg ''fdot_initial_sync''
     else Boundaries_RunGapFill g cfg)"

definition RunZipSync :: "postgis \<Rightarrow> gis_config \<Rightarrow> ('z gisdb_scheme, unit) go" where
  "RunZipSync g cfg = go_bind (BumpSourceGeneration FDOTAdminBoundariesKey) (\<lambda>gen.
     go_bind (run_zips g cfg gen ''fdot_zip_sync'') (\<lambda>_. DeleteStaleZips FDOTAdminBoundariesKey gen))"

section \<open>Bootstrap\<close>

record layer_counts =
  lct_parcels :: nat
  lct_cities :: nat
  lct_counties :: nat
  lct_zips :: nat

definition AllEmpty :: "layer_counts \<Rightarrow> bool" where
  "AllEmpty c \<longleftrightarrow> lct_parcels c = 0 \<and> lct_cities c = 0 \<and> lct_counties c = 0 \<and> lct_zips c = 0"

definition NeedsBootstrap :: "layer_counts \<Rightarrow> bool" where
  "NeedsBootstrap c \<longleftrightarrow> lct_parcels c = 0 \<or> lct_cities c = 0 \<or> lct_counties c = 0 \<or> lct_zips c = 0"

definition LoadLayerCounts :: "('z gisdb_scheme, layer_counts) go" where
  "LoadLayerCounts = go_bind (CountParcels []) (\<lambda>parcels. go_bind CountBoundaries (\<lambda>(cities, counties, zips).
     go_ret \<lparr>lct_parcels = parcels, lct_cities = cities, lct_counties = counties, lct_zips = zips\<rparr>))"

record bootstrap_action =
  act_name :: string
  act_type :: string

definition PlanBootstrapActions :: "layer_counts \<Rightarrow> bootstrap_action list" where
  "PlanBootstrapActions c =
     (if AllEmpty c then [\<lparr>act_name = ''gis-initial-sync'', act_type = ''gis.initial_sync''\<rparr>]
      else (if lct_parcels c = 0 then [\<lparr>act_name = ''gis-parcel-gap-fill'', act_type = ''gis.monthly_parcel_refresh''\<rparr>] else []) @
           (if lct_zips c = 0 then [\<lparr>act_name = ''gis-zip-gap-fill'', act_type = ''gis.zip_sync''\<rparr>] else []) @
           (if lct_cities c = 0 \<or> lct_counties c = 0
            then [\<lparr>act_name = ''gis-boundary-gap-fill'', act_type = ''gis.annual_boundaries_refresh''\<rparr>] else []))"

definition Coordinator_RunGapFill :: "postgis \<Rightarrow> gis_service \<Rightarrow> ('z gisdb_scheme, unit) go" where
  "Coordinator_RunGapFill g svc = go_bind LoadLayerCounts (\<lambda>counts.
     go_bind (if lct_parcels counts = 0 then parcel_kickoff svc [] else go_ret ()) (\<lambda>_. Boundaries_RunGapFill g (gs_cfg svc)))"

definition InitialSync_Run :: "postgis \<Rightarrow> gis_service \<Rightarrow> ('z gisdb_scheme, unit) go" where
  "InitialSync_Run g svc = go_bind LoadLayerCounts (\<lambda>before.
     go_bind (RunBootstrapBoundaries g (gs_cfg svc)) (\<lambda>_.
     go_bind (Parcels_RunInitialSync svc) (\<lambda>_.
     go_bind LoadLayerCounts (\<lambda>after. go_ret ()))))"

text \<open>The handlers of the GIS jobs.\<close>

definition gis_job :: "postgis \<Rightarrow> gis_service \<Rightarrow> string \<Rightarrow> json option \<Rightarrow> ('z gisdb_scheme, unit) go" where
  "gis_job g svc ty args =
     (if ty = ''gis.monthly_parcel_refresh'' then RunMonthlyRefresh svc
      else if ty = ''gis.annual_boundaries_refresh'' then RunAnnualRefresh g (gs_cfg svc)
      else if ty = ''gis.initial_sync'' then InitialSync_Run g svc
      else if ty = ''gis.zip_sync'' then RunZipSync g (gs_cfg svc)
      else case UnmarshalParcelSyncPageArgs args of
        None \<Rightarrow> go_fail (Err ''json'')
      | Some a \<Rightarrow> SyncPage (pgis_marshal g) (pgis_geom_ok g) svc a)"

section \<open>Lemmas: batches\<close>

lemma chunks_of_short: "0 < n \<Longrightarrow> xs \<noteq> [] \<Longrightarrow> length xs \<le> n \<Longrightarrow> chunks_of n xs = [xs]"
  by (simp add: chunks_of.simps [of n xs])

lemma map_filter_Cons [simp]:
  "List.map_filter f (x # xs) = (case f x of None \<Rightarrow> List.map_filter f xs | Some y \<Rightarrow> y # List.map_filter f xs)"
  by (simp add: List.map_filter_def split: option.split)

lemma map_filter_Nil [simp]: "List.map_filter f [] = []"
  by (simp add: List.map_filter_def)

text \<open>The accumulating loop writes the rows in windows of the chunk size.\<close>

lemma batch_loop_chunks:
  assumes "0 < chunk" "length batch < chunk"
  shows "batch_loop extract bulk chunk batch fs = go_each bulk (chunks_of chunk (batch @ List.map_filter extract fs))"
  using assms(2)
proof (induction fs arbitrary: batch)
  case Nil
  show ?case
  proof (cases "batch = []")
    case False
    with Nil assms(1) have "chunks_of chunk batch = [batch]"
      by (intro chunks_of_short) auto
    moreover have "go_bind (bulk batch) (\<lambda>_. go_ret ()) = bulk batch"
      by (rule ext) (auto simp: go_simps split: prod.splits sum.splits)
    ultimately show ?thesis using False by simp
  qed simp
next
  case (Cons f fs)
  show ?case
  proof (cases "extract f")
    case None
    with Cons show ?thesis by simp
  next
    case (Some row)
    show ?thesis
    proof (cases "Suc (length batch) \<ge> chunk")
      case True
      with Cons.prems have c: "chunk = Suc (length batch)" by simp
      then have "chunks_of chunk (batch @ row # List.map_filter extract fs) =
          (batch @ [row]) # chunks_of chunk (List.map_filter extract fs)"
        by (simp add: chunks_of.simps [of "Suc (length batch)" "batch @ row # _"])
      with True Some Cons.IH [of "[]"] assms(1) show ?thesis by simp
    next
      case False
      with Some Cons.IH [of "batch @ [row]"] show ?thesis by simp
    qed
  qed
qed

lemma go_bind_ret_id: "go_bind m go_ret = m"
  by (rule ext) (auto simp: go_simps split: prod.splits sum.splits)

lemma upsert_chunk_pos [simp]: "0 < upsert_chunk_size cfg"
  by (simp add: upsert_chunk_size_def)

lemma client_page_pos [simp]: "0 < client_page_size cfg"
  by (simp add: client_page_size_def)

lemma go_each_cong: "(\<And>x. x \<in> set xs \<Longrightarrow> f x = g x) \<Longrightarrow> go_each f xs = go_each g xs"
  by (induction xs) simp_all

lemma bulk_parcels_chunk:
  assumes "b \<noteq> []" "length b \<le> nat (upsert_chunk_size cfg)"
  shows "BulkUpsertParcels geom_ok b (upsert_chunk_size cfg) = upsertParcelBatch geom_ok b"
proof -
  have "chunks_of (nat (upsert_chunk_size cfg)) b = [b]"
    using assms by (intro chunks_of_short) auto
  then show ?thesis
    using upsert_chunk_pos [of cfg] by (simp add: BulkUpsertParcels_def go_bind_ret_id del: upsert_chunk_pos)
qed

lemma page_loop_chunks:
  "batch_loop extract (\<lambda>batch. BulkUpsertParcels geom_ok batch (upsert_chunk_size cfg)) (nat (upsert_chunk_size cfg)) [] fs =
     go_each (upsertParcelBatch geom_ok) (chunks_of (nat (upsert_chunk_size cfg)) (List.map_filter extract fs))"
proof -
  have "go_each (\<lambda>batch. BulkUpsertParcels geom_ok batch (upsert_chunk_size cfg))
      (chunks_of (nat (upsert_chunk_size cfg)) (List.map_filter extract fs)) =
    go_each (upsertParcelBatch geom_ok) (chunks_of (nat (upsert_chunk_size cfg)) (List.map_filter extract fs))"
    by (rule go_each_cong) (auto dest: chunks_of_bounds intro: bulk_parcels_chunk)
  then show ?thesis
    by (subst batch_loop_chunks) auto
qed

section \<open>Lemmas: the mirror of a source\<close>

definition unsynced :: "parcel_row \<Rightarrow> parcel_row" where
  "unsynced r = r\<lparr>gp_synced := 0\<rparr>"

text \<open>What the table holds of a source: the row of an id, without the time of its writing.\<close>

definition parcel_view :: "string \<Rightarrow> parcel_row list \<Rightarrow> string \<Rightarrow> parcel_row option" where
  "parcel_view src t i = map_option unsynced (find (\<lambda>r. gp_source r = src \<and> gp_id r = i) t)"

definition latest :: "parcel_row list \<Rightarrow> string \<Rightarrow> parcel_row option" where
  "latest rows i = find (\<lambda>r. gp_id r = i) (rev rows)"

definition in_scope :: "string \<Rightarrow> parcel_row \<Rightarrow> bool" where
  "in_scope county r \<longleftrightarrow> county = [] \<or> gp_county r = county"

definition parcel_mirror :: "string \<Rightarrow> string \<Rightarrow> int \<Rightarrow> parcel_row list \<Rightarrow> parcel_row list \<Rightarrow> parcel_row list \<Rightarrow> bool" where
  "parcel_mirror src county gen t0 served t \<longleftrightarrow>
     filter (\<lambda>r. gp_source r \<noteq> src) t = filter (\<lambda>r. gp_source r \<noteq> src) t0 \<and>
     (\<forall>i. parcel_view src t i = (case latest served i of Some r \<Rightarrow> Some r | None \<Rightarrow> parcel_view src t0 i)) \<and>
     (\<forall>x \<in> set t. gp_source x = src \<longrightarrow> unsynced x \<in> set served \<or> gp_generation x < gen \<and> in_scope county x)"

lemma unsynced_simps [simp]:
  "gp_id (unsynced r) = gp_id r" "gp_source (unsynced r) = gp_source r" "gp_generation (unsynced r) = gp_generation r"
  "unsynced (r\<lparr>gp_synced := t\<rparr>) = unsynced r"
  by (simp_all add: unsynced_def)

lemma parcel_key_eq [simp]: "parcel_key x = parcel_key y \<longleftrightarrow> gp_id x = gp_id y \<and> gp_source x = gp_source y" "parcel_key x \<noteq> None"
  by (simp_all add: parcel_key_def)

lemma find_map_hit:
  "find P (map f t) = map_option f (find (\<lambda>x. P (f x)) t)"
  by (induction t) simp_all

lemma find_app: "find P (xs @ ys) = (case find P xs of None \<Rightarrow> find P ys | Some x \<Rightarrow> Some x)"
  by (induction xs) simp_all

lemma find_in_set: "find P xs = Some x \<Longrightarrow> x \<in> set xs"
  by (induction xs) (auto split: if_splits)

lemma find_cong_eq: "(\<And>x. x \<in> set t \<Longrightarrow> P x = Q x) \<Longrightarrow> find P t = find Q t"
  by (induction t) auto

lemma view_upsert_one:
  assumes "gp_source r = src"
  shows "parcel_view src (upsert_one parcel_key r t) i = (if i = gp_id r then Some (unsynced r) else parcel_view src t i)"
proof (cases "parcel_key r \<in> parcel_key ` set t")
  case True
  let ?f = "\<lambda>x. if parcel_key x = parcel_key r then r else x"
  let ?P = "\<lambda>x. gp_source x = src \<and> gp_id x = i"
  have up: "upsert_one parcel_key r t = map ?f t"
    using True by (simp add: upsert_one_def)
  show ?thesis
  proof (cases "i = gp_id r")
    case eq: True
    obtain y where y: "y \<in> set t" "parcel_key y = parcel_key r"
      using True by (metis imageE)
    then have "?P (?f y)" using assms eq by simp
    then have "find (\<lambda>x. ?P (?f x)) t \<noteq> None"
      using y(1) by (subst find_None_iff) blast
    then obtain x where x: "find (\<lambda>x. ?P (?f x)) t = Some x" by blast
    then have "?P (?f x)" by (auto simp: find_Some_iff)
    then have "?f x = r"
      using eq assms by (auto split: if_splits)
    with up x eq show ?thesis by (simp add: parcel_view_def find_map_hit)
  next
    case False
    have "find (\<lambda>x. ?P (?f x)) t = find ?P t"
      using False assms by (intro find_cong_eq) auto
    moreover have "map_option ?f (find ?P t) = find ?P t"
    proof (cases "find ?P t")
      case (Some x)
      then have "?P x" by (auto simp: find_Some_iff)
      with False have "gp_id x \<noteq> gp_id r" by auto
      then show ?thesis by (simp only: Some) simp
    qed simp
    ultimately show ?thesis using up False by (simp add: parcel_view_def find_map_hit)
  qed
next
  case False
  then have up: "upsert_one parcel_key r t = t @ [r]"
    by (simp add: upsert_one_def)
  show ?thesis
  proof (cases "i = gp_id r")
    case True
    then have "find (\<lambda>x. gp_source x = src \<and> gp_id x = i) t = None"
      using False assms by (subst find_None_iff) (metis imageI parcel_key_eq(1))
    with True up assms show ?thesis by (simp add: parcel_view_def find_app)
  next
    case ne: False
    then show ?thesis by (simp add: up parcel_view_def find_app split: option.split)
  qed
qed

lemma latest_snoc: "latest (rows @ [r]) i = (if i = gp_id r then Some r else latest rows i)"
  by (auto simp: latest_def)

lemma parcel_mirror_upsert_one:
  assumes inv: "parcel_mirror src county gen t0 served t" and r: "gp_source r = src"
  shows "parcel_mirror src county gen t0 (served @ [unsynced r]) (upsert_one parcel_key r t)"
  unfolding parcel_mirror_def
proof (intro conjI)
  have "filter (\<lambda>x. gp_source x \<noteq> src) (map (\<lambda>x. if parcel_key x = parcel_key r then r else x) t) = filter (\<lambda>x. gp_source x \<noteq> src) t"
    using r by (induction t) auto
  with r have "filter (\<lambda>x. gp_source x \<noteq> src) (upsert_one parcel_key r t) = filter (\<lambda>x. gp_source x \<noteq> src) t"
    by (simp add: upsert_one_def)
  with inv show "filter (\<lambda>x. gp_source x \<noteq> src) (upsert_one parcel_key r t) = filter (\<lambda>x. gp_source x \<noteq> src) t0"
    by (simp add: parcel_mirror_def)
  show "\<forall>i. parcel_view src (upsert_one parcel_key r t) i =
      (case latest (served @ [unsynced r]) i of Some r \<Rightarrow> Some r | None \<Rightarrow> parcel_view src t0 i)"
    using inv by (simp add: view_upsert_one [OF r] latest_snoc parcel_mirror_def)
  have "x = r \<or> x \<in> set t" if "x \<in> set (upsert_one parcel_key r t)" for x
    using that by (auto simp: upsert_one_def split: if_splits)
  with inv show "\<forall>x \<in> set (upsert_one parcel_key r t). gp_source x = src \<longrightarrow>
      unsynced x \<in> set (served @ [unsynced r]) \<or> gp_generation x < gen \<and> in_scope county x"
    by (auto simp: parcel_mirror_def)
qed

lemma parcel_mirror_upsert_rows:
  assumes "parcel_mirror src county gen t0 served t" and "\<forall>r \<in> set rows. gp_source r = src"
  shows "\<exists>t'. upsert_rows parcel_key (\<lambda>_. True) rows t = Some t' \<and> parcel_mirror src county gen t0 (served @ map unsynced rows) t'"
  using assms
proof (induction rows arbitrary: served t)
  case (Cons r rows)
  then have "parcel_mirror src county gen t0 (served @ [unsynced r]) (upsert_one parcel_key r t)"
    by (intro parcel_mirror_upsert_one) auto
  from Cons.IH [OF this] Cons.prems(2) show ?case by simp
qed simp

text \<open>The last page: the rows of older generations go, the served ones stay.\<close>

lemma parcel_mirror_final:
  assumes inv: "parcel_mirror src county gen t0 served t"
    and served: "\<forall>r \<in> set served. gp_source r = src \<and> gp_generation r = gen"
  defines "t' \<equiv> filter (\<lambda>r. \<not> (gp_source r = src \<and> gp_generation r < gen \<and> (county = [] \<or> gp_county r = county))) t"
  shows "parcel_view src t' = latest served"
    and "filter (\<lambda>r. gp_source r \<noteq> src) t' = filter (\<lambda>r. gp_source r \<noteq> src) t0"
proof -
  let ?old = "\<lambda>r. gp_source r = src \<and> gp_generation r < gen \<and> (county = [] \<or> gp_county r = county)"
  have "filter (\<lambda>r. gp_source r \<noteq> src) t' = filter (\<lambda>r. gp_source r \<noteq> src) t"
    unfolding t'_def filter_filter by (rule filter_cong) auto
  with inv show "filter (\<lambda>r. gp_source r \<noteq> src) t' = filter (\<lambda>r. gp_source r \<noteq> src) t0"
    by (simp add: parcel_mirror_def)
  show "parcel_view src t' = latest served"
  proof
    fix i
    let ?P = "\<lambda>r. gp_source r = src \<and> gp_id r = i"
    have split: "\<not> ?old x \<Longrightarrow> unsynced x \<in> set served" if "x \<in> set t" "?P x" for x
      using inv that by (auto simp: parcel_mirror_def in_scope_def)
    show "parcel_view src t' i = latest served i"
    proof (cases "latest served i")
      case None
      then have "unsynced x \<notin> set served" if "gp_id x = i" for x
        using that by (fastforce simp: latest_def find_None_iff)
      then have "find ?P t' = None"
        using split by (auto simp: t'_def find_None_iff)
      with None show ?thesis by (simp add: parcel_view_def)
    next
      case (Some r)
      have "parcel_view src t i = Some r"
        using inv Some by (simp add: parcel_mirror_def)
      then obtain x where x: "find ?P t = Some x" "unsynced x = r"
        by (auto simp: parcel_view_def)
      have "r \<in> set served"
        using Some find_in_set [of _ "rev served"] by (auto simp: latest_def)
      with served x(2) have "\<not> ?old x" by auto
      with x(1) have "find ?P t' = Some x"
        unfolding t'_def by (induction t) (auto split: if_splits)
      with x(2) Some show ?thesis by (simp add: parcel_view_def)
    qed
  qed
qed

section \<open>Lemmas: a page job\<close>

text \<open>A reply the client takes for the page.\<close>

definition answers :: "http_reply \<Rightarrow> arcgis_page \<Rightarrow> bool" where
  "answers reply page \<longleftrightarrow> (\<exists>resp. reply = HttpReply resp \<and> http_status resp < 400 \<and>
     arcGISResponseError (http_body resp) = None \<and> ParseFeatureCollection (http_body resp) = Some page)"

text \<open>What a run of page jobs has done so far: the rows that came, the requests that went out, the replies that are left.\<close>

definition run_inv ::
  "string \<Rightarrow> string \<Rightarrow> int \<Rightarrow> parcel_row list \<Rightarrow> parcel_row list \<Rightarrow> string list \<Rightarrow> http_reply list \<Rightarrow> 'z gisdb_scheme \<Rightarrow> bool" where
  "run_inv src county gen t0 served urls replies s \<longleftrightarrow> no_faults s \<and> map snd (http_log s) = urls \<and> http_replies s = replies \<and>
     parcel_mirror src county gen t0 served (gis_parcels s)"

lemma run_inv_now: "run_inv src county gen t0 served urls replies s \<Longrightarrow>
    \<exists>t s'. go_now s = (Inr t, s') \<and> run_inv src county gen t0 served urls replies s'"
  by (auto simp: go_now_def run_inv_def no_faults_def split: list.split)

lemma run_inv_get:
  assumes "run_inv src county gen t0 served urls (reply # replies) s" "answers reply page"
  shows "\<exists>body s'. arcgis_get url s = (Inr body, s') \<and> ParseFeatureCollection body = Some page \<and>
    run_inv src county gen t0 served (urls @ [url]) replies s'"
proof -
  obtain resp where resp: "reply = HttpReply resp" "http_status resp < 400"
    "arcGISResponseError (http_body resp) = None" "ParseFeatureCollection (http_body resp) = Some page"
    using assms(2) by (auto simp: answers_def)
  obtain t s1 where s1: "go_now s = (Inr t, s1)" "run_inv src county gen t0 served urls (reply # replies) s1"
    using run_inv_now [OF assms(1)] by blast
  then show ?thesis
    using resp by (simp add: arcgis_get_def http_get_def Let_def go_simps run_inv_def no_faults_def)
qed

lemma distinct_parcel_keys:
  assumes "distinct (map gp_id rows)"
  shows "distinct (List.map_filter parcel_key (map (\<lambda>r. r\<lparr>gp_synced := t\<rparr>) rows))"
proof -
  have "List.map_filter parcel_key (map (\<lambda>r. r\<lparr>gp_synced := t\<rparr>) rows) = map (\<lambda>r. (gp_id r, gp_source r)) rows"
    by (induction rows) (simp_all add: parcel_key_def)
  moreover have "distinct (map (\<lambda>r. (gp_id r, gp_source r)) rows)"
    using assms by (auto simp: distinct_map inj_on_def)
  ultimately show ?thesis by simp
qed

definition batch_fits :: "(json \<Rightarrow> bool) \<Rightarrow> string \<Rightarrow> parcel_row list \<Rightarrow> bool" where
  "batch_fits geom_ok src rows \<longleftrightarrow> distinct (map gp_id rows) \<and>
     (\<forall>r \<in> set rows. parcel_fits geom_ok r \<and> gp_source r = src \<and> gp_synced r = 0)"

lemma unsynced_id: "\<forall>r \<in> set rows. gp_synced r = 0 \<Longrightarrow> map unsynced rows = rows"
  by (rule map_idI) (simp add: unsynced_def)

lemma run_inv_batch:
  assumes "run_inv src county gen t0 served urls replies s" "batch_fits geom_ok src rows" "params_ok 20 rows"
  shows "\<exists>s'. upsertParcelBatch geom_ok rows s = (Inr (), s') \<and> run_inv src county gen t0 (served @ rows) urls replies s'"
proof -
  obtain t s1 where s1: "go_now s = (Inr t, s1)" "run_inv src county gen t0 served urls replies s1"
    using run_inv_now [OF assms(1)] by blast
  let ?rows = "map (\<lambda>r. r\<lparr>gp_synced := t\<rparr>) rows"
  have m: "parcel_mirror src county gen t0 served (gis_parcels s1)" and nf: "no_faults s1"
    using s1(2) by (simp_all add: run_inv_def)
  have src: "\<forall>r \<in> set ?rows. gp_source r = src" and fits: "list_all (parcel_fits geom_ok) rows" and z: "\<forall>r \<in> set rows. gp_synced r = 0"
    using assms(2) by (auto simp: batch_fits_def list_all_iff)
  obtain p where p: "upsert_rows parcel_key (\<lambda>_. True) ?rows (gis_parcels s1) = Some p"
    "parcel_mirror src county gen t0 (served @ map unsynced ?rows) p"
    using parcel_mirror_upsert_rows [OF m src] by blast
  have "map unsynced ?rows = rows"
    using unsynced_id [OF z] by (simp add: comp_def)
  with p assms(2,3) fits s1 distinct_parcel_keys [of rows t] nf show ?thesis
    by (simp add: upsertParcelBatch_def go_simps sql_no_faults Let_def upsert_stmt_def batch_fits_def run_inv_def no_faults_def)
      (metis list.set_sel(2) tl_Nil)
qed

lemma run_inv_batches:
  assumes "run_inv src county gen t0 served urls replies s" "\<forall>b \<in> set bs. batch_fits geom_ok src b \<and> params_ok 20 b"
  shows "\<exists>s'. go_each (upsertParcelBatch geom_ok) bs s = (Inr (), s') \<and> run_inv src county gen t0 (served @ concat bs) urls replies s'"
  using assms
proof (induction bs arbitrary: served s)
  case (Cons b bs)
  have "batch_fits geom_ok src b" "params_ok 20 b" using Cons.prems(2) by simp_all
  from run_inv_batch [OF Cons.prems(1) this]
  obtain s1 where s1: "upsertParcelBatch geom_ok b s = (Inr (), s1)" "run_inv src county gen t0 (served @ b) urls replies s1" by blast
  from Cons.IH [OF this(2)] Cons.prems(2) s1(1) show ?case by (simp add: go_simps)
qed (simp add: go_simps)

lemma chunks_fit:
  assumes "batch_fits geom_ok src rows" "20 * n \<le> 65535" "0 < n" "b \<in> set (chunks_of n rows)"
  shows "batch_fits geom_ok src b \<and> params_ok 20 b"
proof -
  have c: "concat (chunks_of n rows) = rows" by (rule concat_chunks_of [OF assms(3)])
  then have sub: "set b \<subseteq> set rows" using assms(4) by (metis Union_upper image_eqI set_concat)
  obtain xs ys where "chunks_of n rows = xs @ b # ys"
    using assms(4) by (metis in_set_conv_decomp)
  with c have "rows = concat xs @ b @ concat ys" by (metis concat.simps(2) concat_append)
  then have "distinct (map gp_id b)" using assms(1) by (auto simp: batch_fits_def)
  moreover have "20 * length b \<le> 65535" using chunks_of_bounds [OF assms(4)] assms(2) by linarith
  ultimately show ?thesis using sub assms(1) by (auto simp: batch_fits_def params_ok_def)
qed

definition page_rows :: "(json \<Rightarrow> string) \<Rightarrow> parcel_args \<Rightarrow> arcgis_page \<Rightarrow> parcel_row list" where
  "page_rows marshal args page = List.map_filter (feature_row marshal args) (ap_features page)"

definition stale_scope :: "parcel_args \<Rightarrow> string" where
  "stale_scope args = (if IsStatewideCadastralSource (pg_source args) then [] else pg_county args)"

definition page_url :: "gis_config \<Rightarrow> parcel_args \<Rightarrow> int \<Rightarrow> string" where
  "page_url cfg args offset = parcel_page_url cfg (page_spec args) (page_bbox args) offset (gcf_page_size cfg)"

lemma offset_fields:
  "pg_source (args\<lparr>pg_offset := n\<rparr>) = pg_source args" "pg_county (args\<lparr>pg_offset := n\<rparr>) = pg_county args"
  "pg_url (args\<lparr>pg_offset := n\<rparr>) = pg_url args" "pg_mode (args\<lparr>pg_offset := n\<rparr>) = pg_mode args"
  "pg_where (args\<lparr>pg_offset := n\<rparr>) = pg_where args" "pg_format (args\<lparr>pg_offset := n\<rparr>) = pg_format args"
  "pg_bbox (args\<lparr>pg_offset := n\<rparr>) = pg_bbox args" "pg_id_fields (args\<lparr>pg_offset := n\<rparr>) = pg_id_fields args"
  "pg_generation (args\<lparr>pg_offset := n\<rparr>) = pg_generation args"
  by (cases args, simp)+

lemma offset_irrelevant [simp]:
  shows "feature_row marshal (args\<lparr>pg_offset := n\<rparr>) = feature_row marshal args"
    and "page_spec (args\<lparr>pg_offset := n\<rparr>) = page_spec args"
    and "page_bbox (args\<lparr>pg_offset := n\<rparr>) = page_bbox args"
    and "stale_scope (args\<lparr>pg_offset := n\<rparr>) = stale_scope args"
proof -
  show "feature_row marshal (args\<lparr>pg_offset := n\<rparr>) = feature_row marshal args"
    by (rule ext) (simp only: feature_row_def offset_fields)
  show "page_spec (args\<lparr>pg_offset := n\<rparr>) = page_spec args"
    by (simp only: page_spec_def offset_fields)
  show "page_bbox (args\<lparr>pg_offset := n\<rparr>) = page_bbox args"
    by (simp only: page_bbox_def offset_fields)
  show "stale_scope (args\<lparr>pg_offset := n\<rparr>) = stale_scope args"
    by (simp only: stale_scope_def offset_fields)
qed

lemma offset_irrelevant_page [simp]:
  "page_rows marshal (args\<lparr>pg_offset := n\<rparr>) = page_rows marshal args" "page_url cfg (args\<lparr>pg_offset := n\<rparr>) = page_url cfg args"
  by (simp_all add: fun_eq_iff page_rows_def page_url_def)

lemma ExtractParcelRow_fields:
  assumes "ExtractParcelRow marshal feat src county gen fp ids = Inr r"
  shows "gp_source r = src \<and> gp_county r = county \<and> gp_generation r = gen \<and> gp_synced r = 0"
proof -
  have "af_geometry feat \<noteq> JNull" "parcel_id_of marshal (af_properties feat) ids \<noteq> []"
    using assms by (auto simp: ExtractParcelRow_def Let_def split: if_splits)
  with assms show ?thesis
    by (simp add: ExtractParcelRow_def Let_def) (metis parcel_row.select_convs)
qed

lemma feature_row_fields:
  assumes "feature_row marshal args f = Some r"
  shows "gp_source r = pg_source args \<and> gp_generation r = pg_generation args \<and> gp_synced r = 0"
proof -
  obtain county where "ExtractParcelRow marshal f (pg_source args) county (pg_generation args) (Some []) (pg_id_fields args) = Inr r"
    using assms unfolding feature_row_def Let_def by (elim bind_eq_Some_conv [THEN iffD1, elim_format] exE conjE) (simp split: sum.splits)
  then show ?thesis using ExtractParcelRow_fields by blast
qed

lemma map_filter_append: "List.map_filter f (xs @ ys) = List.map_filter f xs @ List.map_filter f ys"
  by (simp add: List.map_filter_def)

lemma page_rows_fields:
  "r \<in> set (page_rows marshal args page) \<Longrightarrow> gp_source r = pg_source args \<and> gp_generation r = pg_generation args \<and> gp_synced r = 0"
  by (auto simp: page_rows_def List.map_filter_def dest: feature_row_fields)

definition page_fits :: "(json \<Rightarrow> string) \<Rightarrow> (json \<Rightarrow> bool) \<Rightarrow> parcel_args \<Rightarrow> arcgis_page \<Rightarrow> bool" where
  "page_fits marshal geom_ok args page \<longleftrightarrow>
     distinct (map gp_id (page_rows marshal args page)) \<and> list_all (parcel_fits geom_ok) (page_rows marshal args page)"

lemma page_fits_offset [simp]: "page_fits marshal geom_ok (args\<lparr>pg_offset := n\<rparr>) = page_fits marshal geom_ok args"
  by (simp add: fun_eq_iff page_fits_def)

lemma page_batch_fits: "page_fits marshal geom_ok args page \<Longrightarrow> batch_fits geom_ok (pg_source args) (page_rows marshal args page)"
  by (auto simp: page_fits_def batch_fits_def list_all_iff dest: page_rows_fields)

lemma run_inv_rows:
  assumes "run_inv (pg_source args) county gen t0 served urls replies s" "page_fits marshal geom_ok args page" "20 * upsert_chunk_size cfg \<le> 65535"
  shows "\<exists>s'. batch_loop (feature_row marshal args) (\<lambda>batch. BulkUpsertParcels geom_ok batch (upsert_chunk_size cfg))
      (nat (upsert_chunk_size cfg)) [] (ap_features page) s = (Inr (), s') \<and>
    run_inv (pg_source args) county gen t0 (served @ page_rows marshal args page) urls replies s'"
proof -
  let ?bs = "chunks_of (nat (upsert_chunk_size cfg)) (page_rows marshal args page)"
  have n: "0 < nat (upsert_chunk_size cfg)" "20 * nat (upsert_chunk_size cfg) \<le> 65535"
    using assms(3) upsert_chunk_pos [of cfg] by (simp_all del: upsert_chunk_pos)
  have "\<forall>b \<in> set ?bs. batch_fits geom_ok (pg_source args) b \<and> params_ok 20 b"
    using chunks_fit [OF page_batch_fits [OF assms(2)] n(2,1)] by blast
  from run_inv_batches [OF assms(1) this] show ?thesis
    by (simp add: page_loop_chunks page_rows_def concat_chunks_of [OF n(1)])
qed

text \<open>What is left when the last page has been processed.\<close>

definition mirrored :: "string \<Rightarrow> parcel_row list \<Rightarrow> parcel_row list \<Rightarrow> string list \<Rightarrow> 'z gisdb_scheme \<Rightarrow> bool" where
  "mirrored src t0 served urls s \<longleftrightarrow> map snd (http_log s) = urls \<and> parcel_view src (gis_parcels s) = latest served \<and>
     filter (\<lambda>r. gp_source r \<noteq> src) (gis_parcels s) = filter (\<lambda>r. gp_source r \<noteq> src) t0"

lemma finalize_run:
  assumes "run_inv (pg_source args) (stale_scope args) (pg_generation args) t0 served urls replies s"
    and "\<forall>r \<in> set served. gp_source r = pg_source args \<and> gp_generation r = pg_generation args"
  shows "\<exists>s'. finalize_parcels args s = (Inr (), s') \<and> mirrored (pg_source args) t0 served urls s'"
proof -
  have nf: "no_faults s" and m: "parcel_mirror (pg_source args) (stale_scope args) (pg_generation args) t0 served (gis_parcels s)"
    using assms(1) by (simp_all add: run_inv_def)
  let ?t = "filter (\<lambda>r. \<not> (gp_source r = pg_source args \<and> gp_generation r < pg_generation args \<and>
      (stale_scope args = [] \<or> gp_county r = stale_scope args))) (gis_parcels s)"
  let ?s1 = "s\<lparr>faults := tl (faults s), gis_parcels := ?t\<rparr>"
  have del: "\<exists>n. DeleteStaleParcels (pg_source args) (stale_scope args) (pg_generation args) s = (Inr n, ?s1)"
    using nf by (simp add: DeleteStaleParcels_def sql_no_faults Let_def)
  have fin: "parcel_view (pg_source args) ?t = latest served"
    "filter (\<lambda>r. gp_source r \<noteq> pg_source args) ?t = filter (\<lambda>r. gp_source r \<noteq> pg_source args) t0"
    using parcel_mirror_final [OF m assms(2)] by simp_all
  have frame: "gis_parcels (snd (TouchParcelSourceSynced k s2)) = gis_parcels s2 \<and> http_log (snd (TouchParcelSourceSynced k s2)) = http_log s2"
    for k and s2 :: "'a gisdb_scheme"
    by (auto simp: TouchParcelSourceSynced_def go_simps go_now_def sql_def Let_def split: list.splits bool.splits)
  from del obtain n where "DeleteStaleParcels (pg_source args) (stale_scope args) (pg_generation args) s = (Inr n, ?s1)" by blast
  then have "finalize_parcels args s = (Inr (), snd (TouchParcelSourceSynced (pg_source args) ?s1))"
    by (simp add: finalize_parcels_def stale_scope_def go_simps)
  moreover have "mirrored (pg_source args) t0 served urls (snd (TouchParcelSourceSynced (pg_source args) ?s1))"
    using fin frame [of "pg_source args" ?s1] assms(1) by (simp add: mirrored_def run_inv_def)
  ultimately show ?thesis by blast
qed

lemma process_page_run:
  assumes "run_inv (pg_source args) (stale_scope args) (pg_generation args) t0 served urls (reply # replies) s" "answers reply page"
    and "page_fits marshal geom_ok args page" "20 * upsert_chunk_size cfg \<le> 65535" "pg_offset args = 0 \<longrightarrow> ap_features page \<noteq> []"
    and "\<forall>r \<in> set served. gp_source r = pg_source args \<and> gp_generation r = pg_generation args"
  shows "\<exists>s'. (if page_continues (client_page_size cfg) page
     then process_parcel_page marshal geom_ok cfg args s = (Inr (Some (args\<lparr>pg_offset := pg_offset args + client_page_size cfg\<rparr>)), s') \<and>
       run_inv (pg_source args) (stale_scope args) (pg_generation args) t0 (served @ page_rows marshal args page)
         (urls @ [page_url cfg args (pg_offset args)]) replies s'
     else process_parcel_page marshal geom_ok cfg args s = (Inr None, s') \<and>
       mirrored (pg_source args) t0 (served @ page_rows marshal args page) (urls @ [page_url cfg args (pg_offset args)]) s')"
proof -
  obtain body s1 where s1: "arcgis_get (page_url cfg args (pg_offset args)) s = (Inr body, s1)" "ParseFeatureCollection body = Some page"
    "run_inv (pg_source args) (stale_scope args) (pg_generation args) t0 served (urls @ [page_url cfg args (pg_offset args)]) replies s1"
    using run_inv_get [OF assms(1,2)] by blast
  obtain s2 where s2: "batch_loop (feature_row marshal args) (\<lambda>batch. BulkUpsertParcels geom_ok batch (upsert_chunk_size cfg))
      (nat (upsert_chunk_size cfg)) [] (ap_features page) s1 = (Inr (), s2)"
    "run_inv (pg_source args) (stale_scope args) (pg_generation args) t0 (served @ page_rows marshal args page)
      (urls @ [page_url cfg args (pg_offset args)]) replies s2"
    using run_inv_rows [OF s1(3) assms(3,4)] by blast
  have run: "process_parcel_page marshal geom_ok cfg args s =
      (if page_continues (client_page_size cfg) page then go_ret (Some (args\<lparr>pg_offset := pg_offset args + client_page_size cfg\<rparr>))
       else go_bind (finalize_parcels args) (\<lambda>_. go_ret None)) s2"
    using s1(1,2) s2(1) assms(5)
    by (auto simp: process_parcel_page_def FetchParcelPage_def page_url_def parse_page_def go_simps)
  have "\<forall>r \<in> set (served @ page_rows marshal args page). gp_source r = pg_source args \<and> gp_generation r = pg_generation args"
    using assms(6) by (auto dest: page_rows_fields)
  then obtain s3 where s3: "finalize_parcels args s2 = (Inr (), s3)"
    "mirrored (pg_source args) t0 (served @ page_rows marshal args page) (urls @ [page_url cfg args (pg_offset args)]) s3"
    using finalize_run [OF s2(2)] by blast
  show ?thesis
  proof (cases "page_continues (client_page_size cfg) page")
    case True
    with run s2(2) show ?thesis by (intro exI [of _ s2]) (simp add: go_simps)
  next
    case False
    with run s3 show ?thesis by (intro exI [of _ s3]) (simp add: go_simps)
  qed
qed

text \<open>A run of the chain over the pages the server gives.\<close>

definition page_series :: "int \<Rightarrow> arcgis_page list \<Rightarrow> bool" where
  "page_series n pgs \<longleftrightarrow> pgs \<noteq> [] \<and> list_all (page_continues n) (butlast pgs) \<and> \<not> page_continues n (last pgs)"

lemma page_series_Cons:
  "page_series n (p # ps) \<longleftrightarrow> (if ps = [] then \<not> page_continues n p else page_continues n p \<and> page_series n ps)"
  by (auto simp: page_series_def)

lemma parcel_chain_run:
  assumes "run_inv (pg_source args) (stale_scope args) (pg_generation args) t0 served urls (replies @ rest) s"
    and "list_all2 answers replies pgs" "page_series (client_page_size cfg) pgs"
    and "list_all (page_fits marshal geom_ok args) pgs" "20 * upsert_chunk_size cfg \<le> 65535"
    and "0 \<le> pg_offset args" "pg_offset args = 0 \<longrightarrow> ap_features (hd pgs) \<noteq> []"
    and "\<forall>r \<in> set served. gp_source r = pg_source args \<and> gp_generation r = pg_generation args"
  shows "\<exists>s'. parcel_chain marshal geom_ok cfg args s = Some (Inr (), s') \<and>
    mirrored (pg_source args) t0 (served @ concat (map (page_rows marshal args) pgs))
      (urls @ map (\<lambda>k. page_url cfg args (pg_offset args + int k * client_page_size cfg)) [0..<length pgs]) s'"
  using assms
proof (induction pgs arbitrary: replies served urls args s)
  case Nil
  then show ?case by (simp add: page_series_def)
next
  case (Cons page pgs)
  obtain reply replies' where rep: "replies = reply # replies'" "answers reply page" "list_all2 answers replies' pgs"
    using Cons.prems(2) by (auto simp: list_all2_Cons2)
  have fits: "page_fits marshal geom_ok args page" using Cons.prems(4) by simp
  have first: "pg_offset args = 0 \<longrightarrow> ap_features page \<noteq> []" using Cons.prems(7) by simp
  have inv: "run_inv (pg_source args) (stale_scope args) (pg_generation args) t0 served urls (reply # replies' @ rest) s"
    using Cons.prems(1) rep(1) by simp
  let ?next = "args\<lparr>pg_offset := pg_offset args + client_page_size cfg\<rparr>"
  note step = process_page_run [OF inv rep(2) fits Cons.prems(5) first Cons.prems(8)]
  show ?case
  proof (cases "pgs = []")
    case True
    with Cons.prems(3) have stop: "\<not> page_continues (client_page_size cfg) page" by (simp add: page_series_Cons)
    with step obtain s' where "process_parcel_page marshal geom_ok cfg args s = (Inr None, s')"
      "mirrored (pg_source args) t0 (served @ page_rows marshal args page) (urls @ [page_url cfg args (pg_offset args)]) s'"
      by (simp only: if_False) blast
    with True show ?thesis by (simp add: parcel_chain.simps)
  next
    case False
    with Cons.prems(3) have go_on: "page_continues (client_page_size cfg) page" "page_series (client_page_size cfg) pgs"
      by (simp_all add: page_series_Cons)
    with step obtain s1 where s1: "process_parcel_page marshal geom_ok cfg args s = (Inr (Some ?next), s1)"
      "run_inv (pg_source args) (stale_scope args) (pg_generation args) t0 (served @ page_rows marshal args page)
         (urls @ [page_url cfg args (pg_offset args)]) (replies' @ rest) s1"
      by (simp only: if_True) blast
    have served: "\<forall>r \<in> set (served @ page_rows marshal args page). gp_source r = pg_source ?next \<and> gp_generation r = pg_generation ?next"
      using Cons.prems(8) by (auto simp: offset_fields dest: page_rows_fields)
    have fits': "list_all (page_fits marshal geom_ok ?next) pgs"
      using Cons.prems(4) by simp
    have off: "0 \<le> pg_offset ?next" "pg_offset ?next = 0 \<longrightarrow> ap_features (hd pgs) \<noteq> []"
      using Cons.prems(6) client_page_pos [of cfg] by (simp_all del: client_page_pos)
    have "\<exists>s'. parcel_chain marshal geom_ok cfg ?next s1 = Some (Inr (), s') \<and>
        mirrored (pg_source ?next) t0 ((served @ page_rows marshal args page) @ concat (map (page_rows marshal ?next) pgs))
          ((urls @ [page_url cfg args (pg_offset args)]) @
             map (\<lambda>k. page_url cfg ?next (pg_offset ?next + int k * client_page_size cfg)) [0..<length pgs]) s'"
      by (rule Cons.IH [OF _ rep(3) go_on(2) fits' Cons.prems(5) off served]) (use s1(2) in \<open>simp add: offset_fields\<close>)
    moreover have "map (\<lambda>k. page_url cfg args (pg_offset args + int k * client_page_size cfg)) [0..<length (page # pgs)] =
        page_url cfg args (pg_offset args) #
          map (\<lambda>k. page_url cfg ?next (pg_offset ?next + int k * client_page_size cfg)) [0..<length pgs]"
      by (simp add: upt_conv_Cons map_Suc_upt [symmetric] del: upt_Suc) (simp add: algebra_simps)
    ultimately show ?thesis
      using s1(1) by (simp add: parcel_chain.simps [of marshal geom_ok cfg args s])
  qed
qed

lemma parcel_chain_result:
  assumes "no_faults s" and "http_replies s = replies @ rest" and "list_all2 answers replies pgs"
    and "page_series (client_page_size cfg) pgs" and "list_all (page_fits marshal geom_ok args) pgs" and "upsert_chunk_size cfg \<le> 3276"
    and "pg_offset args = 0" and "ap_features (hd pgs) \<noteq> []"
    and "\<forall>r \<in> set (gis_parcels s). gp_source r = pg_source args \<longrightarrow> gp_generation r < pg_generation args \<and> in_scope (stale_scope args) r"
  obtains s' where "parcel_chain marshal geom_ok cfg args s = Some (Inr (), s')"
    "mirrored (pg_source args) (gis_parcels s) (concat (map (page_rows marshal args) pgs))
      (map snd (http_log s) @ map (\<lambda>k. page_url cfg args (int k * client_page_size cfg)) [0..<length pgs]) s'"
proof -
  have "run_inv (pg_source args) (stale_scope args) (pg_generation args) (gis_parcels s) [] (map snd (http_log s)) (replies @ rest) s"
    using assms(1,2,9) by (simp add: run_inv_def parcel_mirror_def latest_def)
  from parcel_chain_run [OF this assms(3,4,5)] assms(6-8)
  have "\<exists>s'. parcel_chain marshal geom_ok cfg args s = Some (Inr (), s') \<and>
      mirrored (pg_source args) (gis_parcels s) (concat (map (page_rows marshal args) pgs))
        (map snd (http_log s) @ map (\<lambda>k. page_url cfg args (int k * client_page_size cfg)) [0..<length pgs]) s'"
    by simp
  then show thesis using that by blast
qed

section \<open>Properties: the mirror of a parcel source\<close>

text \<open>(C14) A run of page jobs makes the table the image of what the server gave. Whatever the time it takes and whatever the rest of the
  database holds: if no statement fails, every reply is a page, the rows of a page fit the table and have different
  parcel ids, and all rows of the source are of older generations, then the chain ends without an error; the table holds of
  the source exactly the rows of the pages, the last one for an id that came more than once; the rows of all other sources
  are as they were; and the requests that went out asked for the offsets 0, n, 2n, and so on, in this order, for a page size of n.\<close>

theorem parcel_chain_mirrors_pages:
  assumes "no_faults s" and "http_replies s = replies @ rest" and "list_all2 answers replies pgs"
    and "page_series (client_page_size cfg) pgs" and "list_all (page_fits marshal geom_ok args) pgs" and "upsert_chunk_size cfg \<le> 3276"
    and "pg_offset args = 0" and "ap_features (hd pgs) \<noteq> []"
    and "\<forall>r \<in> set (gis_parcels s). gp_source r = pg_source args \<longrightarrow> gp_generation r < pg_generation args \<and> in_scope (stale_scope args) r"
  shows "\<exists>s'. parcel_chain marshal geom_ok cfg args s = Some (Inr (), s') \<and>
    parcel_view (pg_source args) (gis_parcels s') = latest (concat (map (page_rows marshal args) pgs)) \<and>
    filter (\<lambda>r. gp_source r \<noteq> pg_source args) (gis_parcels s') = filter (\<lambda>r. gp_source r \<noteq> pg_source args) (gis_parcels s) \<and>
    map snd (http_log s') = map snd (http_log s) @ map (\<lambda>k. page_url cfg args (int k * client_page_size cfg)) [0..<length pgs]"
  by (rule parcel_chain_result [OF assms]) (auto simp: mirrored_def)

text \<open>(C39) A server whose own limit is below the page size loses parcels. The layer has no more features than a page, the server
  gives the first m of them and reports that it held some back; the next request asks for the features behind the whole
  page size and gets none, and the run ends as a success. The features that were held back are then missing from the table,
  also when their parcels were there before the run.\<close>

theorem truncated_page_loses_parcels:
  assumes "no_faults s" and "http_replies s = [reply1, reply2]"
    and "answers reply1 \<lparr>ap_features = take m feats, ap_exceeded = True\<rparr>" and "answers reply2 \<lparr>ap_features = [], ap_exceeded = False\<rparr>"
    and "0 < m" "m < length feats" "int (length feats) \<le> client_page_size cfg" and "upsert_chunk_size cfg \<le> 3276" and "pg_offset args = 0"
    and "page_fits marshal geom_ok args \<lparr>ap_features = feats, ap_exceeded = False\<rparr>"
    and "\<forall>r \<in> set (gis_parcels s). gp_source r = pg_source args \<longrightarrow> gp_generation r < pg_generation args \<and> in_scope (stale_scope args) r"
    and "f \<in> set (drop m feats)" "feature_row marshal args f = Some row"
  shows "\<exists>s'. parcel_chain marshal geom_ok cfg args s = Some (Inr (), s') \<and> parcel_view (pg_source args) (gis_parcels s') (gp_id row) = None \<and>
    map snd (http_log s') = map snd (http_log s) @ [page_url cfg args 0, page_url cfg args (client_page_size cfg)]"
proof -
  let ?p1 = "\<lparr>ap_features = take m feats, ap_exceeded = True\<rparr>" and ?p2 = "\<lparr>ap_features = [], ap_exceeded = False\<rparr>"
  have rows: "page_rows marshal args \<lparr>ap_features = feats, ap_exceeded = False\<rparr> =
      page_rows marshal args ?p1 @ List.map_filter (feature_row marshal args) (drop m feats)"
    by (simp add: page_rows_def) (metis append_take_drop_id map_filter_append)
  then have fits: "page_fits marshal geom_ok args ?p1"
    using assms(10) by (simp add: page_fits_def)
  have held: "row \<in> set (List.map_filter (feature_row marshal args) (drop m feats))"
    using assms(12,13) by (force simp: List.map_filter_def)
  have "gp_id row \<notin> gp_id ` set (page_rows marshal args ?p1)"
    using assms(10) held unfolding page_fits_def rows by auto
  then have "latest (page_rows marshal args ?p1) (gp_id row) = None"
    unfolding latest_def find_None_iff set_rev by (metis imageI)
  moreover have "\<not> page_continues (client_page_size cfg) ?p2" "page_continues (client_page_size cfg) ?p1"
    by (simp_all add: page_continues_def not_le)
  moreover obtain s' where "parcel_chain marshal geom_ok cfg args s = Some (Inr (), s')"
    "mirrored (pg_source args) (gis_parcels s) (concat (map (page_rows marshal args) [?p1, ?p2]))
      (map snd (http_log s) @ map (\<lambda>k. page_url cfg args (int k * client_page_size cfg)) [0..<length [?p1, ?p2]]) s'"
    by (rule parcel_chain_result [of s "[reply1, reply2]" "[]" "[?p1, ?p2]" cfg marshal geom_ok args])
      (use assms fits calculation in \<open>auto simp: page_series_def page_fits_def page_rows_def\<close>)
  ultimately show ?thesis
    by (auto simp: mirrored_def page_rows_def)
qed

section \<open>Kickoffs\<close>

definition page_job :: "string \<Rightarrow> job_row \<Rightarrow> bool" where
  "page_job k j \<longleftrightarrow> payload_type_text (job_payload j) = Some (Some ''gis.parcel_sync_page'') \<and> payload_source_key (job_payload j) = Some k"

definition source_jobs :: "string \<Rightarrow> 'z gisdb_scheme \<Rightarrow> job_row list" where
  "source_jobs k s = filter (page_job k) (jobs s)"

definition stored_generation :: "string \<Rightarrow> source_state list \<Rightarrow> int" where
  "stored_generation k t = (case find (\<lambda>r. ss_key r = k) t of None \<Rightarrow> 0 | Some r \<Rightarrow> ss_generation r)"

definition generation_of :: "string \<Rightarrow> 'z gisdb_scheme \<Rightarrow> int" where
  "generation_of k s = stored_generation k (source_states s)"

text \<open>The arguments a page job carries are the ones that were enqueued.\<close>

definition sendable_page :: "parcel_args \<Rightarrow> bool" where
  "sendable_page a \<longleftrightarrow> int64_ok (pg_offset a) \<and> int64_ok (pg_generation a)"

lemma dec_string_list_map [simp]: "dec_string_list (map JStr xs) = Some xs"
  by (induction xs) (simp_all add: dec_string_def)

lemma dec_enc_parcel_args:
  assumes "sendable_page a"
  shows "UnmarshalParcelSyncPageArgs (Some (enc_parcel_args a)) = Some a"
proof -
  have ok: "int64_ok (pg_offset a)" "int64_ok (pg_generation a)"
    using assms by (simp_all add: sendable_page_def)
  have lower: "\<And>c cs. to_lower (c # cs) = lower_char c # to_lower cs" by (simp add: to_lower_def)
  let ?k = "case enc_parcel_args a of JObj kvs \<Rightarrow> kvs | _ \<Rightarrow> []"
  have strs: "decode_field dec_string [] ''source_key'' ?k = Some (pg_source a)" "decode_field dec_string [] ''county'' ?k = Some (pg_county a)"
    "decode_field dec_string [] ''query_url'' ?k = Some (pg_url a)" "decode_field dec_string [] ''sync_mode'' ?k = Some (pg_mode a)"
    "decode_field dec_string [] ''arcgis_where'' ?k = Some (pg_where a)" "decode_field dec_string [] ''response_format'' ?k = Some (pg_format a)"
    by (simp_all add: enc_parcel_args_def decode_field_append decode_field_single decode_field_enc equal_fold_def lower lower_char_def dec_string_def)
  have nums: "decode_field dec_real 0 ''bbox_west'' ?k = Some (bb_west (pg_bbox a))" "decode_field dec_real 0 ''bbox_south'' ?k = Some (bb_south (pg_bbox a))"
    "decode_field dec_real 0 ''bbox_east'' ?k = Some (bb_east (pg_bbox a))" "decode_field dec_real 0 ''bbox_north'' ?k = Some (bb_north (pg_bbox a))"
    by (simp_all add: enc_parcel_args_def decode_field_append decode_field_single decode_field_enc equal_fold_def lower lower_char_def dec_real_def)
  have rest: "decode_field dec_strings [] ''parcel_id_fields'' ?k = Some (pg_id_fields a)"
    "decode_field dec_int 0 ''offset'' ?k = Some (pg_offset a)" "decode_field dec_int 0 ''generation'' ?k = Some (pg_generation a)"
    using ok by (simp_all add: enc_parcel_args_def decode_field_append decode_field_single decode_field_enc equal_fold_def lower lower_char_def
        dec_strings_def dec_int_def int64_of_real_of_int)
  have "struct_fields (RawJson (enc_parcel_args a)) = Some ?k" by (simp add: struct_fields_def enc_parcel_args_def)
  with strs nums rest show ?thesis by (simp add: UnmarshalParcelSyncPageArgs_def Let_def)
qed

interpretation parcel_codec: job_codec enc_parcel_args UnmarshalParcelSyncPageArgs sendable_page
  by unfold_locales (rule dec_enc_parcel_args)

lemma parcel_payload:
  "payload_type_text (MarshalPayload ty (Some (enc_parcel_args a))) = Some (Some ty)"
  "payload_source_key (MarshalPayload ty (Some (enc_parcel_args a))) = Some (pg_source a)"
proof -
  obtain kvs where kvs: "enc_parcel_args a = JObj ((''source_key'', JStr (pg_source a)) # kvs)" "''source_key'' \<notin> fst ` set kvs"
    by (auto simp: enc_parcel_args_def enc_str_omit_def)
  have "map_of (foldl (\<lambda>m (k, v). AList.update k v m) m kvs) ''source_key'' = map_of m ''source_key''" for m
    using kvs(2) by (induction kvs arbitrary: m) (auto simp: update_conv')
  then have "map_of (gomap_of ((''source_key'', JStr (pg_source a)) # kvs)) ''source_key'' = Some (JStr (pg_source a))"
    by (simp add: gomap_of_def)
  then show "payload_source_key (MarshalPayload ty (Some (enc_parcel_args a))) = Some (pg_source a)"
    by (simp add: payload_source_key_def MarshalPayload_def enc_opt_def kvs(1) gomap_of_def)
  show "payload_type_text (MarshalPayload ty (Some (enc_parcel_args a))) = Some (Some ty)"
    by (simp add: payload_type_text_def MarshalPayload_def enc_opt_def gomap_of_def)
qed

text \<open>What a step leaves alone of one source: its page jobs and its generation.\<close>

definition source_view :: "string \<Rightarrow> 'z gisdb_scheme \<Rightarrow> job_row list \<times> int" where
  "source_view k s = (source_jobs k s, generation_of k s)"

abbreviation keeps_source :: "string \<Rightarrow> job_row list \<times> int \<Rightarrow> ('z gisdb_scheme, 'a) go \<Rightarrow> bool" where
  "keeps_source k v \<equiv> keeps (\<lambda>s. source_view k s = v)"

lemma source_view_frame [simp]:
  "source_view k (s\<lparr>faults := bs\<rparr>) = source_view k s" "source_view k (s\<lparr>clock := t, delays := ds\<rparr>) = source_view k s"
  "source_view k (s\<lparr>notified := ns\<rparr>) = source_view k s" "source_view k (s\<lparr>parcel_sources := ps\<rparr>) = source_view k s"
  by (simp_all add: source_view_def source_jobs_def generation_of_def)

lemma keeps_source_now [intro!]: "keeps_source k v go_now"
  by (rule keeps_now) simp

lemma go_now_gis:
  fixes s :: "'z gisdb_scheme"
  obtains t s1 where "go_now s = (Inr t, s1)" "source_states s1 = source_states s" "jobs s1 = jobs s"
proof -
  have "\<exists>t s1. go_now s = (Inr t, s1) \<and> source_states s1 = source_states s \<and> jobs s1 = jobs s"
    by (simp add: go_now_def split: list.split)
  then show thesis using that by blast
qed

lemma keeps_source_active [intro!]: "keeps_source k v (HasActiveParcelSyncJob q key)"
  unfolding HasActiveParcelSyncJob_def
  by (intro keeps_if keeps_bind keeps_ret keeps_source_now keeps_sql) (auto split: if_splits)

lemma generation_bumped:
  "stored_generation k (map (\<lambda>x. if ss_key x = key then x\<lparr>ss_generation := ss_generation x + 1, ss_changed := c\<rparr> else x) t) =
   stored_generation k t + (if k = key \<and> key \<in> ss_key ` set t then 1 else 0)"
  by (induction t) (auto simp: stored_generation_def)

lemma generation_added: "ss_generation r = 0 \<Longrightarrow> stored_generation k (t @ [r]) = stored_generation k t"
  by (auto simp: stored_generation_def find_app split: option.split)

lemma generation_found: "find (\<lambda>r. ss_key r = k) t = Some r \<Longrightarrow> stored_generation k t = ss_generation r"
  by (simp add: stored_generation_def)

lemma find_key_mem: "find (\<lambda>r. ss_key r = k) t = Some r \<Longrightarrow> k \<in> ss_key ` set t"
  by (induction t) (auto split: if_splits)

lemma keeps_source_ensure [intro!]: "keeps_source k v (EnsureSourceState key)"
  unfolding EnsureSourceState_def
  by (rule keeps_sql)
    (auto simp: source_view_def source_jobs_def generation_of_def generation_added split: if_splits)

lemma keeps_source_bump: "key \<noteq> k \<Longrightarrow> keeps_source k v (BumpSourceGeneration key)"
  unfolding BumpSourceGeneration_def
  by (intro keeps_bind keeps_source_now keeps_sql)
    (auto simp: source_view_def source_jobs_def generation_of_def generation_bumped split: if_splits option.splits)

lemma bump_run:
  assumes "BumpSourceGeneration key s = (Inr gen, s')"
  shows "gen = generation_of key s + 1 \<and> generation_of key s' = gen \<and> jobs s' = jobs s"
proof -
  obtain t s1 where s1: "go_now s = (Inr t, s1)" "source_states s1 = source_states s" "jobs s1 = jobs s"
    by (rule go_now_gis)
  with assms have "sql (\<lambda>s. case find (\<lambda>r. ss_key r = key) (source_states s) of
       None \<Rightarrow> None
     | Some r \<Rightarrow> (if int64_ok (ss_generation r + 1)
         then Some (ss_generation r + 1, s\<lparr>source_states := map (\<lambda>x. if ss_key x = key
                then x\<lparr>ss_generation := ss_generation x + 1, ss_changed := Some t\<rparr> else x) (source_states s)\<rparr>)
         else None)) s1 = (Inr gen, s')"
    by (simp add: BumpSourceGeneration_def go_simps)
  from sql_Inr [OF this] show ?thesis
    using s1(2,3) by (auto simp: generation_of_def generation_bumped generation_found find_key_mem split: option.splits if_splits)
qed

lemma enqueue_page_run:
  assumes "enqueuePage svc a s = (r, s')"
  shows "source_states s' = source_states s \<and> (if isl r then jobs s' = jobs s
    else \<exists>j. jobs s' = jobs s @ [j] \<and> job_queue j = gis_queue_name (gs_cfg svc) \<and> reserved_at j = None \<and>
      job_payload j = MarshalPayload ''gis.parcel_sync_page'' (Some (enc_parcel_args a)))"
proof -
  obtain t s1 where s1: "go_now s = (Inr t, s1)" "source_states s1 = source_states s" "jobs s1 = jobs s"
    by (rule go_now_gis)
  let ?p = "MarshalPayload ''gis.parcel_sync_page'' (Some (enc_parcel_args a))"
  obtain i s2 where s2: "insert_job (gis_queue_name (gs_cfg svc)) ?p (unix t) (unix t) s1 = (i, s2)" by fastforce
  have ins: "source_states s2 = source_states s1 \<and> (if isl i then jobs s2 = jobs s1
      else \<exists>j. jobs s2 = jobs s1 @ [j] \<and> job_queue j = gis_queue_name (gs_cfg svc) \<and> reserved_at j = None \<and> job_payload j = ?p)"
    using s2 by (auto simp: insert_job_def sql_def Let_def split: list.splits bool.splits if_splits)
  have note_jobs: "jobs (snd (pg_notify q s3)) = jobs s3 \<and> source_states (snd (pg_notify q s3)) = source_states s3" for q and s3 :: "'a gisdb_scheme"
    by (auto simp: pg_notify_def sql_def Let_def split: list.splits bool.splits)
  show ?thesis
    using assms s1 s2 ins note_jobs [of _ s2]
    by (cases i) (auto simp: enqueuePage_def Enqueue_def go_simps Let_def)
qed

lemma keeps_source_enqueue: "pg_source a \<noteq> k \<Longrightarrow> keeps_source k v (enqueuePage svc a)"
proof (rule keepsI)
  fix s :: "'a gisdb_scheme" assume k: "pg_source a \<noteq> k" and v: "source_view k s = v"
  obtain r s' where e: "enqueuePage svc a s = (r, s')" by fastforce
  from enqueue_page_run [OF e] k v e show "source_view k (snd (enqueuePage svc a s)) = v"
    by (auto simp: source_view_def source_jobs_def generation_of_def page_job_def parcel_payload split: if_splits)
qed

lemma keeps_source_targets:
  "k \<notin> pz_key ` set specs \<Longrightarrow> keeps_source k v (kickoff_targets svc seen specs :: ('z gisdb_scheme, unit) go)"
proof (induction specs arbitrary: seen)
  case (Cons spec specs)
  then have k: "pz_key spec \<noteq> k" "k \<notin> pz_key ` set specs" by auto
  have "keeps_source k v (kickoff_targets svc seen' specs :: ('z gisdb_scheme, unit) go)" for seen' by (rule Cons.IH [OF k(2)])
  with k(1) show ?case
    by (auto simp: argsFromSpec_def intro!: keeps_bind keeps_if keeps_case_option keeps_source_bump keeps_source_enqueue)
qed auto

lemma active_run:
  assumes "HasActiveParcelSyncJob q k s = (Inr True, s')"
  shows "\<exists>j \<in> set (jobs s). job_queue j = q \<and> page_job k j"
proof -
  obtain t s1 where s1: "go_now s = (Inr t, s1)" "jobs s1 = jobs s"
    by (rule go_now_gis)
  have "q \<noteq> []" "k \<noteq> []" using assms by (auto simp: HasActiveParcelSyncJob_def go_simps)
  with assms s1(1) have "sql (\<lambda>s. if \<exists>j \<in> set (jobs s). job_queue j = q \<and> payload_type_text (job_payload j) = None then None
        else Some (\<exists>j \<in> set (jobs s). parcel_job_active t q k j, s)) s1 = (Inr True, s')"
    by (simp add: HasActiveParcelSyncJob_def go_simps)
  from sql_Inr [OF this] s1(2) show ?thesis
    by (auto simp: parcel_job_active_def page_job_def split: if_splits)
qed

text \<open>What a successful kickoff does for one of its sources.\<close>

definition source_started :: "gis_service \<Rightarrow> parcel_source \<Rightarrow> 'z gisdb_scheme \<Rightarrow> 'z gisdb_scheme \<Rightarrow> bool" where
  "source_started svc spec s s' \<longleftrightarrow>
     generation_of (pz_key spec) s' = generation_of (pz_key spec) s + 1 \<and>
     (\<exists>j. source_jobs (pz_key spec) s' = source_jobs (pz_key spec) s @ [j] \<and> job_queue j = gis_queue_name (gs_cfg svc) \<and>
        UnmarshalPayload (job_payload j) = Some \<lparr>payload_type = ''gis.parcel_sync_page'',
          payload_args = Some (enc_parcel_args (argsFromSpec spec (generation_of (pz_key spec) s') 0))\<rparr>)"

definition source_busy :: "gis_service \<Rightarrow> parcel_source \<Rightarrow> 'z gisdb_scheme \<Rightarrow> bool" where
  "source_busy svc spec s \<longleftrightarrow> (\<exists>j \<in> set (source_jobs (pz_key spec) s). job_queue j = gis_queue_name (gs_cfg svc))"

lemma source_view_eq: "source_view k s = source_view k s' \<Longrightarrow> source_jobs k s = source_jobs k s' \<and> generation_of k s = generation_of k s'"
  by (simp add: source_view_def)

lemma kickoff_head:
  assumes "kickoff_targets svc seen (spec # specs) s = (Inr (), s')" "seen (pz_key spec) = None" "pz_key spec \<notin> pz_key ` set specs"
  shows "source_busy svc spec s \<and> source_view (pz_key spec) s' = source_view (pz_key spec) s \<or> source_started svc spec s s'"
proof -
  let ?k = "pz_key spec" and ?q = "gis_queue_name (gs_cfg svc)"
  have tail: "source_view ?k s3 = source_view ?k s2" if "kickoff_targets svc seen' specs s2 = (r, s3)" for seen' r s2 s3
    using keepsD [OF keeps_source_targets [OF assms(3)], of s2 "source_view ?k s2"] that by (metis snd_conv)
  obtain b s1 where b: "HasActiveParcelSyncJob ?q ?k s = (Inr b, s1)"
    using assms(1) by (cases "HasActiveParcelSyncJob ?q ?k s") (auto simp: go_simps split: sum.splits)
  have v1: "source_view ?k s1 = source_view ?k s"
    using keepsD [OF keeps_source_active, of ?k s "source_view ?k s" ?q ?k] b by simp
  show ?thesis
  proof (cases b)
    case True
    then have "source_busy svc spec s"
      using active_run [of ?q ?k s s1] b by (auto simp: source_busy_def source_jobs_def)
    moreover have "kickoff_targets svc seen specs s1 = (Inr (), s')"
      using assms(1) b True by (simp add: go_simps)
    ultimately show ?thesis using tail v1 by metis
  next
    case False
    with assms(1) b obtain s2 where s2: "EnsureSourceState ?k s1 = (Inr (), s2)"
      by (cases "EnsureSourceState ?k s1") (auto simp: go_simps split: sum.splits)
    have v2: "source_view ?k s2 = source_view ?k s"
      using keepsD [OF keeps_source_ensure, of ?k s1 "source_view ?k s" ?k] v1 s2 by simp
    with assms(1,2) b False s2 obtain gen s3 where s3: "BumpSourceGeneration ?k s2 = (Inr gen, s3)"
      by (cases "BumpSourceGeneration ?k s2") (auto simp: go_simps split: sum.splits)
    then obtain s4 where s4: "enqueuePage svc (argsFromSpec spec gen 0) s3 = (Inr (), s4)"
        "kickoff_targets svc (seen(?k \<mapsto> gen)) specs s4 = (Inr (), s')"
      using assms(1,2) b False s2
      by (cases "enqueuePage svc (argsFromSpec spec gen 0) s3") (auto simp: go_simps split: sum.splits)
    note gen = bump_run [OF s3] and j = enqueue_page_run [OF s4(1)] and v = tail [OF s4(2)]
    from v2 gen j v show ?thesis
      by (auto simp: source_started_def source_view_def source_jobs_def generation_of_def page_job_def parcel_payload argsFromSpec_def
          UnmarshalPayload_Marshal)
  qed
qed

lemma kickoff_skip_head:
  assumes "kickoff_targets svc seen (sp # specs) s = (Inr (), s')" "pz_key sp \<noteq> k" "\<forall>x \<in> set (sp # specs). seen (pz_key x) = None"
    "distinct (map pz_key (sp # specs))"
  shows "\<exists>seen1 s1. kickoff_targets svc seen1 specs s1 = (Inr (), s') \<and> (\<forall>x \<in> set specs. seen1 (pz_key x) = None) \<and>
    source_view k s1 = source_view k s"
proof -
  let ?v = "source_view k s" and ?q = "gis_queue_name (gs_cfg svc)"
  obtain b s1 where b: "HasActiveParcelSyncJob ?q (pz_key sp) s = (Inr b, s1)"
    using assms(1) by (cases "HasActiveParcelSyncJob ?q (pz_key sp) s") (auto simp: go_simps split: sum.splits)
  have v1: "source_view k s1 = ?v"
    using keepsD [OF keeps_source_active, of k s ?v ?q "pz_key sp"] b by simp
  show ?thesis
  proof (cases b)
    case True
    then have "kickoff_targets svc seen specs s1 = (Inr (), s')"
      using assms(1) b by (simp add: go_simps)
    with assms(3) v1 show ?thesis by auto
  next
    case False
    with assms(1) b obtain s2 where s2: "EnsureSourceState (pz_key sp) s1 = (Inr (), s2)"
      by (cases "EnsureSourceState (pz_key sp) s1") (auto simp: go_simps split: sum.splits)
    have v2: "source_view k s2 = ?v"
      using keepsD [OF keeps_source_ensure, of k s1 ?v "pz_key sp"] v1 s2 by simp
    with assms(1,3) b False s2 obtain gen s3 where s3: "BumpSourceGeneration (pz_key sp) s2 = (Inr gen, s3)"
      by (cases "BumpSourceGeneration (pz_key sp) s2") (auto simp: go_simps split: sum.splits)
    have v3: "source_view k s3 = ?v"
      using keepsD [OF keeps_source_bump [OF assms(2)], of s2 ?v] v2 s3 by simp
    obtain s4 where s4: "enqueuePage svc (argsFromSpec sp gen 0) s3 = (Inr (), s4)"
        "kickoff_targets svc (seen(pz_key sp \<mapsto> gen)) specs s4 = (Inr (), s')"
      using assms(1,3) b False s2 s3
      by (cases "enqueuePage svc (argsFromSpec sp gen 0) s3") (auto simp: go_simps split: sum.splits)
    have "pg_source (argsFromSpec sp gen 0) \<noteq> k" using assms(2) by (simp add: argsFromSpec_def)
    then have "source_view k s4 = ?v"
      using keepsD [OF keeps_source_enqueue, of "argsFromSpec sp gen 0" k s3 ?v svc] v3 s4 by simp
    moreover have "pz_key x \<noteq> pz_key sp" if "x \<in> set specs" for x
      using assms(4) imageI [OF that, of pz_key] by auto
    then have "\<forall>x \<in> set specs. (seen(pz_key sp \<mapsto> gen)) (pz_key x) = None"
      using assms(3) by simp
    ultimately show ?thesis using s4(2) by blast
  qed
qed

lemma kickoff_each:
  assumes "kickoff_targets svc seen specs s = (Inr (), s')" "\<forall>sp \<in> set specs. seen (pz_key sp) = None" "distinct (map pz_key specs)" "spec \<in> set specs"
  shows "source_busy svc spec s \<and> source_view (pz_key spec) s' = source_view (pz_key spec) s \<or> source_started svc spec s s'"
  using assms
proof (induction specs arbitrary: seen s)
  case (Cons sp specs)
  show ?case
  proof (cases "spec = sp")
    case True
    with Cons.prems kickoff_head [of svc seen sp specs s s'] show ?thesis by auto
  next
    case False
    let ?k = "pz_key spec"
    have ne: "pz_key sp \<noteq> ?k" using False Cons.prems(3,4) by auto
    obtain seen1 s1 where t: "kickoff_targets svc seen1 specs s1 = (Inr (), s')" "\<forall>x \<in> set specs. seen1 (pz_key x) = None"
      and v: "source_view ?k s1 = source_view ?k s"
      using kickoff_skip_head [OF Cons.prems(1) ne Cons.prems(2,3)] by blast
    from Cons.IH [OF t _ _] Cons.prems(3,4) False
    have "source_busy svc spec s1 \<and> source_view ?k s' = source_view ?k s1 \<or> source_started svc spec s1 s'" by simp
    then show ?thesis
      using v by (auto simp: source_busy_def source_started_def source_view_def)
  qed
qed simp

lemma target_keys_distinct: "distinct (map pz_key (parcelSyncTargets cfg c))"
proof -
  have "distinct (map pz_key ParcelSourceCatalog)"
    by (simp add: ParcelSourceCatalog_def FloridaStatewideCadastralKey_def)
  then have "distinct (map pz_key (filter P ParcelSourceCatalog))" for P
    by (rule distinct_map_filter)
  moreover have "distinct (map pz_key (sortParcelSourcesByPriority xs)) = distinct (map pz_key xs)" for xs
  proof (rule mset_eq_imp_distinct_iff)
    show "mset (map pz_key (sortParcelSourcesByPriority xs)) = mset (map pz_key xs)"
      using sort_sources_spec [of xs] by simp
  qed
  ultimately have "distinct (map pz_key (EnabledParcelSourcesForConfig b))" for b
    unfolding EnabledParcelSourcesForConfig_def by simp
  then show ?thesis
    unfolding parcelSyncTargets_def by (rule distinct_map_filter)
qed

lemma catalog_source_view:
  fixes s :: "'z gisdb_scheme"
  shows "source_view k (snd (EnsureParcelSourceCatalog rows s)) = source_view k s"
proof -
  have "keeps_source k (source_view k s) (EnsureParcelSourceCatalog rows :: ('z gisdb_scheme, unit) go)"
    unfolding EnsureParcelSourceCatalog_def upsertParcelSource_def
    by (intro keeps_each keeps_sql) (auto split: if_splits)
  then show ?thesis by (simp add: keeps_def)
qed

section \<open>Properties: kickoff\<close>


section \<open>Lemmas: boundaries\<close>

lemma distinct_map_filter_inj:
  "distinct (List.map_filter f t) \<Longrightarrow> x \<in> set t \<Longrightarrow> y \<in> set t \<Longrightarrow> f x = Some k \<Longrightarrow> f y = Some k \<Longrightarrow> x = y"
proof (induction t)
  case (Cons z t)
  have "v \<in> set t \<Longrightarrow> f v = Some k \<Longrightarrow> k \<in> set (List.map_filter f t)" for v
    by (force simp: List.map_filter_def)
  with Cons show ?case by (auto split: option.splits)
qed simp

definition with_county :: "(city_row \<Rightarrow> string option) \<Rightarrow> city_row \<Rightarrow> city_row" where
  "with_county f c = (case f c of None \<Rightarrow> c | Some slug \<Rightarrow> c\<lparr>gc_county := Some slug\<rparr>)"

lemma update_cities_Some:
  "update_cities f before cs = Some t \<Longrightarrow>
     t = before @ map (with_county f) cs \<and> ((\<exists>c \<in> set cs. f c \<noteq> None) \<longrightarrow> unique_cities t)"
proof (induction f before cs rule: update_cities.induct)
  case (2 f before c cs)
  show ?case
  proof (cases "f c")
    case None
    with "2" show ?thesis by (auto simp: with_county_def)
  next
    case (Some slug)
    let ?c = "c\<lparr>gc_county := Some slug\<rparr>"
    have u: "unique_cities (before @ ?c # cs)" and t: "update_cities f (before @ [?c]) cs = Some t"
      using "2.prems" Some by (auto simp: Let_def split: if_splits)
    from "2.IH" (2) [OF Some refl u t] Some
    have t': "t = before @ map (with_county f) (c # cs)" "(\<exists>c \<in> set cs. f c \<noteq> None) \<longrightarrow> unique_cities t"
      by (auto simp: with_county_def)
    have "unique_cities t"
    proof (cases "\<exists>c \<in> set cs. f c \<noteq> None")
      case False
      then have "map (with_county f) cs = cs" by (intro map_idI) (simp add: with_county_def)
      with u t'(1) Some show ?thesis by (simp add: with_county_def)
    qed (use t'(2) in blast)
    with t'(1) show ?thesis by blast
  qed
qed simp

lemma update_cities_none: "\<forall>c \<in> set cs. f c = None \<Longrightarrow> update_cities f before cs = Some (before @ cs)"
  by (induction f before cs rule: update_cities.induct) simp_all

lemma backfill_slug_none: "\<forall>co \<in> set counties. gk_generation co \<noteq> gen \<Longrightarrow> backfill_slug overlap gen counties c = None"
  by (auto simp: backfill_slug_def filter_empty_conv [THEN iffD2])

text \<open>A row as its feature gave it.\<close>

definition city_as_read :: "(json \<Rightarrow> string) \<Rightarrow> city_row \<Rightarrow> bool" where
  "city_as_read marshal c \<longleftrightarrow> (\<exists>props. gc_properties c = JObj props \<and>
     gc_county c = strPtr (firstString marshal props [''COUNTY'', ''COUNTYNAME'', ''COUNTY_NAME'']))"

definition cities_as_read :: "(json \<Rightarrow> string) \<Rightarrow> int \<Rightarrow> county_row list \<Rightarrow> 'z gisdb_scheme \<Rightarrow> bool" where
  "cities_as_read marshal gen counties s \<longleftrightarrow> gis_counties s = counties \<and>
     (\<forall>c \<in> set (gis_cities s). city_as_read marshal c \<and> gc_generation c = gen)"

lemma cities_as_read_frame [simp]:
  "cities_as_read m g k (s\<lparr>faults := bs\<rparr>) = cities_as_read m g k s"
  "cities_as_read m g k (s\<lparr>clock := t, delays := ds\<rparr>) = cities_as_read m g k s"
  "cities_as_read m g k (s\<lparr>gis_zips := zs\<rparr>) = cities_as_read m g k s"
  "cities_as_read m g k (s\<lparr>http_log := l, http_replies := rs\<rparr>) = cities_as_read m g k s"
  by (simp_all add: cities_as_read_def)

lemma keeps_cities_now [intro!]: "keeps (cities_as_read m g k) go_now"
  by (rule keeps_now) simp

lemma keeps_cities_get [intro!]: "keeps (cities_as_read m g k) (arcgis_get url)"
  unfolding arcgis_get_def http_get_def Let_def
  by (intro keeps_bind keeps_cities_now keeps_if keeps_case_option keeps_fail keeps_ret keepsI)
    (auto split: list.splits http_reply.splits)

lemma keeps_batch_loop:
  assumes "\<And>b. \<forall>r \<in> set b. R r \<Longrightarrow> keeps P (bulk b)" and "\<And>f r. extract f = Some r \<Longrightarrow> R r" and "\<forall>r \<in> set batch. R r"
  shows "keeps P (batch_loop extract bulk chunk batch fs)"
  using assms(3)
proof (induction fs arbitrary: batch)
  case (Cons f fs)
  show ?case
  proof (cases "extract f")
    case None
    with Cons show ?thesis by simp
  next
    case (Some r)
    then have "\<forall>x \<in> set (batch @ [r]). R x" using assms(2) Cons.prems by auto
    with Some Cons.IH [of "[]"] Cons.IH [of "batch @ [r]"] assms(1) show ?thesis
      by (auto simp: Let_def intro!: keeps_bind)
  qed
qed (use assms(1) in auto)

lemma keeps_layer_loop:
  assumes "\<And>fs. keeps P (upsert fs)" and "\<And>url. keeps P (arcgis_get url)"
  shows "keeps P (layer_loop n cfg endpoint upsert pageSize offset)"
proof (induction n arbitrary: offset)
  case (Suc n)
  have "keeps P (parse_page body)" for body
    by (auto simp: parse_page_def split: option.split)
  with assms Suc show ?case
    by (auto simp: FetchLayerPage_def intro!: keeps_bind)
qed auto

lemma keeps_syncLayer:
  assumes "\<And>fs. keeps P (upsert fs)" and "\<And>url. keeps P (arcgis_get url)"
  shows "keeps P (syncLayer cfg endpoint upsert pageSize)"
proof (rule keepsI)
  fix s assume "P s"
  from keepsD [OF keeps_layer_loop [of P upsert, OF assms] this] show "P (snd (syncLayer cfg endpoint upsert pageSize s))"
    by (simp only: syncLayer_def)
qed

lemma set_upsert_rows: "upsert_rows key ok rs t = Some t' \<Longrightarrow> set t' \<subseteq> set rs \<union> set t"
proof (induction key ok rs t rule: upsert_rows.induct)
  case (2 key ok r rs t)
  have "set (upsert_one key r t) \<subseteq> insert r (set t)" by (auto simp: upsert_one_def)
  with "2" show ?case by (auto simp: Let_def split: if_splits)
qed simp

lemma city_as_read_written [simp]: "city_as_read m (r\<lparr>gc_source := src, gc_synced := t\<rparr>) = city_as_read m r"
  by (simp add: city_as_read_def)

lemma keeps_cities_upsert:
  assumes "\<forall>r \<in> set rows. city_as_read m r \<and> gc_generation r = g"
  shows "keeps (cities_as_read m g k) (upsertCityBatch geom_ok rows)"
  unfolding upsertCityBatch_def
proof (intro keeps_bind keeps_cities_now keeps_sql)
  fix now a and s s' :: "'a gisdb_scheme"
  let ?rows = "map (\<lambda>r. r\<lparr>gc_source := (if gc_source r = [] then FDOTAdminBoundariesKey else gc_source r), gc_synced := now\<rparr>) rows"
  assume inv: "cities_as_read m g k s"
    and run: "(if params_ok 7 rows \<and> list_all (\<lambda>r. geom_ok (gc_geometry r) \<and> int4_ok (gc_generation r)) rows
       then map_option (\<lambda>t. ((), s\<lparr>gis_cities := t\<rparr>)) (upsert_stmt city_key (\<lambda>_. True) ?rows (gis_cities s)) else None) = Some (a, s')"
  then obtain t where t: "upsert_rows city_key (\<lambda>_. True) ?rows (gis_cities s) = Some t" "s' = s\<lparr>gis_cities := t\<rparr>"
    by (auto simp: upsert_stmt_def split: if_splits)
  have "\<forall>r \<in> set ?rows. city_as_read m r \<and> gc_generation r = g"
    using assms by simp
  moreover have "\<forall>r \<in> set (gis_cities s). city_as_read m r \<and> gc_generation r = g" "gis_counties s = k"
    using inv by (auto simp: cities_as_read_def)
  ultimately have "\<forall>r \<in> set t. city_as_read m r \<and> gc_generation r = g"
    using set_upsert_rows [OF t(1)] by blast
  with \<open>gis_counties s = k\<close> t(2) show "cities_as_read m g k s'"
    by (simp add: cities_as_read_def)
qed simp

lemma keeps_run_cities: "keeps (cities_as_read (pgis_marshal g) gen k) (run_cities g cfg gen fp)"
proof (rule keeps_syncLayer, unfold syncCities_def, rule keeps_batch_loop)
  fix b :: "city_row list" assume b: "\<forall>r \<in> set b. city_as_read (pgis_marshal g) r \<and> gc_generation r = gen"
  have "keeps (cities_as_read (pgis_marshal g) gen k) (go_each (upsertCityBatch (pgis_geom_ok g)) bs)"
    if "\<forall>x \<in> set bs. \<forall>r \<in> set x. city_as_read (pgis_marshal g) r \<and> gc_generation r = gen" for bs
    using that by (induction bs) (auto intro!: keeps_bind keeps_cities_upsert)
  moreover have "set x \<subseteq> set b" if "x \<in> set (chunks_of 100 b)" for x
  proof -
    have "set x \<subseteq> set (concat (chunks_of 100 b))" using that by auto
    then show ?thesis by (simp add: concat_chunks_of)
  qed
  ultimately show "keeps (cities_as_read (pgis_marshal g) gen k) (BulkUpsertCities (pgis_geom_ok g) b)"
    unfolding BulkUpsertCities_def using b by blast
next
  fix f r assume "ok_of (ExtractCityRow (pgis_marshal g) f gen (Some fp)) = Some r"
  then show "city_as_read (pgis_marshal g) r \<and> gc_generation r = gen"
    by (auto simp: ok_of_def ExtractCityRow_def city_as_read_def Let_def split: if_splits)
qed auto

lemma keeps_cities_zips: "keeps (cities_as_read m gen k) (run_zips g cfg gen' fp)"
proof (rule keeps_syncLayer, unfold syncZips_def, rule keeps_batch_loop [where R = "\<lambda>_. True"])
  fix b show "keeps (cities_as_read m gen k) (BulkUpsertZips (pgis_geom_ok g) b)"
    unfolding BulkUpsertZips_def upsertZipBatch_def
    by (intro keeps_each keeps_bind keeps_cities_now keeps_sql) (auto split: if_splits)
qed auto

lemma count_boundaries_cases:
  fixes s :: "'z gisdb_scheme"
  obtains (failed) e bs where "CountBoundaries s = (Inl e, s\<lparr>faults := bs\<rparr>)"
  | (counted) bs where "CountBoundaries s = (Inr (length (gis_cities s), length (gis_counties s), length (gis_zips s)), s\<lparr>faults := bs\<rparr>)"
proof -
  have read: "\<exists>bs. sql (\<lambda>s. Some (f s, s)) s0 = (Inr (f (s0\<lparr>faults := bs\<rparr>)), s0\<lparr>faults := bs\<rparr>) \<or> sql (\<lambda>s. Some (f s, s)) s0 = (Inl DbErr, s0\<lparr>faults := bs\<rparr>)"
    for f :: "'z gisdb_scheme \<Rightarrow> nat" and s0
    by (cases rule: sql_cases [of s0 "\<lambda>s. Some (f s, s)"]) auto
  show thesis
    using read [of "\<lambda>s. length (gis_cities s)" s]
  proof (elim exE disjE)
    fix b1 assume r1: "sql (\<lambda>s. Some (length (gis_cities s), s)) s = (Inr (length (gis_cities (s\<lparr>faults := b1\<rparr>))), s\<lparr>faults := b1\<rparr>)"
    from read [of "\<lambda>s. length (gis_counties s)" "s\<lparr>faults := b1\<rparr>"] show thesis
    proof (elim exE disjE)
      fix b2 assume r2: "sql (\<lambda>s. Some (length (gis_counties s), s)) (s\<lparr>faults := b1\<rparr>) =
          (Inr (length (gis_counties (s\<lparr>faults := b1, faults := b2\<rparr>))), s\<lparr>faults := b1, faults := b2\<rparr>)"
      from read [of "\<lambda>s. length (gis_zips s)" "s\<lparr>faults := b2\<rparr>"] r1 r2 counted failed show thesis
        by (auto simp: CountBoundaries_def go_simps)
    qed (use r1 failed in \<open>auto simp: CountBoundaries_def go_simps\<close>)
  qed (use failed in \<open>auto simp: CountBoundaries_def go_simps\<close>)
qed

section \<open>Properties: boundaries\<close>

text \<open>A refresh cannot assign a city to a county that another generation of the city already has. If the table holds a city under its
  county from an earlier refresh, and a row of the current generation with the same name lies for the largest part in
  the same county, the backfill violates the uniqueness of name and county: it fails and changes nothing, and with it the
  refresh fails before it has deleted anything. Every yearly refresh of a city that the provider delivers without a county ends this way.\<close>

theorem backfill_fails_on_known_city:
  fixes s :: "'a gisdb_scheme"
  assumes "old \<in> set (gis_cities s)" "new \<in> set (gis_cities s)" "gc_name old = gc_name new"
    and "gc_generation old \<noteq> gen" "gc_generation new = gen" "gc_county old = Some slug"
    and "best_county overlap (gc_geometry new) (filter (\<lambda>co. gk_generation co = gen) (gis_counties s)) = Some (area, slug)"
  shows "\<exists>bs. BackfillCityCounties overlap gen s = (Inl DbErr, s\<lparr>faults := bs\<rparr>)"
proof -
  let ?f = "backfill_slug overlap gen (gis_counties s)"
  have new: "?f new = Some slug" and old: "?f old = None"
    using assms(4,5,7) by (simp_all add: backfill_slug_def)
  have "update_cities ?f [] (gis_cities s) = None"
  proof (rule ccontr)
    assume "update_cities ?f [] (gis_cities s) \<noteq> None"
    then obtain t where t: "update_cities ?f [] (gis_cities s) = Some t" by blast
    have "\<exists>c \<in> set (gis_cities s). ?f c \<noteq> None" using assms(2) new by (intro bexI [of _ new]) simp_all
    with update_cities_Some [OF t] have u: "unique_cities t" and eq: "t = map (with_county ?f) (gis_cities s)" by auto
    have "with_county ?f old \<in> set t" "with_county ?f new \<in> set t"
      using assms(1,2) eq by auto
    moreover have "with_county ?f old = old" "with_county ?f new = new\<lparr>gc_county := Some slug\<rparr>"
      using old new by (simp_all add: with_county_def)
    ultimately have "old = new\<lparr>gc_county := Some slug\<rparr>"
      using distinct_map_filter_inj [of city_key t old "new\<lparr>gc_county := Some slug\<rparr>" "(gc_name new, slug)"] u assms(3,6)
      by (simp add: unique_cities_def city_key_def)
    then have "gc_generation old = gc_generation new" by (metis city_row.select_convs(6) city_row.surjective city_row.update_convs(2))
    with assms(4,5) show False by simp
  qed
  then have "map_option F (update_cities ?f [] (gis_cities (s\<lparr>faults := bs\<rparr>))) = None" for F :: "city_row list \<Rightarrow> nat \<times> 'a gisdb_scheme" and bs
    by simp
  then show ?thesis
    unfolding BackfillCityCounties_def go_bind_run go_get_run backfill_def prod.case sum.case
    by (cases rule: sql_cases [of s "\<lambda>x. map_option (\<lambda>t. (length (filter (\<lambda>c. ?f c \<noteq> None) (gis_cities x)), x\<lparr>gis_cities := t\<rparr>))
        (update_cities ?f [] (gis_cities x))"]) (blast, blast, simp)
qed

text \<open>Filling the gap of an empty city table leaves the cities without their counties. The counties are there, but their rows are of
  earlier generations, and both backfills join rows of the same generation only. However the synchronisation runs and ends,
  the county of every city is then the one the provider's attributes name, and none when they name none.\<close>

theorem gap_fill_leaves_cities_unassigned:
  assumes "gis_cities s = []" "gis_counties s \<noteq> []"
    and "\<forall>co \<in> set (gis_counties s). gk_generation co \<noteq> generation_of FDOTAdminBoundariesKey s + 1"
  shows "list_all (city_as_read (pgis_marshal g)) (gis_cities (snd (Boundaries_RunGapFill g cfg s)))"
proof -
  let ?m = "pgis_marshal g" and ?K = "gis_counties s" and ?gen = "generation_of FDOTAdminBoundariesKey s + 1"
  let ?P = "cities_as_read ?m ?gen ?K"
  have none: "\<forall>co \<in> set ?K. gk_generation co \<noteq> ?gen" by (rule assms(3))
  have kb: "keeps ?P (BackfillCityCounties (pgis_overlap g) ?gen)" "keeps ?P (BackfillMissingCityCounties (pgis_overlap g))"
  proof -
    have "keeps (\<lambda>s. ?P s \<and> (\<forall>c \<in> set (gis_cities s). f c = None)) (backfill f)" for f
      unfolding backfill_def by (rule keeps_sql) (auto simp: update_cities_none)
    then have *: "?P x \<Longrightarrow> \<forall>c \<in> set (gis_cities x). f c = None \<Longrightarrow> ?P (snd (backfill f x))" for f x
      by (auto simp: keeps_def)
    show "keeps ?P (BackfillCityCounties (pgis_overlap g) ?gen)"
      by (rule keepsI) (auto simp: BackfillCityCounties_def go_simps cities_as_read_def backfill_slug_none [OF none]
          intro!: * [unfolded cities_as_read_def])
    show "keeps ?P (BackfillMissingCityCounties (pgis_overlap g))"
      by (rule keepsI) (auto simp: BackfillMissingCityCounties_def go_simps cities_as_read_def backfill_slug_none [OF none]
          intro!: * [unfolded cities_as_read_def])
  qed
  have kd: "keeps ?P (DeleteStaleCities k n)" "keeps ?P (DeleteStaleZips k n)" "keeps ?P CountCitiesMissingCounty"
    "keeps ?P (BumpSourceGeneration k)" for k n
    unfolding DeleteStaleCities_def DeleteStaleZips_def CountCitiesMissingCounty_def BumpSourceGeneration_def
    by (auto intro!: keeps_sql keeps_bind simp: cities_as_read_def split: option.splits if_splits)
  have ke: "keeps ?P (ensureCityCountiesBackfilled g)"
    unfolding ensureCityCountiesBackfilled_def by (intro keeps_bind keeps_if keeps_ret kd kb)
  let ?body = "\<lambda>zips gen. go_bind (go_bind (run_cities g cfg gen ''fdot_gap_fill'') (\<lambda>_.
      go_bind (BackfillCityCounties (pgis_overlap g) gen) (\<lambda>_. DeleteStaleCities FDOTAdminBoundariesKey gen))) (\<lambda>_.
    go_bind (if zips = 0 then go_bind (run_zips g cfg gen ''fdot_gap_fill'') (\<lambda>_. DeleteStaleZips FDOTAdminBoundariesKey gen) else go_ret ()) (\<lambda>_.
    ensureCityCountiesBackfilled g))"
  have body: "keeps ?P (?body zips ?gen)" for zips :: nat
    by (intro keeps_bind keeps_if keeps_ret keeps_run_cities keeps_cities_zips kb kd ke)
  have Ps: "?P (s\<lparr>faults := bs\<rparr>)" for bs using assms(1) by (simp add: cities_as_read_def)
  have "?P (snd (Boundaries_RunGapFill g cfg s))"
  proof (cases rule: count_boundaries_cases [of s])
    case (failed e bs)
    with Ps show ?thesis by (simp add: Boundaries_RunGapFill_def go_simps)
  next
    case (counted bs)
    let ?s1 = "s\<lparr>faults := bs\<rparr>"
    obtain r s2 where b: "BumpSourceGeneration FDOTAdminBoundariesKey ?s1 = (r, s2)" by fastforce
    have run: "Boundaries_RunGapFill g cfg s = (case r of Inl e \<Rightarrow> (Inl e, s2) | Inr gen \<Rightarrow> ?body (length (gis_zips s)) gen s2)"
      using counted b assms(1,2) by (cases r) (simp_all add: Boundaries_RunGapFill_def go_simps)
    have P2: "?P s2" using keepsD [OF kd(4) Ps, of FDOTAdminBoundariesKey bs] b by simp
    show ?thesis
    proof (cases r)
      case (Inr gen)
      then have "gen = ?gen" using bump_run [of FDOTAdminBoundariesKey ?s1 gen s2] b by (simp add: generation_of_def)
      with keepsD [OF body P2, of "length (gis_zips s)"] show ?thesis by (simp only: run Inr sum.case)
    qed (use run P2 in simp)
  qed
  then show ?thesis by (auto simp: cities_as_read_def list_all_iff)
qed

section \<open>The loop over a layer ends\<close>

lemma arcgis_get_uses_reply:
  assumes "arcgis_get url s = (r, s')"
  shows "length (http_replies s') = length (http_replies s) - 1 \<and> (http_replies s = [] \<longrightarrow> isl r)"
proof -
  obtain q s1 where q: "http_get url s = (q, s1)" by fastforce
  have "length (http_replies s1) = length (http_replies s) - 1 \<and> (http_replies s = [] \<longrightarrow> isl q)"
    using q by (cases "delays s"; cases "http_replies s"; auto simp: http_get_def Let_def go_simps go_now_def split: http_reply.splits)
  with q assms show ?thesis
    by (cases q) (auto simp: arcgis_get_def go_simps split: if_splits option.splits)
qed

lemma layer_loop_fuel:
  assumes "\<And>fs s. length (http_replies (snd (upsert fs s))) \<le> length (http_replies s)"
  shows "length (http_replies s) < n \<Longrightarrow> length (http_replies s) < m \<Longrightarrow>
    layer_loop n cfg endpoint upsert pageSize offset s = layer_loop m cfg endpoint upsert pageSize offset s"
proof (induction n arbitrary: m s offset)
  case (Suc n)
  then obtain m' where m: "m = Suc m'" by (cases m) auto
  obtain r s1 where r: "arcgis_get (layer_page_url cfg endpoint ''1=1'' offset pageSize) s = (r, s1)" by fastforce
  note used = arcgis_get_uses_reply [OF r]
  show ?case
  proof (cases r)
    case (Inl e)
    with r m show ?thesis by (simp add: FetchLayerPage_def go_simps)
  next
    case (Inr body)
    with used Suc.prems m have s1: "length (http_replies s1) < n" "length (http_replies s1) < m'" by (cases "http_replies s"; simp)+
    have "layer_loop n cfg endpoint upsert pageSize off s2 = layer_loop m' cfg endpoint upsert pageSize off s2"
      if "upsert fs s1 = (x, s2)" for off fs s2 x
      using Suc.IH [of s2 m' off] that s1 assms [of fs s1] by simp
    with r Inr m show ?thesis
      by (auto simp: FetchLayerPage_def parse_page_def go_simps split: option.split sum.split prod.split)
  qed
qed simp

section \<open>Witnesses\<close>

definition demo_gis_config :: gis_config where
  "demo_gis_config = \<lparr>gcf_page_size = 2, gcf_upsert_chunk = 10, gcf_sync_queue = [], gcf_sync_pinellas = False, gcf_max_features = 500,
     gcf_max_span = 1, gcf_teaser_max = 1, gcf_teaser_decimals = 2, gcf_cache_ttl = 900 * second, gcf_mls_codes = [''stellar''],
     gcf_probe_queue = ''default''\<rparr>"

definition demo_gis_service :: gis_service where
  "demo_gis_service = \<lparr>gs_cfg = demo_gis_config, gs_queue = demo_client\<rparr>"

definition demo_feature :: "string \<Rightarrow> arcgis_feature" where
  "demo_feature pin = \<lparr>af_geometry = JStr ''area'', af_properties = [(''PIN'', JStr pin)]\<rparr>"

definition demo_page_reply :: "string list \<Rightarrow> bool \<Rightarrow> http_reply" where
  "demo_page_reply pins xc = HttpReply \<lparr>http_status = 200, http_link = [], http_body = RawJson (JObj [
     (''exceededTransferLimit'', JBool xc),
     (''features'', JArr (map (\<lambda>pin. JObj [(''geometry'', JStr ''area''), (''properties'', JObj [(''PIN'', JStr pin)])]) pins))])\<rparr>"

definition demo_parcel_args :: parcel_args where
  "demo_parcel_args = \<lparr>pg_source = ''hillsborough_hc_parcels'', pg_county = ''hillsborough'', pg_url = HillsboroughParcelsQueryURL, pg_mode = ''bbox'',
     pg_where = [], pg_format = ''geojson'', pg_bbox = countyBBox ''hillsborough'', pg_id_fields = [''PIN''], pg_offset = 0, pg_generation = 2\<rparr>"

definition demo_parcel :: "string \<Rightarrow> int \<Rightarrow> parcel_row" where
  "demo_parcel pin gen = \<lparr>gp_id = pin, gp_source = ''hillsborough_hc_parcels'', gp_county = ''hillsborough'', gp_geometry = JStr ''area'',
     gp_properties = JObj [(''PIN'', JStr pin)], gp_address = None, gp_owner = None, gp_city = None, gp_zip = None, gp_just_value = None,
     gp_assessed = None, gp_land_value = None, gp_living_area = None, gp_year_built = None, gp_acres = None, gp_land_use = None,
     gp_sale_price = None, gp_sale_date = None, gp_generation = gen, gp_fingerprint = Some [], gp_synced = 0\<rparr>"

definition demo_gis :: "http_reply list \<Rightarrow> gisdb" where
  "demo_gis replies = (fdb.extend demo_fetch (gisdb.fields [demo_parcel ''A1'' 1, demo_parcel ''B2'' 1] [] [] [] [] []))\<lparr>http_replies := replies\<rparr>"

lemmas demo_gis_defs = demo_gis_def demo_fetch_def demo_sync_def sdb.defs fdb.defs gisdb.defs

lemma demo_gis_fields:
  "gis_parcels (demo_gis rs) = [demo_parcel ''A1'' 1, demo_parcel ''B2'' 1]" "http_replies (demo_gis rs) = rs" "no_faults (demo_gis rs)"
  "http_log (demo_gis rs) = []"
  by (simp_all add: demo_gis_defs no_faults_def)

lemma demo_feature_row: "pin \<noteq> [] \<Longrightarrow> trim_space pin = pin \<Longrightarrow> feature_row (\<lambda>_. []) demo_parcel_args (demo_feature pin) = Some (demo_parcel pin 2)"
  by (simp add: feature_row_def demo_parcel_args_def demo_feature_def IsStatewideCadastralSource_def FloridaStatewideCadastralKey_def
      ExtractParcelRow_def parcel_id_of_def firstString.simps firstFloat.simps lookup_any_def fmtAny_def strPtr_def floatPtr_def intPtr_def
      firstInt_def demo_parcel_def Let_def)

lemma demo_answers: "answers (demo_page_reply pins xc) \<lparr>ap_features = map demo_feature pins, ap_exceeded = xc\<rparr>"
proof -
  have "List.map_filter feature_of (map (\<lambda>pin. JObj [(''geometry'', JStr ''area''), (''properties'', JObj [(''PIN'', JStr pin)])]) pins) = map demo_feature pins"
    by (induction pins) (simp_all add: feature_of_def map_or_nil_def demo_feature_def gomap_of_def lookup_any_def)
  then show ?thesis
    by (simp add: answers_def demo_page_reply_def arcGISResponseError_def ParseFeatureCollection_def unmarshal_map_def gomap_of_def lookup_any_def boolField_def)
qed

lemma demo_parcel_fits: "parcel_fits (\<lambda>_. True) (demo_parcel pin 2)"
proof -
  have "slug_ok ''hillsborough''" by code_simp
  then show ?thesis by (simp add: parcel_fits_def demo_parcel_def numeric_ok_def int4_ok_def)
qed

lemma demo_pins: "trim_space ''A1'' = ''A1''" "trim_space ''B2'' = ''B2''"
  by code_simp+

lemma demo_sizes: "client_page_size demo_gis_config = 2" "upsert_chunk_size demo_gis_config = 10" "pg_source demo_parcel_args = ''hillsborough_hc_parcels''"
  "pg_offset demo_parcel_args = 0" "pg_generation demo_parcel_args = 2" "stale_scope demo_parcel_args = ''hillsborough''"
  by (simp_all add: client_page_size_def demo_gis_config_def upsert_chunk_size_def demo_parcel_args_def stale_scope_def
      IsStatewideCadastralSource_def FloridaStatewideCadastralKey_def)

lemma demo_old: "\<forall>r \<in> set (gis_parcels (demo_gis rs)). gp_source r = pg_source demo_parcel_args \<longrightarrow>
    gp_generation r < pg_generation demo_parcel_args \<and> in_scope (stale_scope demo_parcel_args) r"
  by (simp add: demo_gis_fields demo_sizes demo_parcel_def in_scope_def)

lemma demo_page_rows: "page_rows (\<lambda>_. []) demo_parcel_args \<lparr>ap_features = map demo_feature [''A1''], ap_exceeded = b\<rparr> = [demo_parcel ''A1'' 2]"
  "page_rows (\<lambda>_. []) demo_parcel_args \<lparr>ap_features = map demo_feature [''A1'', ''B2''], ap_exceeded = b\<rparr> = [demo_parcel ''A1'' 2, demo_parcel ''B2'' 2]"
  by (simp_all add: page_rows_def demo_feature_row demo_pins)

theorem parcel_chain_mirrors_pages_witness:
  "\<exists>s'. parcel_chain (\<lambda>_. []) (\<lambda>_. True) demo_gis_config demo_parcel_args (demo_gis [demo_page_reply [''A1''] False]) = Some (Inr (), s') \<and>
     parcel_view ''hillsborough_hc_parcels'' (gis_parcels s') ''A1'' = Some (demo_parcel ''A1'' 2) \<and>
     parcel_view ''hillsborough_hc_parcels'' (gis_parcels s') ''B2'' = None"
proof -
  let ?p = "\<lparr>ap_features = map demo_feature [''A1''], ap_exceeded = False\<rparr>"
  have fits: "list_all (page_fits (\<lambda>_. []) (\<lambda>_. True) demo_parcel_args) [?p]"
    using demo_page_rows(1) [of False] demo_parcel_fits by (simp add: page_fits_def)
  have "\<exists>s'. parcel_chain (\<lambda>_. []) (\<lambda>_. True) demo_gis_config demo_parcel_args (demo_gis [demo_page_reply [''A1''] False]) = Some (Inr (), s') \<and>
      parcel_view (pg_source demo_parcel_args) (gis_parcels s') = latest (concat (map (page_rows (\<lambda>_. []) demo_parcel_args) [?p])) \<and>
      filter (\<lambda>r. gp_source r \<noteq> pg_source demo_parcel_args) (gis_parcels s') =
        filter (\<lambda>r. gp_source r \<noteq> pg_source demo_parcel_args) (gis_parcels (demo_gis [demo_page_reply [''A1''] False])) \<and>
      map snd (http_log s') = map snd (http_log (demo_gis [demo_page_reply [''A1''] False])) @
        map (\<lambda>k. page_url demo_gis_config demo_parcel_args (int k * client_page_size demo_gis_config)) [0..<length [?p]]"
    by (rule parcel_chain_mirrors_pages [OF demo_gis_fields(3) _ _ _ fits _ demo_sizes(4) _ demo_old, where replies = "[demo_page_reply [''A1''] False]" and rest = "[]"])
      (use demo_answers [of "[''A1'']" False] in \<open>simp_all add: demo_gis_fields page_series_def page_continues_def demo_sizes\<close>)
  then show ?thesis
    using demo_page_rows(1) [of False] by (auto simp: demo_sizes latest_def demo_parcel_def)
qed

theorem truncated_page_loses_parcels_witness:
  "\<exists>s'. parcel_chain (\<lambda>_. []) (\<lambda>_. True) demo_gis_config demo_parcel_args
       (demo_gis [demo_page_reply [''A1''] True, demo_page_reply [] False]) = Some (Inr (), s') \<and>
     parcel_view ''hillsborough_hc_parcels'' (gis_parcels s') ''B2'' = None"
proof -
  let ?s = "demo_gis [demo_page_reply [''A1''] True, demo_page_reply [] False]" and ?feats = "map demo_feature [''A1'', ''B2'']"
  have fits: "page_fits (\<lambda>_. []) (\<lambda>_. True) demo_parcel_args \<lparr>ap_features = ?feats, ap_exceeded = False\<rparr>"
    using demo_page_rows(2) [of False] demo_parcel_fits by (simp add: page_fits_def) (simp add: demo_parcel_def)
  have row: "feature_row (\<lambda>_. []) demo_parcel_args (demo_feature ''B2'') = Some (demo_parcel ''B2'' 2)"
    by (rule demo_feature_row) (simp_all add: demo_pins)
  have "\<exists>s'. parcel_chain (\<lambda>_. []) (\<lambda>_. True) demo_gis_config demo_parcel_args ?s = Some (Inr (), s') \<and>
      parcel_view (pg_source demo_parcel_args) (gis_parcels s') (gp_id (demo_parcel ''B2'' 2)) = None \<and>
      map snd (http_log s') = map snd (http_log ?s) @
        [page_url demo_gis_config demo_parcel_args 0, page_url demo_gis_config demo_parcel_args (client_page_size demo_gis_config)]"
    by (rule truncated_page_loses_parcels [OF demo_gis_fields(3,2) _ _ _ _ _ _ demo_sizes(4) fits demo_old _ row, where m = 1])
      (use demo_answers [of "[''A1'']" True] demo_answers [of "[]" False] in \<open>simp_all add: demo_sizes\<close>)
  then show ?thesis by (auto simp: demo_sizes) (simp add: demo_parcel_def)
qed

lemma demo_kickoff: "\<not> isl (fst (parcel_kickoff demo_gis_service [] (demo_gis [])))"
  by code_simp


definition demo_city :: "int \<Rightarrow> string option \<Rightarrow> city_row" where
  "demo_city gen county = \<lparr>gc_name = ''Tampa'', gc_county = county, gc_source = FDOTAdminBoundariesKey, gc_geometry = JStr ''city'',
     gc_properties = JObj [(''NAME'', JStr ''Tampa'')], gc_generation = gen, gc_fingerprint = None, gc_synced = 0\<rparr>"

definition demo_county :: "int \<Rightarrow> county_row" where
  "demo_county gen = \<lparr>gk_name = ''Hillsborough'', gk_slug = ''hillsborough'', gk_fips = None, gk_stellar = True, gk_beaches = False,
     gk_source = FDOTAdminBoundariesKey, gk_geometry = JStr ''county'', gk_properties = JObj [], gk_generation = gen, gk_fingerprint = None, gk_synced = 0\<rparr>"

theorem backfill_fails_on_known_city_witness:
  "\<exists>bs. BackfillCityCounties (\<lambda>_ _. Some 1) 2 ((demo_gis [])\<lparr>gis_cities := [demo_city 1 (Some ''hillsborough''), demo_city 2 None],
      gis_counties := [demo_county 2]\<rparr>) =
    (Inl DbErr, (demo_gis [])\<lparr>gis_cities := [demo_city 1 (Some ''hillsborough''), demo_city 2 None], gis_counties := [demo_county 2], faults := bs\<rparr>)"
  using backfill_fails_on_known_city [of "demo_city 1 (Some ''hillsborough'')"
      "(demo_gis [])\<lparr>gis_cities := [demo_city 1 (Some ''hillsborough''), demo_city 2 None], gis_counties := [demo_county 2]\<rparr>"
      "demo_city 2 None" 2 "''hillsborough''" "\<lambda>_ _. Some 1" 1]
  by (simp add: demo_city_def demo_county_def)

definition demo_postgis :: postgis where
  "demo_postgis = \<lparr>pgis_marshal = (\<lambda>_. []), pgis_geom_ok = (\<lambda>_. True), pgis_overlap = (\<lambda>_ _. Some 1)\<rparr>"

definition demo_city_reply :: http_reply where
  "demo_city_reply = HttpReply \<lparr>http_status = 200, http_link = [], http_body = RawJson (JObj [(''features'', JArr [
     JObj [(''geometry'', JStr ''city''), (''properties'', JObj [(''NAME'', JStr ''Tampa'')])]])])\<rparr>"

theorem gap_fill_leaves_cities_unassigned_witness:
  "list_all (city_as_read (\<lambda>_. [])) (gis_cities (snd (Boundaries_RunGapFill demo_postgis demo_gis_config
     ((demo_gis [demo_city_reply])\<lparr>gis_counties := [demo_county 0], source_states := [\<lparr>ss_key = FDOTAdminBoundariesKey, ss_fingerprint = None,
        ss_generation = 0, ss_checked = None, ss_changed = None\<rparr>]\<rparr>))))"
proof -
  let ?s = "(demo_gis [demo_city_reply])\<lparr>gis_counties := [demo_county 0], source_states := [\<lparr>ss_key = FDOTAdminBoundariesKey, ss_fingerprint = None,
        ss_generation = 0, ss_checked = None, ss_changed = None\<rparr>]\<rparr>"
  have "gis_cities ?s = []" "gis_counties ?s = [demo_county 0]" by (simp_all add: demo_gis_defs)
  moreover have "gk_generation (demo_county 0) \<noteq> generation_of FDOTAdminBoundariesKey ?s + 1"
    by (simp add: demo_county_def generation_of_def stored_generation_def)
  ultimately have "list_all (city_as_read (pgis_marshal demo_postgis)) (gis_cities (snd (Boundaries_RunGapFill demo_postgis demo_gis_config ?s)))"
    by (intro gap_fill_leaves_cities_unassigned) simp_all
  then show ?thesis by (simp only: demo_postgis_def postgis.simps)
qed

end
