(* ===== verification/Gis_Proxy.thy ===== *)
theory Gis_Proxy
  imports Gis_Sync
begin

text \<open>
  The GIS endpoint (\<^verbatim>\<open>internal/service/gis\<close>: \<^verbatim>\<open>proxy.go\<close>, \<^verbatim>\<open>persistent.go\<close>, \<^verbatim>\<open>teaser.go\<close>, \<^verbatim>\<open>metadata.go\<close>; the queries of
  \<^verbatim>\<open>internal/repository/gis\<close>; \<^verbatim>\<open>internal/handler/gis/handler.go\<close>): a request for a box is answered from the edge cache, from the persistent
  tables, or live from the counties' servers, cut down for callers without full access.

  Parameters, collected in \<open>gis_deps\<close>: \<open>gd_meets\<close> says whether a stored geometry intersects a box and \<open>gd_geojson\<close> is the document
  \<^verbatim>\<open>ST_AsGeoJSON\<close> gives for it (PostGIS); \<open>gd_bound\<close> says whether driver and server take a statement with the given placeholders
  and number of arguments (pgx, PostgreSQL); \<open>gd_order\<close> is the order in which a Go map is walked; \<open>gd_sha\<close> is SHA-256 in hexadecimal and \<open>gd_text\<close> the
  text of a JSON value. The body of a reply is the document it holds; an empty body is \<open>RawEmpty\<close>.
\<close>

section \<open>State\<close>

record gis_cache_row =
  gh_hash :: string
  gh_body :: raw_message
  gh_expires :: int
  gh_source :: string
  gh_generation :: int

record gisweb = gisdb +
  gis_cache :: "gis_cache_row list"

record gis_deps =
  gd_meets :: "json \<Rightarrow> bbox \<Rightarrow> bool"
  gd_geojson :: "json \<Rightarrow> json"
  gd_bound :: "nat list \<Rightarrow> nat \<Rightarrow> bool"
  gd_order :: "(string \<times> bbox) list \<Rightarrow> (string \<times> bbox) list"
  gd_sha :: "string \<Rightarrow> string"
  gd_text :: "json \<Rightarrow> string"

text \<open>A request: its query parameters, the query string, and what the access check left in the context.\<close>

record gis_request =
  gq_query :: "string \<Rightarrow> string"
  gq_raw :: string
  gq_full :: "bool option"

section \<open>Queries on the persistent tables\<close>

text \<open>A statement with its placeholders and arguments: one that driver or server refuse is an error.\<close>

definition bound_sql :: "gis_deps \<Rightarrow> nat list \<Rightarrow> nat \<Rightarrow> ('z gisweb_scheme \<Rightarrow> 'a) \<Rightarrow> ('z gisweb_scheme, 'a) go" where
  "bound_sql g placeholders n f = sql (\<lambda>s. if gd_bound g placeholders n then Some (f s, s) else None)"

text \<open>\<open>bboxEnvelopeSQL\<close> names the parameters 1 to 4 and occurs twice in every statement.\<close>

definition envelope_params :: "nat list" where
  "envelope_params = [1, 2, 3, 4, 1, 2, 3, 4]"

definition HasParcelsInBBox :: "gis_deps \<Rightarrow> bbox \<Rightarrow> string list \<Rightarrow> ('z gisweb_scheme, bool) go" where
  "HasParcelsInBBox g b counties =
     (if counties = []
      then bound_sql g envelope_params 8 (\<lambda>s. \<exists>r \<in> set (gis_parcels s). gd_meets g (gp_geometry r) b)
      else bound_sql g (envelope_params @ [5]) 9 (\<lambda>s. \<exists>r \<in> set (gis_parcels s). gd_meets g (gp_geometry r) b \<and> gp_county r \<in> set counties))"

definition HasCitiesInBBox :: "gis_deps \<Rightarrow> bbox \<Rightarrow> ('z gisweb_scheme, bool) go" where
  "HasCitiesInBBox g b = bound_sql g envelope_params 8 (\<lambda>s. \<exists>r \<in> set (gis_cities s). gd_meets g (gc_geometry r) b)"

definition HasCountiesInBBox :: "gis_deps \<Rightarrow> bbox \<Rightarrow> ('z gisweb_scheme, bool) go" where
  "HasCountiesInBBox g b = bound_sql g envelope_params 8 (\<lambda>s. \<exists>r \<in> set (gis_counties s). gd_meets g (gk_geometry r) b)"

definition HasZipsInBBox :: "gis_deps \<Rightarrow> bbox \<Rightarrow> ('z gisweb_scheme, bool) go" where
  "HasZipsInBBox g b = bound_sql g envelope_params 8 (\<lambda>s. \<exists>r \<in> set (gis_zips s). gd_meets g (gz_geometry r) b)"

definition source_rank :: "string \<Rightarrow> nat" where
  "source_rank k = (if k = ''pinellas_enterprise_parcels'' then 1 else if k = ''hillsborough_hc_parcels'' then 2
     else if k = ''florida_statewide_cadastral'' then 3 else 4)"

text \<open>\<^verbatim>\<open>SELECT DISTINCT ON (parcel_id) ... ORDER BY parcel_id, rank\<close>: the row of the best rank for each id.\<close>

fun first_of_id :: "parcel_row list \<Rightarrow> parcel_row list" where
  "first_of_id [] = []"
| "first_of_id (r # rs) = r # first_of_id (filter (\<lambda>x. gp_id x \<noteq> gp_id r) rs)"

definition ranked_parcels :: "parcel_row list \<Rightarrow> parcel_row list" where
  "ranked_parcels rows = first_of_id (sort_key gp_id (sort_key (\<lambda>r. source_rank (gp_source r)) rows))"

definition QueryParcelsByBBox :: "gis_deps \<Rightarrow> bbox \<Rightarrow> string list \<Rightarrow> nat \<Rightarrow> ('z gisweb_scheme, (json \<times> json) list) go" where
  "QueryParcelsByBBox g b counties limit =
     bound_sql g (envelope_params @ (if counties = [] then [9] else [5, 10])) (if counties = [] then 9 else 10) (\<lambda>s.
       map (\<lambda>r. (gd_geojson g (gp_geometry r), gp_properties r)) (take limit (ranked_parcels
         (filter (\<lambda>r. gd_meets g (gp_geometry r) b \<and> (counties = [] \<or> gp_county r \<in> set counties)) (gis_parcels s)))))"

definition QueryCitiesByBBox :: "gis_deps \<Rightarrow> bbox \<Rightarrow> nat \<Rightarrow> ('z gisweb_scheme, (json \<times> json) list) go" where
  "QueryCitiesByBBox g b limit = bound_sql g (envelope_params @ [5]) 5 (\<lambda>s.
     map (\<lambda>r. (gd_geojson g (gc_geometry r), gc_properties r)) (take limit (filter (\<lambda>r. gd_meets g (gc_geometry r) b) (gis_cities s))))"

definition QueryCountiesByBBox :: "gis_deps \<Rightarrow> bbox \<Rightarrow> nat \<Rightarrow> ('z gisweb_scheme, (json \<times> json) list) go" where
  "QueryCountiesByBBox g b limit = bound_sql g (envelope_params @ [5]) 5 (\<lambda>s.
     map (\<lambda>r. (gd_geojson g (gk_geometry r), gk_properties r)) (take limit (filter (\<lambda>r. gd_meets g (gk_geometry r) b) (gis_counties s))))"

definition QueryZipsByBBox :: "gis_deps \<Rightarrow> bbox \<Rightarrow> nat \<Rightarrow> ('z gisweb_scheme, (json \<times> json) list) go" where
  "QueryZipsByBBox g b limit = bound_sql g (envelope_params @ [5]) 5 (\<lambda>s.
     map (\<lambda>r. (gd_geojson g (gz_geometry r), gz_properties r)) (take limit (filter (\<lambda>r. gd_meets g (gz_geometry r) b) (gis_zips s))))"

definition QueryCountySlugsByBBox :: "gis_deps \<Rightarrow> bbox \<Rightarrow> ('z gisweb_scheme, string list) go" where
  "QueryCountySlugsByBBox g b = bound_sql g envelope_params 8 (\<lambda>s.
     sort (map gk_slug (filter (\<lambda>r. gd_meets g (gk_geometry r) b) (gis_counties s))))"

section \<open>The persistent query service\<close>

datatype query_type = QParcel | QCity | QCounty | QZip

definition query_type_text :: "query_type \<Rightarrow> string" where
  "query_type_text q = (case q of QParcel \<Rightarrow> ''parcel'' | QCity \<Rightarrow> ''city'' | QCounty \<Rightarrow> ''county'' | QZip \<Rightarrow> ''zip'')"

definition ParseQueryType :: "string \<Rightarrow> query_type" where
  "ParseQueryType raw = (let t = to_lower (trim_space raw) in
     if t \<in> {''city'', ''cities''} then QCity
     else if t \<in> {''county'', ''counties''} then QCounty
     else if t \<in> {''zip'', ''zips'', ''postal''} then QZip
     else QParcel)"

definition max_features :: "gis_config \<Rightarrow> int" where
  "max_features cfg = (if gcf_max_features cfg \<le> 0 then 500 else gcf_max_features cfg)"

definition ParseLimit :: "string \<Rightarrow> gis_config \<Rightarrow> int" where
  "ParseLimit raw cfg = (let raw = trim_space raw in
     if raw = [] then max_features cfg
     else case scan_int raw of
       None \<Rightarrow> max_features cfg
     | Some n \<Rightarrow> (if n \<le> 0 then max_features cfg else if n > max_features cfg then max_features cfg else n))"

definition countiesForBBox :: "gis_deps \<Rightarrow> bbox \<Rightarrow> ('z gisweb_scheme, string list) go" where
  "countiesForBBox g b = go_bind (go_try (QueryCountySlugsByBBox g b)) (\<lambda>r. go_ret (case r of
      Inr slugs \<Rightarrow> (if slugs \<noteq> [] then slugs else map pz_county (SourcesForBBox b))
    | Inl _ \<Rightarrow> map pz_county (SourcesForBBox b)))"

definition HasData :: "gis_deps \<Rightarrow> query_type \<Rightarrow> bbox \<Rightarrow> ('z gisweb_scheme, bool) go" where
  "HasData g q b = (case q of
      QCity \<Rightarrow> HasCitiesInBBox g b
    | QCounty \<Rightarrow> HasCountiesInBBox g b
    | QZip \<Rightarrow> HasZipsInBBox g b
    | QParcel \<Rightarrow> go_bind (countiesForBBox g b) (HasParcelsInBBox g b))"

definition feature_json :: "json \<times> json \<Rightarrow> json" where
  "feature_json f = JObj [(''geometry'', fst f), (''properties'', if snd f = JNull then JObj [] else snd f), (''type'', JStr ''Feature'')]"

definition featuresToGeoJSON :: "(json \<times> json) list \<Rightarrow> raw_message" where
  "featuresToGeoJSON feats = RawJson (JObj [(''features'', JArr (map feature_json feats)), (''type'', JStr ''FeatureCollection'')])"

definition query_limit :: "gis_config \<Rightarrow> int \<Rightarrow> int" where
  "query_limit cfg limit = (if limit \<le> 0 then max_features cfg else limit)"

definition Persistent_Query :: "gis_deps \<Rightarrow> gis_config \<Rightarrow> query_type \<Rightarrow> bbox \<Rightarrow> int \<Rightarrow> ('z gisweb_scheme, raw_message) go" where
  "Persistent_Query g cfg q b limit = (let n = nat (query_limit cfg limit) in
     go_bind (case q of
        QCity \<Rightarrow> QueryCitiesByBBox g b n
      | QCounty \<Rightarrow> QueryCountiesByBBox g b n
      | QZip \<Rightarrow> QueryZipsByBBox g b n
      | QParcel \<Rightarrow> go_bind (countiesForBBox g b) (\<lambda>counties. QueryParcelsByBBox g b counties n)) (\<lambda>feats. go_ret (featuresToGeoJSON feats)))"

section \<open>Teasers\<close>

definition round_away :: "real \<Rightarrow> real" where
  "round_away x = (if x < 0 then - of_int \<lfloor>- x + 1 / 2\<rfloor> else of_int \<lfloor>x + 1 / 2\<rfloor>)"

definition roundCoord :: "real \<Rightarrow> int \<Rightarrow> real" where
  "roundCoord v decimals = (if decimals < 0 then v else let p = 10 ^ nat decimals in round_away (v * p) / p)"

fun roundCoordsAny :: "int \<Rightarrow> json \<Rightarrow> json" where
  "roundCoordsAny d (JNum x) = JNum (roundCoord x d)"
| "roundCoordsAny d (JArr vs) = JArr (map (roundCoordsAny d) vs)"
| "roundCoordsAny d v = v"

definition truncateFeatureCollection :: "nat \<Rightarrow> gomap \<Rightarrow> gomap" where
  "truncateFeatureCollection n fc = (case lookup_any fc ''features'' of
      JArr feats \<Rightarrow> (if length feats \<le> n then fc else AList.update ''features'' (JArr (take n feats)) fc)
    | _ \<Rightarrow> fc)"

definition round_geometry :: "int \<Rightarrow> json \<Rightarrow> json" where
  "round_geometry d v = (case v of
      JObj kvs \<Rightarrow> (let geom = gomap_of kvs in case map_of geom ''coordinates'' of
          Some c \<Rightarrow> JObj (AList.update ''coordinates'' (roundCoordsAny d c) geom)
        | None \<Rightarrow> JObj geom)
    | _ \<Rightarrow> v)"

definition round_feature :: "int \<Rightarrow> json \<Rightarrow> json" where
  "round_feature d f = (case f of
      JObj kvs \<Rightarrow> (let feat = gomap_of kvs in case map_of feat ''geometry'' of
          Some geom \<Rightarrow> JObj (AList.update ''geometry'' (round_geometry d geom) feat)
        | None \<Rightarrow> JObj feat)
    | _ \<Rightarrow> f)"

definition roundFeatureCollectionCoords :: "int \<Rightarrow> gomap \<Rightarrow> gomap" where
  "roundFeatureCollectionCoords d fc = (case lookup_any fc ''features'' of
      JArr feats \<Rightarrow> AList.update ''features'' (JArr (map (round_feature d) feats)) fc
    | _ \<Rightarrow> fc)"

definition teaser_max :: "gis_config \<Rightarrow> int" where
  "teaser_max cfg = (if gcf_teaser_max cfg \<le> 0 then 40 else gcf_teaser_max cfg)"

definition teaser_decimals :: "gis_config \<Rightarrow> int" where
  "teaser_decimals cfg = (if gcf_teaser_decimals cfg \<le> 0 then 4 else gcf_teaser_decimals cfg)"

text \<open>A nil map marshals to \<^verbatim>\<open>null\<close>.\<close>

definition applyTeaser :: "gis_config \<Rightarrow> bool \<Rightarrow> raw_message \<Rightarrow> raw_message" where
  "applyTeaser cfg fullAccess geojson =
     (if fullAccess then geojson
      else case unmarshal_map geojson of
        None \<Rightarrow> geojson
      | Some fc \<Rightarrow> (if geojson = RawJson JNull then geojson
          else RawJson (JObj (roundFeatureCollectionCoords (teaser_decimals cfg) (truncateFeatureCollection (nat (teaser_max cfg)) fc)))))"

section \<open>The endpoint\<close>

record response_meta =
  rm_source :: string
  rm_tier :: string
  rm_county :: string
  rm_type :: string
  rm_full :: bool
  rm_degraded :: bool
  rm_fallback :: "string option"
  rm_generation :: int
  rm_cached :: bool
  rm_hit :: "string option"
  rm_warnings :: "string list"

definition enc_meta :: "response_meta \<Rightarrow> json" where
  "enc_meta m = JObj ([(''source_used'', JStr (rm_source m)), (''source_tier'', JStr (rm_tier m)), (''county_hint'', JStr (rm_county m))] @
     enc_str_omit ''query_type'' (rm_type m) @
     [(''teaser'', JBool (\<not> rm_full m)), (''full_access'', JBool (rm_full m)), (''degraded'', JBool (rm_degraded m)),
      (''leaflet_fallback'', case rm_fallback m of None \<Rightarrow> JNull | Some u \<Rightarrow> JStr u), (''cache_generation'', JNum (of_int (rm_generation m))),
      (''cached'', JBool (rm_cached m)), (''cache_hit'', case rm_hit m of None \<Rightarrow> JNull | Some h \<Rightarrow> JStr h)] @
     (if rm_warnings m = [] then [] else [(''warnings'', JArr (map JStr (rm_warnings m)))]))"

datatype gis_reply = GisError int string | GisBody string raw_message | GisPanic

text \<open>Writing into the nil map that \<^verbatim>\<open>null\<close> decodes to panics.\<close>

definition wrapWithMeta :: "string \<Rightarrow> raw_message \<Rightarrow> response_meta \<Rightarrow> gis_reply" where
  "wrapWithMeta cacheHeader geojson meta =
     (if geojson = RawJson JNull then GisPanic
      else case unmarshal_map geojson of
        None \<Rightarrow> GisBody cacheHeader geojson
      | Some fc \<Rightarrow> GisBody cacheHeader (RawJson (JObj (AList.update ''meta'' (enc_meta meta) fc))))"

definition requestFullAccess :: "gis_request \<Rightarrow> bool" where
  "requestFullAccess req = (case gq_full req of None \<Rightarrow> True | Some v \<Rightarrow> v)"

definition allowedMLS :: "gis_config \<Rightarrow> string \<Rightarrow> bool" where
  "allowedMLS cfg code = (to_lower (trim_space code) \<in> set (map to_lower (gcf_mls_codes cfg)))"

text \<open>\<^verbatim>\<open>fmt.Sprintf("%x", s)\<close>: two digits for every byte.\<close>

definition queryHash :: "gis_request \<Rightarrow> string" where
  "queryHash req = hex_encode (gq_raw req)"

definition fromCache :: "string \<Rightarrow> ('z gisweb_scheme, gis_cache_row option) go" where
  "fromCache hash = go_bind (go_try (go_bind go_now (\<lambda>now. sql (\<lambda>s.
     map_option (\<lambda>r. (r, s)) (find (\<lambda>r. gh_hash r = hash \<and> gh_expires r > now) (gis_cache s)))))) (\<lambda>r.
     go_ret (case r of Inl _ \<Rightarrow> None | Inr row \<Rightarrow> Some row))"

definition cached_meta :: "gis_cache_row \<Rightarrow> bool \<Rightarrow> query_type \<Rightarrow> response_meta" where
  "cached_meta r fullAccess q = \<lparr>rm_source = gh_source r, rm_tier = ''cached'', rm_county = [], rm_type = query_type_text q, rm_full = fullAccess,
     rm_degraded = False, rm_fallback = None, rm_generation = gh_generation r, rm_cached = True, rm_hit = Some ''edge'', rm_warnings = []\<rparr>"

text \<open>\<^verbatim>\<open>query_hash\<close> is VARCHAR(64), \<^verbatim>\<open>source_used\<close> VARCHAR(96).\<close>

definition storeCache :: "gis_config \<Rightarrow> string \<Rightarrow> raw_message \<Rightarrow> string \<Rightarrow> int \<Rightarrow> ('z gisweb_scheme, unit) go" where
  "storeCache cfg hash body sourceKey gen = go_bind go_now (\<lambda>now. sql (\<lambda>s.
     if length hash \<le> 64 \<and> length sourceKey \<le> 96
     then Some ((), s\<lparr>gis_cache := upsert_one (\<lambda>r. Some (gh_hash r))
       \<lparr>gh_hash = hash, gh_body = body, gh_expires = now + gcf_cache_ttl cfg, gh_source = sourceKey, gh_generation = gen\<rparr> (gis_cache s)\<rparr>)
     else None))"

definition generation_or_zero :: "string \<Rightarrow> ('z gisweb_scheme, int) go" where
  "generation_or_zero k = go_bind (go_try (SourceGeneration k)) (\<lambda>r. go_ret (case r of Inl _ \<Rightarrow> 0 | Inr gen \<Rightarrow> gen))"

definition persistent_table :: "query_type \<Rightarrow> string" where
  "persistent_table q = (case q of QParcel \<Rightarrow> ''gis_parcels'' | QCity \<Rightarrow> ''gis_cities'' | QCounty \<Rightarrow> ''gis_counties'' | QZip \<Rightarrow> ''gis_zips'')"

definition buildPersistentMeta :: "gis_deps \<Rightarrow> bbox \<Rightarrow> query_type \<Rightarrow> bool \<Rightarrow> ('z gisweb_scheme, response_meta) go" where
  "buildPersistentMeta g b q fullAccess =
     go_bind (generation_or_zero (persistent_table q)) (\<lambda>gen0.
     go_bind (if gen0 = 0 then generation_or_zero FDOTAdminBoundariesKey else go_ret gen0) (\<lambda>gen.
     go_ret \<lparr>rm_source = persistent_table q, rm_tier = ''persistent'', rm_county = (case Centroid b of (lat, lng) \<Rightarrow> countyHint (gd_order g) lat lng),
       rm_type = query_type_text q, rm_full = fullAccess, rm_degraded = False, rm_fallback = None, rm_generation = gen, rm_cached = False,
       rm_hit = None, rm_warnings = []\<rparr>))"

definition buildMeta :: "gis_deps \<Rightarrow> bbox \<Rightarrow> live_source option \<Rightarrow> bool \<Rightarrow> bool \<Rightarrow> ('z gisweb_scheme, response_meta) go" where
  "buildMeta g b used fetchFailed fullAccess =
     (let key = (case used of None \<Rightarrow> [] | Some src \<Rightarrow> ls_key src); tier = (case used of None \<Rightarrow> [] | Some src \<Rightarrow> ls_tier src) in
      go_bind (generation_or_zero key) (\<lambda>gen.
      go_ret \<lparr>rm_source = (if key = [] then ''unknown'' else key), rm_tier = (if key = [] then ''none'' else tier),
        rm_county = (case Centroid b of (lat, lng) \<Rightarrow> countyHint (gd_order g) lat lng), rm_type = ''parcel'', rm_full = fullAccess,
        rm_degraded = fetchFailed, rm_fallback = None, rm_generation = gen, rm_cached = False, rm_hit = None, rm_warnings = []\<rparr>))"

definition fetchSource :: "gis_config \<Rightarrow> live_source \<Rightarrow> bbox \<Rightarrow> ('z gisweb_scheme, raw_message) go" where
  "fetchSource cfg src b = FetchBBoxPage cfg src b 0 (max_features cfg)"

text \<open>The loop over the live sources: the body and error of the last one tried, and the source that answered.\<close>

fun try_sources :: "gis_config \<Rightarrow> bbox \<Rightarrow> raw_message \<times> bool \<Rightarrow> live_source list \<Rightarrow> ('z gisweb_scheme, raw_message \<times> bool \<times> live_source option) go" where
  "try_sources cfg b (raw, failed) [] = go_ret (raw, failed, None)"
| "try_sources cfg b (raw, failed) (src # srcs) = go_bind (go_try (fetchSource cfg src b)) (\<lambda>r. case r of
      Inl _ \<Rightarrow> try_sources cfg b (RawEmpty, True) srcs
    | Inr body \<Rightarrow> (if body \<noteq> RawEmpty then go_ret (body, False, Some src) else try_sources cfg b (body, False) srcs))"

definition empty_collection :: raw_message where
  "empty_collection = RawJson (JObj [(''type'', JStr ''FeatureCollection''), (''features'', JArr [])])"

definition send_body :: "gis_config \<Rightarrow> string \<Rightarrow> raw_message \<Rightarrow> response_meta \<Rightarrow> gis_reply" where
  "send_body cfg cacheHeader raw meta = wrapWithMeta cacheHeader (applyTeaser cfg (rm_full meta) raw) meta"

definition serve_live :: "gis_deps \<Rightarrow> gis_config \<Rightarrow> bbox \<Rightarrow> string \<Rightarrow> bool \<Rightarrow> ('z gisweb_scheme, gis_reply) go" where
  "serve_live g cfg b hash fullAccess =
     go_bind (try_sources cfg b (RawEmpty, False) (sourcesForBBox b)) (\<lambda>(raw, failed, used).
     go_bind (buildMeta g b used failed fullAccess) (\<lambda>meta.
     let degraded = (failed \<and> raw = RawEmpty);
         raw = (if degraded then empty_collection else raw);
         meta = (if degraded then meta\<lparr>rm_degraded := True, rm_fallback := Some ''https://{s}.tile.openstreetmap.org/{z}/{x}/{y}.png''\<rparr> else meta)
     in go_bind (generation_or_zero (rm_source meta)) (\<lambda>gen.
        go_bind (go_ignore (storeCache cfg hash raw (rm_source meta) gen)) (\<lambda>_.
        go_ret (send_body cfg ''miss'' raw meta)))))"

definition serve_boundary_miss :: "gis_deps \<Rightarrow> gis_config \<Rightarrow> bbox \<Rightarrow> query_type \<Rightarrow> bool \<Rightarrow> ('z gisweb_scheme, gis_reply) go" where
  "serve_boundary_miss g cfg b q fullAccess = go_bind (buildPersistentMeta g b q fullAccess) (\<lambda>meta.
     go_ret (send_body cfg ''miss'' empty_collection (meta\<lparr>rm_degraded := True, rm_warnings := [''No persistent '' @ query_type_text q @
       '' boundaries loaded for this area; run gis.annual_boundaries_refresh.'']\<rparr>)))"

text \<open>What the persistent tables give: a body, or nothing when either query fails or finds no data.\<close>

definition persistent_body :: "gis_deps \<Rightarrow> gis_config \<Rightarrow> query_type \<Rightarrow> bbox \<Rightarrow> int \<Rightarrow> ('z gisweb_scheme, raw_message option) go" where
  "persistent_body g cfg q b limit = go_bind (go_try (HasData g q b)) (\<lambda>has. case has of
      Inr True \<Rightarrow> go_bind (go_try (Persistent_Query g cfg q b limit)) (\<lambda>r. go_ret (case r of
          Inr raw \<Rightarrow> (if raw \<noteq> RawEmpty then Some raw else None) | Inl _ \<Rightarrow> None))
    | _ \<Rightarrow> go_ret None)"

definition serve_persistent :: "gis_deps \<Rightarrow> gis_config \<Rightarrow> bbox \<Rightarrow> query_type \<Rightarrow> string \<Rightarrow> bool \<Rightarrow> raw_message \<Rightarrow> ('z gisweb_scheme, gis_reply) go" where
  "serve_persistent g cfg b q hash fullAccess raw = go_bind (buildPersistentMeta g b q fullAccess) (\<lambda>meta.
     go_bind (generation_or_zero (rm_source meta)) (\<lambda>gen.
     go_bind (go_ignore (storeCache cfg hash raw (rm_source meta) gen)) (\<lambda>_.
     go_ret (send_body cfg ''persistent'' raw meta))))"

definition serve_uncached :: "gis_deps \<Rightarrow> gis_config \<Rightarrow> bbox \<Rightarrow> query_type \<Rightarrow> int \<Rightarrow> string \<Rightarrow> bool \<Rightarrow> ('z gisweb_scheme, gis_reply) go" where
  "serve_uncached g cfg b q limit hash fullAccess = go_bind (persistent_body g cfg q b limit) (\<lambda>found. case found of
      Some raw \<Rightarrow> serve_persistent g cfg b q hash fullAccess raw
    | None \<Rightarrow> (if q \<noteq> QParcel then serve_boundary_miss g cfg b q fullAccess else serve_live g cfg b hash fullAccess))"

definition Gis_Fetch :: "gis_deps \<Rightarrow> gis_config \<Rightarrow> gis_request \<Rightarrow> string option \<Rightarrow> ('z gisweb_scheme, gis_reply) go" where
  "Gis_Fetch g cfg req mlsCode =
     (if (case mlsCode of None \<Rightarrow> False | Some code \<Rightarrow> \<not> allowedMLS cfg code) then go_ret (GisError 404 ''MLS code not supported for GIS'')
      else case ParseBBox (gq_query req) of
        Inl e \<Rightarrow> go_ret (GisError 400 e)
      | Inr b \<Rightarrow>
         if SpanDeg b > gcf_max_span cfg then go_ret (GisError 422 ''bbox span exceeds limit'')
         else let q = ParseQueryType (gq_query req ''type''); limit = ParseLimit (gq_query req ''limit'') cfg;
                  fullAccess = requestFullAccess req; hash = queryHash req in
           go_bind (fromCache hash) (\<lambda>hit. case hit of
             Some r \<Rightarrow> go_ret (send_body cfg ''edge'' (gh_body r) (cached_meta r fullAccess q))
           | None \<Rightarrow> serve_uncached g cfg b q limit hash fullAccess))"

definition Gis_Show :: "gis_deps \<Rightarrow> gis_config \<Rightarrow> gis_request \<Rightarrow> ('z gisweb_scheme, gis_reply) go" where
  "Gis_Show g cfg req = Gis_Fetch g cfg req None"

definition Gis_ShowForMLS :: "gis_deps \<Rightarrow> gis_config \<Rightarrow> gis_request \<Rightarrow> string \<Rightarrow> ('z gisweb_scheme, gis_reply) go" where
  "Gis_ShowForMLS g cfg req code = Gis_Fetch g cfg req (Some code)"

section \<open>Probing the sources\<close>

definition queryMetaURL :: "string \<Rightarrow> string" where
  "queryMetaURL u = trim_suffix (trim_space u) ''/query'' @ ''?f=json''"

definition jsonString :: "gis_deps \<Rightarrow> json \<Rightarrow> string" where
  "jsonString g v = (if v = JNull then [] else gd_text g v)"

definition metadataFingerprint :: "gis_deps \<Rightarrow> raw_message \<Rightarrow> string" where
  "metadataFingerprint g body = (let doc = (case unmarshal_map body of None \<Rightarrow> [] | Some m \<Rightarrow> m) in
     gd_sha g (join_with ''|'' ([jsonString g (lookup_any doc ''currentVersion''), jsonString g (lookup_any doc ''serviceItemId'')] @
       (case lookup_any doc ''editingInfo'' of JObj ei \<Rightarrow> [jsonString g (lookup_any (gomap_of ei) ''lastEditDate'')] | _ \<Rightarrow> []))))"

definition probeOne :: "gis_deps \<Rightarrow> string \<Rightarrow> string \<Rightarrow> ('z gisdb_scheme, unit) go" where
  "probeOne g sourceKey endpoint =
     go_bind (EnsureSourceState sourceKey) (\<lambda>_.
     go_bind (http_get endpoint) (\<lambda>resp.
     let fp = metadataFingerprint g (http_body resp) in
     go_bind (sql (\<lambda>s. map_option (\<lambda>r. (ss_fingerprint r, s)) (find (\<lambda>r. ss_key r = sourceKey) (source_states s)))) (\<lambda>prev.
     go_bind go_now (\<lambda>now. sql (\<lambda>s. Some ((), s\<lparr>source_states := map (\<lambda>x. if ss_key x = sourceKey
        then (if prev \<noteq> Some fp
              then x\<lparr>ss_fingerprint := Some fp, ss_generation := ss_generation x + 1, ss_changed := Some now, ss_checked := Some now\<rparr>
              else x\<lparr>ss_checked := Some now\<rparr>)
        else x) (source_states s)\<rparr>))))))"

definition probe_endpoints :: "gis_config \<Rightarrow> (string \<times> string) list" where
  "probe_endpoints cfg = [(FDOTAdminBoundariesKey, ''https://gis.fdot.gov/arcgis/rest/services/Admin_Boundaries/FeatureServer/6?f=json''),
     (FloridaStatewideCadastralKey, queryMetaURL FloridaStatewideCadastralURL)] @
     map (\<lambda>spec. (pz_key spec, queryMetaURL (pz_url spec)))
       (filter (\<lambda>spec. \<not> (pz_county spec = [] \<or> pz_county spec = ''statewide'')) (EnabledParcelSourcesForConfig (gcf_sync_pinellas cfg)))"

text \<open>The endpoints are a Go map: \<open>order\<close> is the order of this run. Errors are logged.\<close>

definition ProbeAll :: "gis_deps \<Rightarrow> ((string \<times> string) list \<Rightarrow> (string \<times> string) list) \<Rightarrow> gis_config \<Rightarrow> ('z gisdb_scheme, unit) go" where
  "ProbeAll g order cfg = go_each (\<lambda>(k, u). go_ignore (probeOne g k u)) (order (probe_endpoints cfg))"

section \<open>Lemmas: statements\<close>

text \<open>What driver and server document: a statement runs only when its placeholders are exactly the numbers of its arguments.\<close>

definition bound_exactly :: "gis_deps \<Rightarrow> bool" where
  "bound_exactly g \<longleftrightarrow> (\<forall>ps n. gd_bound g ps n \<longrightarrow> set ps = {1..n})"

lemma bound_sql_refused:
  assumes "bound_exactly g" "set ps \<noteq> {1..n}"
  shows "\<exists>bs. bound_sql g ps n f s = (Inl DbErr, s\<lparr>faults := bs\<rparr>)"
proof -
  have "\<not> gd_bound g ps n" using assms unfolding bound_exactly_def by blast
  then show ?thesis
    unfolding bound_sql_def by (cases rule: sql_cases [of s "\<lambda>s. if gd_bound g ps n then Some (f s, s) else None"]) auto
qed

lemma bound_sql_state: "\<exists>bs. snd (bound_sql g ps n f s) = s\<lparr>faults := bs\<rparr>"
  by (cases rule: sql_cases [of s "\<lambda>s. if gd_bound g ps n then Some (f s, s) else None"])
    (auto simp: bound_sql_def split: if_splits)

lemma envelope_set [simp]: "set envelope_params = {1, 2, 3, 4}"
  by (auto simp: envelope_params_def)

lemma envelope_refused: "set envelope_params \<noteq> {1..8}" "set (envelope_params @ [5]) \<noteq> {1..9}"
proof -
  have "8 \<in> {1..8::nat}" "9 \<in> {1..9::nat}" by simp_all
  moreover have "8 \<notin> set envelope_params" "9 \<notin> set (envelope_params @ [5])" by simp_all
  ultimately show "set envelope_params \<noteq> {1..8}" "set (envelope_params @ [5]) \<noteq> {1..9}" by metis+
qed

lemma counties_for_run: "\<exists>cs bs. countiesForBBox g b s = (Inr cs, s\<lparr>faults := bs\<rparr>)"
proof -
  obtain bs where "snd (QueryCountySlugsByBBox g b s) = s\<lparr>faults := bs\<rparr>"
    unfolding QueryCountySlugsByBBox_def using bound_sql_state by blast
  then show ?thesis by (simp add: countiesForBBox_def go_simps) blast
qed

lemma has_data_refused:
  assumes "bound_exactly g"
  shows "\<exists>bs. HasData g q b s = (Inl DbErr, s\<lparr>faults := bs\<rparr>)"
proof (cases q)
  case QParcel
  obtain cs bs where c: "countiesForBBox g b s = (Inr cs, s\<lparr>faults := bs\<rparr>)" using counties_for_run by blast
  have "\<exists>bs'. HasParcelsInBBox g b cs (s\<lparr>faults := bs\<rparr>) = (Inl DbErr, s\<lparr>faults := bs, faults := bs'\<rparr>)"
    unfolding HasParcelsInBBox_def
    using bound_sql_refused [OF assms envelope_refused(1), where s = "s\<lparr>faults := bs\<rparr>"]
      bound_sql_refused [OF assms envelope_refused(2), where s = "s\<lparr>faults := bs\<rparr>"] by (cases "cs = []") simp_all
  then obtain bs' where "HasParcelsInBBox g b cs (s\<lparr>faults := bs\<rparr>) = (Inl DbErr, s\<lparr>faults := bs, faults := bs'\<rparr>)" ..
  then have "HasData g q b s = (Inl DbErr, s\<lparr>faults := bs'\<rparr>)" by (simp add: QParcel c HasData_def go_simps)
  then show ?thesis ..
qed (use bound_sql_refused [OF assms envelope_refused(1)] in
    \<open>simp_all add: HasData_def HasCitiesInBBox_def HasCountiesInBBox_def HasZipsInBBox_def\<close>)

lemma persistent_body_refused:
  assumes "bound_exactly g"
  shows "\<exists>bs. persistent_body g cfg q b limit s = (Inr None, s\<lparr>faults := bs\<rparr>)"
proof -
  obtain bs where "HasData g q b s = (Inl DbErr, s\<lparr>faults := bs\<rparr>)" using has_data_refused [OF assms] by blast
  then show ?thesis by (simp add: persistent_body_def go_simps) blast
qed

text \<open>Operations that never return an error.\<close>

definition always_ok :: "('s, 'a) go \<Rightarrow> bool" where
  "always_ok m \<longleftrightarrow> (\<forall>s. \<not> isl (fst (m s)))"

lemma always_okE: "always_ok m \<Longrightarrow> (\<And>x s'. m s = (Inr x, s') \<Longrightarrow> thesis) \<Longrightarrow> thesis"
  by (cases "m s"; cases "fst (m s)") (auto simp: always_ok_def dest: spec [of _ s])

lemma generation_or_zero_ok: "always_ok (generation_or_zero k)"
  by (simp add: always_ok_def generation_or_zero_def go_simps)

lemma persistent_meta_run:
  "\<exists>gen s'. buildPersistentMeta g b q full s = (Inr \<lparr>rm_source = persistent_table q, rm_tier = ''persistent'',
      rm_county = (case Centroid b of (lat, lng) \<Rightarrow> countyHint (gd_order g) lat lng), rm_type = query_type_text q, rm_full = full, rm_degraded = False,
      rm_fallback = None, rm_generation = gen, rm_cached = False, rm_hit = None, rm_warnings = []\<rparr>, s')"
proof -
  obtain g0 s1 where "generation_or_zero (persistent_table q) s = (Inr g0, s1)" by (rule always_okE [OF generation_or_zero_ok])
  moreover obtain g1 s2 where "generation_or_zero FDOTAdminBoundariesKey s1 = (Inr g1, s2)" by (rule always_okE [OF generation_or_zero_ok])
  ultimately show ?thesis by (simp add: buildPersistentMeta_def go_simps)
qed

lemma from_cache_run: "\<exists>s'. fromCache hash s = (Inr (fst_hit s), s')" if "fst_hit = (\<lambda>s. case fst (fromCache hash s) of Inr h \<Rightarrow> h | Inl _ \<Rightarrow> None)" for fst_hit
  unfolding that by (simp add: fromCache_def go_simps)

lemma sql_none: "(\<And>bs. f (s\<lparr>faults := bs\<rparr>) = None) \<Longrightarrow> isl (fst (sql f s))"
  by (cases rule: sql_cases [of s f]) auto

lemma from_cache_empty:
  assumes "gis_cache s = []"
  shows "\<exists>s'. fromCache hash s = (Inr None, s')"
proof -
  obtain t s1 where now: "go_now s = (Inr t, s1)" "gis_cache s1 = []"
    using assms by (cases "delays s") (auto simp: go_now_def)
  let ?q = "sql (\<lambda>s. map_option (\<lambda>r. (r, s)) (find (\<lambda>r. gh_hash r = hash \<and> t < gh_expires r) (gis_cache s))) s1"
  obtain e s2 where "?q = (Inl e, s2)" using sql_none [of "\<lambda>s. map_option (\<lambda>r. (r, s)) (find (\<lambda>r. gh_hash r = hash \<and> t < gh_expires r) (gis_cache s))" s1] now(2)
    by (cases ?q; cases "fst ?q") auto
  with now(1) show ?thesis by (simp add: fromCache_def go_simps)
qed

section \<open>Lemmas: what is sent\<close>

fun rounded :: "int \<Rightarrow> json \<Rightarrow> bool" where
  "rounded d (JNum x) \<longleftrightarrow> x * 10 ^ nat d = of_int \<lfloor>x * 10 ^ nat d\<rfloor>"
| "rounded d (JArr vs) \<longleftrightarrow> list_all (rounded d) vs"
| "rounded d v \<longleftrightarrow> True"

text \<open>The coordinates of a feature, where it has some.\<close>

definition feature_coordinates :: "json \<Rightarrow> json option" where
  "feature_coordinates f = (case f of
      JObj feat \<Rightarrow> (case map_of feat ''geometry'' of Some (JObj geom) \<Rightarrow> map_of geom ''coordinates'' | _ \<Rightarrow> None)
    | _ \<Rightarrow> None)"

lemma rounded_roundCoords: "0 \<le> d \<Longrightarrow> rounded d (roundCoordsAny d v)"
proof (induction d v rule: roundCoordsAny.induct)
  case (1 d x)
  have "\<exists>n. round_away (x * 10 ^ nat d) = of_int n"
    unfolding round_away_def by (metis of_int_minus)
  then show ?case using "1" by (auto simp: roundCoord_def Let_def)
next
  case (2 d vs)
  then show ?case by (simp add: list_all_iff)
qed simp_all

lemma rounded_feature:
  assumes "0 \<le> d" "feature_coordinates (round_feature d f) = Some c"
  shows "rounded d c"
proof -
  obtain kvs where f: "f = JObj kvs" using assms(2) by (cases f) (auto simp: feature_coordinates_def round_feature_def)
  obtain geom where geom: "map_of (gomap_of kvs) ''geometry'' = Some geom"
    using assms(2) f by (cases "map_of (gomap_of kvs) ''geometry''") (auto simp: feature_coordinates_def round_feature_def Let_def)
  have "round_feature d f = JObj (AList.update ''geometry'' (round_geometry d geom) (gomap_of kvs))"
    by (simp add: round_feature_def f geom Let_def)
  with assms(2) have g: "(case round_geometry d geom of JObj gm \<Rightarrow> map_of gm ''coordinates'' | _ \<Rightarrow> None) = Some c"
    by (auto simp: feature_coordinates_def update_conv' split: json.splits)
  then obtain gk where gk: "geom = JObj gk" by (cases geom) (auto simp: round_geometry_def)
  with g show ?thesis
    using rounded_roundCoords [OF assms(1)]
    by (cases "map_of (gomap_of gk) ''coordinates''") (auto simp: round_geometry_def Let_def update_conv')
qed

definition teaser_respected :: "gis_config \<Rightarrow> gomap \<Rightarrow> bool" where
  "teaser_respected cfg fc \<longleftrightarrow> (case lookup_any fc ''features'' of
      JArr feats \<Rightarrow> int (length feats) \<le> teaser_max cfg \<and>
        list_all (\<lambda>f. case feature_coordinates f of None \<Rightarrow> True | Some c \<Rightarrow> rounded (teaser_decimals cfg) c) feats
    | _ \<Rightarrow> True)"

lemma teaser_pos: "0 < teaser_max cfg" "0 < teaser_decimals cfg"
  by (simp_all add: teaser_max_def teaser_decimals_def)

lemma lookup_update: "lookup_any (AList.update k v m) k' = (if k' = k then v else lookup_any m k')"
  by (simp add: lookup_any_def update_conv')

lemma teaser_of_truncated:
  "teaser_respected cfg (roundFeatureCollectionCoords (teaser_decimals cfg) (truncateFeatureCollection (nat (teaser_max cfg)) fc))"
proof -
  let ?fc = "truncateFeatureCollection (nat (teaser_max cfg)) fc"
  have cut: "lookup_any ?fc ''features'' = JArr feats \<Longrightarrow> int (length feats) \<le> teaser_max cfg" for feats
    using teaser_pos(1) [of cfg]
    by (cases "lookup_any fc ''features''") (auto simp: truncateFeatureCollection_def lookup_update split: if_splits)
  show ?thesis
  proof (cases "lookup_any ?fc ''features''")
    case (JArr feats)
    have "case feature_coordinates (round_feature (teaser_decimals cfg) f) of None \<Rightarrow> True | Some c \<Rightarrow> rounded (teaser_decimals cfg) c" for f
      using rounded_feature [of "teaser_decimals cfg" f] teaser_pos(2) [of cfg] by (auto split: option.split)
    with JArr cut [OF JArr] show ?thesis
      by (simp add: teaser_respected_def roundFeatureCollectionCoords_def lookup_update list_all_iff)
  qed (simp_all add: teaser_respected_def roundFeatureCollectionCoords_def)
qed

lemma send_body_teaser:
  assumes "\<not> rm_full meta" "send_body cfg h raw meta = GisBody h' (RawJson (JObj fc))"
  shows "teaser_respected cfg fc"
proof -
  obtain kvs where kvs: "unmarshal_map raw = Some kvs" "raw \<noteq> RawJson JNull"
    using assms by (cases "unmarshal_map raw")
      (auto simp: send_body_def wrapWithMeta_def applyTeaser_def unmarshal_map_def split: if_splits raw_message.splits json.splits)
  let ?t = "roundFeatureCollectionCoords (teaser_decimals cfg) (truncateFeatureCollection (nat (teaser_max cfg)) kvs)"
  have "applyTeaser cfg False raw = RawJson (JObj ?t)" using kvs by (simp add: applyTeaser_def)
  then have fc: "fc = AList.update ''meta'' (enc_meta meta) (gomap_of ?t)"
    using assms by (simp add: send_body_def wrapWithMeta_def unmarshal_map_def)
  have "lookup_any fc ''features'' = lookup_any (gomap_of ?t) ''features''" by (simp add: fc lookup_update)
  moreover have "distinct (map fst ?t)"
    using kvs(1) by (auto simp: roundFeatureCollectionCoords_def truncateFeatureCollection_def unmarshal_map_def distinct_update
        split: json.splits raw_message.splits)
  ultimately have "lookup_any fc ''features'' = lookup_any ?t ''features''" by (simp add: gomap_of_distinct)
  with teaser_of_truncated [of cfg kvs] show ?thesis by (simp add: teaser_respected_def)
qed

section \<open>Lemmas: replies\<close>

text \<open>A predicate on every value an operation can return.\<close>

definition returns :: "('a \<Rightarrow> bool) \<Rightarrow> ('s, 'a) go \<Rightarrow> bool" where
  "returns P m \<longleftrightarrow> (\<forall>s x s'. m s = (Inr x, s') \<longrightarrow> P x)"

lemma returnsD: "returns P m \<Longrightarrow> m s = (Inr x, s') \<Longrightarrow> P x"
  by (auto simp: returns_def)

lemma returns_ret [simp]: "returns P (go_ret x) \<longleftrightarrow> P x"
  by (auto simp: returns_def go_simps)

lemma returns_bind: "returns Q m \<Longrightarrow> (\<And>x. Q x \<Longrightarrow> returns P (f x)) \<Longrightarrow> returns P (go_bind m f)"
  by (fastforce simp: returns_def go_simps split: prod.splits sum.splits)

lemma returns_bind_any: "(\<And>x. returns P (f x)) \<Longrightarrow> returns P (go_bind m f)"
  by (rule returns_bind [where Q = "\<lambda>_. True"]) (simp_all add: returns_def)

lemma persistent_meta_full: "returns (\<lambda>m. rm_full m = full) (buildPersistentMeta g b q full)"
  unfolding buildPersistentMeta_def by (intro returns_bind_any) simp

lemma build_meta_full: "returns (\<lambda>m. rm_full m = full) (buildMeta g b used failed full)"
  unfolding buildMeta_def Let_def by (intro returns_bind_any) simp

text \<open>Every reply with a body is one that \<open>send_body\<close> made, with the caller's access in its metadata.\<close>

definition sent_for :: "gis_config \<Rightarrow> bool \<Rightarrow> string set \<Rightarrow> gis_reply \<Rightarrow> bool" where
  "sent_for cfg full headers reply \<longleftrightarrow> (\<exists>c m. reply = GisError c m) \<or>
     (\<exists>h \<in> headers. \<exists>raw meta. rm_full meta = full \<and> reply = send_body cfg h raw meta)"

lemma sent_error [simp]: "sent_for cfg full hs (GisError c m)"
  by (simp add: sent_for_def)

lemma sent_body: "rm_full meta = full \<Longrightarrow> h \<in> hs \<Longrightarrow> sent_for cfg full hs (send_body cfg h raw meta)"
  unfolding sent_for_def by blast

lemma serve_live_sent: "returns (sent_for cfg full {''miss''}) (serve_live g cfg b hash full)"
  unfolding serve_live_def Let_def
  by (intro returns_bind_any, simp only: split_paired_all case_prod_conv, rule returns_bind [OF build_meta_full],
      intro returns_bind_any) (simp add: sent_body)

lemma serve_boundary_sent: "returns (sent_for cfg full {''miss''}) (serve_boundary_miss g cfg b q full)"
  unfolding serve_boundary_miss_def by (rule returns_bind [OF persistent_meta_full]) (simp add: sent_body)

lemma sent_mono: "sent_for cfg full hs r \<Longrightarrow> hs \<subseteq> hs' \<Longrightarrow> sent_for cfg full hs' r"
  unfolding sent_for_def by blast

lemma returns_mono: "returns P m \<Longrightarrow> (\<And>x. P x \<Longrightarrow> Q x) \<Longrightarrow> returns Q m"
  by (auto simp: returns_def)

lemma persistent_sent: "returns (sent_for cfg full {''persistent''}) (serve_persistent g cfg b q hash full raw)"
  unfolding serve_persistent_def by (rule returns_bind [OF persistent_meta_full], intro returns_bind_any) (simp add: sent_body)

lemma uncached_sent:
  assumes "returns (\<lambda>x. x \<noteq> None \<longrightarrow> ''persistent'' \<in> hs) (persistent_body g cfg q b n :: ('z gisweb_scheme, raw_message option) go)"
    and "''miss'' \<in> hs"
  shows "returns (sent_for cfg full hs) (serve_uncached g cfg b q n hash full :: ('z gisweb_scheme, gis_reply) go)"
  unfolding serve_uncached_def
proof (rule returns_bind [OF assms(1)])
  fix x :: "raw_message option" assume "x \<noteq> None \<longrightarrow> ''persistent'' \<in> hs"
  then show "returns (sent_for cfg full hs) (case x of Some raw \<Rightarrow> serve_persistent g cfg b q hash full raw
      | None \<Rightarrow> (if q \<noteq> QParcel then serve_boundary_miss g cfg b q full else (serve_live g cfg b hash full :: ('z gisweb_scheme, gis_reply) go)))"
    using assms(2) by (cases x)
      (auto intro!: returns_mono [OF serve_live_sent] returns_mono [OF serve_boundary_sent] returns_mono [OF persistent_sent] elim: sent_mono)
qed

lemma fetch_sent:
  assumes "\<And>q b n. returns (\<lambda>x. x \<noteq> None \<longrightarrow> ''persistent'' \<in> hs) (persistent_body g cfg q b n :: ('z gisweb_scheme, raw_message option) go)"
    and "{''edge'', ''miss''} \<subseteq> hs"
  shows "returns (sent_for cfg (requestFullAccess req) hs) (Gis_Fetch g cfg req code :: ('z gisweb_scheme, gis_reply) go)"
proof -
  have cached: "returns (sent_for cfg full hs) (case x of Some r \<Rightarrow> go_ret (send_body cfg ''edge'' (gh_body r) (cached_meta r full q))
      | None \<Rightarrow> (serve_uncached g cfg b q n hash full :: ('z gisweb_scheme, gis_reply) go))" for x full q b n hash
    using uncached_sent [OF assms(1)] assms(2) by (cases x) (simp_all add: sent_body cached_meta_def)
  have "returns (sent_for cfg full hs) (go_bind (fromCache hash) (\<lambda>x. case x of Some r \<Rightarrow> go_ret (send_body cfg ''edge'' (gh_body r) (cached_meta r full q))
      | None \<Rightarrow> serve_uncached g cfg b q n hash full) :: ('z gisweb_scheme, gis_reply) go)" for full q b n hash
    by (rule returns_bind_any) (rule cached)
  then show ?thesis unfolding Gis_Fetch_def Let_def by (simp split: sum.split)
qed

section \<open>Properties\<close>

text \<open>(C17) Callers without full access. Whatever the reply comes from (edge cache, persistent tables or a county's server), its feature
  collection holds at most the configured number of features, and every coordinate has at most the configured number of decimals.\<close>

theorem teaser_on_every_reply:
  assumes "\<not> requestFullAccess req" "Gis_Fetch g cfg req code s = (Inr (GisBody h (RawJson (JObj fc))), s')"
  shows "teaser_respected cfg fc"
proof -
  have "returns (sent_for cfg (requestFullAccess req) UNIV) (Gis_Fetch g cfg req code)"
    by (rule fetch_sent) (simp_all add: returns_def)
  from returnsD [OF this assms(2)] obtain h' raw meta where
    "rm_full meta = requestFullAccess req" "send_body cfg h' raw meta = GisBody h (RawJson (JObj fc))"
    unfolding sent_for_def by (metis gis_reply.distinct(1))
  with assms(1) show ?thesis
    by (intro send_body_teaser [of meta cfg h' raw h fc]) simp_all
qed

text \<open>(C37) The persistent tables are never served. When a statement runs only if its placeholders are exactly its arguments, no reply, whatever
  the tables hold, comes from them.\<close>

theorem persistent_tables_are_never_served:
  assumes "bound_exactly g" "Gis_Fetch g cfg req code s = (Inr (GisBody h raw), s')"
  shows "h \<noteq> ''persistent''"
proof -
  have "returns (\<lambda>x. x \<noteq> None \<longrightarrow> ''persistent'' \<in> {''edge'', ''miss''}) (persistent_body g cfg q b n :: ('a gisweb_scheme, raw_message option) go)" for q b n
    unfolding returns_def using persistent_body_refused [OF assms(1), of cfg q b n] by (metis Inr_inject prod.inject)
  from returnsD [OF fetch_sent [OF this] assms(2)] obtain h' r meta where h': "h' \<in> {''edge'', ''miss''}" "send_body cfg h' r meta = GisBody h raw"
    unfolding sent_for_def by (metis gis_reply.distinct(1) order_refl)
  then have "h' = h" by (auto simp: send_body_def wrapWithMeta_def split: if_splits option.splits)
  with h'(1) show ?thesis by auto
qed

text \<open>What boundary requests get. A request for cities, counties or zips that is not in the edge cache is answered with an empty collection
  that says no boundaries are loaded, whatever the tables hold.\<close>

theorem boundary_requests_are_empty:
  assumes "bound_exactly g" "gis_cache s = []" "ParseQueryType (gq_query req ''type'') \<noteq> QParcel"
    and "ParseBBox (gq_query req) = Inr b" "SpanDeg b \<le> gcf_max_span cfg"
  shows "\<exists>fc s'. Gis_Show g cfg req s = (Inr (GisBody ''miss'' (RawJson (JObj fc))), s') \<and> lookup_any fc ''features'' = JArr [] \<and>
    (case lookup_any fc ''meta'' of JObj meta \<Rightarrow> lookup_any meta ''degraded'' = JBool True | _ \<Rightarrow> False)"
proof -
  let ?q = "ParseQueryType (gq_query req ''type'')" and ?full = "requestFullAccess req"
  obtain s1 where s1: "fromCache (queryHash req) s = (Inr None, s1)" using from_cache_empty [OF assms(2)] by blast
  obtain bs where s2: "persistent_body g cfg ?q b (ParseLimit (gq_query req ''limit'') cfg) s1 = (Inr None, s1\<lparr>faults := bs\<rparr>)"
    using persistent_body_refused [OF assms(1)] by blast
  obtain meta s3 where s3: "buildPersistentMeta g b ?q ?full (s1\<lparr>faults := bs\<rparr>) = (Inr meta, s3)" using persistent_meta_run by blast
  let ?meta = "meta\<lparr>rm_degraded := True, rm_warnings := [''No persistent '' @ query_type_text ?q @
       '' boundaries loaded for this area; run gis.annual_boundaries_refresh.'']\<rparr>"
  have run: "Gis_Show g cfg req s = (Inr (send_body cfg ''miss'' empty_collection ?meta), s3)"
    using assms(3-5) s1 s2 s3
    by (simp add: Gis_Show_def Gis_Fetch_def serve_uncached_def serve_boundary_miss_def go_simps Let_def)
  have cut: "applyTeaser cfg a empty_collection = empty_collection" for a
    using teaser_pos [of cfg]
    by (simp add: applyTeaser_def empty_collection_def unmarshal_map_def truncateFeatureCollection_def roundFeatureCollectionCoords_def
        lookup_any_def gomap_of_def)
  have "send_body cfg ''miss'' empty_collection ?meta = GisBody ''miss'' (RawJson (JObj (AList.update ''meta'' (enc_meta ?meta)
      [(''type'', JStr ''FeatureCollection''), (''features'', JArr [])])))"
    by (simp add: send_body_def cut) (simp add: wrapWithMeta_def empty_collection_def unmarshal_map_def gomap_of_def)
  with run show ?thesis
    by (simp add: lookup_update) (simp add: lookup_any_def enc_meta_def enc_str_omit_def)
qed

section \<open>The edge cache\<close>

definition cache_is :: "gis_cache_row list \<Rightarrow> 'z gisweb_scheme \<Rightarrow> bool" where
  "cache_is c s \<longleftrightarrow> gis_cache s = c"

lemma keeps_cache_now [intro!]: "keeps (cache_is c) go_now"
  by (rule keeps_now) (simp add: cache_is_def)

lemma keeps_cache_sql: "(\<And>s a s'. f s = Some (a, s') \<Longrightarrow> gis_cache s' = gis_cache s) \<Longrightarrow> keeps (cache_is c) (sql f)"
  by (rule keeps_sql) (auto simp: cache_is_def)

lemma keeps_cache_bound [intro!]: "keeps (cache_is c) (bound_sql g ps n f)"
  unfolding bound_sql_def by (rule keeps_cache_sql) (auto split: if_splits)

lemma keeps_cache_http [intro!]: "keeps (cache_is c) (http_get u)"
  unfolding http_get_def by (intro keeps_bind keeps_cache_now keepsI) (simp add: cache_is_def Let_def split: list.splits http_reply.splits)

lemma keeps_cache_generation [intro!]: "keeps (cache_is c) (generation_or_zero k)"
  unfolding generation_or_zero_def SourceGeneration_def by (intro keeps_bind keeps_try keeps_cache_sql keeps_ret) auto

lemma keeps_cache_from [intro!]: "keeps (cache_is c) (fromCache hash)"
  unfolding fromCache_def by (intro keeps_bind keeps_try keeps_cache_sql keeps_ret keeps_cache_now) auto

lemma keeps_cache_counties [intro!]: "keeps (cache_is c) (countiesForBBox g b)"
  unfolding countiesForBBox_def QueryCountySlugsByBBox_def by (intro keeps_bind keeps_try keeps_cache_bound keeps_ret)

lemma keeps_cache_has [intro!]: "keeps (cache_is c) (HasData g q b)"
  unfolding HasData_def HasCitiesInBBox_def HasCountiesInBBox_def HasZipsInBBox_def HasParcelsInBBox_def
  by (auto split: query_type.split)

lemma keeps_cache_query [intro!]: "keeps (cache_is c) (Persistent_Query g cfg q b n)"
  unfolding Persistent_Query_def Let_def QueryCitiesByBBox_def QueryCountiesByBBox_def QueryZipsByBBox_def QueryParcelsByBBox_def
  by (cases q) auto

lemma keeps_cache_body [intro!]: "keeps (cache_is c) (persistent_body g cfg q b n)"
  unfolding persistent_body_def by (intro keeps_bind keeps_try keeps_cache_has) (auto split: sum.split bool.split)

lemma keeps_cache_persistent_meta [intro!]: "keeps (cache_is c) (buildPersistentMeta g b q full)"
  unfolding buildPersistentMeta_def by auto

lemma keeps_cache_meta [intro!]: "keeps (cache_is c) (buildMeta g b used failed full)"
  unfolding buildMeta_def Let_def by auto

lemma keeps_cache_fetch [intro!]: "keeps (cache_is c) (fetchSource cfg src b)"
  unfolding fetchSource_def FetchBBoxPage_def FetchParcelPage_def arcgis_get_def by (auto split: option.split)

lemma keeps_cache_try [intro!]: "keeps (cache_is c) (try_sources cfg b acc srcs)"
proof (induction srcs arbitrary: acc)
  case Nil
  show ?case by (cases acc) (auto simp: keeps_ret)
next
  case (Cons src srcs)
  show ?case using Cons.IH by (cases acc) (auto intro!: keeps_bind keeps_try split: sum.split)
qed

text \<open>A hash of more than 64 characters is refused by the column.\<close>

lemma keeps_cache_store [intro]: "64 < length hash \<Longrightarrow> keeps (cache_is c) (storeCache cfg hash raw k gen)"
  unfolding storeCache_def by (intro keeps_bind keeps_cache_now keeps_cache_sql) auto

lemma keeps_cache_live [intro]: "64 < length hash \<Longrightarrow> keeps (cache_is c) (serve_live g cfg b hash full)"
  unfolding serve_live_def Let_def
  by (intro keeps_bind keeps_cache_try, simp only: split_paired_all case_prod_conv, intro keeps_bind keeps_cache_meta keeps_cache_generation keeps_ignore)
    (auto intro: keeps_cache_store)

lemma keeps_cache_persistent [intro]: "64 < length hash \<Longrightarrow> keeps (cache_is c) (serve_persistent g cfg b q hash full raw)"
  unfolding serve_persistent_def
  by (intro keeps_bind keeps_cache_persistent_meta keeps_cache_generation keeps_ignore keeps_cache_store keeps_ret)

lemma keeps_cache_boundary [intro!]: "keeps (cache_is c) (serve_boundary_miss g cfg b q full)"
  unfolding serve_boundary_miss_def by auto

lemma keeps_cache_uncached [intro]: "64 < length hash \<Longrightarrow> keeps (cache_is c) (serve_uncached g cfg b q n hash full)"
  unfolding serve_uncached_def by (intro keeps_bind keeps_cache_body) (auto split: option.split)

lemma length_queryHash: "length (queryHash req) = 2 * length (gq_raw req)"
  by (simp add: queryHash_def)

text \<open>Long queries are never cached. The key of a query is two hexadecimal digits for every byte of the query string, in a column of 64
  characters: a request whose query string has more than 32 bytes leaves the edge cache as it is.\<close>

theorem long_queries_are_not_cached:
  assumes "32 < length (gq_raw req)"
  shows "gis_cache (snd (Gis_Fetch g cfg req code s)) = gis_cache s"
proof -
  have long: "64 < length (queryHash req)" using assms by (simp add: length_queryHash)
  have "keeps (cache_is c) (Gis_Fetch g cfg req code :: ('a gisweb_scheme, gis_reply) go)" for c
    unfolding Gis_Fetch_def Let_def
    by (auto intro!: keeps_bind keeps_ret keeps_cache_uncached [OF long] split: option.split sum.split)
  from keepsD [OF this [of "gis_cache s"], of s] show ?thesis by (simp add: cache_is_def)
qed

text \<open>Storing, then looking up.\<close>

lemma find_upsert: "\<exists>r'. find (\<lambda>x. gh_hash x = gh_hash r) (upsert_one (\<lambda>x. Some (gh_hash x)) r t) = Some r' \<and> (r' = r)"
proof (cases "gh_hash r \<in> gh_hash ` set t")
  case True
  then have "find (\<lambda>x. gh_hash x = gh_hash r) (map (\<lambda>x. if gh_hash x = gh_hash r then r else x) t) = Some r"
    by (induction t) auto
  moreover have "Some (gh_hash r) \<in> (\<lambda>x. Some (gh_hash x)) ` set t" using True by auto
  ultimately show ?thesis by (simp add: upsert_one_def)
next
  case False
  then have "find (\<lambda>x. gh_hash x = gh_hash r) (t @ [r]) = Some r" by (induction t) auto
  moreover have "Some (gh_hash r) \<notin> (\<lambda>x. Some (gh_hash x)) ` set t" using False by auto
  ultimately show ?thesis by (simp add: upsert_one_def)
qed

lemma find_and: "find P xs = Some x \<Longrightarrow> Q x \<Longrightarrow> find (\<lambda>x. P x \<and> Q x) xs = Some x"
  by (induction xs) (auto split: if_splits)

lemma store_then_from:
  assumes "storeCache cfg hash raw k gen s = (Inr (), s1)" "no_faults s1"
    and "int (sum_list (delays s1)) < gcf_cache_ttl cfg"
  shows "\<exists>s2. fromCache hash s1 = (Inr (Some \<lparr>gh_hash = hash, gh_body = raw, gh_expires = clock s1 + gcf_cache_ttl cfg, gh_source = k, gh_generation = gen\<rparr>), s2) \<and>
    http_log s2 = http_log s1"
proof -
  obtain t s0 where now: "go_now s = (Inr t, s0)" "clock s0 = t" using go_now_Inr [of s] by (metis prod.collapse snd_conv)
  let ?r = "\<lparr>gh_hash = hash, gh_body = raw, gh_expires = t + gcf_cache_ttl cfg, gh_source = k, gh_generation = gen\<rparr>"
  let ?t = "upsert_one (\<lambda>r. Some (gh_hash r)) ?r (gis_cache s0)"
  from assms(1) have "sql (\<lambda>s. if length hash \<le> 64 \<and> length k \<le> 96 then Some ((), s\<lparr>gis_cache := upsert_one (\<lambda>r. Some (gh_hash r)) ?r (gis_cache s)\<rparr>) else None) s0 = (Inr (), s1)"
    by (simp add: storeCache_def go_simps now(1))
  from sql_Inr [OF this] have s1: "s1 = s0\<lparr>faults := tl (faults s0), gis_cache := ?t\<rparr>" by (simp split: if_splits)
  have c1: "clock s1 = t" by (simp add: s1 now(2))
  obtain t' s1' where now': "go_now s1 = (Inr t', s1')" "t' \<le> t + int (sum_list (delays s1))" "gis_cache s1' = ?t" "no_faults s1'" "http_log s1' = http_log s1"
    using assms(2) by (cases "delays s1") (auto simp: go_now_def no_faults_def s1 now(2))
  have "find (\<lambda>r. gh_hash r = hash \<and> t' < gh_expires r) ?t = Some ?r"
    using find_upsert [of ?r "gis_cache s0"] now'(2) assms(3) by (intro find_and) auto
  with now' show ?thesis
    by (simp add: fromCache_def go_simps sql_no_faults c1)
qed

text \<open>The edge cache answers. After a reply was stored under a request's key, the same request, while the time to live has not passed,
  gets the stored document with its source and generation, cut down to the caller's access, and nothing is asked of any server.\<close>

theorem stored_reply_is_served:
  assumes "storeCache cfg (queryHash req) raw k gen s = (Inr (), s1)" "no_faults s1" "int (sum_list (delays s1)) < gcf_cache_ttl cfg"
    and "ParseBBox (gq_query req) = Inr b" "SpanDeg b \<le> gcf_max_span cfg"
  shows "\<exists>s2. Gis_Show g cfg req s1 = (Inr (send_body cfg ''edge'' raw \<lparr>rm_source = k, rm_tier = ''cached'', rm_county = [],
      rm_type = query_type_text (ParseQueryType (gq_query req ''type'')), rm_full = requestFullAccess req, rm_degraded = False, rm_fallback = None,
      rm_generation = gen, rm_cached = True, rm_hit = Some ''edge'', rm_warnings = []\<rparr>), s2) \<and> http_log s2 = http_log s1"
  using store_then_from [OF assms(1-3)] assms(4,5)
  by (auto simp: Gis_Show_def Gis_Fetch_def Let_def go_simps cached_meta_def)

text \<open>Outside the counties with a server. A parcel request for a box that no enabled source covers is answered 200 with an empty body,
  which is no JSON document.\<close>

theorem uncovered_parcels_get_no_body:
  assumes "bound_exactly g" "gis_cache s = []" "ParseQueryType (gq_query req ''type'') = QParcel"
    and "ParseBBox (gq_query req) = Inr b" "SpanDeg b \<le> gcf_max_span cfg" "sourcesForBBox b = []"
  shows "\<exists>s'. Gis_Show g cfg req s = (Inr (GisBody ''miss'' RawEmpty), s')"
proof -
  obtain s1 where s1: "fromCache (queryHash req) s = (Inr None, s1)" using from_cache_empty [OF assms(2)] by blast
  obtain bs where s2: "persistent_body g cfg QParcel b (ParseLimit (gq_query req ''limit'') cfg) s1 = (Inr None, s1\<lparr>faults := bs\<rparr>)"
    using persistent_body_refused [OF assms(1)] by blast
  obtain g0 s3 where s3: "generation_or_zero [] (s1\<lparr>faults := bs\<rparr>) = (Inr g0, s3)" by (rule always_okE [OF generation_or_zero_ok])
  obtain g1 s4 where s4: "generation_or_zero ''unknown'' s3 = (Inr g1, s4)" by (rule always_okE [OF generation_or_zero_ok])
  have send: "send_body cfg ''miss'' RawEmpty meta = GisBody ''miss'' RawEmpty" for meta
    by (simp add: send_body_def wrapWithMeta_def applyTeaser_def unmarshal_map_def)
  show ?thesis using assms(3-6) s1 s2 s3 s4
    by (simp add: Gis_Show_def Gis_Fetch_def serve_uncached_def serve_live_def buildMeta_def go_simps Let_def send)
qed

section \<open>Witnesses\<close>

definition demo_deps :: gis_deps where
  "demo_deps = \<lparr>gd_meets = (\<lambda>_ _. True), gd_geojson = (\<lambda>v. v), gd_bound = (\<lambda>ps n. set ps = set [1..<Suc n]), gd_order = (\<lambda>x. x),
     gd_sha = (\<lambda>x. x), gd_text = (\<lambda>_. [])\<rparr>"

definition demo_gis_request :: "string \<Rightarrow> string \<Rightarrow> string \<Rightarrow> bool option \<Rightarrow> gis_request" where
  "demo_gis_request box ty raw full = \<lparr>gq_query = (\<lambda>k. if k = ''bbox'' then box else if k = ''type'' then ty else []), gq_raw = raw, gq_full = full\<rparr>"

definition demo_web :: "gis_cache_row list \<Rightarrow> http_reply list \<Rightarrow> gisweb" where
  "demo_web rows replies = gisdb.extend (demo_gis replies) (gisweb.fields rows)"

lemmas demo_web_defs = demo_web_def demo_gis_defs gisweb.defs

lemma demo_bound: "bound_exactly demo_deps"
  by (auto simp: bound_exactly_def demo_deps_def)

lemma demo_digits: "digit_val CHR ''8'' = Some 8" "digit_val CHR ''2'' = Some 2" "digit_val CHR ''1'' = Some 1" "digit_val CHR ''9'' = Some 9"
  by code_simp+

lemma demo_digit: "is_digit CHR ''8''" "is_digit CHR ''2''" "is_digit CHR ''1''" "is_digit CHR ''9''"
  by code_simp+

lemma demo_numbers: "parse_float ''-82'' = Some (-82)" "parse_float ''28'' = Some 28" "parse_float ''-81'' = Some (-81)" "parse_float ''29'' = Some 29"
  by (simp_all add: parse_float_def read_sign_def read_nat_def parse_exponent_def scale10_def demo_digits demo_digit)

lemma demo_parts: "split_char CHR '','' ''-82,28,-81,29'' = [''-82'', ''28'', ''-81'', ''29'']"
  by code_simp

lemma demo_trims: "trim_space ''-82,28,-81,29'' = ''-82,28,-81,29''" "trim_space ''-82'' = ''-82''" "trim_space ''28'' = ''28''"
  "trim_space ''-81'' = ''-81''" "trim_space ''29'' = ''29''"
  by code_simp+

lemma demo_box: "ParseBBox (gq_query (demo_gis_request ''-82,28,-81,29'' ty raw full)) = Inr \<lparr>bb_west = -82, bb_south = 28, bb_east = -81, bb_north = 29\<rparr>"
proof -
  have "gq_query (demo_gis_request ''-82,28,-81,29'' ty raw full) ''bbox'' = ''-82,28,-81,29''" by (simp add: demo_gis_request_def)
  then show ?thesis by (simp add: ParseBBox_def Let_def demo_trims demo_parts demo_numbers)
qed

lemma demo_span: "SpanDeg \<lparr>bb_west = -82, bb_south = 28, bb_east = -81, bb_north = 29\<rparr> \<le> gcf_max_span demo_gis_config"
  by (simp add: SpanDeg_def demo_gis_config_def)

lemma demo_types: "ParseQueryType (gq_query (demo_gis_request box ''city'' raw full) ''type'') = QCity"
  "ParseQueryType (gq_query (demo_gis_request box [] raw full) ''type'') = QParcel"
proof -
  have "ParseQueryType ''city'' = QCity" "ParseQueryType [] = QParcel" by code_simp+
  then show "ParseQueryType (gq_query (demo_gis_request box ''city'' raw full) ''type'') = QCity"
    "ParseQueryType (gq_query (demo_gis_request box [] raw full) ''type'') = QParcel" by (simp_all add: demo_gis_request_def)
qed

definition demo_point :: "real \<Rightarrow> json" where
  "demo_point x = JObj [(''geometry'', JObj [(''coordinates'', JArr [JNum x, JNum 28])]), (''properties'', JObj [])]"

definition demo_collection :: raw_message where
  "demo_collection = RawJson (JObj [(''features'', JArr [demo_point (-81.12345), demo_point (-81.5)])])"

definition demo_cache_row :: gis_cache_row where
  "demo_cache_row = \<lparr>gh_hash = [], gh_body = demo_collection, gh_expires = 10 ^ 30, gh_source = ''gis'', gh_generation = 1\<rparr>"

theorem teaser_on_every_reply_witness:
  "\<exists>fc s'. Gis_Fetch demo_deps demo_gis_config (demo_gis_request ''-82,28,-81,29'' [] [] (Some False)) None (demo_web [demo_cache_row] []) =
      (Inr (GisBody ''edge'' (RawJson (JObj fc))), s') \<and> teaser_respected demo_gis_config fc"
proof -
  let ?req = "demo_gis_request ''-82,28,-81,29'' [] [] (Some False)" and ?s = "demo_web [demo_cache_row] []"
  have "\<not> requestFullAccess ?req" by (simp add: requestFullAccess_def demo_gis_request_def)
  moreover have "\<exists>s'. fromCache (queryHash ?req) ?s = (Inr (Some demo_cache_row), s')"
    by (simp add: fromCache_def go_simps go_now_def sql_def demo_web_defs demo_cache_row_def queryHash_def hex_encode_def demo_gis_request_def second_def)
  then obtain s' where "fromCache (queryHash ?req) ?s = (Inr (Some demo_cache_row), s')" ..
  then have run: "Gis_Fetch demo_deps demo_gis_config ?req None ?s = (Inr (send_body demo_gis_config ''edge'' demo_collection
      (cached_meta demo_cache_row (requestFullAccess ?req) (ParseQueryType (gq_query ?req ''type'')))), s')"
    using demo_span by (simp add: Gis_Fetch_def demo_box go_simps Let_def) (simp add: demo_cache_row_def)
  moreover have "\<exists>fc. send_body demo_gis_config ''edge'' demo_collection meta = GisBody ''edge'' (RawJson (JObj fc))" for meta
    by (simp add: send_body_def wrapWithMeta_def applyTeaser_def demo_collection_def unmarshal_map_def)
  then obtain fc where "send_body demo_gis_config ''edge'' demo_collection
      (cached_meta demo_cache_row (requestFullAccess ?req) (ParseQueryType (gq_query ?req ''type''))) = GisBody ''edge'' (RawJson (JObj fc))" by blast
  ultimately show ?thesis using teaser_on_every_reply [of ?req demo_deps demo_gis_config None ?s "''edge''" fc s'] by simp
qed

lemma demo_web_cache: "gis_cache (demo_web rows rs) = rows"
  by (simp add: demo_web_defs)

lemma demo_counties: "bb_east (countyBBox ''hillsborough'') < - 82" "bb_east (countyBBox ''pinellas'') < - 82"
  by (simp_all add: countyBBox_def countySyncBBoxes_def)

lemma demo_uncovered: "sourcesForBBox \<lparr>bb_west = -82, bb_south = 28, bb_east = -81, bb_north = 29\<rparr> = []"
  by (simp add: sourcesForBBox_def FailoverSourcesForBBox_def ParcelSourceCatalog_def intersects_def demo_counties)

theorem boundary_requests_are_empty_witness:
  "\<exists>fc s'. Gis_Show demo_deps demo_gis_config (demo_gis_request ''-82,28,-81,29'' ''city'' [] None) ((demo_web [] [])\<lparr>gis_cities := [demo_city 1 None]\<rparr>) =
      (Inr (GisBody ''miss'' (RawJson (JObj fc))), s') \<and> lookup_any fc ''features'' = JArr []"
  using boundary_requests_are_empty [OF demo_bound, of "(demo_web [] [])\<lparr>gis_cities := [demo_city 1 None]\<rparr>"
      "demo_gis_request ''-82,28,-81,29'' ''city'' [] None", OF _ _ demo_box demo_span]
  by (auto simp: demo_web_cache demo_types)

theorem persistent_tables_are_never_served_witness:
  "case fst (Gis_Show demo_deps demo_gis_config (demo_gis_request ''-82,28,-81,29'' ''city'' [] None) ((demo_web [] [])\<lparr>gis_cities := [demo_city 1 None]\<rparr>)) of
     Inr (GisBody h _) \<Rightarrow> h \<noteq> ''persistent'' | _ \<Rightarrow> True"
  using persistent_tables_are_never_served [OF demo_bound, of demo_gis_config "demo_gis_request ''-82,28,-81,29'' ''city'' [] None" None
      "(demo_web [] [])\<lparr>gis_cities := [demo_city 1 None]\<rparr>"]
  by (auto simp: Gis_Show_def split: sum.split gis_reply.split) (metis fst_conv prod.collapse)

theorem long_queries_are_not_cached_witness:
  "gis_cache (snd (Gis_Fetch demo_deps demo_gis_config (demo_gis_request ''-82,28,-81,29'' [] ''bbox=-82.0,28.0,-81.0,29.0&limit=100'' None) None (demo_web [] []))) = []"
  using long_queries_are_not_cached [of "demo_gis_request ''-82,28,-81,29'' [] ''bbox=-82.0,28.0,-81.0,29.0&limit=100'' None"
      demo_deps demo_gis_config None "demo_web [] []"]
  by (simp add: demo_web_cache) (simp add: demo_gis_request_def)

theorem uncovered_parcels_get_no_body_witness:
  "\<exists>s'. Gis_Show demo_deps demo_gis_config (demo_gis_request ''-82,28,-81,29'' [] [] None) (demo_web [] []) = (Inr (GisBody ''miss'' RawEmpty), s')"
  using uncovered_parcels_get_no_body [OF demo_bound, of "demo_web [] []" "demo_gis_request ''-82,28,-81,29'' [] [] None", OF _ _ demo_box demo_span demo_uncovered]
  by (simp add: demo_web_cache demo_types)

theorem stored_reply_is_served_witness:
  "\<exists>s1 s2. storeCache demo_gis_config (queryHash (demo_gis_request ''-82,28,-81,29'' [] ''bbox=-82,28,-81,29'' None)) demo_collection ''gis'' 1 (demo_web [] []) = (Inr (), s1) \<and>
     Gis_Show demo_deps demo_gis_config (demo_gis_request ''-82,28,-81,29'' [] ''bbox=-82,28,-81,29'' None) s1 =
       (Inr (send_body demo_gis_config ''edge'' demo_collection \<lparr>rm_source = ''gis'', rm_tier = ''cached'', rm_county = [], rm_type = ''parcel'', rm_full = True,
          rm_degraded = False, rm_fallback = None, rm_generation = 1, rm_cached = True, rm_hit = Some ''edge'', rm_warnings = []\<rparr>), s2)"
proof -
  let ?req = "demo_gis_request ''-82,28,-81,29'' [] ''bbox=-82,28,-81,29'' None"
  have full: "requestFullAccess ?req = True" by (simp add: requestFullAccess_def demo_gis_request_def)
  have len: "length (queryHash ?req) \<le> 64" by (simp add: length_queryHash) (simp add: demo_gis_request_def)
  have "faults (demo_web [] []) = []" "delays (demo_web [] []) = []" by (simp_all add: demo_web_defs)
  with len have "\<exists>s1. storeCache demo_gis_config (queryHash ?req) demo_collection ''gis'' 1 (demo_web [] []) = (Inr (), s1) \<and> faults s1 = [] \<and> delays s1 = []"
    by (simp add: storeCache_def go_simps go_now_nil sql_nil)
  then obtain s1 where s1: "storeCache demo_gis_config (queryHash ?req) demo_collection ''gis'' 1 (demo_web [] []) = (Inr (), s1)" "faults s1 = []" "delays s1 = []"
    by blast
  have "no_faults s1" "int (sum_list (delays s1)) < gcf_cache_ttl demo_gis_config"
    using s1 by (simp_all add: no_faults_def demo_gis_config_def)
  from stored_reply_is_served [OF s1(1) this demo_box demo_span, of demo_deps] s1(1) show ?thesis
    by (auto simp: demo_types query_type_text_def full)
qed

end
