(* ===== verification/Scheduler.thy ===== *)
theory Scheduler
  imports Gis_Sync Queue_Worker
begin

text \<open>
  The scheduler (\<^verbatim>\<open>internal/scheduler\<close>: \<^verbatim>\<open>leader.go\<close>, \<^verbatim>\<open>scheduler.go\<close>) and the job registry (\<^verbatim>\<open>internal/job/registry.go\<close>).
  Several scheduler processes compete for one PostgreSQL advisory lock; the one that holds it registers the cron table and enqueues jobs.

  A process is a \<open>node\<close>; the lock belongs to the database session of the node that took it. The cluster moves by the step relation
  \<open>cluster_step\<close>, one rule for every point at which a process can be interrupted; a label names the node that moved. The clock of the
  cron library is not modelled: a registered entry may fire at any time while the node leads. \<open>spec_ok\<close> says whether the cron library
  accepts a schedule. With \<open>steady\<close> false a database session may end while its process goes on.
\<close>

section \<open>The cron table\<close>

record sched_config =
  scf_lock_key :: int
  scf_crypto_queue :: string
  scf_kickoff_queue :: string
  scf_fema_queue :: string
  scf_gis_queue :: string
  scf_gis_sync_queue :: string

datatype cron_action = EnqueueAction string string | BootstrapAction

record cron_job =
  cj_name :: string
  cj_spec :: string
  cj_action :: cron_action

definition add_func :: "(string \<Rightarrow> bool) \<Rightarrow> cron_job \<Rightarrow> cron_job list \<Rightarrow> cron_job list" where
  "add_func spec_ok j entries = (if spec_ok (cj_spec j) then entries @ [j] else entries)"

definition addJob :: "(string \<Rightarrow> bool) \<Rightarrow> string \<Rightarrow> string \<Rightarrow> string \<Rightarrow> string \<Rightarrow> cron_job list \<Rightarrow> cron_job list" where
  "addJob spec_ok name spec queueName jobType = add_func spec_ok \<lparr>cj_name = name, cj_spec = spec, cj_action = EnqueueAction queueName jobType\<rparr>"

text \<open>The registrations at the head of \<^verbatim>\<open>runAsLeader\<close>, in their order.\<close>

definition register_cron :: "(string \<Rightarrow> bool) \<Rightarrow> sched_config \<Rightarrow> cron_job list \<Rightarrow> cron_job list" where
  "register_cron ok cfg entries =
     add_func ok \<lparr>cj_name = ''gis-bootstrap-recheck'', cj_spec = ''0 15 */6 * * *'', cj_action = BootstrapAction\<rparr>
     (addJob ok ''gis-annual-boundaries-refresh'' ''0 0 3 1 1 *'' (scf_gis_sync_queue cfg) ''gis.annual_boundaries_refresh''
     (addJob ok ''gis-monthly-parcel-refresh'' ''0 0 2 1 * *'' (scf_gis_sync_queue cfg) ''gis.monthly_parcel_refresh''
     (addJob ok ''gis-probe'' ''0 30 6 * * 1'' (scf_gis_queue cfg) ''gis.probe_sources''
     (addJob ok ''fema-flood-enrich'' ''0 30 4 * * *'' (scf_fema_queue cfg) ''fema.flood_enrich_kickoff''
     (addJob ok ''purge-closed'' ''0 5 3 * * *'' ''default'' ''mls.purge_closed_listings''
     (addJob ok ''purge-replica'' ''0 15 4 * * *'' ''default'' ''mls.purge_replica_pages''
     (addJob ok ''mls-kickoff'' ''0 * * * * *'' (scf_kickoff_queue cfg) ''mls.replication_kickoff''
     (addJob ok ''mls-proxy-cache-purge'' ''0 */15 * * * *'' ''default'' ''mls.proxy_cache_purge''
     (addJob ok ''coingecko'' ''0 */10 * * * *'' (scf_crypto_queue cfg) ''crypto.refresh_pricing'' entries)))))))))"

section \<open>Enqueueing\<close>

text \<open>\<open>ctx_done\<close> says that the process has been told to stop: the driver refuses every statement. Failures are logged.\<close>

definition sched_enqueue :: "client \<Rightarrow> bool \<Rightarrow> string \<Rightarrow> string \<Rightarrow> ('z qdb_scheme, unit) go" where
  "sched_enqueue c ctx_done queueName jobType =
     (if ctx_done then go_ret () else go_ignore (Enqueue c queueName jobType None 0))"

definition enqueueGISSyncBootstrap :: "client \<Rightarrow> bool \<Rightarrow> sched_config \<Rightarrow> ('z gisdb_scheme, unit) go" where
  "enqueueGISSyncBootstrap c ctx_done cfg =
     (if ctx_done then go_ret ()
      else go_bind (go_try LoadLayerCounts) (\<lambda>r. case r of
        Inl _ \<Rightarrow> go_ret ()
      | Inr counts \<Rightarrow> (if \<not> NeedsBootstrap counts then go_ret ()
          else let queueName = (if scf_gis_sync_queue cfg = [] then ''default'' else scf_gis_sync_queue cfg) in
            go_each (\<lambda>action. sched_enqueue c ctx_done queueName (act_type action)) (PlanBootstrapActions counts))))"

definition run_action :: "client \<Rightarrow> bool \<Rightarrow> sched_config \<Rightarrow> cron_action \<Rightarrow> ('z gisdb_scheme, unit) go" where
  "run_action c ctx_done cfg action = (case action of
      EnqueueAction q ty \<Rightarrow> sched_enqueue c ctx_done q ty
    | BootstrapAction \<Rightarrow> enqueueGISSyncBootstrap c ctx_done cfg)"

text \<open>What \<^verbatim>\<open>runAsLeader\<close> enqueues before it starts the cron.\<close>

definition startup_jobs :: "client \<Rightarrow> bool \<Rightarrow> sched_config \<Rightarrow> ('z gisdb_scheme, unit) go" where
  "startup_jobs c ctx_done cfg = go_bind (sched_enqueue c ctx_done (scf_kickoff_queue cfg) ''mls.replication_kickoff'') (\<lambda>_.
     enqueueGISSyncBootstrap c ctx_done cfg)"

section \<open>The leader lock\<close>

type_synonym lock_table = "int \<Rightarrow> nat option"

definition DefaultLeaderLockKey :: int where
  "DefaultLeaderLockKey = 913374211"

definition lock_key :: "sched_config \<Rightarrow> int" where
  "lock_key cfg = (if scf_lock_key cfg = 0 then DefaultLeaderLockKey else scf_lock_key cfg)"

text \<open>\<^verbatim>\<open>pg_try_advisory_lock\<close> on the session of node \<open>i\<close>; \<open>fails\<close> is an error of the pool or of the statement.\<close>

definition TryAcquireLeader :: "bool \<Rightarrow> int \<Rightarrow> nat \<Rightarrow> lock_table \<Rightarrow> (unit + bool) \<times> lock_table" where
  "TryAcquireLeader fails k i locks =
     (if fails then (Inl (), locks)
      else if locks k = None \<or> locks k = Some i then (Inr True, locks(k := Some i))
      else (Inr False, locks))"

text \<open>\<^verbatim>\<open>Release\<close> sends \<^verbatim>\<open>pg_advisory_unlock\<close> with the context it is given: with a cancelled one nothing is sent. The connection goes back to
  the pool and its session stays.\<close>

definition Leader_Release :: "bool \<Rightarrow> int \<Rightarrow> nat \<Rightarrow> lock_table \<Rightarrow> lock_table" where
  "Leader_Release ctx_done k i locks = (if \<not> ctx_done \<and> locks k = Some i then locks(k := None) else locks)"

text \<open>The session ends: the server frees the locks it holds.\<close>

definition end_session :: "nat \<Rightarrow> lock_table \<Rightarrow> lock_table" where
  "end_session i locks = (\<lambda>k. if locks k = Some i then None else locks k)"

section \<open>Processes\<close>

datatype phase = Checking | Standby | Starting | Leading | Stopping | Returned | Exited

record node =
  nd_phase :: phase
  nd_cancelled :: bool
  nd_entries :: "cron_job list"
  nd_locks :: "string list"
  nd_running :: "cron_job list"

definition new_node :: node where
  "new_node = \<lparr>nd_phase = Checking, nd_cancelled = False, nd_entries = [], nd_locks = [], nd_running = []\<rparr>"

text \<open>\<^verbatim>\<open>withoutOverlap\<close>: \<^verbatim>\<open>LoadOrStore\<close> before the run, \<^verbatim>\<open>Delete\<close> after it.\<close>

definition overlap_start :: "cron_job \<Rightarrow> node \<Rightarrow> node" where
  "overlap_start j n = (if cj_name j \<in> set (nd_locks n) then n
     else n\<lparr>nd_locks := cj_name j # nd_locks n, nd_running := j # nd_running n\<rparr>)"

definition overlap_end :: "cron_job \<Rightarrow> node \<Rightarrow> node" where
  "overlap_end j n = n\<lparr>nd_locks := removeAll (cj_name j) (nd_locks n), nd_running := remove1 j (nd_running n)\<rparr>"

record cluster =
  cl_nodes :: "nat \<Rightarrow> node"
  cl_locks :: lock_table
  cl_db :: gisdb

definition set_node :: "nat \<Rightarrow> node \<Rightarrow> cluster \<Rightarrow> cluster" where
  "set_node i n s = s\<lparr>cl_nodes := (cl_nodes s)(i := n)\<rparr>"

record sched =
  sd_cfg :: sched_config
  sd_client :: client
  sd_spec_ok :: "string \<Rightarrow> bool"

text \<open>The steps of \<^verbatim>\<open>Run\<close> and \<^verbatim>\<open>runAsLeader\<close>, of the cron's goroutines, of the process and of everything else that writes the database.\<close>

inductive cluster_step :: "bool \<Rightarrow> sched \<Rightarrow> nat option \<Rightarrow> cluster \<Rightarrow> cluster \<Rightarrow> bool" for steady d where
  signal: "cluster_step steady d (Some i) s (set_node i ((cl_nodes s i)\<lparr>nd_cancelled := True\<rparr>) s)"
| check_cancelled: "n = cl_nodes s i \<Longrightarrow> nd_phase n = Checking \<Longrightarrow> nd_cancelled n \<Longrightarrow>
    cluster_step steady d (Some i) s (set_node i (n\<lparr>nd_phase := Returned\<rparr>) s)"
| acquire_fails: "n = cl_nodes s i \<Longrightarrow> nd_phase n = Checking \<Longrightarrow> TryAcquireLeader True (lock_key (sd_cfg d)) i (cl_locks s) = (Inl (), l) \<Longrightarrow>
    cluster_step steady d (Some i) s (set_node i (n\<lparr>nd_phase := Returned\<rparr>) s)"
| acquire_refused: "n = cl_nodes s i \<Longrightarrow> nd_phase n = Checking \<Longrightarrow> \<not> nd_cancelled n \<Longrightarrow>
    TryAcquireLeader False (lock_key (sd_cfg d)) i (cl_locks s) = (Inr False, l) \<Longrightarrow>
    cluster_step steady d (Some i) s (set_node i (n\<lparr>nd_phase := Standby\<rparr>) s)"
| acquired: "n = cl_nodes s i \<Longrightarrow> nd_phase n = Checking \<Longrightarrow> \<not> nd_cancelled n \<Longrightarrow>
    TryAcquireLeader False (lock_key (sd_cfg d)) i (cl_locks s) = (Inr True, l) \<Longrightarrow>
    cluster_step steady d (Some i) s (set_node i (n\<lparr>nd_phase := Starting\<rparr>) (s\<lparr>cl_locks := l\<rparr>))"
| standby_tick: "n = cl_nodes s i \<Longrightarrow> nd_phase n = Standby \<Longrightarrow>
    cluster_step steady d (Some i) s (set_node i (n\<lparr>nd_phase := Checking\<rparr>) s)"
| standby_cancelled: "n = cl_nodes s i \<Longrightarrow> nd_phase n = Standby \<Longrightarrow> nd_cancelled n \<Longrightarrow>
    cluster_step steady d (Some i) s (set_node i (n\<lparr>nd_phase := Returned\<rparr>) s)"
| lead: "n = cl_nodes s i \<Longrightarrow> nd_phase n = Starting \<Longrightarrow>
    cluster_step steady d (Some i) s (set_node i (n\<lparr>nd_phase := Leading, nd_entries := register_cron (sd_spec_ok d) (sd_cfg d) (nd_entries n)\<rparr>)
      (s\<lparr>cl_db := snd (startup_jobs (sd_client d) (nd_cancelled n) (sd_cfg d) (cl_db s))\<rparr>))"
| fire: "n = cl_nodes s i \<Longrightarrow> nd_phase n = Leading \<Longrightarrow> j \<in> set (nd_entries n) \<Longrightarrow>
    cluster_step steady d (Some i) s (set_node i (overlap_start j n) s)"
| finish: "n = cl_nodes s i \<Longrightarrow> j \<in> set (nd_running n) \<Longrightarrow>
    cluster_step steady d (Some i) s (set_node i (overlap_end j n)
      (s\<lparr>cl_db := snd (run_action (sd_client d) (nd_cancelled n) (sd_cfg d) (cj_action j) (cl_db s))\<rparr>))"
| stop: "n = cl_nodes s i \<Longrightarrow> nd_phase n = Leading \<Longrightarrow> nd_cancelled n \<Longrightarrow>
    cluster_step steady d (Some i) s (set_node i (n\<lparr>nd_phase := Stopping\<rparr>) s)"
| release: "n = cl_nodes s i \<Longrightarrow> nd_phase n = Stopping \<Longrightarrow>
    cluster_step steady d (Some i) s (set_node i (n\<lparr>nd_phase := Returned\<rparr>)
      (s\<lparr>cl_locks := Leader_Release (nd_cancelled n) (lock_key (sd_cfg d)) i (cl_locks s)\<rparr>))"
| exit: "cluster_step steady d (Some i) s (set_node i ((cl_nodes s i)\<lparr>nd_phase := Exited, nd_running := []\<rparr>) (s\<lparr>cl_locks := end_session i (cl_locks s)\<rparr>))"
| restart: "nd_phase (cl_nodes s i) = Exited \<Longrightarrow> cluster_step steady d (Some i) s (set_node i new_node s)"
| session_lost: "\<not> steady \<Longrightarrow> cluster_step steady d None s (s\<lparr>cl_locks := end_session i (cl_locks s)\<rparr>)"
| others: "cluster_step steady d None s (s\<lparr>cl_db := db\<rparr>)"

inductive cluster_reach :: "bool \<Rightarrow> sched \<Rightarrow> cluster \<Rightarrow> bool" for steady d where
  reach_start: "cluster_reach steady d \<lparr>cl_nodes = (\<lambda>_. new_node), cl_locks = (\<lambda>_. None), cl_db = db\<rparr>"
| reach_step: "cluster_reach steady d s \<Longrightarrow> cluster_step steady d lab s s' \<Longrightarrow> cluster_reach steady d s'"

section \<open>The job registry\<close>

text \<open>The services behind the handlers are fields; \<^verbatim>\<open>RegisterAll\<close> fixes which job type goes to which.\<close>

record 's registry =
  rg_kickoff :: "reserved_job \<Rightarrow> ('s, unit) go"
  rg_proxy_purge :: "reserved_job \<Rightarrow> ('s, unit) go"
  rg_bridge_fetch :: "reserved_job \<Rightarrow> ('s, unit) go"
  rg_bridge_chunk :: "reserved_job \<Rightarrow> ('s, unit) go"
  rg_bridge_finalize :: "reserved_job \<Rightarrow> ('s, unit) go"
  rg_spark_fetch :: "reserved_job \<Rightarrow> ('s, unit) go"
  rg_spark_chunk :: "reserved_job \<Rightarrow> ('s, unit) go"
  rg_spark_finalize :: "reserved_job \<Rightarrow> ('s, unit) go"
  rg_purge_closed :: "reserved_job \<Rightarrow> ('s, unit) go"
  rg_purge_pages :: "reserved_job \<Rightarrow> ('s, unit) go"
  rg_gis_probe :: "reserved_job \<Rightarrow> ('s, unit) go"
  rg_gis_monthly :: "reserved_job \<Rightarrow> ('s, unit) go"
  rg_gis_annual :: "reserved_job \<Rightarrow> ('s, unit) go"
  rg_gis_initial :: "reserved_job \<Rightarrow> ('s, unit) go"
  rg_gis_zip :: "reserved_job \<Rightarrow> ('s, unit) go"
  rg_gis_page :: "reserved_job \<Rightarrow> ('s, unit) go"
  rg_crypto :: "reserved_job \<Rightarrow> ('s, unit) go"
  rg_fema_kickoff :: "reserved_job \<Rightarrow> ('s, unit) go"
  rg_fema_batch :: "reserved_job \<Rightarrow> ('s, unit) go"

definition handleNoop :: "reserved_job \<Rightarrow> ('s, unit) go" where
  "handleNoop job = go_ret ()"

definition registrations :: "'s registry \<Rightarrow> (string \<times> (reserved_job \<Rightarrow> ('s, unit) go)) list" where
  "registrations r = [(''noop'', handleNoop), (''mls.replication_kickoff'', rg_kickoff r), (''mls.proxy_cache_purge'', rg_proxy_purge r),
     (''bridge.fetch_page'', rg_bridge_fetch r), (''bridge.persist_chunk'', rg_bridge_chunk r), (''bridge.persist_finalize'', rg_bridge_finalize r),
     (''spark.fetch_page'', rg_spark_fetch r), (''spark.persist_chunk'', rg_spark_chunk r), (''spark.persist_finalize'', rg_spark_finalize r),
     (''mls.purge_closed_listings'', rg_purge_closed r), (''mls.purge_replica_pages'', rg_purge_pages r), (''gis.probe_sources'', rg_gis_probe r),
     (''gis.monthly_parcel_refresh'', rg_gis_monthly r), (''gis.annual_boundaries_refresh'', rg_gis_annual r), (''gis.initial_sync'', rg_gis_initial r),
     (''gis.zip_sync'', rg_gis_zip r), (''gis.parcel_sync_page'', rg_gis_page r), (''crypto.refresh_pricing'', rg_crypto r),
     (''fema.flood_enrich_kickoff'', rg_fema_kickoff r), (''fema.flood_enrich_batch'', rg_fema_batch r)]"

definition RegisterAll :: "'s registry \<Rightarrow> 's handlers \<Rightarrow> 's handlers" where
  "RegisterAll r hs = fold (\<lambda>(ty, fn). Register ty fn) (registrations r) hs"

section \<open>The command line\<close>

text \<open>\<^verbatim>\<open>cmd/gis-enqueue\<close>: one job for the GIS queue, or the kickoff of one county. A usage error exits before the database is touched.\<close>

definition gis_enqueue_main :: "gis_service \<Rightarrow> sched_config \<Rightarrow> string \<Rightarrow> string \<Rightarrow> ('z gisdb_scheme, unit) go" where
  "gis_enqueue_main svc cfg job county =
     (if job \<notin> {''parcels'', ''zips'', ''boundaries''} then go_fail (Err ''usage'')
      else let queueName = (if scf_gis_sync_queue cfg = [] then ''default'' else scf_gis_sync_queue cfg) in
        if job = ''parcels'' \<and> county \<noteq> [] then KickoffCounty svc county
        else go_bind (Enqueue (gs_queue svc) queueName
            (if job = ''parcels'' then ''gis.monthly_parcel_refresh'' else if job = ''zips'' then ''gis.zip_sync'' else ''gis.annual_boundaries_refresh'')
            None 0) (\<lambda>_. go_ret ()))"

section \<open>Lemmas\<close>

text \<open>Nodes that act as leader.\<close>

definition in_charge :: "node \<Rightarrow> bool" where
  "in_charge n \<longleftrightarrow> nd_phase n \<in> {Starting, Leading, Stopping}"

text \<open>The invariant of a node that holds whatever happens to sessions: the runs in progress are those of the overlap table, only a leader that has not
  been told to stop has runs in progress or has been told to stop, and only a cancelled one stops.\<close>

definition node_inv :: "node \<Rightarrow> bool" where
  "node_inv n \<longleftrightarrow> distinct (map cj_name (nd_running n)) \<and> (nd_phase n \<noteq> Exited \<longrightarrow> set (nd_locks n) = cj_name ` set (nd_running n)) \<and>
     (nd_phase n = Stopping \<longrightarrow> nd_cancelled n) \<and> (nd_running n \<noteq> [] \<longrightarrow> nd_phase n = Leading \<or> nd_cancelled n)"

lemma node_inv_new: "node_inv new_node"
  by (simp add: node_inv_def new_node_def)

lemma node_inv_start: "node_inv n \<Longrightarrow> nd_phase n = Leading \<Longrightarrow> node_inv (overlap_start j n)"
  by (auto simp: node_inv_def overlap_start_def)

lemma node_inv_end:
  assumes "node_inv n" "j \<in> set (nd_running n)"
  shows "node_inv (overlap_end j n)"
proof -
  have "distinct (map cj_name (nd_running n))" using assms(1) by (simp add: node_inv_def)
  then have d: "distinct (map cj_name (remove1 j (nd_running n)))" "cj_name ` set (remove1 j (nd_running n)) = cj_name ` set (nd_running n) - {cj_name j}"
    using assms(2) by (auto simp: distinct_map inj_on_def)
  have "remove1 j (nd_running n) \<noteq> [] \<Longrightarrow> nd_running n \<noteq> []" by auto
  with assms(1) d show ?thesis by (auto simp: node_inv_def overlap_end_def)
qed

lemma node_inv_simps:
  "node_inv n \<Longrightarrow> node_inv (n\<lparr>nd_cancelled := True\<rparr>)"
  "node_inv n \<Longrightarrow> nd_phase n \<notin> {Leading, Exited} \<Longrightarrow> p \<noteq> Stopping \<Longrightarrow> node_inv (n\<lparr>nd_phase := p\<rparr>)"
  "node_inv n \<Longrightarrow> nd_cancelled n \<Longrightarrow> nd_phase n = Leading \<Longrightarrow> node_inv (n\<lparr>nd_phase := Stopping\<rparr>)"
  "node_inv n \<Longrightarrow> node_inv (n\<lparr>nd_phase := Exited, nd_running := []\<rparr>)"
  "node_inv (n\<lparr>nd_entries := es\<rparr>) = node_inv n" "node_inv (n\<lparr>nd_phase := p, nd_entries := es\<rparr>) = node_inv (n\<lparr>nd_phase := p\<rparr>)"
  by (auto simp: node_inv_def)

lemma set_node_simps [simp]:
  "cl_nodes (set_node i n s) = (cl_nodes s)(i := n)" "cl_locks (set_node i n s) = cl_locks s" "cl_db (set_node i n s) = cl_db s"
  by (simp_all add: set_node_def)

lemma node_inv_step: "cluster_step steady d lab s s' \<Longrightarrow> \<forall>i. node_inv (cl_nodes s i) \<Longrightarrow> \<forall>i. node_inv (cl_nodes s' i)"
  by (induction rule: cluster_step.induct) (simp_all add: node_inv_new node_inv_start node_inv_end node_inv_simps)

lemma reach_node_inv: "cluster_reach steady d s \<Longrightarrow> node_inv (cl_nodes s i)"
proof -
  assume "cluster_reach steady d s"
  then have "\<forall>i. node_inv (cl_nodes s i)"
    by (induction rule: cluster_reach.induct) (simp_all add: node_inv_new node_inv_step)
  then show ?thesis ..
qed

text \<open>While sessions live as long as their processes, who acts as leader holds the lock.\<close>

definition lock_inv :: "sched \<Rightarrow> cluster \<Rightarrow> bool" where
  "lock_inv d s \<longleftrightarrow> (\<forall>i. in_charge (cl_nodes s i) \<longrightarrow> cl_locks s (lock_key (sd_cfg d)) = Some i)"

lemma in_charge_simps:
  "in_charge (n\<lparr>nd_phase := p\<rparr>) \<longleftrightarrow> p \<in> {Starting, Leading, Stopping}" "in_charge (n\<lparr>nd_cancelled := b\<rparr>) = in_charge n"
  "in_charge (n\<lparr>nd_phase := p, nd_entries := es\<rparr>) \<longleftrightarrow> p \<in> {Starting, Leading, Stopping}"
  "in_charge (overlap_start j n) = in_charge n" "in_charge (overlap_end j n) = in_charge n" "\<not> in_charge new_node"
  "nd_phase n = Leading \<Longrightarrow> in_charge n" "nd_phase n = Starting \<Longrightarrow> in_charge n" "nd_phase n = Stopping \<Longrightarrow> in_charge n"
  by (simp_all add: in_charge_def overlap_start_def overlap_end_def new_node_def)

lemma lock_inv_step:
  assumes "cluster_step True d lab s s'" "\<forall>i. node_inv (cl_nodes s i)" "lock_inv d s"
  shows "lock_inv d s'"
  using assms
proof (induction rule: cluster_step.induct)
  case (acquired n s k l)
  then have l: "cl_locks s (lock_key (sd_cfg d)) \<in> {None, Some k}" "l = (cl_locks s)(lock_key (sd_cfg d) := Some k)"
    by (auto simp: TryAcquireLeader_def split: if_splits)
  have "\<not> in_charge (cl_nodes s i)" if "i \<noteq> k" for i
    using acquired.prems(2) l(1) that by (auto simp: lock_inv_def)
  then show ?case by (simp add: lock_inv_def l(2))
next
  case (release n s k)
  then have "nd_cancelled n" by (simp add: node_inv_def)
  then have "Leader_Release (nd_cancelled n) (lock_key (sd_cfg d)) k (cl_locks s) = cl_locks s" by (simp add: Leader_Release_def)
  with release.prems(2) show ?case by (simp add: lock_inv_def in_charge_def)
next
  case (exit k s)
  then show ?case by (auto simp: lock_inv_def in_charge_def end_session_def)
qed (auto simp: lock_inv_def in_charge_simps)

lemma reach_lock_inv: "cluster_reach True d s \<Longrightarrow> lock_inv d s"
proof (induction rule: cluster_reach.induct)
  case (reach_start db)
  show ?case by (simp add: lock_inv_def in_charge_def new_node_def)
next
  case (reach_step s lab s')
  then show ?case using lock_inv_step reach_node_inv by blast
qed

section \<open>Properties\<close>

text \<open>(C15) One leader. While database sessions live as long as their processes, at most one process of the cluster acts as leader, through
  every interleaving of elections, shutdowns, crashes and restarts.\<close>

theorem at_most_one_leader:
  assumes "cluster_reach True d s" "in_charge (cl_nodes s i)" "in_charge (cl_nodes s k)"
  shows "i = k"
  using reach_lock_inv [OF assms(1)] assms(2,3) unfolding lock_inv_def by (metis option.inject)

lemma sched_enqueue_cancelled: "sched_enqueue c True q ty s = (Inr (), s)" "enqueueGISSyncBootstrap c True cfg s = (Inr (), s)"
  by (simp_all add: sched_enqueue_def enqueueGISSyncBootstrap_def go_simps)

lemma run_action_cancelled: "snd (run_action c True cfg a s) = s" "snd (startup_jobs c True cfg s) = s"
  by (simp_all add: run_action_def startup_jobs_def sched_enqueue_cancelled go_simps split: cron_action.split)


text \<open>No overlap. In no process, lost sessions or not, are there two runs of a scheduled task at once.\<close>

theorem tasks_do_not_overlap:
  assumes "cluster_reach steady d s"
  shows "distinct (map cj_name (nd_running (cl_nodes s i)))"
  using reach_node_inv [OF assms, of i] by (simp add: node_inv_def)

text \<open>(C38) A lost session gives two leaders. A leader never looks at its database session again: when the server drops it, a waiting process
  takes the lock at its next tick, and both act as leader, neither of them told to stop.\<close>

theorem lost_session_gives_two_leaders:
  assumes "nd_phase (cl_nodes s i) = Leading" "\<not> nd_cancelled (cl_nodes s i)" "cl_locks s (lock_key (sd_cfg d)) = Some i"
    and "k \<noteq> i" "nd_phase (cl_nodes s k) = Standby" "\<not> nd_cancelled (cl_nodes s k)"
  shows "\<exists>s'. (\<lambda>a b. \<exists>lab. cluster_step False d lab a b)\<^sup>*\<^sup>* s s' \<and> nd_phase (cl_nodes s' i) = Leading \<and> nd_phase (cl_nodes s' k) = Leading \<and>
    \<not> nd_cancelled (cl_nodes s' i) \<and> \<not> nd_cancelled (cl_nodes s' k)"
proof -
  let ?R = "\<lambda>a b. \<exists>lab. cluster_step False d lab a b" and ?n = "cl_nodes s k" and ?key = "lock_key (sd_cfg d)"
  let ?s1 = "s\<lparr>cl_locks := end_session i (cl_locks s)\<rparr>"
  let ?s2 = "set_node k (?n\<lparr>nd_phase := Checking\<rparr>) ?s1"
  let ?s3 = "set_node k (?n\<lparr>nd_phase := Starting\<rparr>) (?s2\<lparr>cl_locks := (cl_locks ?s2)(?key := Some k)\<rparr>)"
  let ?s4 = "set_node k (?n\<lparr>nd_phase := Leading, nd_entries := register_cron (sd_spec_ok d) (sd_cfg d) (nd_entries ?n)\<rparr>)
      (?s3\<lparr>cl_db := snd (startup_jobs (sd_client d) (nd_cancelled ?n) (sd_cfg d) (cl_db ?s3))\<rparr>)"
  have st1: "?R s ?s1" by (intro exI [of _ None] session_lost) simp
  have st2: "?R ?s1 ?s2" using assms(5) by (intro exI [of _ "Some k"] standby_tick) simp_all
  have "cl_locks ?s2 ?key = None" using assms(3) by (simp add: end_session_def)
  then have "cluster_step False d (Some k) ?s2 (set_node k ((cl_nodes ?s2 k)\<lparr>nd_phase := Starting\<rparr>) (?s2\<lparr>cl_locks := (cl_locks ?s2)(?key := Some k)\<rparr>))"
    using assms(6) by (intro acquired) (simp_all add: TryAcquireLeader_def)
  then have st3: "?R ?s2 ?s3" by auto
  have "cluster_step False d (Some k) ?s3 (set_node k ((cl_nodes ?s3 k)\<lparr>nd_phase := Leading,
      nd_entries := register_cron (sd_spec_ok d) (sd_cfg d) (nd_entries (cl_nodes ?s3 k))\<rparr>)
      (?s3\<lparr>cl_db := snd (startup_jobs (sd_client d) (nd_cancelled (cl_nodes ?s3 k)) (sd_cfg d) (cl_db ?s3))\<rparr>))"
    by (intro lead) simp_all
  then have st4: "?R ?s3 ?s4" by auto
  have "?R\<^sup>*\<^sup>* s ?s4"
    by (rule converse_rtranclp_into_rtranclp, rule st1, rule converse_rtranclp_into_rtranclp, rule st2,
        rule converse_rtranclp_into_rtranclp, rule st3, rule r_into_rtranclp, rule st4)
  then show ?thesis using assms by (intro exI [of _ ?s4]) simp
qed

text \<open>Stepping down does not unlock. A leader leaves its loop only when it is told to stop, and then sends its unlock with a context that is
  already cancelled: the lock stays with the session until the process ends.\<close>

theorem stepping_down_keeps_the_lock:
  assumes "cluster_reach steady d s" "nd_phase (cl_nodes s i) = Stopping" "cl_locks s (lock_key (sd_cfg d)) = Some i"
  shows "cl_locks (set_node i ((cl_nodes s i)\<lparr>nd_phase := Returned\<rparr>)
      (s\<lparr>cl_locks := Leader_Release (nd_cancelled (cl_nodes s i)) (lock_key (sd_cfg d)) i (cl_locks s)\<rparr>)) (lock_key (sd_cfg d)) = Some i"
  using reach_node_inv [OF assms(1), of i] assms(2,3) by (simp add: node_inv_def Leader_Release_def)

section \<open>Bootstrap jobs and their handlers\<close>

text \<open>No statement fails and the clock stays in the range of the columns.\<close>

definition quiet :: "'z env_scheme \<Rightarrow> bool" where
  "quiet s \<longleftrightarrow> no_faults s \<and> clock_fits s"

lemma quiet_sql:
  assumes "\<And>s a s'. f s = Some (a, s') \<Longrightarrow> faults s' = faults s \<and> clock s' = clock s \<and> delays s' = delays s"
  shows "keeps quiet (sql f)"
proof (rule keepsI)
  fix s :: "'a env_scheme" assume q: "quiet s"
  let ?s = "s\<lparr>faults := tl (faults s)\<rparr>"
  have qs: "quiet ?s" using q by (simp add: quiet_def)
  show "quiet (snd (sql f s))"
  proof (cases rule: sql_cases [of s f])
    case (fault bs)
    then show ?thesis using q by (simp add: quiet_def no_faults_def)
  next
    case rejected
    then show ?thesis using qs by simp
  next
    case (ran a s')
    from assms [OF ran(1)] qs show ?thesis by (simp add: ran(2) quiet_def no_faults_def clock_fits_def)
  qed
qed

lemma quiet_now: "keeps quiet go_now"
proof (rule keepsI)
  fix s :: "'a env_scheme" assume "quiet s"
  then show "quiet (snd (go_now s))"
    by (cases "delays s") (auto simp: quiet_def go_now_def no_faults_def clock_fits_def add.assoc)
qed

lemma quiet_Enqueue [intro!]: "keeps quiet (Enqueue c q ty a t)"
  unfolding Enqueue_def Let_def insert_job_def pg_notify_def
  by (intro keeps_bind quiet_now keeps_ignore keeps_ret quiet_sql) (auto split: if_splits)

definition job_line :: "job_row \<Rightarrow> string \<times> raw_message" where
  "job_line j = (job_queue j, job_payload j)"

lemma each_enqueue_run:
  assumes "quiet s"
  shows "map job_line (jobs (snd (go_each (\<lambda>a. sched_enqueue c False q (act_type a)) acts s))) =
    map job_line (jobs s) @ map (\<lambda>a. (q, MarshalPayload (act_type a) None)) acts"
  using assms
proof (induction acts arbitrary: s)
  case (Cons a acts)
  let ?s = "snd (Enqueue c q (act_type a) None 0 s)"
  have "quiet ?s" using keepsD [OF quiet_Enqueue Cons.prems] .
  moreover have "map job_line (jobs ?s) = map job_line (jobs s) @ [(q, MarshalPayload (act_type a) None)]"
    using Cons.prems by (auto simp: quiet_def job_line_def elim: Enqueue_ok [of s c q "act_type a" None])
  ultimately show ?case using Cons.IH by (simp add: sched_enqueue_def go_simps)
qed (simp add: go_simps)

definition counts_of :: "'z gisdb_scheme \<Rightarrow> layer_counts" where
  "counts_of s = \<lparr>lct_parcels = length (gis_parcels s), lct_cities = length (gis_cities s), lct_counties = length (gis_counties s),
     lct_zips = length (gis_zips s)\<rparr>"

lemma load_counts_run:
  assumes "quiet s"
  shows "\<exists>bs. LoadLayerCounts s = (Inr (counts_of s), s\<lparr>faults := bs\<rparr>) \<and> quiet (s\<lparr>faults := bs\<rparr>)"
proof -
  have nf: "no_faults s" using assms by (simp add: quiet_def)
  have tl: "no_faults (s\<lparr>faults := tl bs\<rparr>)" if "no_faults (s\<lparr>faults := bs\<rparr>)" for bs
    using that by (cases bs) (simp_all add: no_faults_def)
  let ?b = "tl (tl (tl (tl (faults s))))"
  have f: "no_faults (s\<lparr>faults := tl (faults s)\<rparr>)" "no_faults (s\<lparr>faults := tl (tl (faults s))\<rparr>)" "no_faults (s\<lparr>faults := tl (tl (tl (faults s)))\<rparr>)"
    "no_faults (s\<lparr>faults := ?b\<rparr>)"
    using nf tl [of "faults s"] tl by auto
  have "LoadLayerCounts s = (Inr (counts_of s), s\<lparr>faults := ?b\<rparr>)"
    using nf f by (simp add: LoadLayerCounts_def CountParcels_def CountBoundaries_def go_simps sql_no_faults counts_of_def)
  moreover have "quiet (s\<lparr>faults := ?b\<rparr>)" using assms f by (simp add: quiet_def)
  ultimately show ?thesis by blast
qed

text \<open>The layer a job type fills.\<close>

definition fills :: "layer_counts \<Rightarrow> string set \<Rightarrow> bool" where
  "fills c types \<longleftrightarrow> ''gis.initial_sync'' \<in> types \<or>
     (lct_parcels c = 0 \<longrightarrow> ''gis.monthly_parcel_refresh'' \<in> types) \<and> (lct_zips c = 0 \<longrightarrow> ''gis.zip_sync'' \<in> types) \<and>
     (lct_cities c = 0 \<or> lct_counties c = 0 \<longrightarrow> ''gis.annual_boundaries_refresh'' \<in> types)"

lemma plan_fills: "fills c (act_type ` set (PlanBootstrapActions c))"
  by (simp add: fills_def PlanBootstrapActions_def)

lemma plan_empty: "PlanBootstrapActions c = [] \<longleftrightarrow> \<not> NeedsBootstrap c"
  by (auto simp: PlanBootstrapActions_def NeedsBootstrap_def AllEmpty_def)


lemma RegisterAll_map: "RegisterAll r hs ty = (case map_of (rev (registrations r)) ty of None \<Rightarrow> hs ty | Some fn \<Rightarrow> Some fn)"
proof -
  have "fold (\<lambda>(ty, fn). Register ty fn) regs hs ty = (case map_of (rev regs) ty of None \<Rightarrow> hs ty | Some fn \<Rightarrow> Some fn)" for regs
    by (induction regs rule: rev_induct) (auto simp: Register_def)
  then show ?thesis unfolding RegisterAll_def .
qed

lemma registered: "ty \<in> fst ` set (registrations r) \<Longrightarrow> \<exists>fn \<in> snd ` set (registrations r). RegisterAll r hs ty = Some fn"
proof -
  assume "ty \<in> fst ` set (registrations r)"
  then have "map_of (rev (registrations r)) ty \<noteq> None" by (simp add: map_of_eq_None_iff)
  then obtain fn where "map_of (rev (registrations r)) ty = Some fn" by blast
  moreover from this have "(ty, fn) \<in> set (registrations r)" using map_of_SomeD by fastforce
  ultimately show ?thesis by (force simp: RegisterAll_map)
qed

definition action_types :: "cron_action \<Rightarrow> string set" where
  "action_types a = (case a of EnqueueAction q ty \<Rightarrow> {ty}
     | BootstrapAction \<Rightarrow> {''gis.initial_sync'', ''gis.monthly_parcel_refresh'', ''gis.zip_sync'', ''gis.annual_boundaries_refresh''})"

lemma plan_types: "act_type ` set (PlanBootstrapActions c) \<subseteq> action_types BootstrapAction"
  by (auto simp: PlanBootstrapActions_def action_types_def split: if_splits)

lemma add_func_mem: "j \<in> set (add_func ok x es) \<Longrightarrow> j = x \<or> j \<in> set es"
  by (simp add: add_func_def split: if_splits)

lemma cron_actions:
  assumes "j \<in> set (register_cron ok cfg [])"
  shows "cj_action j \<in> {BootstrapAction, EnqueueAction (scf_gis_sync_queue cfg) ''gis.annual_boundaries_refresh'',
    EnqueueAction (scf_gis_sync_queue cfg) ''gis.monthly_parcel_refresh'', EnqueueAction (scf_gis_queue cfg) ''gis.probe_sources'',
    EnqueueAction (scf_fema_queue cfg) ''fema.flood_enrich_kickoff'', EnqueueAction ''default'' ''mls.purge_closed_listings'',
    EnqueueAction ''default'' ''mls.purge_replica_pages'', EnqueueAction (scf_kickoff_queue cfg) ''mls.replication_kickoff'',
    EnqueueAction ''default'' ''mls.proxy_cache_purge'', EnqueueAction (scf_crypto_queue cfg) ''crypto.refresh_pricing''}"
  using assms unfolding register_cron_def addJob_def
  by (elim add_func_mem [THEN disjE]) simp_all

lemma scheduled_registered: "{''gis.initial_sync'', ''gis.monthly_parcel_refresh'', ''gis.zip_sync'', ''gis.annual_boundaries_refresh'', ''gis.probe_sources'',
    ''fema.flood_enrich_kickoff'', ''mls.purge_closed_listings'', ''mls.purge_replica_pages'', ''mls.replication_kickoff'', ''mls.proxy_cache_purge'',
    ''crypto.refresh_pricing''} \<subseteq> fst ` set (registrations r)"
  by (simp add: registrations_def)

lemma cron_types: "j \<in> set (register_cron ok cfg []) \<Longrightarrow> ty \<in> action_types (cj_action j) \<Longrightarrow> ty \<in> fst ` set (registrations r) \<and> ty \<noteq> []"
proof -
  assume j: "j \<in> set (register_cron ok cfg [])" and ty: "ty \<in> action_types (cj_action j)"
  have "ty \<in> {''gis.initial_sync'', ''gis.monthly_parcel_refresh'', ''gis.zip_sync'', ''gis.annual_boundaries_refresh'', ''gis.probe_sources'',
    ''fema.flood_enrich_kickoff'', ''mls.purge_closed_listings'', ''mls.purge_replica_pages'', ''mls.replication_kickoff'', ''mls.proxy_cache_purge'',
    ''crypto.refresh_pricing''}"
    using cron_actions [OF j] ty by (elim insertE emptyE) (auto simp: action_types_def)
  then show ?thesis using scheduled_registered [of r] by (elim insertE emptyE) simp_all
qed


section \<open>Witnesses\<close>

definition demo_sched_config :: sched_config where
  "demo_sched_config = \<lparr>scf_lock_key = 0, scf_crypto_queue = ''default'', scf_kickoff_queue = ''default'', scf_fema_queue = ''default'',
     scf_gis_queue = ''default'', scf_gis_sync_queue = ''gis''\<rparr>"

definition demo_sched :: sched where
  "demo_sched = \<lparr>sd_cfg = demo_sched_config, sd_client = demo_client, sd_spec_ok = (\<lambda>_. True)\<rparr>"

definition demo_start :: cluster where
  "demo_start = \<lparr>cl_nodes = (\<lambda>_. new_node), cl_locks = (\<lambda>_. None), cl_db = demo_gis []\<rparr>"

definition demo_elected :: cluster where
  "demo_elected = set_node 0 (new_node\<lparr>nd_phase := Starting\<rparr>) (demo_start\<lparr>cl_locks := (\<lambda>_. None)(lock_key demo_sched_config := Some 0)\<rparr>)"

definition demo_leading :: cluster where
  "demo_leading = set_node 0 (new_node\<lparr>nd_phase := Leading, nd_entries := register_cron (\<lambda>_. True) demo_sched_config []\<rparr>)
     (demo_elected\<lparr>cl_db := snd (startup_jobs demo_client False demo_sched_config (demo_gis []))\<rparr>)"

lemma demo_reach_elected: "cluster_reach steady demo_sched demo_elected"
proof (rule reach_step)
  show "cluster_reach steady demo_sched demo_start" unfolding demo_start_def by (rule reach_start)
  have "cluster_step steady demo_sched (Some 0) demo_start (set_node 0 ((cl_nodes demo_start 0)\<lparr>nd_phase := Starting\<rparr>)
      (demo_start\<lparr>cl_locks := (cl_locks demo_start)(lock_key (sd_cfg demo_sched) := Some 0)\<rparr>))"
    by (rule acquired) (simp_all add: demo_start_def demo_sched_def new_node_def TryAcquireLeader_def)
  then show "cluster_step steady demo_sched (Some 0) demo_start demo_elected" by (simp add: demo_elected_def demo_start_def demo_sched_def)
qed

lemma demo_step_leading: "cluster_step steady demo_sched (Some 0) demo_elected demo_leading"
proof -
  have "cluster_step steady demo_sched (Some 0) demo_elected (set_node 0 ((cl_nodes demo_elected 0)\<lparr>nd_phase := Leading,
      nd_entries := register_cron (sd_spec_ok demo_sched) (sd_cfg demo_sched) (nd_entries (cl_nodes demo_elected 0))\<rparr>)
      (demo_elected\<lparr>cl_db := snd (startup_jobs (sd_client demo_sched) (nd_cancelled (cl_nodes demo_elected 0)) (sd_cfg demo_sched) (cl_db demo_elected))\<rparr>))"
    by (rule lead) (simp_all add: demo_elected_def)
  then show ?thesis by (simp add: demo_leading_def demo_elected_def demo_start_def demo_sched_def new_node_def)
qed

lemma demo_reach_leading: "cluster_reach steady demo_sched demo_leading"
  by (rule reach_step [OF demo_reach_elected demo_step_leading])

lemma demo_leading_node: "cl_nodes demo_leading 0 = new_node\<lparr>nd_phase := Leading, nd_entries := register_cron (\<lambda>_. True) demo_sched_config []\<rparr>"
  by (simp add: demo_leading_def)

theorem at_most_one_leader_witness:
  "cluster_reach True demo_sched demo_leading \<and> in_charge (cl_nodes demo_leading 0) \<and> \<not> in_charge (cl_nodes demo_leading 1)"
proof -
  have "in_charge (cl_nodes demo_leading 0)" by (simp add: demo_leading_node in_charge_def)
  then show ?thesis using at_most_one_leader [OF demo_reach_leading, of 0 1] demo_reach_leading by auto
qed

lemma demo_startup: "jobs (snd (startup_jobs demo_client False demo_sched_config (demo_gis []))) \<noteq> jobs (demo_gis [])"
  by code_simp


definition demo_kick :: cron_job where
  "demo_kick = \<lparr>cj_name = ''mls-kickoff'', cj_spec = ''0 * * * * *'', cj_action = EnqueueAction ''default'' ''mls.replication_kickoff''\<rparr>"

lemma demo_kick_in: "demo_kick \<in> set (register_cron (\<lambda>_. True) demo_sched_config [])"
  by (simp add: register_cron_def addJob_def add_func_def demo_kick_def demo_sched_config_def)

definition demo_firing :: cluster where
  "demo_firing = set_node 0 (overlap_start demo_kick (cl_nodes demo_leading 0)) demo_leading"

lemma demo_reach_firing: "cluster_reach steady demo_sched demo_firing"
proof (rule reach_step [OF demo_reach_leading])
  show "cluster_step steady demo_sched (Some 0) demo_leading demo_firing"
    unfolding demo_firing_def by (rule fire) (simp_all add: demo_leading_node demo_kick_in)
qed

theorem tasks_do_not_overlap_witness:
  "distinct (map cj_name (nd_running (cl_nodes demo_firing 0))) \<and> nd_running (cl_nodes demo_firing 0) = [demo_kick]"
  using tasks_do_not_overlap [OF demo_reach_firing, of 0]
  by (simp add: demo_firing_def demo_leading_node overlap_start_def new_node_def)

definition demo_two :: cluster where
  "demo_two = set_node 1 (new_node\<lparr>nd_phase := Standby\<rparr>) demo_leading"

theorem lost_session_gives_two_leaders_witness:
  "\<exists>s'. (\<lambda>a b. \<exists>lab. cluster_step False demo_sched lab a b)\<^sup>*\<^sup>* demo_two s' \<and> nd_phase (cl_nodes s' 0) = Leading \<and> nd_phase (cl_nodes s' 1) = Leading"
proof -
  have "nd_phase (cl_nodes demo_two 0) = Leading" "\<not> nd_cancelled (cl_nodes demo_two 0)" "cl_locks demo_two (lock_key (sd_cfg demo_sched)) = Some 0"
    "(1::nat) \<noteq> 0" "nd_phase (cl_nodes demo_two 1) = Standby" "\<not> nd_cancelled (cl_nodes demo_two 1)"
    by (simp_all add: demo_two_def demo_leading_node new_node_def) (simp add: demo_leading_def demo_elected_def demo_sched_def)
  from lost_session_gives_two_leaders [OF this] show ?thesis by blast
qed

definition demo_stopping :: cluster where
  "demo_stopping = set_node 0 ((cl_nodes demo_leading 0)\<lparr>nd_cancelled := True, nd_phase := Stopping\<rparr>) demo_leading"

lemma demo_reach_stopping: "cluster_reach steady demo_sched demo_stopping"
proof -
  let ?s = "set_node 0 ((cl_nodes demo_leading 0)\<lparr>nd_cancelled := True\<rparr>) demo_leading"
  have s: "cluster_reach steady demo_sched ?s" by (rule reach_step [OF demo_reach_leading signal])
  have "cluster_step steady demo_sched (Some 0) ?s (set_node 0 ((cl_nodes ?s 0)\<lparr>nd_phase := Stopping\<rparr>) ?s)"
    by (rule stop) (simp_all add: demo_leading_node)
  from reach_step [OF s this] show ?thesis by (simp add: demo_stopping_def set_node_def)
qed

theorem stepping_down_keeps_the_lock_witness:
  "cl_locks (set_node 0 ((cl_nodes demo_stopping 0)\<lparr>nd_phase := Returned\<rparr>) (demo_stopping\<lparr>cl_locks :=
     Leader_Release (nd_cancelled (cl_nodes demo_stopping 0)) (lock_key (sd_cfg demo_sched)) 0 (cl_locks demo_stopping)\<rparr>)) (lock_key (sd_cfg demo_sched)) = Some 0"
  by (rule stepping_down_keeps_the_lock [OF demo_reach_stopping])
    (simp_all add: demo_stopping_def demo_leading_def demo_elected_def demo_sched_def)


definition demo_registry :: "unit registry" where
  "demo_registry = \<lparr>rg_kickoff = handleNoop, rg_proxy_purge = handleNoop, rg_bridge_fetch = handleNoop, rg_bridge_chunk = handleNoop,
     rg_bridge_finalize = handleNoop, rg_spark_fetch = handleNoop, rg_spark_chunk = handleNoop, rg_spark_finalize = handleNoop,
     rg_purge_closed = handleNoop, rg_purge_pages = handleNoop, rg_gis_probe = handleNoop, rg_gis_monthly = handleNoop, rg_gis_annual = handleNoop,
     rg_gis_initial = handleNoop, rg_gis_zip = handleNoop, rg_gis_page = handleNoop, rg_crypto = handleNoop, rg_fema_kickoff = handleNoop,
     rg_fema_batch = handleNoop\<rparr>"

definition demo_kick_job :: reserved_job where
  "demo_kick_job = \<lparr>rj_id = 1, rj_queue = ''default'', rj_payload = \<lparr>payload_type = ''mls.replication_kickoff'', payload_args = None\<rparr>, rj_raw = RawEmpty, rj_attempts = 1\<rparr>"


end
