(* ===== verification/Spec2Isabelle.thy ===== *)
theory Spec2Isabelle
  imports Queue_Worker Replica_Selector Fema_Enrich Listing_Search Gis_Proxy Scheduler
begin

text \<open>
  Verification of the core of the IDX API (\<^verbatim>\<open>geo-idx-api\<close>): the service that mirrors MLS listings from
  two providers (Bridge and Spark) into PostgreSQL and serves them.

  \<^bold>\<open>The program.\<close> A scheduler enqueues jobs in a table of PostgreSQL. Workers reserve jobs, run the
  handler of their type and settle them. Replication is a chain of such jobs: a kickoff enqueues a
  fetch, the fetch reads one page from the provider, stages it and enqueues one persist job per chunk
  of rows as a batch, each persist job maps its rows and writes them to the mirror, and the
  completion job of the batch applies the cursor patch, drops the page and enqueues the next fetch.
  The API reads the mirror through a pool that a replica selector chooses. Clients authenticate with a domain token, which also
  limits the feeds they see, and ask the comparables engine for sales, rents and valuations around a property.

  \<^bold>\<open>Theories and sources\<close> (paths under \<^verbatim>\<open>src/internal\<close>):

  \<^item> \<open>Idx_Prelude\<close>, \<open>Idx_Json\<close>, \<open>Go_Time\<close>, \<open>Idx_Env\<close>: what the sources use of Go's \<^verbatim>\<open>strings\<close>, \<^verbatim>\<open>encoding/json\<close> and
    \<^verbatim>\<open>time\<close>; the execution monad \<open>('s, 'a) go\<close>, in which an error keeps the state reached before it; the clock and
    the database as statements and transactions.
  \<^item> \<open>Job_Queue\<close> (\<^verbatim>\<open>queue/queue.go\<close>, \<^verbatim>\<open>payload.go\<close>, \<^verbatim>\<open>laravel.go\<close>): the tables \<^verbatim>\<open>jobs\<close>, \<^verbatim>\<open>failed_jobs\<close>, \<^verbatim>\<open>job_batches\<close> and
    every operation of \<^verbatim>\<open>Client\<close> on them. Shown: well-formedness under every operation and failure, the lease
    of a reserved job over interleavings of other processes (a step relation with rule induction), order and fairness of reservation,
    atomic batches, at-most-once and eventual completion of a batch, bounded retries that lose no job,
    and the limits of the INT columns. The locale \<open>job_codec\<close> is the contract between a producer and a handler:
    decoding what was encoded gives it back after its way through the queue.
  \<^item> \<open>Queue_Worker\<close> (\<^verbatim>\<open>queue/worker.go\<close>, \<^verbatim>\<open>worker_queues.go\<close>): partition of queues into pools, weighted rotation, dispatch and
    settlement; \<open>run_once\<close> is one turn of \<^verbatim>\<open>Run\<close>. The locale \<open>fair_source\<close> is what the worker relies on of the client,
    interpreted on \<open>ReserveFair\<close>.
  \<^item> \<open>Replica_Selector\<close> (\<^verbatim>\<open>db/replica_selector.go\<close>): discovery, pools, probes, circuit breaker and choice. Shown: a pool
    handed out is open, the least latency is chosen, the breaker's thresholds, synchronisation with discovery, and
    that a failing replica is preferred until its breaker opens. Counters are 32-bit words.
  \<^item> \<open>Mls_Rows\<close> (\<^verbatim>\<open>service/mls\<close>): the mapping of an upstream row to a mirror record, the split into collections and
    custom fields and the merge back. Shown: which rows are upserted, deleted or skipped; that every number fits its
    column; the round trip of a Spark row; the alias keys that leak for Bridge.
  \<^item> \<open>Sync_Store\<close> (\<^verbatim>\<open>service/sync\<close>: \<^verbatim>\<open>cursor.go\<close>, \<^verbatim>\<open>replica_page.go\<close>, \<^verbatim>\<open>freshness.go\<close>, \<^verbatim>\<open>kickoff.go\<close>, \<^verbatim>\<open>fetch_guard.go\<close>, \<^verbatim>\<open>mirror_window.go\<close>, \<^verbatim>\<open>purge.go\<close>,
    \<^verbatim>\<open>rate_limit.go\<close>): cursors, staged pages, kickoff, purge and the request limiter. Shown: cursors never move back, staged
    rows come back by chunk, a kickoff starts at most one fetch, the limiter spaces its grants.
  \<^item> \<open>Listing_Mirror\<close> (\<^verbatim>\<open>service/sync/listing_mirror.go\<close>): the batched writer with its transactions, conflict clause and column
    limits. Shown: a refinement to an abstract update of the table, retry after any partial failure, uniqueness of keys, and exactly
    when a chunk is accepted.
  \<^item> \<open>Sync_Fetch\<close> (\<^verbatim>\<open>service/sync\<close>: \<^verbatim>\<open>bridge_sync.go\<close>, \<^verbatim>\<open>spark_sync.go\<close>): requests, retries and responses. Shown: the pace of
    requests, the maximum of the modification times, and a next link that is lost.
  \<^item> \<open>Sync_Workers\<close> (\<^verbatim>\<open>service/sync\<close>: \<^verbatim>\<open>bridge_worker.go\<close>, \<^verbatim>\<open>spark_worker.go\<close>; \<^verbatim>\<open>service/fema/enrich.go\<close>): the handlers of the three
    job types and what they hand to each other. Shown: a fetch moves no cursor, every chunk of a page becomes a job, the completion
    job carries the plan; and how a dataset stops or loses rows.
  \<^item> \<open>Comps_Property\<close> (\<^verbatim>\<open>service/comps\<close>: \<^verbatim>\<open>types.go\<close>, \<^verbatim>\<open>subject.go\<close>, \<^verbatim>\<open>property.go\<close>, \<^verbatim>\<open>geo.go\<close> and others): requests, subjects and
    comparables, how their fields are read from a row of the mirror or of the provider, distances and derived condition.
  \<^item> \<open>Comps_Rates\<close> (\<^verbatim>\<open>service/comps/bpo_market.go\<close>): medians, paired sales and the least-squares regression with its own matrix
    inversion. Shown: the inversion is correct, the coefficients solve the normal equations and minimise the squared error, the
    rates stay in their ranges, and the regression is singular below ten comparables.
  \<^item> \<open>Comps_Value\<close> (\<^verbatim>\<open>service/comps\<close>: \<^verbatim>\<open>adjustments.go\<close>, \<^verbatim>\<open>bpo.go\<close>, \<^verbatim>\<open>home_value.go\<close> and others): the adjustment grid, reconciliation, confidence
    and renovation credits. Shown: the cap on adjustments, and a value between its adjusted comparables.
  \<^item> \<open>Comps_Engine\<close> (\<^verbatim>\<open>service/comps\<close>: \<^verbatim>\<open>service.go\<close>, \<^verbatim>\<open>closed_cache.go\<close>, \<^verbatim>\<open>sold.go\<close>, \<^verbatim>\<open>rental.go\<close>, \<^verbatim>\<open>investment.go\<close> and others): the state \<open>cdb\<close> with the
    table of cached closed sales, the three sources of comparables and every mode of the endpoint. Shown: what one domain caches is
    invisible to every other (locale \<open>cache_law\<close>, interpreted on the cache operations), a comparable of the answer is a
    closed sale of the request's scope, the round trip of the cache, the mortgage formula, and the status codes of failures.
  \<^item> \<open>Access_Control\<close> (\<^verbatim>\<open>api/middleware\<close>, \<^verbatim>\<open>repository/token.go\<close>, \<^verbatim>\<open>repository/domain.go\<close>, \<^verbatim>\<open>service/mls/feed.go\<close>): the state \<open>adb\<close> with domains
    and tokens, the two middlewares, minting and revocation, and the choice of a feed. Shown: a token opens only its own verified and
    active domain, a created token is accepted until it is revoked, and a resolved feed is one the domain may use.
  \<^item> \<open>Fema_Enrich\<close> (\<^verbatim>\<open>service/fema\<close>, \<^verbatim>\<open>repository/fema/listings.go\<close>): the state \<open>femadb\<close> with the flood columns of the listings, the limiter and the circuit
    breaker of the FEMA client; kickoff, batches and their chain, a \<^theory_text>\<open>partial_function\<close> that is shown to return. Shown: the chain ends and
    covers every stale listing once, the bounds of a query, the flag that follows the FEMA code, and that an open breaker uses up a run.
  \<^item> \<open>Live_Proxy\<close> (\<^verbatim>\<open>handler/bridge\<close>, \<^verbatim>\<open>mlspoxy\<close>, \<^verbatim>\<open>service/cache\<close>, \<^verbatim>\<open>service/crypto\<close>, \<^verbatim>\<open>service/audit\<close>): the state \<open>pdb\<close> with cached responses, price
    snapshots and audit rows; every route that passes a request to the provider. Shown: the sites are kept apart in the cache (locale
    \<open>partition_law\<close>), the round trip of a response, a fingerprint that confuses parameters, and URLs that are never rewritten.
  \<^item> \<open>Listing_Search\<close> (\<^verbatim>\<open>service/search\<close>): routing, the builder of the mirror's SQL query, paging and live search. Shown: the placeholders of the built
    query are bound to arguments of their types and the query means the request; a page is a window of the matching listings; how live
    search hides errors and drops filters.
  \<^item> \<open>Gis_Extract\<close> (\<^verbatim>\<open>service/gis\<close>: \<^verbatim>\<open>parcel_sources.go\<close>, \<^verbatim>\<open>sources.go\<close>, \<^verbatim>\<open>query.go\<close>, \<^verbatim>\<open>county_co.go\<close>, \<^verbatim>\<open>field_extract.go\<close>, \<^verbatim>\<open>arcgis_client.go\<close>): the
    catalogue of parcel sources, counties and boxes, rows read from ArcGIS features, ArcGIS requests. Shown: the exchange sort gives a
    permutation sorted by priority, and county numbers lead to slugs the tables accept.
  \<^item> \<open>Gis_Sync\<close> (\<^verbatim>\<open>service/gis\<close>: \<^verbatim>\<open>sync_parcels.go\<close>, \<^verbatim>\<open>sync_boundaries.go\<close>, \<^verbatim>\<open>sync_coordinator.go\<close>; \<^verbatim>\<open>repository/gis\<close>): the state \<open>gisdb\<close> with the parcel
    and boundary tables and the generations of their sources; kickoff, page jobs, their chain (a \<^theory_text>\<open>partial_function\<close> shown to return) and
    the boundary layers. Shown: the chain mirrors the pages the server gave, a kickoff starts every source once, and how truncated
    pages, known cities and gap-fills lose data. \<open>parcel_args\<close> interprets \<open>job_codec\<close>.
  \<^item> \<open>Gis_Proxy\<close> (\<^verbatim>\<open>service/gis\<close>: \<^verbatim>\<open>proxy.go\<close>, \<^verbatim>\<open>persistent.go\<close>, \<^verbatim>\<open>teaser.go\<close>, \<^verbatim>\<open>metadata.go\<close>; \<^verbatim>\<open>handler/gis\<close>): the state \<open>gisweb\<close> with the edge cache;
    the endpoint and the probes. Shown: the teaser limits every reply, a stored reply is served again, the persistent tables are never
    served and long queries are never cached.
  \<^item> \<open>Scheduler\<close> (\<^verbatim>\<open>scheduler\<close>, \<^verbatim>\<open>job/registry.go\<close>, \<^verbatim>\<open>cmd/gis-enqueue\<close>): the cluster of scheduler processes as a step relation over the leader lock, the
    overlap tables and the database; the cron table and the registry of handlers. Shown by rule induction: one leader, only the leader
    enqueues, no overlapping runs; also that an empty layer gets its job, that every scheduled job has a handler, and what a
    lost session does.

  \<^bold>\<open>Modelling.\<close> The state of all components is one extensible record: \<open>env\<close> (clock and failures), then the queue's tables,
  then cursors, pages and listings, then the HTTP exchange, then the tables of the single services. An operation is polymorphic in what later components add. The
  list \<open>delays\<close> says how far the clock moves at each reading and the list \<open>faults\<close> which statements
  fail; theorems quantify over both. A transaction rolls back on error. Integers of the database
  keep their column ranges (\<open>int2_ok\<close>, \<open>int4_ok\<close>, \<open>int64_ok\<close>); Go's \<^verbatim>\<open>int\<close> counters of offsets and depths are unbounded
  integers, with their 64-bit range as a hypothesis where they are stored. Numbers of JSON and \<^verbatim>\<open>float64\<close> are exact reals.
  The gzip and base64 layers of a staged page stand for the document they carry.

  Outside the sources and therefore parameters: \<open>uuid_gen\<close> (the uuid package), \<open>sprint\<close> (\<^verbatim>\<open>fmt.Sprint\<close> of values that are not
  strings), \<open>pick\<close> (which of several matching rows an UPDATE takes), \<open>ping\<close> and \<open>dial\<close> (the network), \<open>http_replies\<close> (the
  provider's answers), \<open>marshal\<close> and \<open>raw_text\<close> (texts of JSON documents), \<open>dwithin\<close> (the distance predicate of PostGIS), \<open>sha256\<close>,
  \<open>hostname\<close> (URL parsing), \<open>token_gen\<close> (random bytes), \<open>fmt_g\<close> and \<open>req_text\<close> (texts of floats and of a search request) and \<open>order\<close> (the order in
  which the goroutines of a flood batch run), \<open>geom_ok\<close>, \<open>overlap\<close>, \<open>gd_meets\<close> and \<open>gd_geojson\<close> (PostGIS), \<open>gd_bound\<close> (which statements driver and server accept),
  \<open>gd_order\<close> (the order of a Go map) and \<open>spec_ok\<close> (the cron library). A valuation reads the clock once.

  \<^bold>\<open>Bounds.\<close> Loops recurse on lists, on the number of attempts left, or (the calendar, chunking) by a measure with a termination proof.
  The loop over the pages of a boundary layer (\<open>layer_loop\<close>) has fuel: it makes one request per turn and the state holds finitely many
  replies, so one turn more than there are replies is enough, and more fuel changes nothing (\<open>layer_loop_fuel\<close>). The two chains of
  jobs are partial functions with theorems that they return.

  \<^bold>\<open>Not modelled.\<close> Dashboard pages and their statistics, configuration and start-up, metrics, seeding, media streaming, password hashing, DNS
  verification and calls to third-party services are input and output only. Logging is left out everywhere. The cancellation of
  contexts is modelled for the scheduler, where it decides who leads, and nowhere else.
\<close>

end
